(* ===== verification/Prelude.thy ===== *)
theory Prelude
  imports Complex_Main "HOL-Library.Char_ord" "HOL-Library.List_Lexorder" "HOL-Library.Product_Lexorder"
begin

text \<open>
  Shared vocabulary of the development: Python values that travel through JSON columns
  (\<open>json\<close>, dictionaries as association lists), the exceptions the modelled code raises,
  the result type of fallible code, the SQL-like table operations every service uses,
  and the lemmas about them that carry the component proofs.

  Conventions.  A Python float is a \<open>real\<close> (the not-a-number and infinite values that
  JSON text can contain are constructors of \<open>json\<close>); a Python int is an \<open>int\<close>, or a \<open>nat\<close> for a
  counter that starts at 0 and only grows; a timestamp is an \<open>int\<close> number of
  microseconds.  A UUID is a \<open>nat\<close>; its canonical text inside JSON is the constructor
  \<open>JUuid\<close>.  A table is the list of its rows in insertion order, which is also the
  order of a SELECT without ORDER BY.
\<close>

named_theorems table_simps
named_theorems op_defs

type_synonym uuid = nat
type_synonym time = int

section \<open>JSON values and dictionaries\<close>

datatype json =
    JNull
  | JBool bool
  | JInt int
  | JFloat real
  | JNaN
  | JInf bool
  | JStr string
  | JUuid uuid
  | JList "json list"
  | JObj "(string \<times> json) list"

type_synonym dict = "(string \<times> json) list"

text \<open>\<open>d.get(k)\<close>: Python's None and JSON's null are the same value here.\<close>

definition dget :: "dict \<Rightarrow> string \<Rightarrow> json" where
  "dget d k = (case map_of d k of None \<Rightarrow> JNull | Some v \<Rightarrow> v)"

text \<open>\<open>d.get(k, v)\<close>.\<close>

definition dget_or :: "dict \<Rightarrow> string \<Rightarrow> json \<Rightarrow> json" where
  "dget_or d k v = (case map_of d k of None \<Rightarrow> v | Some w \<Rightarrow> w)"

text \<open>\<open>d[k] = v\<close> on an existing or new key: the key keeps its position.\<close>

fun dset :: "('k \<times> 'v) list \<Rightarrow> 'k \<Rightarrow> 'v \<Rightarrow> ('k \<times> 'v) list" where
  "dset [] k v = [(k, v)]"
| "dset ((k', v') # d) k v = (if k' = k then (k, v) # d else (k', v') # dset d k v)"

text \<open>\<open>d.update(e)\<close>.\<close>

fun dupdate :: "('k \<times> 'v) list \<Rightarrow> ('k \<times> 'v) list \<Rightarrow> ('k \<times> 'v) list" where
  "dupdate d [] = d"
| "dupdate d ((k, v) # e) = dupdate (dset d k v) e"

text \<open>Python truth value of a JSON value.\<close>

fun truthy :: "json \<Rightarrow> bool" where
  "truthy JNull = False"
| "truthy (JBool b) = b"
| "truthy (JInt i) = (i \<noteq> 0)"
| "truthy (JFloat r) = (r \<noteq> 0)"
| "truthy JNaN = True"
| "truthy (JInf n) = True"
| "truthy (JStr s) = (s \<noteq> [])"
| "truthy (JUuid u) = True"
| "truthy (JList xs) = (xs \<noteq> [])"
| "truthy (JObj d) = (d \<noteq> [])"

text \<open>\<open>x or {}\<close> / \<open>x or []\<close> for a nullable column or a dictionary entry.\<close>

fun as_dict :: "json \<Rightarrow> dict" where
  "as_dict (JObj d) = d"
| "as_dict _ = []"

fun as_list :: "json \<Rightarrow> json list" where
  "as_list (JList xs) = xs"
| "as_list _ = []"

definition opt_dict :: "dict option \<Rightarrow> dict" where
  "opt_dict x = (case x of None \<Rightarrow> [] | Some d \<Rightarrow> d)"

definition opt_list :: "'a list option \<Rightarrow> 'a list" where
  "opt_list x = (case x of None \<Rightarrow> [] | Some d \<Rightarrow> d)"

lemma map_of_dset: "map_of (dset d k v) = (map_of d)(k \<mapsto> v)"
  by (induction d k v rule: dset.induct) auto

lemma map_of_dset_same [simp]: "map_of (dset d k v) k = Some v"
  by (simp add: map_of_dset)

lemma map_of_dset_other [simp]: "k' \<noteq> k \<Longrightarrow> map_of (dset d k v) k' = map_of d k'"
  by (simp add: map_of_dset)

lemma keys_dset: "fst ` set (dset d k v) = insert k (fst ` set d)"
  by (induction d k v rule: dset.induct) auto

lemma distinct_keys_dset: "distinct (map fst d) \<Longrightarrow> distinct (map fst (dset d k v))"
proof (induction d k v rule: dset.induct)
  case (2 k' v' d k v)
  then show ?case
    using keys_dset [of d k v] by (auto simp: image_iff)
qed simp

lemma map_of_dupdate: "map_of (dupdate d e) = map_of d ++ map_of (rev e)"
proof (induction d e rule: dupdate.induct)
  case (2 d k v e)
  then show ?case
    by (auto simp: map_of_dset map_add_def fun_eq_iff split: option.splits)
qed simp

lemma dget_Nil [simp]: "dget [] k = JNull"
  by (simp add: dget_def)

lemma dget_Cons [simp]: "dget ((k', v) # d) k = (if k = k' then v else dget d k)"
  by (simp add: dget_def)

section \<open>Exceptions and results\<close>

datatype exc =
    InvalidTransitionError string string
  | DiscoveryStateError string
  | AnalysisStateError string
  | IdeationStateError string
  | ExecutionStateError string
  | ExperimentServiceError string
  | DiscoveryServiceError string
  | AnalysisServiceError string
  | IntegrityError
  | HTTPException int
  | MultipleResultsFound
  | NoResultFound
  | AssertionError
  | KeyError string
  | IndexError
  | ValueError string
  | AttributeError
  | TypeError
  | ZeroDivisionError
  | SkillTrustViolation string
  | SkillParseError string
  | SkillValidationError string
  | ExternalError string

type_synonym 'a res = "exc + 'a"

fun res_bind :: "'a res \<Rightarrow> ('a \<Rightarrow> 'b res) \<Rightarrow> 'b res" where
  "res_bind (Inl e) f = Inl e"
| "res_bind (Inr x) f = f x"

lemma res_bind_Inr_iff:
  "res_bind m f = Inr y \<longleftrightarrow> (\<exists>x. m = Inr x \<and> f x = Inr y)"
  by (cases m) auto

lemma res_bind_InrE: "res_bind m f = Inr y \<Longrightarrow> (\<And>x. m = Inr x \<Longrightarrow> f x = Inr y \<Longrightarrow> R) \<Longrightarrow> R"
  by (cases m) auto

lemma res_bind_Inl_iff:
  "res_bind m f = Inl e \<longleftrightarrow> m = Inl e \<or> (\<exists>x. m = Inr x \<and> f x = Inl e)"
  by (cases m) auto

text \<open>\<open>uuid.UUID(str(raw))\<close>: only the text of a UUID parses.\<close>

fun UUID_of :: "json \<Rightarrow> uuid res" where
  "UUID_of (JUuid u) = Inr u"
| "UUID_of _ = Inl (ValueError ''badly formed hexadecimal UUID string'')"

section \<open>Python operations on JSON values\<close>

text \<open>Numbers: \<open>bool\<close> is a subtype of \<open>int\<close>.\<close>

fun py_num :: "json \<Rightarrow> real option" where
  "py_num (JBool b) = Some (if b then 1 else 0)"
| "py_num (JInt i) = Some (of_int i)"
| "py_num (JFloat r) = Some r"
| "py_num _ = None"

text \<open>
  Equality ignores the order of dictionary keys and the kind of a number: both sides are
  compared in a normal form.
\<close>

fun py_norm :: "json \<Rightarrow> json" where
  "py_norm (JBool b) = JFloat (if b then 1 else 0)"
| "py_norm (JInt i) = JFloat (of_int i)"
| "py_norm (JList xs) = JList (map py_norm xs)"
| "py_norm (JObj d) = JObj (sort_key fst (map (\<lambda>(k, v). (k, py_norm v)) d))"
| "py_norm j = j"

definition py_eq :: "json \<Rightarrow> json \<Rightarrow> bool" where
  "py_eq a b \<longleftrightarrow> py_norm a = py_norm b"

text \<open>
  \<open>a > b\<close>: numbers with numbers, text with text, lists with lists; every other pair raises
  TypeError.
\<close>

fun list_gt :: "json list \<Rightarrow> json list \<Rightarrow> bool res" and py_gt :: "json \<Rightarrow> json \<Rightarrow> bool res" where
  "list_gt [] ys = Inr False"
| "list_gt (x # xs) [] = Inr True"
| "list_gt (x # xs) (y # ys) = (if py_eq x y then list_gt xs ys else py_gt x y)"
| "py_gt a b =
    (case (py_num a, py_num b) of
       (Some x, Some y) \<Rightarrow> Inr (x > y)
     | _ \<Rightarrow> (case a of
          JStr s \<Rightarrow> (case b of JStr t \<Rightarrow> Inr (s > t) | _ \<Rightarrow> Inl TypeError)
        | JList xs \<Rightarrow> (case b of JList ys \<Rightarrow> list_gt xs ys | _ \<Rightarrow> Inl TypeError)
        | _ \<Rightarrow> Inl TypeError))"

declare py_gt.simps [simp del]

text \<open>\<open>x.get(k, v)\<close> on a value that need not be a dictionary, and \<open>x or {}\<close>.\<close>

fun jget_or :: "json \<Rightarrow> string \<Rightarrow> json \<Rightarrow> json res" where
  "jget_or (JObj d) k v = Inr (dget_or d k v)"
| "jget_or _ k v = Inl AttributeError"

definition or_dict :: "json \<Rightarrow> json" where
  "or_dict j = (if truthy j then j else JObj [])"

definition or_list :: "json \<Rightarrow> json" where
  "or_list j = (if truthy j then j else JList [])"

text \<open>
  \<open>json.dumps(obj, sort_keys=True)\<close>: two values have the same text exactly when they
  agree after sorting the keys of every dictionary (an int and a float print differently).
\<close>

fun canon :: "json \<Rightarrow> json" where
  "canon (JList xs) = JList (map canon xs)"
| "canon (JObj d) = JObj (sort_key fst (map (\<lambda>(k, v). (k, canon v)) d))"
| "canon j = j"

text \<open>Python's \<open>str(x)\<close>; the text of a float is the parameter \<open>float_repr\<close>.\<close>

fun nat_digits :: "nat \<Rightarrow> string" where
  "nat_digits n = (if n < 10 then [''0123456789'' ! n] else nat_digits (n div 10) @ [''0123456789'' ! (n mod 10)])"

declare nat_digits.simps [simp del]

definition int_str :: "int \<Rightarrow> string" where
  "int_str i = (if i < 0 then ''-'' @ nat_digits (nat (- i)) else nat_digits (nat i))"

definition hex_digit :: "nat \<Rightarrow> char" where
  "hex_digit n = ''0123456789abcdef'' ! (n mod 16)"

definition uuid_str :: "uuid \<Rightarrow> string" where
  "uuid_str u =
    (let h = map (\<lambda>i. hex_digit (u div 16 ^ i)) (rev [0..<32])
     in take 8 h @ ''-'' @ take 4 (drop 8 h) @ ''-'' @ take 4 (drop 12 h) @ ''-'' @
        take 4 (drop 16 h) @ ''-'' @ drop 20 h)"

definition repr_char :: "char \<Rightarrow> char \<Rightarrow> string" where
  "repr_char q c =
    (let n = (of_char c :: nat) in
     if c = q \<or> n = 92 then [CHR 92, c]
     else if n = 9 then [CHR 92, CHR ''t''] else if n = 10 then [CHR 92, CHR ''n'']
     else if n = 13 then [CHR 92, CHR ''r'']
     else if n < 32 \<or> 127 \<le> n \<and> n \<le> 160 \<or> n = 173
     then [CHR 92, CHR ''x'', hex_digit (n div 16), hex_digit n]
     else [c])"

definition repr_str :: "string \<Rightarrow> string" where
  "repr_str s =
    (let q = (if CHR 39 \<in> set s \<and> CHR 34 \<notin> set s then CHR 34 else CHR 39)
     in [q] @ concat (map (repr_char q) s) @ [q])"

fun join_with :: "string \<Rightarrow> string list \<Rightarrow> string" where
  "join_with sep [] = []"
| "join_with sep [x] = x"
| "join_with sep (x # y # ys) = x @ sep @ join_with sep (y # ys)"

fun py_repr :: "(real \<Rightarrow> string) \<Rightarrow> json \<Rightarrow> string" where
  "py_repr fr JNull = ''None''"
| "py_repr fr (JBool b) = (if b then ''True'' else ''False'')"
| "py_repr fr (JInt i) = int_str i"
| "py_repr fr (JFloat r) = fr r"
| "py_repr fr JNaN = ''nan''"
| "py_repr fr (JInf neg) = (if neg then ''-inf'' else ''inf'')"
| "py_repr fr (JStr s) = repr_str s"
| "py_repr fr (JUuid u) = repr_str (uuid_str u)"
| "py_repr fr (JList xs) = ''['' @ join_with '', '' (map (py_repr fr) xs) @ '']''"
| "py_repr fr (JObj d) =
     ''{'' @ join_with '', '' (map (\<lambda>(k, v). repr_str k @ '': '' @ py_repr fr v) d) @ ''}''"

fun py_str :: "(real \<Rightarrow> string) \<Rightarrow> json \<Rightarrow> string" where
  "py_str fr (JStr s) = s"
| "py_str fr (JUuid u) = uuid_str u"
| "py_str fr j = py_repr fr j"

text \<open>
  Conversions between numbers and text, and the text of a JSON value, as the Python runtime
  makes them; the modelled code only passes the results on.
\<close>

record pylib =
  float_repr :: "real \<Rightarrow> string"
  parse_float :: "string \<Rightarrow> real option"
  parse_int :: "string \<Rightarrow> int option"
  json_text :: "json \<Rightarrow> string"
  isoformat :: "time \<Rightarrow> string"

text \<open>\<open>float(x)\<close> and \<open>int(x)\<close>.\<close>

fun py_float :: "pylib \<Rightarrow> json \<Rightarrow> real res" where
  "py_float py (JBool b) = Inr (if b then 1 else 0)"
| "py_float py (JInt i) = Inr (of_int i)"
| "py_float py (JFloat r) = Inr r"
| "py_float py (JStr s) = (case parse_float py s of None \<Rightarrow> Inl (ValueError s) | Some r \<Rightarrow> Inr r)"
| "py_float py (JUuid u) = Inl (ValueError (uuid_str u))"
| "py_float py _ = Inl TypeError"

definition trunc :: "real \<Rightarrow> int" where
  "trunc r = (if r < 0 then \<lceil>r\<rceil> else \<lfloor>r\<rfloor>)"

fun py_int :: "pylib \<Rightarrow> json \<Rightarrow> int res" where
  "py_int py (JBool b) = Inr (if b then 1 else 0)"
| "py_int py (JInt i) = Inr i"
| "py_int py (JFloat r) = Inr (trunc r)"
| "py_int py (JStr s) = (case parse_int py s of None \<Rightarrow> Inl (ValueError s) | Some r \<Rightarrow> Inr r)"
| "py_int py (JUuid u) = Inl (ValueError (uuid_str u))"
| "py_int py _ = Inl TypeError"

text \<open>\<open>round(x, n)\<close>: to the nearest multiple of \<open>10\<^sup>-\<^sup>n\<close>, ties to even.\<close>

definition py_round :: "nat \<Rightarrow> real \<Rightarrow> real" where
  "py_round n x =
    (let y = x * 10 ^ n; f = \<lfloor>y\<rfloor>; d = y - of_int f;
         r = (if d < 1 / 2 then f else if d > 1 / 2 then f + 1 else if even f then f else f + 1)
     in of_int r / 10 ^ n)"

text \<open>\<open>s.lower()\<close> and \<open>s.split()\<close>.\<close>

definition char_lower :: "char \<Rightarrow> char" where
  "char_lower c =
    (let n = (of_char c :: nat)
     in if 65 \<le> n \<and> n \<le> 90 \<or> 192 \<le> n \<and> n \<le> 222 \<and> n \<noteq> 215 then char_of (n + 32) else c)"

definition is_space :: "char \<Rightarrow> bool" where
  "is_space c = (let n = (of_char c :: nat) in 9 \<le> n \<and> n \<le> 13 \<or> 28 \<le> n \<and> n \<le> 32 \<or> n = 133 \<or> n = 160)"

fun split_ws :: "string \<Rightarrow> string \<Rightarrow> string list" where
  "split_ws w [] = (if w = [] then [] else [w])"
| "split_ws w (c # cs) =
    (if is_space c then (if w = [] then split_ws [] cs else w # split_ws [] cs) else split_ws (w @ [c]) cs)"

definition py_split :: "string \<Rightarrow> string list" where
  "py_split s = split_ws [] s"

text \<open>\<open>s.strip()\<close>, \<open>s.startswith(p)\<close>, \<open>s.removeprefix(p)\<close>, \<open>s.split(c)\<close> and \<open>s.replace(a, b)\<close> (\<open>a\<close> not empty).\<close>

definition py_strip :: "string \<Rightarrow> string" where
  "py_strip s = rev (dropWhile is_space (rev (dropWhile is_space s)))"

definition startswith :: "string \<Rightarrow> string \<Rightarrow> bool" where
  "startswith text pre \<longleftrightarrow> take (length pre) text = pre"

definition removeprefix :: "string \<Rightarrow> string \<Rightarrow> string" where
  "removeprefix text pre = (if startswith text pre then drop (length pre) text else text)"

fun split_char :: "char \<Rightarrow> string \<Rightarrow> string list" where
  "split_char c [] = [[]]"
| "split_char c (x # xs) =
    (if x = c then [] # split_char c xs else case split_char c xs of [] \<Rightarrow> [[x]] | w # ws \<Rightarrow> (x # w) # ws)"

function (sequential) py_replace :: "string \<Rightarrow> string \<Rightarrow> string \<Rightarrow> string" where
  "py_replace old new [] = []"
| "py_replace old new (c # cs) =
    (if old \<noteq> [] \<and> startswith (c # cs) old then new @ py_replace old new (drop (length old) (c # cs))
     else c # py_replace old new cs)"
  by pat_completeness auto
termination
proof (relation "measure (\<lambda>(_, _, s). length s)")
  fix old new :: string and c cs
  assume "old \<noteq> [] \<and> startswith (c # cs) old"
  then show "((old, new, drop (length old) (c # cs)), (old, new, c # cs)) \<in> measure (\<lambda>(_, _, s). length s)"
    by (cases old) auto
qed auto

text \<open>\<open>s.splitlines()\<close>: a carriage return and a line feed together are one break.\<close>

definition is_break :: "char \<Rightarrow> bool" where
  "is_break c = (let n = (of_char c :: nat) in 10 \<le> n \<and> n \<le> 13 \<or> 28 \<le> n \<and> n \<le> 30 \<or> n = 133)"

fun splitlines_from :: "string \<Rightarrow> string \<Rightarrow> string list" where
  "splitlines_from w [] = (if w = [] then [] else [w])"
| "splitlines_from w [c] = (if is_break c then [w] else [w @ [c]])"
| "splitlines_from w (c # d # cs) =
    (if c = CHR 13 \<and> d = CHR 10 then w # splitlines_from [] cs
     else if is_break c then w # splitlines_from [] (d # cs) else splitlines_from (w @ [c]) (d # cs))"

definition py_splitlines :: "string \<Rightarrow> string list" where
  "py_splitlines s = splitlines_from [] s"

text \<open>\<open>xs[-n:]\<close>.\<close>

definition last_n :: "nat \<Rightarrow> 'a list \<Rightarrow> 'a list" where
  "last_n n xs = drop (length xs - n) xs"

text \<open>\<open>list(dict.fromkeys(xs))\<close>: the first occurrence of each element, in order.\<close>

definition first_occurrences :: "'a list \<Rightarrow> 'a list" where
  "first_occurrences xs = rev (remdups (rev xs))"

text \<open>\<open>xs[i]\<close> on a JSON list: negative indices count from the end.\<close>

fun py_index :: "json \<Rightarrow> int \<Rightarrow> json res" where
  "py_index (JList xs) i =
    (if 0 \<le> i \<and> i < int (length xs) then Inr (xs ! nat i)
     else if i < 0 \<and> - i \<le> int (length xs) then Inr (xs ! nat (int (length xs) + i)) else Inl IndexError)"
| "py_index (JObj d) i = Inl (KeyError [])"
| "py_index _ i = Inl TypeError"

text \<open>\<open>for x in v\<close> on a JSON value.\<close>

fun py_iter :: "json \<Rightarrow> json list res" where
  "py_iter (JList xs) = Inr xs"
| "py_iter (JObj d) = Inr (map (\<lambda>(k, _). JStr k) d)"
| "py_iter (JStr s) = Inr (map (\<lambda>c. JStr [c]) s)"
| "py_iter (JUuid u) = Inr (map (\<lambda>c. JStr [c]) (uuid_str u))"
| "py_iter _ = Inl TypeError"

text \<open>A list comprehension whose body may raise, and a filter whose condition may raise.\<close>

fun map_res :: "('a \<Rightarrow> 'b res) \<Rightarrow> 'a list \<Rightarrow> 'b list res" where
  "map_res f [] = Inr []"
| "map_res f (x # xs) = res_bind (f x) (\<lambda>y. res_bind (map_res f xs) (\<lambda>ys. Inr (y # ys)))"

fun filter_res :: "('a \<Rightarrow> bool res) \<Rightarrow> 'a list \<Rightarrow> 'a list res" where
  "filter_res f [] = Inr []"
| "filter_res f (x # xs) = res_bind (f x) (\<lambda>b. res_bind (filter_res f xs) (\<lambda>ys. Inr (if b then x # ys else ys)))"

lemma map_res_Inr_iff: "map_res f xs = Inr ys \<longleftrightarrow> list_all2 (\<lambda>x y. f x = Inr y) xs ys"
proof (induction xs arbitrary: ys)
  case (Cons x xs)
  then show ?case by (cases ys) (auto simp: res_bind_Inr_iff)
qed auto

lemma map_res_in:
  assumes "map_res f xs = Inr ys" and "x \<in> set xs"
  obtains y where "f x = Inr y" "y \<in> set ys"
proof -
  have "\<exists>y. f x = Inr y \<and> y \<in> set ys"
    using assms by (induction xs arbitrary: ys) (auto simp: res_bind_Inr_iff)
  then show ?thesis using that by blast
qed

lemma map_res_from:
  assumes "map_res f xs = Inr ys" and "y \<in> set ys"
  obtains x where "f x = Inr y" "x \<in> set xs"
proof -
  have "\<exists>x. f x = Inr y \<and> x \<in> set xs"
    using assms
  proof (induction xs arbitrary: ys)
    case (Cons a xs)
    then obtain z zs where "f a = Inr z" "map_res f xs = Inr zs" "ys = z # zs" by (auto simp: res_bind_Inr_iff)
    with Cons show ?case by (cases "y = z") auto
  qed simp
  then show ?thesis using that by blast
qed

text \<open>\<open>m in s\<close> on text.\<close>

fun has_text :: "string \<Rightarrow> string \<Rightarrow> bool" where
  "has_text m [] = (m = [])"
| "has_text m (c # cs) = (take (length m) (c # cs) = m \<or> has_text m cs)"

text \<open>\<open>x in v\<close>: membership in a list, key of a dictionary, substring of a text.\<close>

fun key_text :: "json \<Rightarrow> string option res" where
  "key_text (JStr s) = Inr (Some s)"
| "key_text (JUuid u) = Inr (Some (uuid_str u))"
| "key_text (JList xs) = Inl TypeError"
| "key_text (JObj d) = Inl TypeError"
| "key_text _ = Inr None"

fun py_in :: "json \<Rightarrow> json \<Rightarrow> bool res" where
  "py_in x (JList xs) = Inr (\<exists>y\<in>set xs. py_eq x y)"
| "py_in x (JObj d) = res_bind (key_text x) (\<lambda>k. Inr (case k of None \<Rightarrow> False | Some t \<Rightarrow> t \<in> fst ` set d))"
| "py_in x (JStr s) = (case x of JStr t \<Rightarrow> Inr (has_text t s) | JUuid u \<Rightarrow> Inr (has_text (uuid_str u) s) | _ \<Rightarrow> Inl TypeError)"
| "py_in x _ = Inl TypeError"

section \<open>Tables\<close>

text \<open>\<open>UPDATE t SET f WHERE P\<close>.\<close>

definition update_where :: "('r \<Rightarrow> bool) \<Rightarrow> ('r \<Rightarrow> 'r) \<Rightarrow> 'r list \<Rightarrow> 'r list" where
  "update_where P f tbl = map (\<lambda>r. if P r then f r else r) tbl"

text \<open>\<open>result.scalar_one_or_none()\<close>.\<close>

fun scalar_one_or_none :: "'r list \<Rightarrow> 'r option res" where
  "scalar_one_or_none [] = Inr None"
| "scalar_one_or_none [r] = Inr (Some r)"
| "scalar_one_or_none (r # r' # rs) = Inl MultipleResultsFound"

text \<open>\<open>result.scalar_one()\<close>.\<close>

fun scalar_one :: "'r list \<Rightarrow> 'r res" where
  "scalar_one [] = Inl NoResultFound"
| "scalar_one [r] = Inr r"
| "scalar_one (r # r' # rs) = Inl MultipleResultsFound"

text \<open>\<open>... LIMIT 1\<close> followed by \<open>scalar_one_or_none()\<close> never raises.\<close>

definition first_row :: "'r list \<Rightarrow> 'r option" where
  "first_row rs = (case rs of [] \<Rightarrow> None | r # _ \<Rightarrow> Some r)"

text \<open>
  \<open>ORDER BY key DESC\<close>, ties in insertion order: the stable descending sort, written
  as an ascending stable sort on the negated key.
\<close>

definition order_desc :: "('r \<Rightarrow> int) \<Rightarrow> 'r list \<Rightarrow> 'r list" where
  "order_desc key = sort_key (\<lambda>r. - key r)"

lemma length_update_where [simp]: "length (update_where P f tbl) = length tbl"
  by (simp add: update_where_def)

lemma update_where_Nil [simp]: "update_where P f [] = []"
  by (simp add: update_where_def)

lemma update_where_Cons [simp]:
  "update_where P f (r # rs) = (if P r then f r else r) # update_where P f rs"
  by (simp add: update_where_def)

lemma update_where_append [simp]:
  "update_where P f (xs @ ys) = update_where P f xs @ update_where P f ys"
  by (simp add: update_where_def)

lemma set_update_where:
  "set (update_where P f tbl) = {if P r then f r else r | r. r \<in> set tbl}"
  by (auto simp: update_where_def)

lemma set_replace_row:
  "set (update_where (\<lambda>r. key r = key c) (\<lambda>_. c) tbl) =
     {r \<in> set tbl. key r \<noteq> key c} \<union> (if key c \<in> key ` set tbl then {c} else {})"
  by (induction tbl) auto

lemma update_where_none: "\<forall>r\<in>set tbl. \<not> P r \<Longrightarrow> update_where P f tbl = tbl"
  by (induction tbl) auto

lemma map_update_where:
  "(\<And>r. g (f r) = g r) \<Longrightarrow> map g (update_where P f tbl) = map g tbl"
  by (auto simp: update_where_def)

lemma filter_update_where_other:
  "(\<And>r. Q r \<Longrightarrow> \<not> P r) \<Longrightarrow> (\<And>r. P r \<Longrightarrow> \<not> Q (f r)) \<Longrightarrow>
   filter Q (update_where P f tbl) = filter Q tbl"
  by (induction tbl) auto

lemma scalar_one_or_none_Some_iff:
  "scalar_one_or_none rs = Inr (Some r) \<longleftrightarrow> rs = [r]"
  by (cases rs rule: scalar_one_or_none.cases) auto

lemma scalar_one_or_none_None_iff [simp]:
  "scalar_one_or_none rs = Inr None \<longleftrightarrow> rs = []"
  by (cases rs rule: scalar_one_or_none.cases) auto

lemma scalar_one_or_none_Inl_iff:
  "scalar_one_or_none rs = Inl e \<longleftrightarrow> 2 \<le> length rs \<and> e = MultipleResultsFound"
  by (cases rs rule: scalar_one_or_none.cases) auto

lemma first_row_Some_in: "first_row rs = Some r \<Longrightarrow> r \<in> set rs"
  by (auto simp: first_row_def split: list.splits)

lemma first_row_None_iff: "first_row rs = None \<longleftrightarrow> rs = []"
  by (auto simp: first_row_def split: list.splits)

lemma set_order_desc [simp]: "set (order_desc key rs) = set rs"
  by (simp add: order_desc_def)

lemma first_row_order_desc_max:
  assumes "first_row (order_desc key rs) = Some r"
  shows "r \<in> set rs \<and> (\<forall>r'\<in>set rs. key r' \<le> key r)"
proof -
  have s: "sorted (map (\<lambda>r. - key r) (order_desc key rs))"
    by (simp add: order_desc_def)
  from assms obtain t where t: "order_desc key rs = r # t"
    by (auto simp: first_row_def split: list.splits)
  have "set rs = insert r (set t)"
    using set_order_desc [of key rs] t by simp
  with s t show ?thesis by auto
qed

text \<open>The first row of a two-key \<open>ORDER BY\<close> is lexicographically least.\<close>

lemma hd_two_keys:
  fixes f :: "'a \<Rightarrow> 'k::linorder" and g :: "'a \<Rightarrow> 'l::linorder"
  assumes h: "sort_key f (sort_key g xs) = h # t" and q: "q \<in> set xs"
  shows "f h < f q \<or> f h = f q \<and> g h \<le> g q"
proof -
  have "sorted (map f (h # t))" using h by (metis sorted_sort_key)
  moreover have "q \<in> set (h # t)" using h q by (metis set_sort)
  ultimately have le: "f h \<le> f q" by auto
  have "filter (\<lambda>x. f x = f h) (h # t) = filter (\<lambda>x. f x = f h) (sort_key g xs)"
    using sort_key_stable [of f "f h" "sort_key g xs"] h by simp
  then have eq: "filter (\<lambda>x. f x = f h) (sort_key g xs) = h # filter (\<lambda>x. f x = f h) t" by simp
  have "sorted (map g (filter (\<lambda>x. f x = f h) (sort_key g xs)))"
    by (simp add: sorted_filter)
  then have srt: "sorted (map g (h # filter (\<lambda>x. f x = f h) t))" unfolding eq .
  show ?thesis
  proof (cases "f q = f h")
    case True
    then have "q \<in> set (filter (\<lambda>x. f x = f h) (sort_key g xs))" using q by simp
    then show ?thesis using srt True unfolding eq by auto
  qed (use le in auto)
qed

text \<open>Rewriting selected rows one by one is one pass over the table.\<close>

lemma fold_replace_rows:
  assumes "distinct (map key (ts @ ys))" and "\<And>r. key (row r) = key r"
  shows "fold (\<lambda>j t. update_where (\<lambda>r. key r = key j) (\<lambda>_. row j) t) (filter P ys) (ts @ ys) =
    ts @ map (\<lambda>j. if P j then row j else j) ys"
  using assms(1)
proof (induction ys arbitrary: ts)
  case (Cons y ys)
  show ?case
  proof (cases "P y")
    case True
    have none: "update_where (\<lambda>r. key r = key y) (\<lambda>_. row y) zs = zs" if "key y \<notin> key ` set zs" for zs
      using that by (intro update_where_none) (metis imageI)
    have upd: "update_where (\<lambda>r. key r = key y) (\<lambda>_. row y) (ts @ y # ys) = (ts @ [row y]) @ ys"
      using Cons.prems by (simp add: none)
    have "distinct (map key ((ts @ [row y]) @ ys))" using Cons.prems assms(2) by simp
    from Cons.IH [OF this] True upd show ?thesis by simp
  next
    case False
    have "distinct (map key ((ts @ [y]) @ ys))" using Cons.prems by simp
    from Cons.IH [OF this] False show ?thesis by simp
  qed
qed simp

section \<open>Tables keyed by a column\<close>

text \<open>
  \<open>session.get(Model, key)\<close> finds the row with a primary key.  The locale states what
  the clients of a table use: the row a key selects, and how an update by key or an insert changes
  it.  Every table of the store interprets it on its own key column.
\<close>

definition table_get :: "('r \<Rightarrow> 'k) \<Rightarrow> 'r list \<Rightarrow> 'k \<Rightarrow> 'r option" where
  "table_get key tbl k = find (\<lambda>r. key r = k) tbl"

lemma table_get_Nil [simp]: "table_get key [] k = None"
  by (simp add: table_get_def)

lemma table_get_Cons [simp]:
  "table_get key (r # rs) k = (if key r = k then Some r else table_get key rs k)"
  by (simp add: table_get_def)

lemma table_get_Some_in: "table_get key tbl k = Some r \<Longrightarrow> r \<in> set tbl \<and> key r = k"
  by (induction tbl) (auto split: if_splits)

lemma table_get_None_iff: "table_get key tbl k = None \<longleftrightarrow> k \<notin> key ` set tbl"
  by (induction tbl) auto

lemma table_get_append:
  "table_get key (xs @ ys) k = (case table_get key xs k of None \<Rightarrow> table_get key ys k | Some r \<Rightarrow> Some r)"
  by (induction xs) auto

lemma table_get_unique:
  "distinct (map key tbl) \<Longrightarrow> r \<in> set tbl \<Longrightarrow> table_get key tbl (key r) = Some r"
  by (induction tbl) (auto simp: image_iff)

lemma table_get_update_where:
  "(\<And>r. key (f r) = key r) \<Longrightarrow>
   table_get key (update_where P f tbl) k =
     map_option (\<lambda>r. if P r then f r else r) (table_get key tbl k)"
  by (induction tbl) auto

lemma table_get_put:
  assumes "key r = k"
  shows "table_get key (update_where (\<lambda>x. key x = k) (\<lambda>_. r) tbl) k' =
    (if k' = k \<and> k \<in> key ` set tbl then Some r else table_get key tbl k')"
  using assms by (induction tbl) auto

lemma filter_key_singleton:
  "distinct (map key tbl) \<Longrightarrow> table_get key tbl k = Some r \<Longrightarrow> filter (\<lambda>r. key r = k) tbl = [r]"
  by (induction tbl) (auto simp: filter_empty_conv image_iff split: if_splits)

locale keyed_table =
  fixes key :: "'r \<Rightarrow> 'k"
    and get :: "'r list \<Rightarrow> 'k \<Rightarrow> 'r option"
    and ins :: "'r list \<Rightarrow> 'r \<Rightarrow> 'r list"
    and upd :: "'r list \<Rightarrow> 'k \<Rightarrow> ('r \<Rightarrow> 'r) \<Rightarrow> 'r list"
  assumes get_key: "get t k = Some r \<Longrightarrow> r \<in> set t \<and> key r = k"
    and get_ins: "k \<notin> key ` set t \<Longrightarrow> key r = k \<Longrightarrow>
      get (ins t r) k' = (if k' = k then Some r else get t k')"
    and get_upd: "(\<And>r. key (f r) = key r) \<Longrightarrow>
      get (upd t k f) k' = (if k' = k then map_option f (get t k) else get t k')"
    and keys_ins: "map key (ins t r) = map key t @ [key r]"
    and keys_upd: "(\<And>r. key (f r) = key r) \<Longrightarrow> map key (upd t k f) = map key t"
begin

lemma get_upd_same:
  "(\<And>r. key (f r) = key r) \<Longrightarrow> get t k = Some r \<Longrightarrow> get (upd t k f) k = Some (f r)"
  by (simp add: get_upd)

lemma get_upd_other:
  "(\<And>r. key (f r) = key r) \<Longrightarrow> k' \<noteq> k \<Longrightarrow> get (upd t k f) k' = get t k'"
  by (simp add: get_upd)

lemma distinct_upd:
  "(\<And>r. key (f r) = key r) \<Longrightarrow> distinct (map key (upd t k f)) = distinct (map key t)"
  by (simp add: keys_upd)

lemma distinct_ins:
  "distinct (map key t) \<Longrightarrow> key r \<notin> key ` set t \<Longrightarrow> distinct (map key (ins t r))"
  by (auto simp: keys_ins)

end

lemma keyed_table_list:
  "keyed_table key (table_get key) (\<lambda>t r. t @ [r]) (\<lambda>t k f. update_where (\<lambda>r. key r = k) f t)"
proof unfold_locales
  fix t k r assume "table_get key t k = Some r"
  then show "r \<in> set t \<and> key r = k" by (rule table_get_Some_in)
next
  fix t :: "'a list" and k k' r assume "k \<notin> key ` set t" and "key r = k"
  then show "table_get key (t @ [r]) k' = (if k' = k then Some r else table_get key t k')"
    by (induction t) auto
next
  fix f :: "'a \<Rightarrow> 'a" and t k k' assume f: "\<And>r. key (f r) = key r"
  show "table_get key (update_where (\<lambda>r. key r = k) f t) k' =
      (if k' = k then map_option f (table_get key t k) else table_get key t k')"
    by (induction t) (auto simp: f)
next
  fix f :: "'a \<Rightarrow> 'a" and t k assume f: "\<And>r. key (f r) = key r"
  show "map key (update_where (\<lambda>r. key r = k) f t) = map key t"
    by (rule map_update_where) (rule f)
qed simp

section \<open>Small list facts\<close>

definition round_even :: "real \<Rightarrow> int" where
  "round_even y =
    (let f = \<lfloor>y\<rfloor>; d = y - of_int f
     in if d < 1 / 2 then f else if d > 1 / 2 then f + 1 else if even f then f else f + 1)"

lemma py_round_round_even: "py_round n x = of_int (round_even (x * 10 ^ n)) / 10 ^ n"
  by (simp add: py_round_def round_even_def Let_def)

lemma round_even_cases:
  "round_even y = \<lfloor>y\<rfloor> \<and> y - of_int \<lfloor>y\<rfloor> \<le> 1 / 2 \<or> round_even y = \<lfloor>y\<rfloor> + 1 \<and> y - of_int \<lfloor>y\<rfloor> \<ge> 1 / 2"
  by (auto simp: round_even_def Let_def)

lemma round_even_error: "\<bar>of_int (round_even y) - y\<bar> \<le> 1 / 2"
proof -
  have f: "of_int \<lfloor>y\<rfloor> \<le> y" "y < of_int \<lfloor>y\<rfloor> + 1" by linarith+
  from round_even_cases [of y] show ?thesis
  proof
    assume "round_even y = \<lfloor>y\<rfloor> \<and> y - of_int \<lfloor>y\<rfloor> \<le> 1 / 2"
    then show ?thesis using f by (simp only: abs_le_iff) linarith
  next
    assume "round_even y = \<lfloor>y\<rfloor> + 1 \<and> y - of_int \<lfloor>y\<rfloor> \<ge> 1 / 2"
    then show ?thesis using f by (simp only: abs_le_iff of_int_add of_int_1) linarith
  qed
qed

lemma py_round_error: "\<bar>py_round n x - x\<bar> \<le> 1 / (2 * 10 ^ n)"
proof -
  let ?y = "x * 10 ^ n"
  have "py_round n x - x = (of_int (round_even ?y) - ?y) / 10 ^ n"
    by (simp add: py_round_round_even diff_divide_distrib)
  then have "\<bar>py_round n x - x\<bar> = \<bar>of_int (round_even ?y) - ?y\<bar> / 10 ^ n"
    by (simp add: abs_divide)
  also have "\<dots> \<le> (1 / 2) / 10 ^ n" by (rule divide_right_mono [OF round_even_error]) simp
  finally show ?thesis by simp
qed

lemma round_even_mono:
  assumes "y \<le> z"
  shows "round_even y \<le> round_even z"
proof (rule ccontr)
  assume "\<not> ?thesis"
  then have "real_of_int (round_even z) \<le> of_int (round_even y) - 1" by linarith
  then have "y = z"
    using round_even_error [of y] round_even_error [of z] assms by (simp only: abs_le_iff) linarith
  with \<open>\<not> ?thesis\<close> show False by simp
qed

lemma py_round_mono: "x \<le> y \<Longrightarrow> py_round n x \<le> py_round n y"
  by (simp add: py_round_round_even round_even_mono divide_right_mono)

lemma round_even_of_int [simp]: "round_even (of_int i) = i"
  by (simp add: round_even_def)

lemma py_round_mono_floor: "0 \<le> x \<Longrightarrow> 0 \<le> py_round n x"
  by (auto simp: py_round_def Let_def)

lemma find_Some_in: "find P xs = Some x \<Longrightarrow> x \<in> set xs \<and> P x"
  by (auto simp: find_Some_iff)

lemma length_filter_le_sum:
  "length (filter P xs) + length (filter (\<lambda>x. \<not> P x) xs) = length xs"
  by (induction xs) auto

lemma length_filter_mono: "(\<And>x. P x \<Longrightarrow> Q x) \<Longrightarrow> length (filter P xs) \<le> length (filter Q xs)"
  by (induction xs) (auto intro: le_SucI)

lemma card_filter_eq_length:
  "distinct xs \<Longrightarrow> card {x \<in> set xs. P x} = length (filter P xs)"
  by (metis distinct_card distinct_filter set_filter)

end
