(* ===== verification/Storage.thy ===== *)
theory Storage
  imports Prelude
begin

text \<open>
  The data model: the enumerations of \<open>libs/core/types.py\<close>, one record per table the
  modelled code reads or writes (columns as the Alembic migrations under
  \<open>libs/storage/migrations/versions\<close> create them, less columns no modelled code
  touches), the store \<open>db\<close> that holds all of them, the operator contract of
  \<open>libs/core/operators.py\<close> and the event emitter of \<open>libs/core/events.py\<close>.

  A JSONB column is a \<open>json\<close> (\<open>JNull\<close> for SQL NULL) or a dictionary where the code
  fixes its shape.  Free text written for human readers (summaries, reasoning, titles
  of events) is left out of the rows.
\<close>

section \<open>Enumerations\<close>

datatype cycle_status =
    Cy_created | Cy_discovery_ready | Cy_discovery_screened | Cy_analysis_ready
  | Cy_evidence_ready | Cy_portfolio_ready | Cy_protocol_ready | Cy_running
  | Cy_verifying | Cy_loop_deciding | Cy_reporting | Cy_closed

fun cycle_status_value :: "cycle_status \<Rightarrow> string" where
  "cycle_status_value Cy_created = ''created''"
| "cycle_status_value Cy_discovery_ready = ''discovery_ready''"
| "cycle_status_value Cy_discovery_screened = ''discovery_screened''"
| "cycle_status_value Cy_analysis_ready = ''analysis_ready''"
| "cycle_status_value Cy_evidence_ready = ''evidence_ready''"
| "cycle_status_value Cy_portfolio_ready = ''portfolio_ready''"
| "cycle_status_value Cy_protocol_ready = ''protocol_ready''"
| "cycle_status_value Cy_running = ''running''"
| "cycle_status_value Cy_verifying = ''verifying''"
| "cycle_status_value Cy_loop_deciding = ''loop_deciding''"
| "cycle_status_value Cy_reporting = ''reporting''"
| "cycle_status_value Cy_closed = ''closed''"

definition all_cycle_status :: "cycle_status list" where
  "all_cycle_status =
    [Cy_created, Cy_discovery_ready, Cy_discovery_screened, Cy_analysis_ready,
     Cy_evidence_ready, Cy_portfolio_ready, Cy_protocol_ready, Cy_running,
     Cy_verifying, Cy_loop_deciding, Cy_reporting, Cy_closed]"

text \<open>\<open>CycleStatus(raw)\<close>: the member with that value, else ValueError.\<close>

definition CycleStatus_of :: "json \<Rightarrow> cycle_status res" where
  "CycleStatus_of raw = (case raw of
     JStr s \<Rightarrow> (case find (\<lambda>c. cycle_status_value c = s) all_cycle_status of
        None \<Rightarrow> Inl (ValueError ''not a valid CycleStatus'') | Some c \<Rightarrow> Inr c)
   | _ \<Rightarrow> Inl (ValueError ''not a valid CycleStatus''))"

datatype charter_status = Ch_active | Ch_paused | Ch_completed | Ch_archived

datatype job_status =
  Js_pending | Js_claimed | Js_paused | Js_running | Js_completed | Js_failed | Js_cancelled

datatype actor_type = Actor_system | Actor_user | Actor_orchestrator | Actor_worker

datatype trust_tier = First_party_trusted | User_local_trusted | Third_party_untrusted

section \<open>Rows\<close>

record charter =
  ch_id :: uuid
  ch_title :: string
  ch_description :: string
  ch_problem_statement :: string
  ch_source_scope :: json
  ch_status :: charter_status
  ch_created_at :: time
  ch_updated_at :: time

record cycle =
  cy_id :: uuid
  cy_charter_id :: uuid
  cy_status :: cycle_status
  cy_config :: "dict option"
  cy_created_at :: time
  cy_updated_at :: time
  cy_started_at :: "time option"
  cy_completed_at :: "time option"

record domain_event =
  ev_id :: uuid
  ev_charter_id :: "uuid option"
  ev_cycle_id :: "uuid option"
  ev_type :: string
  ev_payload :: "dict option"
  ev_actor_type :: actor_type
  ev_actor_id :: "string option"
  ev_created_at :: time

record job =
  j_id :: uuid
  j_cycle_id :: "uuid option"
  j_type :: string
  j_status :: job_status
  j_payload :: "dict option"
  j_result :: "dict option"
  j_error :: "string option"
  j_claimed_by :: "string option"
  j_claimed_at :: "time option"
  j_heartbeat_at :: "time option"
  j_priority :: int
  j_created_at :: time
  j_completed_at :: "time option"
  j_reclaim_count :: nat

text \<open>The JSON object the pipelines append to \<open>step_log\<close>; an absent \<open>detail\<close> is the empty dictionary.\<close>

record step_entry =
  se_step :: string
  se_status :: string
  se_at :: time
  se_detail :: dict

record discovery_session =
  dis_id :: uuid
  dis_cycle_id :: uuid
  dis_charter_id :: uuid
  dis_profile_id :: uuid
  dis_status :: string
  dis_report_path :: "string option"
  dis_error :: "string option"
  dis_step_log :: "step_entry list option"
  dis_stats :: "dict option"
  dis_created_at :: time
  dis_started_at :: "time option"
  dis_completed_at :: "time option"

record analysis_session =
  an_id :: uuid
  an_cycle_id :: uuid
  an_charter_id :: uuid
  an_paper_card_id :: uuid
  an_status :: string
  an_error :: "string option"
  an_step_log :: "step_entry list option"
  an_stats :: "dict option"
  an_budget :: "dict option"
  an_report_path :: "string option"
  an_created_at :: time
  an_started_at :: "time option"
  an_completed_at :: "time option"

record hypothesis_session =
  hs_id :: uuid
  hs_cycle_id :: uuid
  hs_charter_id :: uuid
  hs_status :: string
  hs_budget :: json
  hs_error :: "string option"
  hs_step_log :: "step_entry list option"
  hs_stats :: "dict option"
  hs_started_at :: "time option"
  hs_created_at :: time
  hs_updated_at :: time
  hs_completed_at :: "time option"

record hypothesis_card =
  hc_id :: uuid
  hc_session_id :: uuid
  hc_charter_id :: uuid
  hc_cycle_id :: uuid
  hc_title :: string
  hc_statement :: string
  hc_evidence_ids :: "string list"
  hc_critique :: json
  hc_novelty_score :: "real option"
  hc_feasibility_score :: "real option"
  hc_impact_score :: "real option"
  hc_rank :: "int option"
  hc_status :: string
  hc_rejection_reason :: "string option"
  hc_created_at :: time
  hc_updated_at :: time

record experiment_spec =
  sp_id :: uuid
  sp_card_id :: uuid
  sp_charter_id :: uuid
  sp_cycle_id :: uuid
  sp_title :: string
  sp_description :: string
  sp_baseline :: json
  sp_controls :: json
  sp_metrics :: json
  sp_expected_artifacts :: json
  sp_stop_conditions :: json
  sp_code_plan :: json
  sp_hardware_profile :: json
  sp_base_image :: "string option"
  sp_build_recipe :: json
  sp_status :: string
  sp_created_at :: time
  sp_updated_at :: time
  sp_primary_metric_index :: "int option"

record run_record =
  rn_id :: uuid
  rn_spec_id :: uuid
  rn_parent_run_id :: "uuid option"
  rn_charter_id :: uuid
  rn_cycle_id :: uuid
  rn_run_number :: int
  rn_status :: string
  rn_workspace_path :: "string option"
  rn_container_id :: "string option"
  rn_image_ref :: "string option"
  rn_command :: "string option"
  rn_env_vars :: json
  rn_resource_limits :: json
  rn_resource_usage :: json
  rn_exit_code :: "int option"
  rn_stdout_path :: "string option"
  rn_stderr_path :: "string option"
  rn_metrics_output :: json
  rn_artifact_manifest :: json
  rn_failure_class :: "string option"
  rn_error :: "string option"
  rn_started_at :: "time option"
  rn_completed_at :: "time option"
  rn_created_at :: time
  rn_updated_at :: time

record verification_report =
  vr_id :: uuid
  vr_run_id :: uuid
  vr_charter_id :: uuid
  vr_cycle_id :: uuid
  vr_verdict :: string
  vr_baseline_comparison :: json
  vr_artifact_checks :: json
  vr_output_contract :: json
  vr_metric_sanity :: json
  vr_warnings :: json
  vr_signal_id :: "uuid option"
  vr_recommendation_id :: "uuid option"
  vr_created_at :: time

record failure_postmortem =
  pm_id :: uuid
  pm_run_id :: uuid
  pm_report_id :: "uuid option"
  pm_charter_id :: uuid
  pm_cycle_id :: uuid
  pm_failure_class :: string
  pm_root_cause :: string
  pm_contributing_factors :: json
  pm_error_trace :: "string option"
  pm_next_step_recommendation :: "string option"
  pm_lessons :: json
  pm_created_at :: time

record remediation_action =
  ra_id :: uuid
  ra_run_id :: uuid
  ra_retry_run_id :: "uuid option"
  ra_charter_id :: uuid
  ra_cycle_id :: uuid
  ra_spec_id :: uuid
  ra_failure_class :: string
  ra_strategy :: string
  ra_strategy_tier :: string
  ra_action_detail :: json
  ra_outcome :: string
  ra_attempt_number :: nat
  ra_max_attempts :: nat
  ra_created_at :: time

record directional_signal =
  ds_id :: uuid
  ds_run_id :: uuid
  ds_charter_id :: uuid
  ds_cycle_id :: uuid
  ds_spec_id :: uuid
  ds_signal :: string
  ds_metric_name :: string
  ds_metric_value :: real
  ds_metric_delta :: "real option"
  ds_metric_direction :: string
  ds_constraint_metrics :: json
  ds_history_window :: json
  ds_created_at :: time

record metric_frontier =
  mf_id :: uuid
  mf_charter_id :: uuid
  mf_card_id :: uuid
  mf_metric_name :: string
  mf_metric_direction :: string
  mf_best_run_id :: uuid
  mf_best_spec_id :: uuid
  mf_best_value :: real
  mf_best_achieved_at :: time
  mf_total_runs :: nat
  mf_successful_runs :: nat
  mf_runs_since_improvement :: nat
  mf_updated_at :: time
  mf_created_at :: time

record run_recommendation =
  rr_id :: uuid
  rr_run_id :: uuid
  rr_charter_id :: uuid
  rr_cycle_id :: uuid
  rr_spec_id :: uuid
  rr_type :: string
  rr_action :: string
  rr_reasoning :: string
  rr_inputs_summary :: json
  rr_created_at :: time

record autonomy_budget =
  ab_id :: uuid
  ab_cycle_id :: uuid
  ab_total_runs :: nat
  ab_wall_clock_elapsed_s :: real
  ab_runs_per_hypothesis :: "(uuid \<times> nat) list"
  ab_started_at :: time
  ab_last_run_completed_at :: "time option"
  ab_created_at :: time
  ab_updated_at :: time

text \<open>The JSON object every writer of \<open>loop_decisions.budget_snapshot\<close> stores.\<close>

record budget_snapshot =
  bs_total_runs :: nat
  bs_wall_clock_elapsed_s :: real
  bs_runs_per_hypothesis :: "(uuid \<times> nat) list"

record loop_decision =
  ld_id :: uuid
  ld_cycle_id :: uuid
  ld_charter_id :: uuid
  ld_run_id :: uuid
  ld_recommendation_id :: uuid
  ld_iteration_number :: nat
  ld_decision :: string
  ld_gate_triggered :: "string option"
  ld_budget_snapshot :: budget_snapshot
  ld_card_id :: "uuid option"
  ld_next_card_id :: "uuid option"
  ld_next_action :: "string option"
  ld_context_summary_path :: "string option"
  ld_created_at :: time

record canonical_pattern =
  cp_id :: uuid
  cp_pattern_type :: string
  cp_content_key :: string
  cp_structured_body :: dict
  cp_embedding :: "real list option"
  cp_evidence_count :: int
  cp_confidence :: real
  cp_trust_tier :: string
  cp_first_observed_at :: time
  cp_last_observed_at :: time
  cp_last_reinforced_at :: time
  cp_staleness_score :: real
  cp_source_charter_ids :: "uuid list"
  cp_consolidation_version :: int

record pattern_observation =
  po_id :: uuid
  po_pattern_id :: uuid
  po_charter_id :: uuid
  po_cycle_id :: uuid
  po_artifact_type :: string
  po_artifact_id :: uuid
  po_contribution :: "dict option"
  po_observed_at :: time

record pattern_approval =
  pa_id :: uuid
  pa_pattern_id :: uuid
  pa_charter_id :: "uuid option"
  pa_decision :: string
  pa_expires_at :: "time option"
  pa_created_at :: time

record periodic_job_state =
  pj_job_kind :: string
  pj_last_enqueued_at :: "time option"
  pj_last_completed_at :: "time option"
  pj_last_job_id :: "uuid option"

record run_telemetry =
  rt_id :: uuid
  rt_run_id :: uuid
  rt_timestamp :: time
  rt_event_type :: string
  rt_payload :: json

record skill_definition =
  sk_id :: uuid
  sk_skill_id :: string
  sk_version :: string
  sk_phase :: "string option"
  sk_trust_tier :: string
  sk_manifest :: json
  sk_body :: "string option"
  sk_content_hash :: "string option"
  sk_enabled :: bool
  sk_source_path :: "string option"
  sk_discovered_at :: time

record skill_binding =
  sb_id :: uuid
  sb_skill_def_id :: uuid
  sb_cycle_id :: "uuid option"
  sb_operator_type :: "string option"
  sb_bound_at :: time
  sb_config :: json

record model_call_record =
  mc_id :: uuid
  mc_cycle_id :: "uuid option"
  mc_job_id :: "uuid option"
  mc_provider :: string
  mc_model_id :: string
  mc_role :: "string option"
  mc_input_tokens :: "int option"
  mc_output_tokens :: "int option"
  mc_created_at :: time

section \<open>The library: papers, documents, graphs and evidence\<close>

text \<open>
  The tables of the document pipelines.  The normalized parts of a document are the dictionaries the ingestion
  schemas dump; scores, vectors and confidences are reals.
\<close>

record problem_profile =
  pp_id :: uuid
  pp_cycle_id :: uuid
  pp_query_text :: string
  pp_notes :: string
  pp_source_scope :: "dict option"
  pp_view_preference :: string
  pp_rerank_policy :: "dict option"
  pp_budget :: "dict option"
  pp_created_at :: time

record paper_card =
  pc_id :: uuid
  pc_session_id :: uuid
  pc_charter_id :: uuid
  pc_source :: string
  pc_external_id :: string
  pc_dedupe_key :: string
  pc_title :: string
  pc_abstract :: string
  pc_authors :: "string list"
  pc_categories :: "string list"
  pc_venue :: "string option"
  pc_year :: "int option"
  pc_doi :: "string option"
  pc_source_url :: "string option"
  pc_pdf_url :: "string option"
  pc_embedding :: "real list option"
  pc_bm25_score :: "real option"
  pc_dense_score :: "real option"
  pc_first_stage_score :: "real option"
  pc_rerank_score :: "real option"
  pc_final_score :: "real option"
  pc_view_membership :: "string list option"
  pc_triage_status :: string
  pc_triage_reason :: "string option"
  pc_metadata_analysis :: json
  pc_analysis_status :: string
  pc_created_at :: time
  pc_updated_at :: time

record discovery_evaluation =
  de_id :: uuid
  de_session_id :: uuid
  de_metric :: string
  de_k :: "int option"
  de_value :: real
  de_source :: string
  de_created_at :: time

record ingested_document =
  dc_id :: uuid
  dc_session_id :: uuid
  dc_paper_id :: uuid
  dc_fetch_method :: string
  dc_source_url :: string
  dc_raw_content :: string
  dc_sections :: "dict list"
  dc_figures :: "dict list"
  dc_tables :: "dict list"
  dc_equations :: "dict list"
  dc_quality :: dict
  dc_content_hash :: string
  dc_created_at :: time

record paper_chunk =
  ck_id :: uuid
  ck_session_id :: uuid
  ck_paper_id :: uuid
  ck_type :: string
  ck_section_path :: "string option"
  ck_ordinal :: nat
  ck_content :: string
  ck_content_hash :: string
  ck_embedding :: "real list option"
  ck_metadata :: dict
  ck_created_at :: time

record graph_node =
  gn_id :: uuid
  gn_session_id :: uuid
  gn_paper_id :: uuid
  gn_type :: string
  gn_label :: string
  gn_description :: "string option"
  gn_properties :: dict
  gn_chunk_ids :: "uuid list"
  gn_age_id :: "string option"
  gn_created_at :: time

record graph_edge =
  ge_id :: uuid
  ge_session_id :: uuid
  ge_source_id :: uuid
  ge_target_id :: uuid
  ge_type :: string
  ge_properties :: dict
  ge_confidence :: real
  ge_age_id :: "string option"
  ge_created_at :: time

text \<open>The JSON object of one coverage column: how many elements, how many linked, and the others.\<close>

record coverage_part =
  pt_total :: nat
  pt_covered :: nat
  pt_missing :: "string list"

record coverage_diagnostic =
  cv_id :: uuid
  cv_session_id :: uuid
  cv_sections :: coverage_part
  cv_figures :: coverage_part
  cv_tables :: coverage_part
  cv_equations :: coverage_part
  cv_unlinked :: "uuid list"
  cv_warnings :: "string list"
  cv_overall_score :: real
  cv_created_at :: time

record analysis_packet =
  ap_id :: uuid
  ap_session_id :: uuid
  ap_paper_id :: uuid
  ap_charter_id :: uuid
  ap_summary :: string
  ap_contributions :: "string list"
  ap_methods :: "(string \<times> string option) list"
  ap_datasets :: "(string \<times> string option) list"
  ap_node_counts :: "(string \<times> nat) list"
  ap_edge_counts :: "(string \<times> nat) list"
  ap_coverage :: "coverage_diagnostic option"
  ap_chunk_count :: nat
  ap_node_count :: nat
  ap_edge_count :: nat
  ap_created_at :: time

record review_artifact =
  rw_id :: uuid
  rw_packet_id :: uuid
  rw_paper_id :: uuid
  rw_strengths :: "string list"
  rw_weaknesses :: "string list"
  rw_open_questions :: "string list"
  rw_critique :: string
  rw_scores :: "(string \<times> real) list"
  rw_reading_priority :: string
  rw_created_at :: time

record evidence_card =
  ec_id :: uuid
  ec_charter_id :: uuid
  ec_cycle_id :: uuid
  ec_paper_id :: uuid
  ec_packet_id :: "uuid option"
  ec_type :: string
  ec_claim :: string
  ec_supporting_text :: "string option"
  ec_chunk_ids :: "uuid list"
  ec_node_ids :: "uuid list"
  ec_confidence :: real
  ec_contradicts :: "(uuid \<times> string \<times> real) list"
  ec_redundancy_group :: "string option"
  ec_embedding :: "real list option"
  ec_created_at :: time

record library =
  profiles :: "problem_profile list"
  papers :: "paper_card list"
  evaluations :: "discovery_evaluation list"
  documents :: "ingested_document list"
  chunks :: "paper_chunk list"
  gnodes :: "graph_node list"
  gedges :: "graph_edge list"
  coverages :: "coverage_diagnostic list"
  packets :: "analysis_packet list"
  reviews :: "review_artifact list"
  evidence :: "evidence_card list"

definition empty_library :: library where
  "empty_library = \<lparr>profiles = [], papers = [], evaluations = [], documents = [], chunks = [], gnodes = [], gedges = [],
     coverages = [], packets = [], reviews = [], evidence = []\<rparr>"

section \<open>The store\<close>

text \<open>
  Besides the tables the store holds the text files the operators write under the data directory, by path;
  unlike the tables they are not rolled back with a session.
\<close>

record db =
  charters :: "charter list"
  cycles :: "cycle list"
  events :: "domain_event list"
  jobs :: "job list"
  discoveries :: "discovery_session list"
  analyses :: "analysis_session list"
  sessions :: "hypothesis_session list"
  cards :: "hypothesis_card list"
  specs :: "experiment_spec list"
  runs :: "run_record list"
  reports :: "verification_report list"
  postmortems :: "failure_postmortem list"
  actions :: "remediation_action list"
  signals :: "directional_signal list"
  frontiers :: "metric_frontier list"
  recommendations :: "run_recommendation list"
  budgets :: "autonomy_budget list"
  decisions :: "loop_decision list"
  patterns :: "canonical_pattern list"
  observations :: "pattern_observation list"
  approvals :: "pattern_approval list"
  periodic :: "periodic_job_state list"
  telemetry :: "run_telemetry list"
  skills :: "skill_definition list"
  bindings :: "skill_binding list"
  model_calls :: "model_call_record list"
  lib :: library
  disk :: "(string \<times> string) list"
  uuid_calls :: nat

definition empty_db :: db where
  "empty_db = \<lparr>charters = [], cycles = [], events = [], jobs = [], discoveries = [], analyses = [],
     sessions = [], cards = [],
     specs = [], runs = [], reports = [], postmortems = [], actions = [], signals = [],
     frontiers = [], recommendations = [], budgets = [], decisions = [], patterns = [],
     observations = [], approvals = [], periodic = [], telemetry = [], skills = [], bindings = [],
     model_calls = [], lib = empty_library, disk = [], uuid_calls = 0\<rparr>"

text \<open>
  The surroundings of one operation: the instant \<open>utcnow()\<close> returns during it and the
  identifiers the third-party generator \<open>uuid_utils.uuid7\<close> hands out, by the number of
  the call.  Nothing is assumed of the generator here; where a theorem needs fresh
  identifiers it says so with \<open>fresh_supply\<close>.
\<close>

record env =
  now :: time
  uuid7 :: "nat \<Rightarrow> uuid"

definition new_uuid :: "env \<Rightarrow> db \<Rightarrow> uuid" where
  "new_uuid e s = uuid7 e (uuid_calls s)"

definition tick_uuid :: "db \<Rightarrow> db" where
  "tick_uuid s = s\<lparr>uuid_calls := Suc (uuid_calls s)\<rparr>"

definition fresh_supply :: "env \<Rightarrow> db \<Rightarrow> uuid set \<Rightarrow> bool" where
  "fresh_supply e s used \<longleftrightarrow>
     inj (uuid7 e) \<and> (\<forall>n\<ge>uuid_calls s. uuid7 e n \<notin> used)"

text \<open>The surroundings the witnesses run in.\<close>

definition demo_env :: env where
  "demo_env = \<lparr>now = 1000, uuid7 = (\<lambda>n. 100 + n)\<rparr>"

section \<open>Events\<close>

definition emit_event ::
  "env \<Rightarrow> string \<Rightarrow> uuid option \<Rightarrow> uuid option \<Rightarrow> dict option \<Rightarrow> actor_type \<Rightarrow> string option
   \<Rightarrow> db \<Rightarrow> db" where
  "emit_event e et charter_id cycle_id payload atype aid s =
    (let ev = \<lparr>ev_id = new_uuid e s, ev_charter_id = charter_id, ev_cycle_id = cycle_id,
               ev_type = et, ev_payload = payload, ev_actor_type = atype,
               ev_actor_id = aid, ev_created_at = now e\<rparr>
     in (tick_uuid s)\<lparr>events := events s @ [ev]\<rparr>)"

definition emit_event_sync ::
  "env \<Rightarrow> string \<Rightarrow> uuid option \<Rightarrow> uuid option \<Rightarrow> dict option \<Rightarrow> actor_type \<Rightarrow> string option
   \<Rightarrow> db \<Rightarrow> db" where
  "emit_event_sync e et charter_id cycle_id payload atype aid s =
    (let ev = \<lparr>ev_id = new_uuid e s, ev_charter_id = charter_id, ev_cycle_id = cycle_id,
               ev_type = et, ev_payload = payload, ev_actor_type = atype,
               ev_actor_id = aid, ev_created_at = now e\<rparr>
     in (tick_uuid s)\<lparr>events := events s @ [ev]\<rparr>)"

text \<open>The call shape of the operators: actor defaults, charter and cycle given.\<close>

abbreviation emit_sys :: "env \<Rightarrow> string \<Rightarrow> uuid \<Rightarrow> uuid \<Rightarrow> dict \<Rightarrow> db \<Rightarrow> db" where
  "emit_sys e et charter_id cycle_id payload \<equiv>
     emit_event_sync e et (Some charter_id) (Some cycle_id) (Some payload) Actor_system None"

section \<open>Operator contract\<close>

record op_input =
  oi_cycle_id :: uuid
  oi_charter_id :: uuid
  oi_job_id :: uuid
  oi_job_type :: string
  oi_payload :: dict

record op_result =
  or_events :: "(string \<times> dict) list"
  or_state_patch :: dict
  or_artifacts :: "string list"
  or_success :: bool
  or_error :: "string option"

definition OperatorResult :: op_result where
  "OperatorResult = \<lparr>or_events = [], or_state_patch = [], or_artifacts = [], or_success = True, or_error = None\<rparr>"

definition add_event :: "op_result \<Rightarrow> string \<Rightarrow> dict \<Rightarrow> op_result" where
  "add_event r et payload = r\<lparr>or_events := or_events r @ [(et, payload)]\<rparr>"

abbreviation op_fail :: "string \<Rightarrow> op_result" where
  "op_fail msg \<equiv> OperatorResult\<lparr>or_success := False, or_error := Some msg\<rparr>"

abbreviation op_patch :: "cycle_status \<Rightarrow> op_result" where
  "op_patch c \<equiv> OperatorResult\<lparr>or_state_patch := [(''cycle_status'', JStr (cycle_status_value c))]\<rparr>"

text \<open>
  An operator returns a result or raises; the store beside it is what it had committed
  by then (an uncommitted session is rolled back when it closes).
\<close>

type_synonym operator = "op_input \<Rightarrow> db \<Rightarrow> op_result res \<times> db"

section \<open>Frame facts\<close>

lemma tick_uuid_simps [simp]:
  "charters (tick_uuid s) = charters s" "cycles (tick_uuid s) = cycles s"
  "events (tick_uuid s) = events s" "jobs (tick_uuid s) = jobs s"
  "discoveries (tick_uuid s) = discoveries s" "analyses (tick_uuid s) = analyses s"
  "sessions (tick_uuid s) = sessions s" "cards (tick_uuid s) = cards s"
  "specs (tick_uuid s) = specs s" "runs (tick_uuid s) = runs s"
  "reports (tick_uuid s) = reports s" "postmortems (tick_uuid s) = postmortems s"
  "actions (tick_uuid s) = actions s" "signals (tick_uuid s) = signals s"
  "frontiers (tick_uuid s) = frontiers s"
  "recommendations (tick_uuid s) = recommendations s"
  "budgets (tick_uuid s) = budgets s" "decisions (tick_uuid s) = decisions s"
  "patterns (tick_uuid s) = patterns s" "observations (tick_uuid s) = observations s"
  "approvals (tick_uuid s) = approvals s" "periodic (tick_uuid s) = periodic s"
  "telemetry (tick_uuid s) = telemetry s" "skills (tick_uuid s) = skills s"
  "bindings (tick_uuid s) = bindings s" "model_calls (tick_uuid s) = model_calls s"
  "disk (tick_uuid s) = disk s" "lib (tick_uuid s) = lib s"
  "uuid_calls (tick_uuid s) = Suc (uuid_calls s)"
  by (simp_all add: tick_uuid_def)

lemma emit_event_sync_frame [simp]:
  "charters (emit_event_sync e et ch cy p act ai s) = charters s"
  "cycles (emit_event_sync e et ch cy p act ai s) = cycles s"
  "jobs (emit_event_sync e et ch cy p act ai s) = jobs s"
  "discoveries (emit_event_sync e et ch cy p act ai s) = discoveries s"
  "analyses (emit_event_sync e et ch cy p act ai s) = analyses s"
  "sessions (emit_event_sync e et ch cy p act ai s) = sessions s"
  "cards (emit_event_sync e et ch cy p act ai s) = cards s"
  "specs (emit_event_sync e et ch cy p act ai s) = specs s"
  "runs (emit_event_sync e et ch cy p act ai s) = runs s"
  "reports (emit_event_sync e et ch cy p act ai s) = reports s"
  "postmortems (emit_event_sync e et ch cy p act ai s) = postmortems s"
  "actions (emit_event_sync e et ch cy p act ai s) = actions s"
  "signals (emit_event_sync e et ch cy p act ai s) = signals s"
  "frontiers (emit_event_sync e et ch cy p act ai s) = frontiers s"
  "recommendations (emit_event_sync e et ch cy p act ai s) = recommendations s"
  "budgets (emit_event_sync e et ch cy p act ai s) = budgets s"
  "decisions (emit_event_sync e et ch cy p act ai s) = decisions s"
  "patterns (emit_event_sync e et ch cy p act ai s) = patterns s"
  "observations (emit_event_sync e et ch cy p act ai s) = observations s"
  "approvals (emit_event_sync e et ch cy p act ai s) = approvals s"
  "periodic (emit_event_sync e et ch cy p act ai s) = periodic s"
  "telemetry (emit_event_sync e et ch cy p act ai s) = telemetry s"
  "skills (emit_event_sync e et ch cy p act ai s) = skills s"
  "bindings (emit_event_sync e et ch cy p act ai s) = bindings s"
  "model_calls (emit_event_sync e et ch cy p act ai s) = model_calls s"
  "disk (emit_event_sync e et ch cy p act ai s) = disk s"
  "lib (emit_event_sync e et ch cy p act ai s) = lib s"
  "uuid_calls (emit_event_sync e et ch cy p act ai s) = Suc (uuid_calls s)"
  by (simp_all add: emit_event_sync_def Let_def)

lemma events_emit_event_sync:
  "\<exists>i. events (emit_event_sync e et ch cy p act ai s) = events s @
     [\<lparr>ev_id = i, ev_charter_id = ch, ev_cycle_id = cy, ev_type = et, ev_payload = p,
       ev_actor_type = act, ev_actor_id = ai, ev_created_at = now e\<rparr>]"
  by (auto simp: emit_event_sync_def Let_def)

lemma emit_event_eq_sync: "emit_event = emit_event_sync"
  by (intro ext) (simp add: emit_event_def emit_event_sync_def)

abbreviation event_types :: "db \<Rightarrow> string list" where
  "event_types s \<equiv> map ev_type (events s)"

lemma event_types_emit [simp]:
  "event_types (emit_event_sync e et ch cy p act ai s) = event_types s @ [et]"
  by (simp add: emit_event_sync_def Let_def)

lemma CycleStatus_of_value [simp]: "CycleStatus_of (JStr (cycle_status_value c)) = Inr c"
  by (cases c) (simp_all add: CycleStatus_of_def all_cycle_status_def)

lemma CycleStatus_of_Inr: "CycleStatus_of raw = Inr c \<Longrightarrow> raw = JStr (cycle_status_value c)"
  by (auto simp: CycleStatus_of_def split: json.splits option.splits dest!: find_Some_in)

lemma cycle_status_value_inj: "cycle_status_value a = cycle_status_value b \<longleftrightarrow> a = b"
  by (cases a; cases b) simp_all

end
