(* ===== verification/Cycle_Machine.thy ===== *)
theory Cycle_Machine
  imports Storage
begin

text \<open>
  The research-cycle state machine (\<open>libs/core/state_machine.py\<close>), the cycle and charter
  services that drive it (\<open>libs/core/services/cycle_service.py\<close>,
  \<open>libs/core/services/charter_service.py\<close>) and the read model assembled from them
  (\<open>libs/core/research_state.py\<close>).

  The locale \<open>staged_machine\<close> is the contract of a transition table whose edges never go
  back to an earlier stage; it is interpreted here on the cycle machine and, in
  \<open>Autonomy_Core\<close>, on the hypothesis lifecycle.
\<close>

section \<open>The transition table\<close>

fun ALLOWED_TRANSITIONS :: "cycle_status \<Rightarrow> cycle_status list" where
  "ALLOWED_TRANSITIONS Cy_created = [Cy_discovery_ready]"
| "ALLOWED_TRANSITIONS Cy_discovery_ready = [Cy_discovery_screened]"
| "ALLOWED_TRANSITIONS Cy_discovery_screened = [Cy_analysis_ready]"
| "ALLOWED_TRANSITIONS Cy_analysis_ready = [Cy_analysis_ready, Cy_evidence_ready]"
| "ALLOWED_TRANSITIONS Cy_evidence_ready = [Cy_portfolio_ready]"
| "ALLOWED_TRANSITIONS Cy_portfolio_ready = [Cy_protocol_ready]"
| "ALLOWED_TRANSITIONS Cy_protocol_ready = [Cy_running]"
| "ALLOWED_TRANSITIONS Cy_running = [Cy_verifying, Cy_running]"
| "ALLOWED_TRANSITIONS Cy_verifying = [Cy_reporting, Cy_running, Cy_loop_deciding]"
| "ALLOWED_TRANSITIONS Cy_loop_deciding = [Cy_running, Cy_reporting]"
| "ALLOWED_TRANSITIONS Cy_reporting = [Cy_closed]"
| "ALLOWED_TRANSITIONS Cy_closed = []"

definition validate_transition :: "cycle_status \<Rightarrow> cycle_status \<Rightarrow> unit res" where
  "validate_transition current target =
    (if target \<notin> set (ALLOWED_TRANSITIONS current)
     then Inl (InvalidTransitionError (cycle_status_value current) (cycle_status_value target))
     else Inr ())"

definition get_allowed_transitions :: "cycle_status \<Rightarrow> cycle_status list" where
  "get_allowed_transitions current = ALLOWED_TRANSITIONS current"

section \<open>Cycle service\<close>

definition create_cycle ::
  "env \<Rightarrow> uuid \<Rightarrow> dict option \<Rightarrow> actor_type \<Rightarrow> string option \<Rightarrow> db \<Rightarrow> cycle \<times> db" where
  "create_cycle e charter_id config atype aid s =
    (let c = \<lparr>cy_id = new_uuid e s, cy_charter_id = charter_id, cy_status = Cy_created,
              cy_config = config, cy_created_at = now e, cy_updated_at = now e,
              cy_started_at = None, cy_completed_at = None\<rparr>;
         s1 = (tick_uuid s)\<lparr>cycles := cycles s @ [c]\<rparr>;
         s2 = emit_event e ''research_cycle_created'' (Some charter_id) (Some (cy_id c))
                (Some [(''status'', JStr (cycle_status_value (cy_status c)))]) atype aid s1
     in (c, s2))"

definition get_cycle :: "db \<Rightarrow> uuid \<Rightarrow> cycle option" where
  "get_cycle s cycle_id = table_get cy_id (cycles s) cycle_id"

definition page :: "nat \<Rightarrow> nat \<Rightarrow> 'a list \<Rightarrow> 'a list" where
  "page offset limit xs = take limit (drop offset xs)"

definition list_cycles :: "db \<Rightarrow> uuid option \<Rightarrow> nat \<Rightarrow> nat \<Rightarrow> cycle list \<times> nat" where
  "list_cycles s charter_id offset limit =
    (let rows = (case charter_id of None \<Rightarrow> cycles s
                 | Some ch \<Rightarrow> filter (\<lambda>c. cy_charter_id c = ch) (cycles s))
     in (page offset limit (order_desc cy_created_at rows), length rows))"

text \<open>The row a successful transition writes.\<close>

definition transitioned :: "env \<Rightarrow> cycle_status \<Rightarrow> cycle \<Rightarrow> cycle" where
  "transitioned e target c =
    (let c1 = c\<lparr>cy_status := target, cy_updated_at := now e\<rparr>;
         c2 = (if target = Cy_discovery_ready \<and> cy_started_at c1 = None
               then c1\<lparr>cy_started_at := Some (now e)\<rparr> else c1)
     in if target = Cy_closed then c2\<lparr>cy_completed_at := Some (now e)\<rparr> else c2)"

definition put_cycle :: "cycle \<Rightarrow> db \<Rightarrow> db" where
  "put_cycle c s = s\<lparr>cycles := update_where (\<lambda>r. cy_id r = cy_id c) (\<lambda>_. c) (cycles s)\<rparr>"

definition transition_cycle ::
  "env \<Rightarrow> uuid \<Rightarrow> cycle_status \<Rightarrow> actor_type \<Rightarrow> string option \<Rightarrow> db \<Rightarrow> (cycle \<times> db) res" where
  "transition_cycle e cycle_id target atype aid s =
    res_bind (scalar_one (filter (\<lambda>c. cy_id c = cycle_id) (cycles s))) (\<lambda>c.
    res_bind (validate_transition (cy_status c) target) (\<lambda>_.
      let c' = transitioned e target c;
          s' = emit_event e ''research_cycle_transitioned'' (Some (cy_charter_id c')) (Some (cy_id c'))
                 (Some [(''from_status'', JStr (cycle_status_value (cy_status c))),
                        (''to_status'', JStr (cycle_status_value target))]) atype aid
                 (put_cycle c' s)
      in Inr (c', s')))"

section \<open>Charter service\<close>

definition create_charter ::
  "env \<Rightarrow> string \<Rightarrow> string \<Rightarrow> string \<Rightarrow> json \<Rightarrow> actor_type \<Rightarrow> string option \<Rightarrow> db \<Rightarrow> charter \<times> db" where
  "create_charter e title descr problem scope atype aid s =
    (let c = \<lparr>ch_id = new_uuid e s, ch_title = title, ch_description = descr,
              ch_problem_statement = problem, ch_source_scope = scope, ch_status = Ch_active,
              ch_created_at = now e, ch_updated_at = now e\<rparr>;
         s1 = (tick_uuid s)\<lparr>charters := charters s @ [c]\<rparr>
     in (c, emit_event e ''research_charter_created'' (Some (ch_id c)) None
              (Some [(''title'', JStr title)]) atype aid s1))"

definition get_charter :: "db \<Rightarrow> uuid \<Rightarrow> charter option" where
  "get_charter s charter_id = table_get ch_id (charters s) charter_id"

definition list_charters :: "db \<Rightarrow> nat \<Rightarrow> nat \<Rightarrow> charter list \<times> nat" where
  "list_charters s offset limit =
    (page offset limit (order_desc ch_created_at (charters s)), length (charters s))"

text \<open>One entry of \<open>data.model_dump(exclude_unset=True)\<close>: a field the request set.\<close>

datatype charter_field =
    Set_title string | Set_description string | Set_problem_statement string
  | Set_source_scope json | Set_status charter_status

fun setattr_charter :: "charter_field \<Rightarrow> charter \<Rightarrow> charter" where
  "setattr_charter (Set_title v) c = c\<lparr>ch_title := v\<rparr>"
| "setattr_charter (Set_description v) c = c\<lparr>ch_description := v\<rparr>"
| "setattr_charter (Set_problem_statement v) c = c\<lparr>ch_problem_statement := v\<rparr>"
| "setattr_charter (Set_source_scope v) c = c\<lparr>ch_source_scope := v\<rparr>"
| "setattr_charter (Set_status v) c = c\<lparr>ch_status := v\<rparr>"

definition update_charter ::
  "env \<Rightarrow> uuid \<Rightarrow> charter_field list \<Rightarrow> db \<Rightarrow> charter option \<times> db" where
  "update_charter e charter_id updates s =
    (case table_get ch_id (charters s) charter_id of
       None \<Rightarrow> (None, s)
     | Some c \<Rightarrow>
         let c' = (fold setattr_charter updates c)\<lparr>ch_updated_at := now e\<rparr>
         in (Some c', s\<lparr>charters := update_where (\<lambda>r. ch_id r = charter_id) (\<lambda>_. c') (charters s)\<rparr>))"

section \<open>Research-state snapshot\<close>

record cycle_summary =
  cs_id :: uuid
  cs_status :: cycle_status
  cs_created_at :: time
  cs_started_at :: "time option"
  cs_completed_at :: "time option"

record research_state =
  rs_charter_id :: uuid
  rs_charter_title :: string
  rs_charter_status :: charter_status
  rs_cycles :: "cycle_summary list"
  rs_active_cycle :: "cycle_summary option"
  rs_total_events :: nat
  rs_total_jobs :: nat
  rs_recent_events :: "domain_event list"

definition summarize_cycle :: "cycle \<Rightarrow> cycle_summary" where
  "summarize_cycle c = \<lparr>cs_id = cy_id c, cs_status = cy_status c, cs_created_at = cy_created_at c,
     cs_started_at = cy_started_at c, cs_completed_at = cy_completed_at c\<rparr>"

definition assemble_research_state :: "db \<Rightarrow> uuid \<Rightarrow> research_state option" where
  "assemble_research_state s charter_id =
    (case table_get ch_id (charters s) charter_id of
       None \<Rightarrow> None
     | Some charter \<Rightarrow>
        let cys = order_desc cy_created_at (filter (\<lambda>c. cy_charter_id c = charter_id) (cycles s));
            summaries = map summarize_cycle cys;
            active = find (\<lambda>x. cs_status x \<noteq> Cy_closed) summaries;
            evs = filter (\<lambda>ev. ev_charter_id ev = Some charter_id) (events s);
            total_jobs = (if cys = [] then 0
              else length (filter (\<lambda>j. \<exists>c\<in>set cys. j_cycle_id j = Some (cy_id c)) (jobs s)));
            recent = take 20 (order_desc ev_created_at evs)
        in Some \<lparr>rs_charter_id = ch_id charter, rs_charter_title = ch_title charter,
                 rs_charter_status = ch_status charter, rs_cycles = summaries,
                 rs_active_cycle = active, rs_total_events = length evs,
                 rs_total_jobs = total_jobs, rs_recent_events = recent\<rparr>)"

section \<open>Staged machines\<close>

locale staged_machine =
  fixes allowed :: "'s \<Rightarrow> 's list"
    and stage :: "'s \<Rightarrow> nat"
  assumes stage_mono: "t \<in> set (allowed s) \<Longrightarrow> stage s \<le> stage t"
begin

inductive reach :: "'s \<Rightarrow> 's \<Rightarrow> bool" where
  reach_refl: "reach s s"
| reach_step: "reach s t \<Longrightarrow> u \<in> set (allowed t) \<Longrightarrow> reach s u"

lemma reach_stage: "reach s t \<Longrightarrow> stage s \<le> stage t"
  by (induction rule: reach.induct) (auto dest: stage_mono)

lemma reach_trans: "reach t u \<Longrightarrow> reach s t \<Longrightarrow> reach s u"
  by (induction rule: reach.induct) (auto intro: reach_step)

lemma no_return: "stage t < stage s \<Longrightarrow> \<not> reach s t"
  using reach_stage by fastforce

lemma terminal_final: "reach s t \<Longrightarrow> allowed s = [] \<Longrightarrow> t = s"
  by (induction rule: reach.induct) auto

fun walk :: "'s \<Rightarrow> 's list \<Rightarrow> bool" where
  "walk s [] = True"
| "walk s (t # ts) = (t \<in> set (allowed s) \<and> walk t ts)"

lemma walk_reach: "walk s ts \<Longrightarrow> t \<in> set (s # ts) \<Longrightarrow> reach s t"
proof (induction ts arbitrary: s)
  case Nil
  then show ?case by (auto intro: reach_refl)
next
  case (Cons u ts)
  then have u: "reach s u" by (auto intro: reach_step reach_refl)
  show ?case
  proof (cases "t = s")
    case True
    then show ?thesis by (auto intro: reach_refl)
  next
    case False
    with Cons.prems have "reach u t" by (intro Cons.IH) auto
    with u show ?thesis by (blast intro: reach_trans)
  qed
qed

lemma walk_sorted: "walk s ts \<Longrightarrow> sorted (map stage (s # ts))"
proof (induction ts arbitrary: s)
  case (Cons u ts)
  then have "stage s \<le> stage u" by (auto dest: stage_mono)
  moreover have "sorted (map stage (u # ts))" using Cons by auto
  ultimately show ?case by auto
qed simp

end

text \<open>A machine whose every edge reaches a later stage can only take a bounded number of steps.\<close>

locale strict_staged_machine = staged_machine allowed stage
  for allowed :: "'s \<Rightarrow> 's list" and stage :: "'s \<Rightarrow> nat" +
  assumes stage_strict: "t \<in> set (allowed s) \<Longrightarrow> stage s < stage t"
begin

lemma walk_length: "walk s ts \<Longrightarrow> stage s + length ts \<le> stage (last (s # ts))"
proof (induction ts arbitrary: s)
  case (Cons u ts)
  then have "stage s < stage u" by (auto dest: stage_strict)
  moreover have "stage u + length ts \<le> stage (last (u # ts))" using Cons by simp
  ultimately show ?case by simp
qed simp

end

fun cycle_stage :: "cycle_status \<Rightarrow> nat" where
  "cycle_stage Cy_created = 0"
| "cycle_stage Cy_discovery_ready = 1"
| "cycle_stage Cy_discovery_screened = 2"
| "cycle_stage Cy_analysis_ready = 3"
| "cycle_stage Cy_evidence_ready = 4"
| "cycle_stage Cy_portfolio_ready = 5"
| "cycle_stage Cy_protocol_ready = 6"
| "cycle_stage Cy_running = 7"
| "cycle_stage Cy_verifying = 7"
| "cycle_stage Cy_loop_deciding = 7"
| "cycle_stage Cy_reporting = 8"
| "cycle_stage Cy_closed = 9"

interpretation cm: staged_machine ALLOWED_TRANSITIONS cycle_stage
proof unfold_locales
  fix s t assume "t \<in> set (ALLOWED_TRANSITIONS s)"
  then show "cycle_stage s \<le> cycle_stage t" by (cases s) auto
qed

interpretation cycle_table: keyed_table cy_id "table_get cy_id" "\<lambda>t r. t @ [r]"
  "\<lambda>t k f. update_where (\<lambda>r. cy_id r = k) f t"
  by (rule keyed_table_list)

section \<open>Facts about the table\<close>

lemma validate_transition_Inr: "validate_transition c t = Inr u \<longleftrightarrow> t \<in> set (ALLOWED_TRANSITIONS c)"
  by (auto simp: validate_transition_def)

lemma stage_step:
  "t \<in> set (ALLOWED_TRANSITIONS s) \<Longrightarrow> cycle_stage t \<le> Suc (cycle_stage s)"
  by (cases s) auto

lemma walk_hits_stage:
  "cm.walk s ts \<Longrightarrow> cycle_stage s \<le> n \<Longrightarrow> n \<le> cycle_stage (last (s # ts)) \<Longrightarrow>
   \<exists>t\<in>set (s # ts). cycle_stage t = n"
proof (induction ts arbitrary: s)
  case Nil
  then show ?case by auto
next
  case (Cons u ts)
  show ?case
  proof (cases "cycle_stage s = n")
    case False
    with Cons.prems stage_step [of u s] have "cycle_stage u \<le> n" by auto
    with Cons show ?thesis by auto
  qed auto
qed

lemma cycle_stage_9: "cycle_stage t = 9 \<Longrightarrow> t = Cy_closed"
  by (cases t) auto

lemma cycle_stage_unique:
  "cycle_stage t = n \<Longrightarrow> n \<noteq> 7 \<Longrightarrow> cycle_stage t' = n \<Longrightarrow> t = t'"
  by (cases t; cases t') auto

text \<open>
  Leaving the experiment stage needs a \<open>verifying\<close> or \<open>loop_deciding\<close> status, and
  \<open>loop_deciding\<close> is only entered from \<open>verifying\<close>.
\<close>

lemma walk_verifying:
  "cm.walk s ts \<Longrightarrow> cycle_stage s < 7 \<or> s = Cy_running \<Longrightarrow> Cy_reporting \<in> set ts \<Longrightarrow> Cy_verifying \<in> set ts"
proof (induction ts arbitrary: s)
  case (Cons u ts)
  then have step: "u \<in> set (ALLOWED_TRANSITIONS s)" by simp
  show ?case
  proof (cases "u = Cy_verifying")
    case False
    with step Cons.prems(2) have "cycle_stage u < 7 \<or> u = Cy_running"
      by (cases s) auto
    moreover from this have "u \<noteq> Cy_reporting" by auto
    ultimately show ?thesis using Cons by auto
  qed simp
qed simp

section \<open>Histories of a cycle\<close>

text \<open>
  A history is a sequence of targets that \<open>validate_transition\<close> accepts one after the
  other; it is what repeated calls of \<open>transition_cycle\<close> can make of a cycle.
\<close>

fun cycle_history :: "cycle_status \<Rightarrow> cycle_status list \<Rightarrow> bool" where
  "cycle_history c [] = True"
| "cycle_history c (t # ts) = (validate_transition c t = Inr () \<and> cycle_history t ts)"

lemma cycle_history_walk: "cycle_history c ts \<longleftrightarrow> cm.walk c ts"
  by (induction ts arbitrary: c) (auto simp: validate_transition_Inr)

text \<open>A shortest way to the end from each status.\<close>

definition way_to_close :: "cycle_status \<Rightarrow> cycle_status list" where
  "way_to_close c =
    (if c = Cy_loop_deciding then [Cy_reporting, Cy_closed]
     else tl (dropWhile (\<lambda>d. d \<noteq> c) (filter (\<lambda>d. d \<noteq> Cy_loop_deciding) all_cycle_status)))"

lemmas way_to_close_simps = way_to_close_def all_cycle_status_def validate_transition_def

section \<open>Invariants of the cycle rows\<close>

text \<open>
  What every cycle row satisfies while it is only changed through the state machine: a
  closed cycle has a completion time, and a cycle past \<open>created\<close> has a start time.
\<close>

definition cycle_wf :: "cycle \<Rightarrow> bool" where
  "cycle_wf c \<longleftrightarrow> (cy_status c = Cy_closed \<longrightarrow> cy_completed_at c \<noteq> None) \<and>
     (cy_status c \<noteq> Cy_created \<longrightarrow> cy_started_at c \<noteq> None)"

definition cycles_inv :: "db \<Rightarrow> bool" where
  "cycles_inv s \<longleftrightarrow> distinct (map cy_id (cycles s)) \<and> (\<forall>c\<in>set (cycles s). cycle_wf c)"

text \<open>
  The status the event log records for a cycle: the last \<open>research_cycle_created\<close> or
  \<open>research_cycle_transitioned\<close> event of that cycle.
\<close>

definition is_status_event :: "uuid \<Rightarrow> domain_event \<Rightarrow> bool" where
  "is_status_event k ev \<longleftrightarrow> ev_cycle_id ev = Some k \<and>
     (ev_type ev = ''research_cycle_created'' \<or> ev_type ev = ''research_cycle_transitioned'')"

definition event_status :: "domain_event \<Rightarrow> json" where
  "event_status ev =
    (if ev_type ev = ''research_cycle_created'' then dget (opt_dict (ev_payload ev)) ''status''
     else dget (opt_dict (ev_payload ev)) ''to_status'')"

definition logged_status :: "domain_event list \<Rightarrow> uuid \<Rightarrow> json" where
  "logged_status evs k =
    (case find (is_status_event k) (rev evs) of None \<Rightarrow> JNull | Some ev \<Rightarrow> event_status ev)"

definition log_agrees :: "db \<Rightarrow> bool" where
  "log_agrees s \<longleftrightarrow>
    (\<forall>c\<in>set (cycles s). logged_status (events s) (cy_id c) = JStr (cycle_status_value (cy_status c)))"

lemma logged_status_snoc:
  "logged_status (evs @ [ev]) k = (if is_status_event k ev then event_status ev else logged_status evs k)"
  by (simp add: logged_status_def)

lemma transitioned_simps [simp]:
  "cy_id (transitioned e t c) = cy_id c"
  "cy_charter_id (transitioned e t c) = cy_charter_id c"
  "cy_config (transitioned e t c) = cy_config c"
  "cy_status (transitioned e t c) = t"
  by (simp_all add: transitioned_def Let_def)

lemma transitioned_wf:
  assumes "cycle_wf c" and "t \<in> set (ALLOWED_TRANSITIONS (cy_status c))"
  shows "cycle_wf (transitioned e t c)"
proof -
  have "cy_status c = Cy_created \<Longrightarrow> t = Cy_discovery_ready" using assms(2) by simp
  then show ?thesis
    using assms(1) by (cases "cy_status c = Cy_created") (auto simp: cycle_wf_def transitioned_def Let_def)
qed

lemma put_cycle_frame [simp]:
  "events (put_cycle c s) = events s" "jobs (put_cycle c s) = jobs s"
  "uuid_calls (put_cycle c s) = uuid_calls s" "decisions (put_cycle c s) = decisions s"
  "runs (put_cycle c s) = runs s" "cards (put_cycle c s) = cards s"
  by (simp_all add: put_cycle_def)

lemma set_cycles_put:
  "set (cycles (put_cycle c s)) =
     {r \<in> set (cycles s). cy_id r \<noteq> cy_id c} \<union> (if cy_id c \<in> cy_id ` set (cycles s) then {c} else {})"
  by (simp add: put_cycle_def set_replace_row)

lemma keys_put_cycle: "map cy_id (cycles (put_cycle c s)) = map cy_id (cycles s)"
  by (auto simp: put_cycle_def update_where_def)

lemma put_cycle_inv:
  assumes "cycles_inv s" and "cycle_wf c"
  shows "cycles_inv (put_cycle c s)"
  using assms by (auto simp: cycles_inv_def keys_put_cycle set_cycles_put split: if_splits)

lemma scalar_one_filter_key:
  "scalar_one (filter (\<lambda>r. key r = k) tbl) = Inr r \<Longrightarrow> r \<in> set tbl \<and> key r = k"
proof -
  assume one: "scalar_one (filter (\<lambda>r. key r = k) tbl) = Inr r"
  then have "filter (\<lambda>r. key r = k) tbl = [r]"
    by (cases "filter (\<lambda>r. key r = k) tbl" rule: scalar_one.cases) auto
  then have "r \<in> set (filter (\<lambda>r. key r = k) tbl)" by simp
  then show ?thesis by simp
qed

lemma transition_cycle_Inr:
  assumes "transition_cycle e k t act ai s = Inr (c', s')"
  obtains c where "c \<in> set (cycles s)" "cy_id c = k" "t \<in> set (ALLOWED_TRANSITIONS (cy_status c))"
    "c' = transitioned e t c"
    "s' = emit_event_sync e ''research_cycle_transitioned'' (Some (cy_charter_id c)) (Some k)
            (Some [(''from_status'', JStr (cycle_status_value (cy_status c))),
                   (''to_status'', JStr (cycle_status_value t))]) act ai (put_cycle c' s)"
proof (cases "scalar_one (filter (\<lambda>c. cy_id c = k) (cycles s))")
  case (Inl x)
  then show ?thesis using assms by (simp add: transition_cycle_def)
next
  case (Inr c)
  then have k: "c \<in> set (cycles s)" "cy_id c = k" using scalar_one_filter_key [OF Inr] by auto
  show ?thesis
  proof (cases "t \<in> set (ALLOWED_TRANSITIONS (cy_status c))")
    case False
    then show ?thesis using assms Inr by (simp add: transition_cycle_def validate_transition_def)
  next
    case True
    with assms Inr show ?thesis
      by (intro that [OF k True])
         (auto simp: transition_cycle_def validate_transition_def Let_def emit_event_eq_sync k)
  qed
qed

lemma log_agrees_put_emit:
  assumes "log_agrees s" and "distinct (map cy_id (cycles s))" and "cy_id c = k" and "cy_status c = t"
  shows "log_agrees (emit_event_sync e ''research_cycle_transitioned'' ch (Some k)
     (Some [(''from_status'', f), (''to_status'', JStr (cycle_status_value t))]) act ai (put_cycle c s))"
  using assms
  by (auto simp: log_agrees_def emit_event_sync_def Let_def logged_status_snoc set_cycles_put
       is_status_event_def event_status_def opt_dict_def split: if_splits)

section \<open>Properties\<close>



text \<open>
  No status is a dead end: from every status the table allows some history that ends in
  \<open>closed\<close>, and \<open>closed\<close> itself is final.
\<close>

theorem every_status_can_close:
  "(\<exists>ts. cycle_history c ts \<and> last (c # ts) = Cy_closed) \<and>
   (cycle_history Cy_closed ts' \<longleftrightarrow> ts' = [])"
proof
  have "cycle_history c (way_to_close c) \<and> last (c # way_to_close c) = Cy_closed"
    by (cases c) (simp_all add: way_to_close_simps)
  then show "\<exists>ts. cycle_history c ts \<and> last (c # ts) = Cy_closed" by blast
  show "cycle_history Cy_closed ts' \<longleftrightarrow> ts' = []"
    by (cases ts') (auto simp: validate_transition_def)
qed


text \<open>
  The services keep the cycle rows well formed: distinct identifiers, a completion time
  on every closed cycle and a start time on every cycle past \<open>created\<close>; both for a new
  cycle (with a fresh identifier) and for every transition the machine accepts.
\<close>

theorem cycle_services_keep_inv:
  assumes inv: "cycles_inv s" and fresh: "new_uuid e s \<notin> cy_id ` set (cycles s)"
  shows "cycles_inv (snd (create_cycle e ch cfg act ai s)) \<and>
    (\<forall>k t c' s'. transition_cycle e k t act ai s = Inr (c', s') \<longrightarrow> cycles_inv s')"
proof (intro conjI allI impI)
  show "cycles_inv (snd (create_cycle e ch cfg act ai s))"
    using inv fresh
    by (auto simp: cycles_inv_def create_cycle_def Let_def emit_event_eq_sync cycle_wf_def)
next
  fix k t c' s' assume "transition_cycle e k t act ai s = Inr (c', s')"
  then obtain c where c: "c \<in> set (cycles s)" "t \<in> set (ALLOWED_TRANSITIONS (cy_status c))"
      "c' = transitioned e t c" and s': "cycles s' = cycles (put_cycle c' s)"
    by (rule transition_cycle_Inr) simp
  have "cycle_wf c'" using inv c by (auto simp: cycles_inv_def intro: transitioned_wf)
  then have "cycles_inv (put_cycle c' s)" by (rule put_cycle_inv [OF inv])
  then show "cycles_inv s'" by (simp add: cycles_inv_def s')
qed

theorem cycle_services_keep_inv_witness:
  "cycles_inv empty_db \<and> cycles_inv (snd (create_cycle demo_env 1 None Actor_user None empty_db))"
  using cycle_services_keep_inv [of empty_db demo_env 1 None Actor_user None]
  by (simp add: cycles_inv_def empty_db_def)

text \<open>
  C12: The event log is the truth about the cycle status: if the last status event of every
  cycle names its status, that still holds after creating a cycle and after any accepted
  transition.
\<close>

theorem event_log_determines_status:
  assumes log: "log_agrees s" and inv: "cycles_inv s"
    and fresh: "new_uuid e s \<notin> cy_id ` set (cycles s)"
  shows "log_agrees (snd (create_cycle e ch cfg act ai s)) \<and>
    (\<forall>k t c' s'. transition_cycle e k t act ai s = Inr (c', s') \<longrightarrow> log_agrees s')"
proof (intro conjI allI impI)
  show "log_agrees (snd (create_cycle e ch cfg act ai s))"
    using log fresh
    by (auto simp: log_agrees_def create_cycle_def Let_def emit_event_def logged_status_snoc
        is_status_event_def event_status_def opt_dict_def)
next
  fix k t c' s' assume "transition_cycle e k t act ai s = Inr (c', s')"
  then show "log_agrees s'"
  proof (rule transition_cycle_Inr)
    fix c assume "cy_id c = k" "c' = transitioned e t c"
      and s': "s' = emit_event_sync e ''research_cycle_transitioned'' (Some (cy_charter_id c)) (Some k)
            (Some [(''from_status'', JStr (cycle_status_value (cy_status c))),
                   (''to_status'', JStr (cycle_status_value t))]) act ai (put_cycle c' s)"
    moreover have "distinct (map cy_id (cycles s))" using inv by (simp add: cycles_inv_def)
    ultimately show ?thesis
      unfolding s' by (intro log_agrees_put_emit [OF log]) auto
  qed
qed

theorem event_log_determines_status_witness:
  "log_agrees (snd (create_cycle demo_env 1 None Actor_user None empty_db))"
  using event_log_determines_status [of empty_db demo_env 1 None Actor_user None]
  by (simp add: cycles_inv_def empty_db_def log_agrees_def)

lemma find_first_sorted:
  fixes key :: "'a \<Rightarrow> int"
  assumes "find P xs = Some x" and "sorted (map (\<lambda>x. - key x) xs)"
  shows "x \<in> set xs \<and> P x \<and> (\<forall>y\<in>set xs. P y \<longrightarrow> key y \<le> key x)"
  using assms
proof (induction xs)
  case (Cons a xs)
  show ?case
  proof (cases "P a")
    case False
    then show ?thesis using Cons by simp
  qed (use Cons.prems in auto)
qed simp

text \<open>
  The snapshot's active cycle is the most recently created cycle of the charter that is not
  closed; there is none exactly when every cycle of the charter is closed.
\<close>

theorem active_cycle_is_newest_open:
  assumes "assemble_research_state s ch = Some st"
  shows "(\<forall>x. rs_active_cycle st = Some x \<longrightarrow>
            (\<exists>c\<in>set (cycles s). cy_charter_id c = ch \<and> cy_status c \<noteq> Cy_closed \<and> x = summarize_cycle c \<and>
              (\<forall>d\<in>set (cycles s). cy_charter_id d = ch \<and> cy_status d \<noteq> Cy_closed \<longrightarrow>
                 cy_created_at d \<le> cy_created_at c))) \<and>
         (rs_active_cycle st = None \<longleftrightarrow>
            (\<forall>c\<in>set (cycles s). cy_charter_id c = ch \<longrightarrow> cy_status c = Cy_closed))"
proof -
  let ?cs = "order_desc cy_created_at (filter (\<lambda>c. cy_charter_id c = ch) (cycles s))"
  let ?P = "\<lambda>c. cy_status c \<noteq> Cy_closed"
  have act: "rs_active_cycle st = find (\<lambda>x. cs_status x \<noteq> Cy_closed) (map summarize_cycle ?cs)"
    using assms by (auto simp: assemble_research_state_def Let_def split: option.splits)
  have find_map: "find (\<lambda>x. cs_status x \<noteq> Cy_closed) (map summarize_cycle cs) =
      map_option summarize_cycle (find ?P cs)" for cs
    by (induction cs) (auto simp: summarize_cycle_def)
  have srt: "sorted (map (\<lambda>c. - cy_created_at c) ?cs)"
    by (simp add: order_desc_def)
  show ?thesis
  proof (cases "find ?P ?cs")
    case None
    then have "\<forall>c\<in>set (cycles s). cy_charter_id c = ch \<longrightarrow> cy_status c = Cy_closed"
      by (auto simp: find_None_iff)
    moreover have "rs_active_cycle st = None" by (simp add: act find_map None)
    ultimately show ?thesis by simp
  next
    case (Some c)
    have max: "c \<in> set (cycles s)" "cy_charter_id c = ch" "?P c"
      "\<forall>d\<in>set (cycles s). cy_charter_id d = ch \<and> ?P d \<longrightarrow> cy_created_at d \<le> cy_created_at c"
      using find_first_sorted [OF Some srt] by auto
    moreover have "rs_active_cycle st = Some (summarize_cycle c)" by (simp add: act find_map Some)
    ultimately show ?thesis by auto
  qed
qed

theorem active_cycle_is_newest_open_witness:
  "\<exists>st x. assemble_research_state
      (snd (create_cycle demo_env 7 None Actor_user None
        (empty_db\<lparr>charters := [\<lparr>ch_id = 7, ch_title = [], ch_description = [],
           ch_problem_statement = [], ch_source_scope = JNull, ch_status = Ch_active,
           ch_created_at = 0, ch_updated_at = 0\<rparr>]\<rparr>))) 7 = Some st \<and>
     rs_active_cycle st = Some x \<and> cs_status x = Cy_created"
proof -
  let ?s = "snd (create_cycle demo_env 7 None Actor_user None
        (empty_db\<lparr>charters := [\<lparr>ch_id = 7, ch_title = [], ch_description = [],
           ch_problem_statement = [], ch_source_scope = JNull, ch_status = Ch_active,
           ch_created_at = 0, ch_updated_at = 0\<rparr>]\<rparr>))"
  obtain st where st: "assemble_research_state ?s 7 = Some st"
    by (auto simp: assemble_research_state_def create_cycle_def Let_def emit_event_eq_sync empty_db_def)
  have one: "\<exists>c. cycles ?s = [c] \<and> cy_charter_id c = 7 \<and> cy_status c = Cy_created"
    by (auto simp: create_cycle_def Let_def emit_event_eq_sync empty_db_def)
  then show ?thesis
    using st active_cycle_is_newest_open [OF st]
    by (cases "rs_active_cycle st") (auto simp: summarize_cycle_def)
qed

end
