(* ===== verification/Job_Queue.thy ===== *)
theory Job_Queue
  imports Cycle_Machine
begin

text \<open>
  The durable job queue: the worker-side operations of \<open>libs/core/services/job_service.py\<close>
  and the control endpoints of \<open>apps/api/routers/jobs.py\<close>.

  Every operation is a function on the store.  \<open>FOR UPDATE SKIP LOCKED\<close> is the argument
  \<open>locked\<close> of \<open>claim_job\<close>: the identifiers of rows other transactions hold at that
  moment.  Rows that tie on priority and creation time are taken in insertion order.  The
  locales \<open>claim_source\<close> and \<open>ranked_claim_source\<close> state what a worker pool relies on;
  \<open>queue_step\<close> interleaves all operations of workers and users.
\<close>

section \<open>Worker-side operations\<close>

definition create_job ::
  "env \<Rightarrow> uuid option \<Rightarrow> string \<Rightarrow> dict option \<Rightarrow> int \<Rightarrow> db \<Rightarrow> job \<times> db" where
  "create_job e cycle_id job_type payload priority s =
    (let j = \<lparr>j_id = new_uuid e s, j_cycle_id = cycle_id, j_type = job_type, j_status = Js_pending,
              j_payload = payload, j_result = None, j_error = None, j_claimed_by = None,
              j_claimed_at = None, j_heartbeat_at = None, j_priority = priority,
              j_created_at = now e, j_completed_at = None, j_reclaim_count = 0\<rparr>
     in (j, (tick_uuid s)\<lparr>jobs := jobs s @ [j]\<rparr>))"

text \<open>\<open>ORDER BY priority DESC, created_at\<close>.\<close>

definition claim_order :: "job list \<Rightarrow> job list" where
  "claim_order js = order_desc j_priority (sort_key j_created_at js)"

definition update_job :: "uuid \<Rightarrow> (job \<Rightarrow> job) \<Rightarrow> db \<Rightarrow> db" where
  "update_job job_id f s = s\<lparr>jobs := update_where (\<lambda>j. j_id j = job_id) f (jobs s)\<rparr>"

definition get_job :: "db \<Rightarrow> uuid \<Rightarrow> job option" where
  "get_job s job_id = table_get j_id (jobs s) job_id"

definition claim_job :: "env \<Rightarrow> string \<Rightarrow> uuid set \<Rightarrow> db \<Rightarrow> job option \<times> db" where
  "claim_job e worker_id locked s =
    (case first_row (claim_order (filter (\<lambda>j. j_status j = Js_pending \<and> j_id j \<notin> locked) (jobs s))) of
       None \<Rightarrow> (None, s)
     | Some r \<Rightarrow>
         let s' = update_job (j_id r) (\<lambda>j. j\<lparr>j_status := Js_claimed, j_claimed_by := Some worker_id,
                    j_claimed_at := Some (now e)\<rparr>) s
         in (get_job s' (j_id r), s'))"

text \<open>
  The updates by identifier: the row is re-read afterwards and an assertion fails when there is none.
\<close>

definition updated_job :: "uuid \<Rightarrow> (job \<Rightarrow> job) \<Rightarrow> db \<Rightarrow> (job \<times> db) res" where
  "updated_job job_id f s =
    (let s' = update_job job_id f s
     in case get_job s' job_id of None \<Rightarrow> Inl AssertionError | Some j \<Rightarrow> Inr (j, s'))"

definition start_job :: "uuid \<Rightarrow> db \<Rightarrow> (job \<times> db) res" where
  "start_job job_id = updated_job job_id (\<lambda>j. j\<lparr>j_status := Js_running\<rparr>)"

definition complete_job :: "env \<Rightarrow> uuid \<Rightarrow> dict option \<Rightarrow> db \<Rightarrow> (job \<times> db) res" where
  "complete_job e job_id r =
     updated_job job_id (\<lambda>j. j\<lparr>j_status := Js_completed, j_result := r, j_completed_at := Some (now e)\<rparr>)"

definition fail_job :: "env \<Rightarrow> uuid \<Rightarrow> string \<Rightarrow> db \<Rightarrow> (job \<times> db) res" where
  "fail_job e job_id err =
     updated_job job_id (\<lambda>j. j\<lparr>j_status := Js_failed, j_error := Some err, j_completed_at := Some (now e)\<rparr>)"

definition heartbeat_job :: "env \<Rightarrow> uuid \<Rightarrow> db \<Rightarrow> db" where
  "heartbeat_job e job_id = update_job job_id (\<lambda>j. j\<lparr>j_heartbeat_at := Some (now e)\<rparr>)"

definition pause_job :: "uuid \<Rightarrow> dict option \<Rightarrow> db \<Rightarrow> (job \<times> db) res" where
  "pause_job job_id r =
     updated_job job_id (\<lambda>j. let j1 = j\<lparr>j_status := Js_paused\<rparr>
                             in case r of None \<Rightarrow> j1 | Some _ \<Rightarrow> j1\<lparr>j_result := r\<rparr>)"

definition resume_job :: "uuid \<Rightarrow> db \<Rightarrow> (job \<times> db) res" where
  "resume_job job_id =
     updated_job job_id (\<lambda>j. j\<lparr>j_status := Js_pending, j_claimed_by := None, j_claimed_at := None,
                               j_heartbeat_at := None\<rparr>)"

text \<open>SQL comparison with NULL is not true.\<close>

fun null_less :: "time option \<Rightarrow> time \<Rightarrow> bool" where
  "null_less None c = False"
| "null_less (Some t) c = (t < c)"

definition reclaim_cutoff :: "env \<Rightarrow> nat \<Rightarrow> time" where
  "reclaim_cutoff e heartbeat_timeout_s = now e - int heartbeat_timeout_s * 1000000"

definition is_stale :: "time \<Rightarrow> job \<Rightarrow> bool" where
  "is_stale cutoff j \<longleftrightarrow>
     j_status j \<in> {Js_claimed, Js_running} \<and>
     (j_heartbeat_at j = None \<and> null_less (j_claimed_at j) cutoff \<or> null_less (j_heartbeat_at j) cutoff)"

text \<open>The row the loop body leaves for one stale job.\<close>

definition reclaimed_row :: "env \<Rightarrow> nat \<Rightarrow> job \<Rightarrow> job" where
  "reclaimed_row e max_reclaims j =
    (if j_reclaim_count j + 1 > max_reclaims
     then j\<lparr>j_status := Js_failed, j_error := Some ''reclaim_exhausted'', j_completed_at := Some (now e)\<rparr>
     else j\<lparr>j_status := Js_pending, j_claimed_by := None, j_claimed_at := None,
            j_heartbeat_at := None, j_reclaim_count := j_reclaim_count j + 1\<rparr>)"

definition reclaim_one :: "env \<Rightarrow> nat \<Rightarrow> nat \<Rightarrow> job \<Rightarrow> db \<times> nat \<times> nat \<Rightarrow> db \<times> nat \<times> nat" where
  "reclaim_one e heartbeat_timeout_s max_reclaims j acc =
    (case acc of (s, reclaimed, exhausted) \<Rightarrow>
      let next_count = j_reclaim_count j + 1;
          s1 = update_job (j_id j) (\<lambda>_. reclaimed_row e max_reclaims j) s
      in if next_count > max_reclaims
         then (emit_event_sync e ''job.reclaim_exhausted'' None (j_cycle_id j)
                 (Some [(''job_id'', JUuid (j_id j)), (''job_type'', JStr (j_type j)),
                        (''reclaim_count'', JInt (int (j_reclaim_count j)))]) Actor_system None s1,
               reclaimed, exhausted + 1)
         else (emit_event_sync e ''job.reclaimed'' None (j_cycle_id j)
                 (Some [(''job_id'', JUuid (j_id j)), (''job_type'', JStr (j_type j)),
                        (''reclaim_count'', JInt (int next_count)),
                        (''heartbeat_timeout_s'', JInt (int heartbeat_timeout_s))]) Actor_system None s1,
               reclaimed + 1, exhausted))"

definition reclaim_stale_jobs :: "env \<Rightarrow> nat \<Rightarrow> nat \<Rightarrow> db \<Rightarrow> (nat \<times> nat) \<times> db" where
  "reclaim_stale_jobs e heartbeat_timeout_s max_reclaims s =
    (case fold (reclaim_one e heartbeat_timeout_s max_reclaims)
            (filter (is_stale (reclaim_cutoff e heartbeat_timeout_s)) (jobs s)) (s, 0, 0) of
       (s', reclaimed, exhausted) \<Rightarrow> ((reclaimed, exhausted), s'))"

section \<open>Control endpoints\<close>

definition resolve_charter_id_for_job :: "db \<Rightarrow> job \<Rightarrow> uuid option res" where
  "resolve_charter_id_for_job s j =
    (case j_cycle_id j of None \<Rightarrow> Inr None
     | Some c \<Rightarrow> scalar_one_or_none (map cy_charter_id (filter (\<lambda>r. cy_id r = c) (cycles s))))"

definition api_list_jobs :: "db \<Rightarrow> uuid option \<Rightarrow> nat \<Rightarrow> nat \<Rightarrow> job list \<times> nat" where
  "api_list_jobs s cycle_id offset limit =
    (let rows = (case cycle_id of None \<Rightarrow> jobs s
                 | Some c \<Rightarrow> filter (\<lambda>j. j_cycle_id j = Some c) (jobs s))
     in (page offset limit (order_desc j_created_at rows), length rows))"

text \<open>\<open>select(Job).where(Job.id == job_id)\<close>, 404 when there is no row.\<close>

definition api_get_job :: "db \<Rightarrow> uuid \<Rightarrow> job res" where
  "api_get_job s job_id =
    res_bind (scalar_one_or_none (filter (\<lambda>j. j_id j = job_id) (jobs s)))
      (\<lambda>r. case r of None \<Rightarrow> Inl (HTTPException 404) | Some j \<Rightarrow> Inr j)"

text \<open>
  The three control endpoints share their shape: fetch, guard on the status (409), set
  columns, emit an event.  A raised error leaves the request's transaction rolled back.
\<close>

definition control_job ::
  "job_status set \<Rightarrow> (job \<Rightarrow> job) \<Rightarrow> string \<Rightarrow> env \<Rightarrow> uuid \<Rightarrow> db \<Rightarrow> (job \<times> db) res" where
  "control_job ok f event e job_id s =
    res_bind (api_get_job s job_id) (\<lambda>j.
      if j_status j \<notin> ok then Inl (HTTPException 409)
      else res_bind (resolve_charter_id_for_job s j) (\<lambda>charter_id.
        Inr (f j, emit_event e event charter_id (j_cycle_id j)
                    (Some [(''job_id'', JUuid (j_id j))]) Actor_system None (update_job (j_id j) f s))))"

definition api_cancel_job :: "env \<Rightarrow> uuid \<Rightarrow> db \<Rightarrow> (job \<times> db) res" where
  "api_cancel_job e =
     control_job {Js_pending, Js_claimed, Js_running, Js_paused}
       (\<lambda>j. j\<lparr>j_status := Js_cancelled, j_completed_at := Some (now e)\<rparr>) ''job_cancelled'' e"

definition api_pause_job :: "env \<Rightarrow> uuid \<Rightarrow> db \<Rightarrow> (job \<times> db) res" where
  "api_pause_job e =
     control_job {Js_pending, Js_claimed, Js_running} (\<lambda>j. j\<lparr>j_status := Js_paused\<rparr>) ''job_paused'' e"

definition api_resume_job :: "env \<Rightarrow> uuid \<Rightarrow> db \<Rightarrow> (job \<times> db) res" where
  "api_resume_job e =
     control_job {Js_paused}
       (\<lambda>j. j\<lparr>j_status := Js_pending, j_claimed_by := None, j_claimed_at := None,
               j_heartbeat_at := None\<rparr>) ''job_resumed'' e"

section \<open>Claim sources\<close>

text \<open>
  What a pool of workers relies on: a claim hands out something available and takes it out
  of what is available, and nothing else changes.
\<close>

locale claim_source =
  fixes claim :: "'s \<Rightarrow> ('k \<times> 's) option"
    and avail :: "'s \<Rightarrow> 'k set"
    and inv :: "'s \<Rightarrow> bool"
  assumes claim_None: "inv s \<Longrightarrow> claim s = None \<longleftrightarrow> avail s = {}"
    and claim_Some: "inv s \<Longrightarrow> claim s = Some (k, s') \<Longrightarrow> k \<in> avail s \<and> avail s' = avail s - {k} \<and> inv s'"
    and avail_finite: "inv s \<Longrightarrow> finite (avail s)"
begin

fun drain :: "nat \<Rightarrow> 's \<Rightarrow> 'k list" where
  "drain 0 s = []"
| "drain (Suc n) s = (case claim s of None \<Rightarrow> [] | Some (k, s') \<Rightarrow> k # drain n s')"

lemma drain_subset: "inv s \<Longrightarrow> set (drain n s) \<subseteq> avail s"
proof (induction n s rule: drain.induct)
  case (2 n s)
  show ?case
  proof (cases "claim s")
    case (Some p)
    obtain k s' where p: "p = (k, s')" by (cases p)
    show ?thesis using claim_Some [OF 2(2), of k s'] 2(1) [OF Some] Some p by auto
  qed simp
qed simp

lemma drain_distinct: "inv s \<Longrightarrow> distinct (drain n s)"
proof (induction n s rule: drain.induct)
  case (2 n s)
  show ?case
  proof (cases "claim s")
    case (Some p)
    obtain k s' where p: "p = (k, s')" by (cases p)
    have c: "avail s' = avail s - {k}" "inv s'" using claim_Some [OF 2(2), of k s'] Some p by auto
    then show ?thesis using drain_subset [OF c(2), of n] 2(1) [OF Some] Some p by auto
  qed simp
qed simp

lemma drain_all: "inv s \<Longrightarrow> card (avail s) \<le> n \<Longrightarrow> set (drain n s) = avail s"
proof (induction n s rule: drain.induct)
  case (1 s)
  then show ?case using avail_finite by auto
next
  case (2 n s)
  show ?case
  proof (cases "claim s")
    case None
    then show ?thesis using claim_None [OF 2(2)] by simp
  next
    case (Some p)
    obtain k s' where p: "p = (k, s')" by (cases p)
    have c: "k \<in> avail s" "avail s' = avail s - {k}" "inv s'"
      using claim_Some [OF 2(2), of k s'] Some p by auto
    have "card (avail s') \<le> n"
      using c 2(3) avail_finite [OF 2(2)] by (simp add: card_Diff_singleton)
    then show ?thesis using 2(1) [OF Some, of k s'] Some p c by auto
  qed
qed

end

text \<open>A source that hands out the least available item of a ranking the claims do not change.\<close>

locale ranked_claim_source = claim_source claim avail inv
  for claim :: "'s \<Rightarrow> ('k \<times> 's) option" and avail :: "'s \<Rightarrow> 'k set" and inv :: "'s \<Rightarrow> bool" +
  fixes rank :: "'s \<Rightarrow> 'k \<Rightarrow> 'r::linorder"
  assumes claim_least: "inv s \<Longrightarrow> claim s = Some (k, s') \<Longrightarrow> l \<in> avail s \<Longrightarrow> rank s k \<le> rank s l"
    and rank_stable: "inv s \<Longrightarrow> claim s = Some (k, s') \<Longrightarrow> l \<in> avail s' \<Longrightarrow> rank s' l = rank s l"
begin

lemma drain_sorted: "inv s \<Longrightarrow> sorted (map (rank s) (drain n s))"
proof (induction n s rule: drain.induct)
  case (2 n s)
  show ?case
  proof (cases "claim s")
    case (Some p)
    obtain k s' where p: "p = (k, s')" by (cases p)
    have c: "avail s' = avail s - {k}" "inv s'" using claim_Some [OF 2(2), of k s'] Some p by auto
    have sub: "set (drain n s') \<subseteq> avail s'" by (rule drain_subset [OF c(2)])
    have least: "\<forall>l\<in>set (drain n s'). rank s k \<le> rank s l"
      using claim_least [OF 2(2), of k s'] Some p sub c by auto
    have same: "map (rank s') (drain n s') = map (rank s) (drain n s')"
      using rank_stable [OF 2(2), of k s'] Some p sub by auto
    have "sorted (map (rank s') (drain n s'))" using 2(1) [OF Some] p c by simp
    then show ?thesis using Some p least same by simp
  qed simp
qed simp

end

section \<open>Claiming\<close>

definition job_rank :: "job \<Rightarrow> int \<times> time" where
  "job_rank j = (- j_priority j, j_created_at j)"

definition claimable :: "uuid set \<Rightarrow> job \<Rightarrow> bool" where
  "claimable locked j \<longleftrightarrow> j_status j = Js_pending \<and> j_id j \<notin> locked"

definition claimed_row :: "env \<Rightarrow> string \<Rightarrow> job \<Rightarrow> job" where
  "claimed_row e w j = j\<lparr>j_status := Js_claimed, j_claimed_by := Some w, j_claimed_at := Some (now e)\<rparr>"

definition job_ids :: "db \<Rightarrow> uuid list" where
  "job_ids s = map j_id (jobs s)"

lemma claim_order_hd:
  assumes "first_row (claim_order js) = Some r"
  shows "r \<in> set js \<and> (\<forall>q\<in>set js. job_rank r \<le> job_rank q)"
proof -
  from assms obtain t where t: "sort_key (\<lambda>r. - j_priority r) (sort_key j_created_at js) = r # t"
    by (auto simp: first_row_def claim_order_def order_desc_def split: list.splits)
  have "r \<in> set js" using t by (metis list.set_intros(1) set_sort)
  then show ?thesis using hd_two_keys [OF t] by (fastforce simp: job_rank_def less_eq_prod_def)
qed

lemma claim_order_Nil: "first_row (claim_order js) = None \<longleftrightarrow> js = []"
  by (simp add: first_row_None_iff claim_order_def order_desc_def flip: set_empty)

lemma get_update_job_same:
  "(\<And>j. j_id (f j) = j_id j) \<Longrightarrow> get_job (update_job k f s) k = map_option f (get_job s k)"
  by (simp add: get_job_def update_job_def table_get_update_where) (auto simp: map_option_case split: option.splits dest: table_get_Some_in)

lemma claim_job_None: "claim_job e w locked s = (None, s') \<Longrightarrow> s' = s \<and> (\<forall>j\<in>set (jobs s). \<not> claimable locked j)"
proof -
  assume cl: "claim_job e w locked s = (None, s')"
  have "first_row (claim_order (filter (\<lambda>j. j_status j = Js_pending \<and> j_id j \<notin> locked) (jobs s))) = None"
  proof (rule ccontr)
    assume "\<not> ?thesis"
    then obtain r where r: "first_row (claim_order (filter (\<lambda>j. j_status j = Js_pending \<and> j_id j \<notin> locked) (jobs s))) = Some r"
      by auto
    have "r \<in> set (jobs s)" using claim_order_hd [OF r] by simp
    then have "get_job s (j_id r) \<noteq> None" by (auto simp: get_job_def table_get_None_iff)
    then show False using cl by (simp add: claim_job_def r Let_def get_update_job_same)
  qed
  note none = this
  then have "filter (\<lambda>j. j_status j = Js_pending \<and> j_id j \<notin> locked) (jobs s) = []"
    by (simp only: claim_order_Nil)
  moreover have "s' = s" using cl by (simp add: claim_job_def none)
  ultimately show ?thesis by (auto simp: claimable_def filter_empty_conv)
qed

lemma claim_job_Some:
  assumes d: "distinct (job_ids s)" and cl: "claim_job e w locked s = (Some j, s')"
  obtains r where "r \<in> set (jobs s)" "claimable locked r" "j = claimed_row e w r"
    "s' = update_job (j_id r) (claimed_row e w) s"
    "\<forall>q\<in>set (jobs s). claimable locked q \<longrightarrow> job_rank r \<le> job_rank q"
proof -
  let ?js = "filter (\<lambda>j. j_status j = Js_pending \<and> j_id j \<notin> locked) (jobs s)"
  from cl obtain r where r: "first_row (claim_order ?js) = Some r"
    by (auto simp: claim_job_def split: option.splits)
  have in_r: "r \<in> set (jobs s)" "claimable locked r"
    "\<forall>q\<in>set (jobs s). claimable locked q \<longrightarrow> job_rank r \<le> job_rank q"
    using claim_order_hd [OF r] by (auto simp: claimable_def)
  have g: "get_job s (j_id r) = Some r"
    using d in_r(1) by (simp add: get_job_def job_ids_def table_get_unique)
  have id: "j_id (claimed_row e w x) = j_id x" for x by (simp add: claimed_row_def)
  have "claim_job e w locked s =
      (get_job (update_job (j_id r) (claimed_row e w) s) (j_id r), update_job (j_id r) (claimed_row e w) s)"
    using r by (simp add: claim_job_def Let_def claimed_row_def [abs_def])
  then show thesis
    using that [of r] in_r cl g by (simp add: get_update_job_same [OF id])
qed

definition claim_step :: "env \<Rightarrow> string \<Rightarrow> uuid set \<Rightarrow> db \<Rightarrow> (uuid \<times> db) option" where
  "claim_step e w locked s =
    (case claim_job e w locked s of (None, _) \<Rightarrow> None | (Some j, s') \<Rightarrow> Some (j_id j, s'))"

definition claimable_ids :: "uuid set \<Rightarrow> db \<Rightarrow> uuid set" where
  "claimable_ids locked s = j_id ` {j \<in> set (jobs s). claimable locked j}"

definition rank_of :: "db \<Rightarrow> uuid \<Rightarrow> int \<times> time" where
  "rank_of s k = (case get_job s k of None \<Rightarrow> (0, 0) | Some j \<Rightarrow> job_rank j)"

lemma job_ids_update_job: "(\<And>j. j_id (f j) = j_id j) \<Longrightarrow> job_ids (update_job k f s) = job_ids s"
  by (simp add: job_ids_def update_job_def map_update_where)

lemma jobs_update_job: "jobs (update_job k f s) = update_where (\<lambda>j. j_id j = k) f (jobs s)"
  by (simp add: update_job_def)

lemma claimed_row_simps [simp]:
  "j_id (claimed_row e w j) = j_id j" "j_status (claimed_row e w j) = Js_claimed"
  "job_rank (claimed_row e w j) = job_rank j"
  "j_claimed_by (claimed_row e w j) = Some w" "j_claimed_at (claimed_row e w j) = Some (now e)"
  "j_reclaim_count (claimed_row e w j) = j_reclaim_count j"
  by (simp_all add: claimed_row_def job_rank_def)

lemma get_update_job:
  "(\<And>j. j_id (f j) = j_id j) \<Longrightarrow>
   get_job (update_job k f s) l = (if l = k then map_option f (get_job s k) else get_job s l)"
  unfolding get_job_def update_job_def
  using keyed_table.get_upd [OF keyed_table_list, where key = j_id and f = f] by simp

lemma get_job_in: "distinct (job_ids s) \<Longrightarrow> j \<in> set (jobs s) \<Longrightarrow> get_job s (j_id j) = Some j"
  by (simp add: get_job_def job_ids_def table_get_unique)

lemma rank_of_claimed: "rank_of (update_job k (claimed_row e w) s) l = rank_of s l"
  by (cases "l = k"; cases "get_job s l") (simp_all add: rank_of_def get_update_job)

lemma claimable_ids_filter: "claimable_ids locked s = set (map j_id (filter (claimable locked) (jobs s)))"
  by (auto simp: claimable_ids_def)

lemma claim_step_Some:
  assumes "distinct (job_ids s)" and "claim_step e w locked s = Some (k, s')"
  obtains r where "r \<in> set (jobs s)" "claimable locked r" "k = j_id r"
    "s' = update_job k (claimed_row e w) s"
    "\<forall>q\<in>set (jobs s). claimable locked q \<longrightarrow> job_rank r \<le> job_rank q"
proof -
  from assms(2) obtain j where "claim_job e w locked s = (Some j, s')" and k: "k = j_id j"
    by (auto simp: claim_step_def split: prod.splits option.splits)
  from claim_job_Some [OF assms(1) this(1)] obtain r where "r \<in> set (jobs s)" "claimable locked r"
    "j = claimed_row e w r" "s' = update_job (j_id r) (claimed_row e w) s"
    "\<forall>q\<in>set (jobs s). claimable locked q \<longrightarrow> job_rank r \<le> job_rank q" by blast
  with k show thesis by (intro that [of r]) simp_all
qed

lemma claimable_ids_claimed:
  assumes "distinct (job_ids s)" and "r \<in> set (jobs s)"
  shows "claimable_ids locked (update_job (j_id r) (claimed_row e w) s) = claimable_ids locked s - {j_id r}"
proof -
  have "claimable locked (claimed_row e w j) = False" for j by (simp add: claimable_def)
  then show ?thesis
    unfolding claimable_ids_def jobs_update_job set_update_where by (auto simp: image_iff)
qed

interpretation jq: ranked_claim_source "claim_step e w locked" "claimable_ids locked"
  "\<lambda>s. distinct (job_ids s)" rank_of
proof unfold_locales
  fix s assume "distinct (job_ids s)"
  show "finite (claimable_ids locked s)" by (simp add: claimable_ids_def)
next
  fix s assume d: "distinct (job_ids s)"
  show "claim_step e w locked s = None \<longleftrightarrow> claimable_ids locked s = {}"
  proof
    assume "claim_step e w locked s = None"
    then obtain s' where "claim_job e w locked s = (None, s')"
      by (auto simp: claim_step_def split: prod.splits option.splits)
    then show "claimable_ids locked s = {}" using claim_job_None by (fastforce simp: claimable_ids_def)
  next
    assume e: "claimable_ids locked s = {}"
    show "claim_step e w locked s = None"
    proof (rule ccontr)
      assume "claim_step e w locked s \<noteq> None"
      then obtain k s' where "claim_step e w locked s = Some (k, s')" by auto
      with d e show False by (auto elim!: claim_step_Some simp: claimable_ids_def)
    qed
  qed
next
  fix s k s' assume d: "distinct (job_ids s)" and "claim_step e w locked s = Some (k, s')"
  then show "k \<in> claimable_ids locked s \<and> claimable_ids locked s' = claimable_ids locked s - {k} \<and>
      distinct (job_ids s')"
  proof (rule claim_step_Some)
    fix r assume r: "r \<in> set (jobs s)" "claimable locked r" "k = j_id r"
      "s' = update_job k (claimed_row e w) s"
    then have "k \<in> claimable_ids locked s" by (auto simp: claimable_ids_def)
    then show ?thesis using d r by (simp add: claimable_ids_claimed job_ids_update_job)
  qed
next
  fix s k s' l assume d: "distinct (job_ids s)" and c: "claim_step e w locked s = Some (k, s')"
    and l: "l \<in> claimable_ids locked s"
  from l obtain q where "q \<in> set (jobs s)" "claimable locked q" "l = j_id q" by (auto simp: claimable_ids_def)
  then show "rank_of s k \<le> rank_of s l"
    using c d by (auto elim!: claim_step_Some simp: rank_of_def get_job_in [OF d])
next
  fix s k s' l assume d: "distinct (job_ids s)" and c: "claim_step e w locked s = Some (k, s')"
  then show "rank_of s' l = rank_of s l"
    by (auto elim!: claim_step_Some simp: rank_of_claimed)
qed

section \<open>Reclaiming\<close>

lemma reclaimed_row_simps [simp]:
  "j_id (reclaimed_row e m j) = j_id j" "j_cycle_id (reclaimed_row e m j) = j_cycle_id j"
  "j_payload (reclaimed_row e m j) = j_payload j" "j_type (reclaimed_row e m j) = j_type j"
  by (simp_all add: reclaimed_row_def)

lemma fold_reclaim_jobs:
  "jobs (fst (fold (reclaim_one e h m) xs acc)) =
     fold (\<lambda>j t. update_where (\<lambda>r. j_id r = j_id j) (\<lambda>_. reclaimed_row e m j) t) xs (jobs (fst acc))"
proof (induction xs arbitrary: acc)
  case (Cons x xs)
  have "jobs (fst (reclaim_one e h m x acc)) =
      update_where (\<lambda>r. j_id r = j_id x) (\<lambda>_. reclaimed_row e m x) (jobs (fst acc))"
    by (cases acc) (simp add: reclaim_one_def Let_def update_job_def)
  then show ?case by (simp add: Cons)
qed simp

lemma fold_reclaim_counts:
  "snd (fold (reclaim_one e h m) xs (s, r, x)) =
     (r + length (filter (\<lambda>j. j_reclaim_count j < m) xs),
      x + length (filter (\<lambda>j. m \<le> j_reclaim_count j) xs))"
  by (induction xs arbitrary: s r x) (auto simp: reclaim_one_def Let_def)

lemma jobs_reclaim:
  assumes "distinct (job_ids s)"
  shows "jobs (snd (reclaim_stale_jobs e h m s)) =
    map (\<lambda>j. if is_stale (reclaim_cutoff e h) j then reclaimed_row e m j else j) (jobs s)"
proof -
  have "snd (reclaim_stale_jobs e h m s) =
      fst (fold (reclaim_one e h m) (filter (is_stale (reclaim_cutoff e h)) (jobs s)) (s, 0, 0))"
    by (simp add: reclaim_stale_jobs_def split: prod.splits)
  then show ?thesis
    using fold_replace_rows [of j_id "[]" "jobs s" "reclaimed_row e m" "is_stale (reclaim_cutoff e h)"] assms
    by (simp add: fold_reclaim_jobs job_ids_def)
qed

lemma reclaim_counts:
  "fst (reclaim_stale_jobs e h m s) =
    (let st = filter (is_stale (reclaim_cutoff e h)) (jobs s)
     in (length (filter (\<lambda>j. j_reclaim_count j < m) st), length (filter (\<lambda>j. m \<le> j_reclaim_count j) st)))"
proof -
  let ?st = "filter (is_stale (reclaim_cutoff e h)) (jobs s)"
  obtain s' r x where f: "fold (reclaim_one e h m) ?st (s, 0, 0) = (s', r, x)" by (rule prod_cases3)
  then have "(r, x) = (length (filter (\<lambda>j. j_reclaim_count j < m) ?st),
      length (filter (\<lambda>j. m \<le> j_reclaim_count j) ?st))"
    using fold_reclaim_counts [of e h m ?st s 0 0] unfolding f by simp
  then show ?thesis by (simp add: reclaim_stale_jobs_def f Let_def)
qed

lemma reclaimed_not_stale: "\<not> is_stale c (reclaimed_row e m j)"
  by (simp add: is_stale_def reclaimed_row_def)

section \<open>Interleavings of workers and users\<close>

abbreviation terminal_jobs :: "job_status set" where
  "terminal_jobs \<equiv> {Js_completed, Js_failed, Js_cancelled}"

definition job_wf :: "nat \<Rightarrow> job \<Rightarrow> bool" where
  "job_wf m j \<longleftrightarrow>
     (j_status j = Js_pending \<longrightarrow> j_claimed_by j = None \<and> j_claimed_at j = None) \<and>
     (j_status j = Js_claimed \<longrightarrow> j_claimed_by j \<noteq> None \<and> j_claimed_at j \<noteq> None) \<and>
     (j_status j \<in> terminal_jobs \<longrightarrow> j_completed_at j \<noteq> None) \<and>
     (j_status j = Js_failed \<longrightarrow> j_error j \<noteq> None) \<and>
     j_reclaim_count j \<le> m"

definition queue_wf :: "nat \<Rightarrow> db \<Rightarrow> bool" where
  "queue_wf m s \<longleftrightarrow> distinct (job_ids s) \<and> (\<forall>j\<in>set (jobs s). job_wf m j)"

inductive queue_step :: "nat \<Rightarrow> db \<Rightarrow> db \<Rightarrow> bool" for m where
  create: "new_uuid e s \<notin> set (job_ids s) \<Longrightarrow> queue_step m s (snd (create_job e c t p pr s))"
| claim: "queue_step m s (snd (claim_job e w locked s))"
| start: "start_job k s = Inr (j, s') \<Longrightarrow> queue_step m s s'"
| complete: "complete_job e k r s = Inr (j, s') \<Longrightarrow> queue_step m s s'"
| fail: "fail_job e k err s = Inr (j, s') \<Longrightarrow> queue_step m s s'"
| heartbeat: "queue_step m s (heartbeat_job e k s)"
| pause: "pause_job k r s = Inr (j, s') \<Longrightarrow> queue_step m s s'"
| resume: "resume_job k s = Inr (j, s') \<Longrightarrow> queue_step m s s'"
| reclaim: "queue_step m s (snd (reclaim_stale_jobs e h m s))"
| api_cancel: "api_cancel_job e k s = Inr (j, s') \<Longrightarrow> queue_step m s s'"
| api_pause: "api_pause_job e k s = Inr (j, s') \<Longrightarrow> queue_step m s s'"
| api_resume: "api_resume_job e k s = Inr (j, s') \<Longrightarrow> queue_step m s s'"

inductive_cases queue_stepE: "queue_step m s s'"

lemma updated_job_Inr: "updated_job k f s = Inr (j, s') \<Longrightarrow> s' = update_job k f s \<and> get_job s' k = Some j"
  by (auto simp: updated_job_def Let_def split: option.splits)

lemma control_job_Inr:
  assumes "control_job ok f ev e k s = Inr (j', s')"
  obtains j ch where "j \<in> set (jobs s)" "j_id j = k" "j_status j \<in> ok" "j' = f j"
    "filter (\<lambda>j. j_id j = k) (jobs s) = [j]"
    "s' = emit_event_sync e ev ch (j_cycle_id j) (Some [(''job_id'', JUuid k)]) Actor_system None
            (update_job k f s)"
proof (cases "api_get_job s k")
  case (Inl x)
  then show ?thesis using assms by (simp add: control_job_def)
next
  case (Inr j)
  then have f: "filter (\<lambda>j. j_id j = k) (jobs s) = [j]"
    by (cases "scalar_one_or_none (filter (\<lambda>j. j_id j = k) (jobs s))")
       (auto simp: api_get_job_def scalar_one_or_none_Some_iff split: option.splits)
  have "j \<in> set (filter (\<lambda>j. j_id j = k) (jobs s))" by (simp add: f)
  then have j: "j \<in> set (jobs s)" "j_id j = k" by auto
  show ?thesis
  proof (cases "j_status j \<in> ok")
    case False
    then show ?thesis using assms Inr by (simp add: control_job_def)
  next
    case True
    note ok = this
    show ?thesis
    proof (cases "resolve_charter_id_for_job s j")
      case (Inl x)
      then show ?thesis using assms Inr ok by (simp add: control_job_def)
    next
      case ch: (Inr ch)
      then show ?thesis
        using assms Inr ok j f by (intro that [of j ch]) (simp_all add: control_job_def emit_event_eq_sync)
    qed
  qed
qed

lemma queue_wf_update:
  assumes "queue_wf m s" and "\<And>j. j_id (f j) = j_id j"
    and "\<And>j. j \<in> set (jobs s) \<Longrightarrow> j_id j = k \<Longrightarrow> job_wf m j \<Longrightarrow> job_wf m (f j)"
  shows "queue_wf m (update_job k f s)"
proof -
  have "job_wf m (if j_id j = k then f j else j)" if "j \<in> set (jobs s)" for j
    using assms(1) assms(3) [OF that] that by (simp add: queue_wf_def)
  then have "\<forall>j\<in>set (jobs (update_job k f s)). job_wf m j"
    unfolding jobs_update_job set_update_where by blast
  moreover have "job_ids (update_job k f s) = job_ids s" by (rule job_ids_update_job) (rule assms(2))
  ultimately show ?thesis using assms(1) by (simp add: queue_wf_def)
qed

lemma queue_wf_emit [simp]: "queue_wf m (emit_event_sync e et ch cy p act ai s) = queue_wf m s"
  by (simp add: queue_wf_def job_ids_def)

lemma control_job_wf:
  assumes "control_job ok f ev e k s = Inr (j', s')" and "queue_wf m s"
    and "\<And>j. j_id (f j) = j_id j"
    and "\<And>j. j_status j \<in> ok \<Longrightarrow> job_wf m j \<Longrightarrow> job_wf m (f j)"
  shows "queue_wf m s'"
  using assms(1)
proof (rule control_job_Inr)
  fix j ch assume j: "j \<in> set (jobs s)" "j_id j = k" "j_status j \<in> ok"
    and u: "filter (\<lambda>j. j_id j = k) (jobs s) = [j]"
    and s': "s' = emit_event_sync e ev ch (j_cycle_id j) (Some [(''job_id'', JUuid k)]) Actor_system None
            (update_job k f s)"
  have "x = j" if "x \<in> set (jobs s)" "j_id x = k" for x
  proof -
    have "x \<in> set (filter (\<lambda>j. j_id j = k) (jobs s))" using that by simp
    then show ?thesis by (simp add: u)
  qed
  then have only: "job_wf m (f x)" if "x \<in> set (jobs s)" "j_id x = k" "job_wf m x" for x
    using assms(4) [of x] that j(3) by simp
  have "queue_wf m (update_job k f s)"
    by (rule queue_wf_update [OF assms(2,3) only])
  then show ?thesis by (simp add: s')
qed

lemma queue_wf_claim: "queue_wf m s \<Longrightarrow> queue_wf m (snd (claim_job e w locked s))"
proof -
  assume wf: "queue_wf m s"
  obtain oj s' where c: "claim_job e w locked s = (oj, s')" by (cases "claim_job e w locked s")
  show ?thesis
  proof (cases oj)
    case None
    then show ?thesis using c claim_job_None wf by fastforce
  next
    case (Some j)
    have d: "distinct (job_ids s)" using wf by (simp add: queue_wf_def)
    have "queue_wf m s'"
    proof (rule claim_job_Some [OF d c [unfolded Some]])
      fix r assume "s' = update_job (j_id r) (claimed_row e w) s"
      moreover have "queue_wf m (update_job (j_id r) (claimed_row e w) s)"
        by (rule queue_wf_update [OF wf]) (auto simp: job_wf_def)
      ultimately show ?thesis by simp
    qed
    then show ?thesis using c by simp
  qed
qed

lemma job_wf_reclaimed: "job_wf m j \<Longrightarrow> job_wf m (reclaimed_row e m j)"
  by (auto simp: job_wf_def reclaimed_row_def)

lemma job_ids_reclaim:
  "distinct (job_ids s) \<Longrightarrow> job_ids (snd (reclaim_stale_jobs e h m s)) = job_ids s"
  by (simp add: job_ids_def jobs_reclaim)

lemma queue_wf_reclaim: "queue_wf m s \<Longrightarrow> queue_wf m (snd (reclaim_stale_jobs e h m s))"
  by (auto simp: queue_wf_def jobs_reclaim job_ids_reclaim job_wf_reclaimed)

lemmas job_op_defs = start_job_def complete_job_def fail_job_def pause_job_def resume_job_def
  api_cancel_job_def api_pause_job_def api_resume_job_def

lemma updated_job_wf:
  assumes "updated_job k f s = Inr (j, s')" and "queue_wf m s"
    and "\<And>j. j_id (f j) = j_id j" and "\<And>j. job_wf m j \<Longrightarrow> job_wf m (f j)"
  shows "queue_wf m s'"
  using updated_job_Inr [OF assms(1)] assms by (auto intro: queue_wf_update)

lemma queue_step_wf: "queue_step m s s' \<Longrightarrow> queue_wf m s \<Longrightarrow> queue_wf m s'"
proof (induction rule: queue_step.induct)
  case (create e s c t p pr)
  then show ?case by (auto simp: queue_wf_def create_job_def Let_def job_ids_def job_wf_def)
next
  case (heartbeat s e k)
  then show ?case unfolding heartbeat_job_def by (rule queue_wf_update) (auto simp: job_wf_def)
qed (auto simp: queue_wf_claim queue_wf_reclaim job_op_defs job_wf_def Let_def split: option.splits
     elim!: updated_job_wf control_job_wf)

section \<open>Properties\<close>

fun claim_all :: "env \<Rightarrow> string \<Rightarrow> uuid set \<Rightarrow> nat \<Rightarrow> db \<Rightarrow> uuid list" where
  "claim_all e w locked 0 s = []"
| "claim_all e w locked (Suc n) s =
    (case claim_job e w locked s of (None, _) \<Rightarrow> [] | (Some j, s') \<Rightarrow> j_id j # claim_all e w locked n s')"

lemma claim_all_drain: "claim_all e w locked n s = claim_source.drain (claim_step e w locked) n s"
  by (induction n arbitrary: s)
     (auto simp: jq.drain.simps claim_step_def split: prod.splits option.splits)

text \<open>
  C2: Claiming until the queue is empty hands out every claimable pending job exactly once,
  highest priority first and oldest first within a priority.
\<close>

theorem claims_drain_in_order:
  assumes "distinct (job_ids s)" and "card (claimable_ids locked s) \<le> n"
  shows "let ks = claim_all e w locked n s in
    distinct ks \<and> set ks = claimable_ids locked s \<and> sorted (map (rank_of s) ks)"
  using jq.drain_distinct [OF assms(1)] jq.drain_all [OF assms] jq.drain_sorted [OF assms(1)]
  by (simp add: claim_all_drain)

definition demo_queue :: db where
  "demo_queue = snd (create_job demo_env None ''noop'' None 5
     (snd (create_job demo_env None ''noop'' None 1 empty_db)))"

lemma demo_queue_facts:
  "job_ids demo_queue = [100, 101]" "claimable_ids {} demo_queue = {100, 101}"
  "queue_wf 3 demo_queue" "get_job demo_queue 101 \<noteq> None"
  by (auto simp: demo_queue_def create_job_def Let_def empty_db_def job_ids_def claimable_ids_filter
      claimable_def new_uuid_def demo_env_def queue_wf_def job_wf_def get_job_def)

theorem claims_drain_in_order_witness:
  "set (claim_all demo_env ''w'' {} 2 demo_queue) = {100, 101} \<and>
   sorted (map (rank_of demo_queue) (claim_all demo_env ''w'' {} 2 demo_queue))"
  using claims_drain_in_order [of demo_queue "{}" 2 demo_env "''w''"]
  by (simp add: demo_queue_facts Let_def)

text \<open>
  Two claims in a row, by any workers at any times and whatever rows are locked, never
  return the same job: the first one takes it out of the pending set.
\<close>

theorem no_double_claim:
  assumes "distinct (job_ids s)"
    and c1: "claim_job e1 w1 l1 s = (Some j1, s1)" and c2: "claim_job e2 w2 l2 s1 = (Some j2, s2)"
  shows "j_id j1 \<noteq> j_id j2 \<and> j_status j1 = Js_claimed \<and> j_claimed_by j1 = Some w1 \<and>
    get_job s2 (j_id j1) = Some j1"
proof -
  from claim_job_Some [OF assms(1) c1] obtain r where r: "r \<in> set (jobs s)" "j1 = claimed_row e1 w1 r" "s1 = update_job (j_id r) (claimed_row e1 w1) s" by blast
  have d1: "distinct (job_ids s1)" using assms(1) r by (simp add: job_ids_update_job)
  have g1: "get_job s1 (j_id j1) = Some j1" using r assms(1) by (simp add: get_update_job get_job_in)
  from claim_job_Some [OF d1 c2] obtain q where q: "q \<in> set (jobs s1)" "claimable l2 q"
    "j2 = claimed_row e2 w2 q" "s2 = update_job (j_id q) (claimed_row e2 w2) s1" by blast
  have "j_id q \<noteq> j_id j1"
    using get_job_in [OF d1 q(1)] g1 q(2) r(2) by (auto simp: claimable_def)
  then show ?thesis using q g1 r by (auto simp: get_update_job)
qed

theorem no_double_claim_witness:
  "\<exists>j1 s1 j2 s2. claim_job demo_env ''a'' {} demo_queue = (Some j1, s1) \<and>
     claim_job demo_env ''b'' {} s1 = (Some j2, s2) \<and> j_id j1 \<noteq> j_id j2"
proof -
  let ?c = "claim_job demo_env ''a'' {} demo_queue"
  have d: "distinct (job_ids demo_queue)" by (simp add: demo_queue_facts)
  have "claim_step demo_env ''a'' {} demo_queue \<noteq> None"
    by (simp add: jq.claim_None [OF d] demo_queue_facts)
  then obtain k s1 where k: "claim_step demo_env ''a'' {} demo_queue = Some (k, s1)" by auto
  then obtain j1 where c1: "claim_job demo_env ''a'' {} demo_queue = (Some j1, s1)"
    by (auto simp: claim_step_def split: prod.splits option.splits)
  have s1: "distinct (job_ids s1)" "claimable_ids {} s1 = {100, 101} - {k}"
    using jq.claim_Some [OF d k] by (simp_all add: demo_queue_facts)
  have "claim_step demo_env ''b'' {} s1 \<noteq> None"
    using s1 by (simp add: jq.claim_None [OF s1(1)])
  then obtain j2 s2 where c2: "claim_job demo_env ''b'' {} s1 = (Some j2, s2)"
    by (auto simp: claim_step_def split: prod.splits option.splits)
  show ?thesis using c1 c2 no_double_claim [OF d c1 c2] by blast
qed

text \<open>
  C3: Every interleaving of worker and user operations keeps the queue well formed: distinct
  identifiers, pending jobs without and claimed jobs with an owner, a completion time on
  every finished job, an error on every failed one, and never more than \<open>max_reclaims\<close>
  reclaims of one job.
\<close>

theorem queue_reachable_wf:
  assumes "(queue_step m)\<^sup>*\<^sup>* s s'" and "queue_wf m s"
  shows "queue_wf m s'"
  using assms by (induction rule: rtranclp_induct) (auto intro: queue_step_wf)

theorem queue_reachable_wf_witness:
  "queue_wf 3 (snd (claim_job demo_env ''w'' {} demo_queue))"
  by (rule queue_reachable_wf [of 3 demo_queue])
     (auto simp: demo_queue_facts intro: queue_step.claim)

text \<open>
  One pass of the reclaimer rewrites exactly the stale jobs (those past their reclaim
  allowance become failed, the others pending with one more reclaim counted), reports how many of
  each, leaves no stale job behind and touches no other row.
\<close>

theorem reclaim_stale_jobs_spec:
  assumes "distinct (job_ids s)"
  shows "let stale = is_stale (reclaim_cutoff e h); out = reclaim_stale_jobs e h m s in
         jobs (snd out) = map (\<lambda>j. if stale j then reclaimed_row e m j else j) (jobs s) \<and>
         fst out = (length (filter (\<lambda>j. stale j \<and> j_reclaim_count j < m) (jobs s)),
                    length (filter (\<lambda>j. stale j \<and> m \<le> j_reclaim_count j) (jobs s))) \<and>
         filter stale (jobs (snd out)) = []"
  using assms reclaimed_not_stale
  by (auto simp: jobs_reclaim reclaim_counts Let_def filter_empty_conv conj_commute)

definition demo_stale :: db where
  "demo_stale = update_job 101 (claimed_row (demo_env\<lparr>now := 0\<rparr>) ''w'') demo_queue"

lemma demo_stale_ids: "distinct (job_ids demo_stale)"
  by (simp add: demo_stale_def job_ids_update_job demo_queue_facts)

theorem reclaim_stale_jobs_spec_witness:
  "fst (reclaim_stale_jobs (demo_env\<lparr>now := 100000000\<rparr>) 60 3 demo_stale) = (1, 0)"
  using reclaim_stale_jobs_spec [OF demo_stale_ids, of "demo_env\<lparr>now := 100000000\<rparr>" 60 3]
  by (simp add: Let_def demo_stale_def demo_queue_def create_job_def empty_db_def new_uuid_def
      demo_env_def update_job_def claimed_row_def is_stale_def reclaim_cutoff_def)

text \<open>
  The control endpoints respect finished work: on a completed, failed or cancelled job all
  three answer 409, on an unknown one 404, and resume answers 409 on everything but a paused
  job.
\<close>

theorem control_endpoints_errors:
  assumes "distinct (job_ids s)"
  shows "(get_job s k = None \<longrightarrow>
            (\<forall>f \<in> {api_cancel_job e, api_pause_job e, api_resume_job e}. f k s = Inl (HTTPException 404))) \<and>
         (\<forall>j. get_job s k = Some j \<and> j_status j \<in> terminal_jobs \<longrightarrow>
            (\<forall>f \<in> {api_cancel_job e, api_pause_job e, api_resume_job e}. f k s = Inl (HTTPException 409))) \<and>
         (\<forall>j. get_job s k = Some j \<and> j_status j \<noteq> Js_paused \<longrightarrow>
            api_resume_job e k s = Inl (HTTPException 409))"
proof -
  have none: "api_get_job s k = Inl (HTTPException 404)" if "get_job s k = None"
  proof -
    have "filter (\<lambda>j. j_id j = k) (jobs s) = []"
      using that by (auto simp: get_job_def table_get_None_iff filter_empty_conv)
    then show ?thesis by (simp add: api_get_job_def)
  qed
  have some: "api_get_job s k = Inr j" if "get_job s k = Some j" for j
    using that assms by (simp add: api_get_job_def get_job_def job_ids_def filter_key_singleton)
  show ?thesis
    by (auto simp: job_op_defs control_job_def none some)
qed

theorem control_endpoints_errors_witness:
  "api_cancel_job demo_env 7 demo_queue = Inl (HTTPException 404)"
  using control_endpoints_errors [of demo_queue 7 demo_env]
  by (auto simp: demo_queue_facts) (auto simp: get_job_def table_get_None_iff image_iff
      demo_queue_def create_job_def Let_def empty_db_def new_uuid_def demo_env_def)

end
