(* ===== verification/Autonomy_Core.thy ===== *)
theory Autonomy_Core
  imports Job_Queue
begin

text \<open>
  The pure and nearly pure parts of the autonomous loop under \<open>libs/autonomy\<close>: the policy
  (\<open>policy.py\<close>), budget tracking (\<open>budget.py\<close>), checkpoint gates (\<open>gates.py\<close>), the
  hypothesis lifecycle (\<open>hypothesis_lifecycle.py\<close>) and repetition detection
  (\<open>repetition.py\<close>).

  \<open>AutonomyPolicy.model_validate\<close> is pydantic's; it appears as a parameter of the operators
  that call it.  The text \<open>detail\<close> or \<open>reason\<close> of a result is not modelled beyond the name of
  the limit or gate.  SHA-256 is the parameter \<open>sha256\<close>, applied to the canonical value
  whose JSON text the code hashes.
\<close>

section \<open>Policy\<close>

record checkpoint_gate_config =
  after_every_run :: bool
  after_every_n_runs :: "int option"
  before_hardware_escalation :: bool
  before_result_promotion :: bool
  before_network_execution :: bool

record autonomy_policy =
  mode :: string
  max_total_runs :: "int option"
  max_wall_clock_hours :: "real option"
  max_runs_per_hypothesis :: "int option"
  max_wall_time_per_run_s :: "int option"
  summary_interval :: int
  checkpoint_gates :: checkpoint_gate_config

definition CheckpointGateConfig :: checkpoint_gate_config where
  "CheckpointGateConfig = \<lparr>after_every_run = False, after_every_n_runs = None,
     before_hardware_escalation = False, before_result_promotion = False,
     before_network_execution = False\<rparr>"

definition AutonomyPolicy :: autonomy_policy where
  "AutonomyPolicy = \<lparr>mode = ''supervised'', max_total_runs = None, max_wall_clock_hours = None,
     max_runs_per_hypothesis = None, max_wall_time_per_run_s = None, summary_interval = 5,
     checkpoint_gates = CheckpointGateConfig\<rparr>"

section \<open>Budget\<close>

text \<open>\<open>BudgetCheckResult\<close>: the name of the exceeded limit, None when \<open>exceeded\<close> is false.\<close>

type_synonym budget_check_result = "string option"

definition load_or_create_budget :: "env \<Rightarrow> uuid \<Rightarrow> db \<Rightarrow> (autonomy_budget \<times> db) res" where
  "load_or_create_budget e cycle_id s =
    res_bind (scalar_one_or_none (filter (\<lambda>b. ab_cycle_id b = cycle_id) (budgets s))) (\<lambda>r.
      case r of
        Some b \<Rightarrow> Inr (b, s)
      | None \<Rightarrow>
          let b = \<lparr>ab_id = new_uuid e s, ab_cycle_id = cycle_id, ab_total_runs = 0,
                   ab_wall_clock_elapsed_s = 0, ab_runs_per_hypothesis = [], ab_started_at = now e,
                   ab_last_run_completed_at = None, ab_created_at = now e, ab_updated_at = now e\<rparr>
          in Inr (b, (tick_uuid s)\<lparr>budgets := budgets s @ [b]\<rparr>))"

definition rph_get :: "(uuid \<times> nat) list \<Rightarrow> uuid \<Rightarrow> nat" where
  "rph_get rph hid = (case map_of rph hid of None \<Rightarrow> 0 | Some n \<Rightarrow> n)"

definition incremented :: "env \<Rightarrow> uuid \<Rightarrow> autonomy_budget \<Rightarrow> autonomy_budget" where
  "incremented e hid b =
    b\<lparr>ab_total_runs := ab_total_runs b + 1, ab_last_run_completed_at := Some (now e),
      ab_wall_clock_elapsed_s := of_int (now e - ab_started_at b) / 1000000,
      ab_updated_at := now e,
      ab_runs_per_hypothesis :=
        dset (ab_runs_per_hypothesis b) hid (rph_get (ab_runs_per_hypothesis b) hid + 1)\<rparr>"

definition increment_budget :: "env \<Rightarrow> autonomy_budget \<Rightarrow> uuid \<Rightarrow> db \<Rightarrow> autonomy_budget \<times> db" where
  "increment_budget e b hid s =
    (let b' = incremented e hid b
     in (b', s\<lparr>budgets := update_where (\<lambda>r. ab_id r = ab_id b) (\<lambda>_. b') (budgets s)\<rparr>))"

definition check_budget :: "autonomy_policy \<Rightarrow> autonomy_budget \<Rightarrow> budget_check_result" where
  "check_budget p b =
    (if (case max_total_runs p of None \<Rightarrow> False | Some m \<Rightarrow> int (ab_total_runs b) \<ge> m)
     then Some ''max_total_runs''
     else case max_wall_clock_hours p of
        None \<Rightarrow> None
      | Some h \<Rightarrow> (if ab_wall_clock_elapsed_s b / 3600 \<ge> h then Some ''max_wall_clock_hours'' else None))"

definition check_per_hypothesis_budget ::
  "autonomy_policy \<Rightarrow> autonomy_budget \<Rightarrow> uuid \<Rightarrow> budget_check_result" where
  "check_per_hypothesis_budget p b hid =
    (case max_runs_per_hypothesis p of
       None \<Rightarrow> None
     | Some m \<Rightarrow> (if int (rph_get (ab_runs_per_hypothesis b) hid) \<ge> m
                 then Some ''max_runs_per_hypothesis'' else None))"

section \<open>Gates\<close>

record gate_context =
  runs_since_last_gate :: nat
  gc_wall_clock_elapsed_s :: real
  next_hardware_profile :: json
  current_hardware_profile :: json
  is_result_promotion :: bool
  has_network_access :: bool

text \<open>\<open>GateResult\<close>: the gate that fires, None when \<open>should_pause\<close> is false.\<close>

type_synonym gate_result = "string option"

record next_spec_preview =
  preview_spec_id :: "uuid option"
  preview_hardware_profile :: json
  preview_network_access :: bool

definition is_hardware_escalation :: "json \<Rightarrow> json \<Rightarrow> bool res" where
  "is_hardware_escalation current next_profile =
    (if next_profile = JNull \<or> current = JNull then Inr False
     else res_bind (jget_or current ''gpu_count'' (JInt 0)) (\<lambda>current_gpus.
          res_bind (jget_or next_profile ''gpu_count'' (JInt 0)) (\<lambda>next_gpus.
          res_bind (py_gt next_gpus current_gpus) (\<lambda>more.
            if more then Inr True
            else res_bind (jget_or current ''memory_gb'' (JInt 0)) (\<lambda>current_mem.
                 res_bind (jget_or next_profile ''memory_gb'' (JInt 0)) (\<lambda>next_mem.
                   py_gt next_mem current_mem))))))"

definition evaluate_gates ::
  "autonomy_policy \<Rightarrow> autonomy_budget \<Rightarrow> gate_context \<Rightarrow> gate_result res" where
  "evaluate_gates p b c =
    (let g = checkpoint_gates p in
     if after_every_run g then Inr (Some ''after_every_run'')
     else if (case after_every_n_runs g of None \<Rightarrow> False | Some n \<Rightarrow> int (runs_since_last_gate c) \<ge> n)
     then Inr (Some ''after_every_n_runs'')
     else res_bind (if before_hardware_escalation g
                    then is_hardware_escalation (current_hardware_profile c) (next_hardware_profile c)
                    else Inr False) (\<lambda>esc.
       if esc then Inr (Some ''before_hardware_escalation'')
       else if before_result_promotion g \<and> is_result_promotion c then Inr (Some ''before_result_promotion'')
       else if before_network_execution g \<and> has_network_access c then Inr (Some ''before_network_execution'')
       else Inr None))"

definition network_heuristics :: "string list" where
  "network_heuristics =
     [''requests.'', ''httpx.'', ''urllib.request'', ''https://'', ''http://'', ''wget '', ''curl '']"

definition detect_network_access :: "(real \<Rightarrow> string) \<Rightarrow> experiment_spec \<Rightarrow> bool res" where
  "detect_network_access fr sp =
    (let cp = or_dict (sp_code_plan sp); br = or_dict (sp_build_recipe sp) in
     case (cp, br) of
       (JObj code_plan, JObj build_recipe) \<Rightarrow>
         let flags = [dget code_plan ''requires_network'', dget code_plan ''network_access'',
                      dget build_recipe ''requires_network'', dget build_recipe ''network_access''];
             blobs = (case dget_or code_plan ''files'' (JObj []) of
                        JObj files \<Rightarrow> map (\<lambda>(_, content). py_str fr content) files | _ \<Rightarrow> []) @
                     map (py_str fr) (filter (\<lambda>v. v \<noteq> JNull)
                       [dget code_plan ''entry_point'', dget code_plan ''dependencies'',
                        dget code_plan ''instructions'', dget build_recipe ''dockerfile_content''])
         in Inr ((\<exists>f\<in>set flags. truthy f) \<or>
                 (\<exists>blob\<in>set blobs. \<exists>marker\<in>set network_heuristics. has_text marker blob))
     | _ \<Rightarrow> Inl AttributeError)"

definition preview_next_spec ::
  "(real \<Rightarrow> string) \<Rightarrow> experiment_spec option \<Rightarrow> next_spec_preview res" where
  "preview_next_spec fr ospec =
    (case ospec of
       None \<Rightarrow> Inr \<lparr>preview_spec_id = None, preview_hardware_profile = JNull,
                    preview_network_access = False\<rparr>
     | Some sp \<Rightarrow> res_bind (detect_network_access fr sp) (\<lambda>net.
         Inr \<lparr>preview_spec_id = Some (sp_id sp), preview_hardware_profile = sp_hardware_profile sp,
              preview_network_access = net\<rparr>))"

section \<open>Hypothesis lifecycle\<close>

definition STALL_THRESHOLD :: nat where "STALL_THRESHOLD = 5"

definition VALID_TRANSITIONS :: "(string \<times> string list) list" where
  "VALID_TRANSITIONS =
     [(''compiled'', [''active'']),
      (''active'', [''promising'', ''stalled'', ''deprioritized'']),
      (''promising'', [''stalled'', ''validated'']),
      (''stalled'', [''deprioritized'']),
      (''deferred'', [''active''])]"

definition lifecycle_allowed :: "string \<Rightarrow> string list" where
  "lifecycle_allowed st = (case map_of VALID_TRANSITIONS st of None \<Rightarrow> [] | Some ts \<Rightarrow> ts)"

text \<open>\<open>stop_conditions[0]\<close> of a truthy JSON value.\<close>

fun json_first :: "json \<Rightarrow> json res" where
  "json_first (JList (x # _)) = Inr x"
| "json_first (JStr (c # _)) = Inr (JStr [c])"
| "json_first (JObj _) = Inl (KeyError ''0'')"
| "json_first _ = Inl TypeError"

definition check_stop_conditions :: "experiment_spec \<Rightarrow> metric_frontier \<Rightarrow> bool res" where
  "check_stop_conditions sp f =
    (if \<not> truthy (sp_stop_conditions sp) then Inr False
     else res_bind (json_first (sp_stop_conditions sp)) (\<lambda>first.
       case first of
         JObj d \<Rightarrow>
           (if dget d ''threshold'' = JNull then Inr False
            else if mf_metric_direction f = ''maximize'' then
              (case py_num (dget d ''threshold'') of None \<Rightarrow> Inl TypeError | Some t \<Rightarrow> Inr (mf_best_value f \<ge> t))
            else if mf_metric_direction f = ''minimize'' then
              (case py_num (dget d ''threshold'') of None \<Rightarrow> Inl TypeError | Some t \<Rightarrow> Inr (mf_best_value f \<le> t))
            else Inr False)
       | _ \<Rightarrow> Inr False))"

definition compute_lifecycle_status ::
  "string \<Rightarrow> string option \<Rightarrow> metric_frontier option \<Rightarrow> string \<Rightarrow> experiment_spec option \<Rightarrow> string option res" where
  "compute_lifecycle_status current signal frontier rec_type ospec =
    (let allowed = lifecycle_allowed current in
     if allowed = [] then Inr None
     else if current \<in> {''compiled'', ''deferred''} \<and> ''active'' \<in> set allowed then Inr (Some ''active'')
     else if rec_type = ''hypothesis_pivot'' \<and> ''deprioritized'' \<in> set allowed
     then Inr (Some ''deprioritized'')
     else res_bind
       (case (ospec, frontier) of
          (Some sp, Some f) \<Rightarrow>
            (if current = ''promising'' \<and> ''validated'' \<in> set allowed then check_stop_conditions sp f
             else Inr False)
        | _ \<Rightarrow> Inr False)
       (\<lambda>target.
          if target then Inr (Some ''validated'')
          else if signal \<in> {Some ''advancing'', Some ''breakthrough''} \<and> ''promising'' \<in> set allowed
          then Inr (Some ''promising'')
          else if (case frontier of None \<Rightarrow> False | Some f \<Rightarrow> mf_runs_since_improvement f \<ge> STALL_THRESHOLD)
                  \<and> ''stalled'' \<in> set allowed
          then Inr (Some ''stalled'')
          else Inr None))"

definition put_card :: "hypothesis_card \<Rightarrow> db \<Rightarrow> db" where
  "put_card c s = s\<lparr>cards := update_where (\<lambda>r. hc_id r = hc_id c) (\<lambda>_. c) (cards s)\<rparr>"

definition update_hypothesis_status ::
  "env \<Rightarrow> hypothesis_card \<Rightarrow> string option \<Rightarrow> metric_frontier option \<Rightarrow> string \<Rightarrow> experiment_spec option
   \<Rightarrow> db \<Rightarrow> (hypothesis_card \<times> db) res" where
  "update_hypothesis_status e crd signal frontier rec_type ospec s =
    res_bind (compute_lifecycle_status (hc_status crd) signal frontier rec_type ospec) (\<lambda>new_status.
      case new_status of
        None \<Rightarrow> Inr (crd, s)
      | Some st \<Rightarrow>
          (if st = hc_status crd then Inr (crd, s)
           else let c' = crd\<lparr>hc_status := st, hc_updated_at := now e\<rparr> in Inr (c', put_card c' s)))"

section \<open>Repetition\<close>

record repetition_result =
  is_duplicate :: bool
  is_near_duplicate :: bool
  prior_spec_id :: "uuid option"
  match_type :: "string option"

definition fingerprint_spec :: "(json \<Rightarrow> string) \<Rightarrow> experiment_spec \<Rightarrow> string" where
  "fingerprint_spec sha256 sp =
    sha256 (canon (JObj [(''code_plan'', sp_code_plan sp), (''controls'', sp_controls sp),
                         (''metrics'', sp_metrics sp), (''baseline'', sp_baseline sp)]))"

fun extract_numbers :: "json \<Rightarrow> real list" where
  "extract_numbers (JBool b) = [if b then 1 else 0]"
| "extract_numbers (JInt i) = [of_int i]"
| "extract_numbers (JFloat r) = [r]"
| "extract_numbers (JList xs) = concat (map extract_numbers xs)"
| "extract_numbers (JObj d) = concat (map snd (sort_key fst (map (\<lambda>(k, v). (k, extract_numbers v)) d)))"
| "extract_numbers _ = []"

fun json_len :: "json \<Rightarrow> nat res" where
  "json_len (JList xs) = Inr (length xs)"
| "json_len (JObj d) = Inr (length d)"
| "json_len (JStr s) = Inr (length s)"
| "json_len (JUuid u) = Inr 36"
| "json_len _ = Inl TypeError"

definition number_close :: "real \<Rightarrow> real \<Rightarrow> real \<Rightarrow> bool" where
  "number_close tolerance a b \<longleftrightarrow>
     a = 0 \<and> b = 0 \<or> max \<bar>a\<bar> \<bar>b\<bar> = 0 \<or> \<not> \<bar>a - b\<bar> / max \<bar>a\<bar> \<bar>b\<bar> > tolerance"

definition controls_within_tolerance :: "json \<Rightarrow> json \<Rightarrow> bool res" where
  "controls_within_tolerance a b =
    (if a = JNull \<and> b = JNull then Inr True
     else if a = JNull \<or> b = JNull then Inr False
     else res_bind (json_len a) (\<lambda>la. res_bind (json_len b) (\<lambda>lb.
       if la \<noteq> lb then Inr False
       else if canon a = canon b then Inr True
       else let na = extract_numbers a; nb = extract_numbers b in
         if length na \<noteq> length nb then Inr False
         else if na = [] then Inr False
         else Inr (list_all2 (number_close (1 / 100)) na nb))))"

definition without_controls :: "experiment_spec \<Rightarrow> json" where
  "without_controls sp =
    canon (JObj [(''code_plan'', sp_code_plan sp), (''metrics'', sp_metrics sp),
                 (''baseline'', sp_baseline sp)])"

fun first_near :: "experiment_spec \<Rightarrow> experiment_spec list \<Rightarrow> experiment_spec option res" where
  "first_near current [] = Inr None"
| "first_near current (prior # ps) =
    (if without_controls current = without_controls prior
     then res_bind (controls_within_tolerance (sp_controls current) (sp_controls prior))
            (\<lambda>close. if close then Inr (Some prior) else first_near current ps)
     else first_near current ps)"

definition prior_specs :: "db \<Rightarrow> uuid \<Rightarrow> experiment_spec \<Rightarrow> experiment_spec list" where
  "prior_specs s cycle_id current =
    filter (\<lambda>p. sp_cycle_id p = cycle_id \<and> sp_id p \<noteq> sp_id current \<and> sp_status p = ''validated'') (specs s)"

definition detect_repetition ::
  "(json \<Rightarrow> string) \<Rightarrow> db \<Rightarrow> uuid \<Rightarrow> experiment_spec \<Rightarrow> repetition_result res" where
  "detect_repetition sha256 s cycle_id current =
    (case find (\<lambda>p. fingerprint_spec sha256 current = fingerprint_spec sha256 p) (prior_specs s cycle_id current) of
       Some prior \<Rightarrow> Inr \<lparr>is_duplicate = True, is_near_duplicate = False,
                        prior_spec_id = Some (sp_id prior), match_type = Some ''exact''\<rparr>
     | None \<Rightarrow> res_bind (first_near current (prior_specs s cycle_id current)) (\<lambda>near.
         case near of
           Some prior \<Rightarrow> Inr \<lparr>is_duplicate = False, is_near_duplicate = True,
                            prior_spec_id = Some (sp_id prior), match_type = Some ''near_duplicate''\<rparr>
         | None \<Rightarrow> Inr \<lparr>is_duplicate = False, is_near_duplicate = False,
                        prior_spec_id = None, match_type = None\<rparr>))"

section \<open>Facts about the budget\<close>

definition budget_inv :: "autonomy_budget \<Rightarrow> bool" where
  "budget_inv b \<longleftrightarrow> distinct (map fst (ab_runs_per_hypothesis b)) \<and>
     sum_list (map snd (ab_runs_per_hypothesis b)) = ab_total_runs b"

lemma sum_dset_incr:
  "distinct (map fst d) \<Longrightarrow> sum_list (map snd (dset d k (rph_get d k + 1))) = sum_list (map snd d) + 1"
proof (induction d)
  case (Cons p d)
  obtain k' v where p: "p = (k', v)" by (cases p)
  show ?case
  proof (cases "k' = k")
    case False
    then have "rph_get ((k', v) # d) k = rph_get d k" by (simp add: rph_get_def)
    then show ?thesis using Cons False p by simp
  qed (simp add: p rph_get_def)
qed (simp add: rph_get_def)

lemma rph_get_incremented:
  "rph_get (ab_runs_per_hypothesis (incremented e h b)) h' =
     rph_get (ab_runs_per_hypothesis b) h' + (if h' = h then 1 else 0)"
  by (simp add: incremented_def rph_get_def map_of_dset)

lemma incremented_inv: "budget_inv b \<Longrightarrow> budget_inv (incremented e h b)"
  using sum_dset_incr [of "ab_runs_per_hypothesis b" h]
  by (simp add: budget_inv_def incremented_def distinct_keys_dset)

lemma incremented_simps [simp]:
  "ab_id (incremented e h b) = ab_id b" "ab_cycle_id (incremented e h b) = ab_cycle_id b"
  "ab_total_runs (incremented e h b) = ab_total_runs b + 1"
  "ab_started_at (incremented e h b) = ab_started_at b"
  by (simp_all add: incremented_def)

section \<open>Facts about gates\<close>

lemma list_gt_refl: "list_gt xs xs = Inr False"
  by (induction xs) (simp_all add: py_eq_def)

lemma py_gt_irrefl: "py_gt a a \<noteq> Inr True"
  by (cases "py_num a") (auto simp: py_gt.simps list_gt_refl split: json.splits)

lemma is_hardware_escalation_same: "is_hardware_escalation h h \<noteq> Inr True"
  by (auto simp: is_hardware_escalation_def res_bind_Inr_iff py_gt_irrefl split: if_splits)

fun gate_enabled :: "checkpoint_gate_config \<Rightarrow> string \<Rightarrow> bool" where
  "gate_enabled g n =
    (n = ''after_every_run'' \<and> after_every_run g \<or>
     n = ''after_every_n_runs'' \<and> after_every_n_runs g \<noteq> None \<or>
     n = ''before_hardware_escalation'' \<and> before_hardware_escalation g \<or>
     n = ''before_result_promotion'' \<and> before_result_promotion g \<or>
     n = ''before_network_execution'' \<and> before_network_execution g)"

section \<open>Facts about the lifecycle\<close>

definition lifecycle_stage :: "string \<Rightarrow> nat" where
  "lifecycle_stage st =
    (if st = ''active'' then 1 else if st = ''promising'' then 2 else if st = ''stalled'' then 3
     else if st = ''validated'' \<or> st = ''deprioritized'' then 4 else 0)"

lemma lifecycle_edge:
  "t \<in> set (lifecycle_allowed s) \<Longrightarrow>
   (s, t) \<in> {(''compiled'', ''active''), (''deferred'', ''active''), (''active'', ''promising''),
             (''active'', ''stalled''), (''active'', ''deprioritized''), (''promising'', ''stalled''),
             (''promising'', ''validated''), (''stalled'', ''deprioritized'')}"
  by (auto simp: lifecycle_allowed_def VALID_TRANSITIONS_def split: if_splits)

interpretation hl: strict_staged_machine lifecycle_allowed lifecycle_stage
proof unfold_locales
  fix s t assume "t \<in> set (lifecycle_allowed s)"
  from lifecycle_edge [OF this] have "lifecycle_stage s < lifecycle_stage t"
    by (elim insertE) (simp_all add: lifecycle_stage_def)
  then show "lifecycle_stage s \<le> lifecycle_stage t" "lifecycle_stage s < lifecycle_stage t" by simp_all
qed

lemma lifecycle_stage_le: "lifecycle_stage s \<le> 4"
  by (simp add: lifecycle_stage_def)

lemma compute_lifecycle_allowed:
  assumes "compute_lifecycle_status cur sg fr rt sp = Inr (Some t)"
  shows "t \<in> set (lifecycle_allowed cur)"
proof -
  have "''validated'' \<in> set (lifecycle_allowed cur)"
    if "cur = ''promising''"
    by (simp add: that lifecycle_allowed_def VALID_TRANSITIONS_def)
  then show ?thesis
    using assms
    by (auto simp: compute_lifecycle_status_def Let_def res_bind_Inr_iff split: if_splits option.splits)
qed

lemma compute_lifecycle_validated:
  assumes "compute_lifecycle_status cur sg fr rt sp = Inr (Some ''validated'')"
  shows "cur = ''promising'' \<and> (\<exists>x f. sp = Some x \<and> fr = Some f \<and> check_stop_conditions x f = Inr True)"
  using assms
  by (auto simp: compute_lifecycle_status_def Let_def res_bind_Inr_iff split: if_splits option.splits)

lemma update_hypothesis_status_Inr:
  assumes "update_hypothesis_status e c sg fr rt sp s = Inr (c', s')"
  shows "c' = c \<and> s' = s \<or>
    (\<exists>t. t \<in> set (lifecycle_allowed (hc_status c)) \<and> c' = c\<lparr>hc_status := t, hc_updated_at := now e\<rparr> \<and>
      s' = put_card c' s \<and> compute_lifecycle_status (hc_status c) sg fr rt sp = Inr (Some t))"
proof (cases "compute_lifecycle_status (hc_status c) sg fr rt sp")
  case (Inr st)
  then show ?thesis
    using assms compute_lifecycle_allowed
    by (cases st) (auto simp: update_hypothesis_status_def Let_def split: if_splits)
qed (use assms in \<open>simp add: update_hypothesis_status_def\<close>)

text \<open>The successive statuses of one card under repeated updates.\<close>

inductive card_history :: "string \<Rightarrow> string list \<Rightarrow> bool" where
  card_start: "card_history st []"
| card_step: "update_hypothesis_status e c sg fr rt sp s = Inr (c', s') \<Longrightarrow> hc_status c' \<noteq> hc_status c \<Longrightarrow>
    card_history (hc_status c') ts \<Longrightarrow> card_history (hc_status c) (hc_status c' # ts)"

lemma card_history_walk: "card_history st ts \<Longrightarrow> hl.walk st ts"
  by (induction rule: card_history.induct) (auto dest!: update_hypothesis_status_Inr)

section \<open>Facts about repetition\<close>

lemma number_close_sym: "number_close t a b = number_close t b a"
  by (simp add: number_close_def max.commute abs_minus_commute conj_commute)

lemma controls_within_tolerance_sym:
  "controls_within_tolerance a b = Inr c \<Longrightarrow> controls_within_tolerance b a = Inr c"
proof -
  have "list_all2 (number_close t) xs ys = list_all2 (number_close t) ys xs" for t xs ys
    by (simp add: list_all2_conv_all_nth number_close_sym [of t] cong: conj_cong) auto
  then show "controls_within_tolerance a b = Inr c \<Longrightarrow> controls_within_tolerance b a = Inr c"
    by (auto simp: controls_within_tolerance_def res_bind_Inr_iff Let_def eq_commute [of "canon a"] split: if_splits)
qed

lemma first_near_Some:
  "first_near cur ps = Inr (Some p) \<Longrightarrow>
   p \<in> set ps \<and> without_controls cur = without_controls p \<and>
   controls_within_tolerance (sp_controls cur) (sp_controls p) = Inr True"
  by (induction cur ps rule: first_near.induct) (auto simp: res_bind_Inr_iff split: if_splits)

definition same_experiment :: "experiment_spec \<Rightarrow> experiment_spec \<Rightarrow> bool" where
  "same_experiment a b \<longleftrightarrow>
     canon (sp_code_plan a) = canon (sp_code_plan b) \<and> canon (sp_controls a) = canon (sp_controls b) \<and>
     canon (sp_metrics a) = canon (sp_metrics b) \<and> canon (sp_baseline a) = canon (sp_baseline b)"

lemma canon_spec_eq:
  "canon (JObj [(''code_plan'', a), (''controls'', b), (''metrics'', c), (''baseline'', d)]) =
   canon (JObj [(''code_plan'', a'), (''controls'', b'), (''metrics'', c'), (''baseline'', d')]) \<longleftrightarrow>
   canon a = canon a' \<and> canon b = canon b' \<and> canon c = canon c' \<and> canon d = canon d'"
  by auto

definition spec_key :: "experiment_spec \<Rightarrow> json" where
  "spec_key sp = canon (JObj [(''code_plan'', sp_code_plan sp), (''controls'', sp_controls sp),
                              (''metrics'', sp_metrics sp), (''baseline'', sp_baseline sp)])"

lemma fingerprint_key: "fingerprint_spec sha256 sp = sha256 (spec_key sp)"
  by (simp only: fingerprint_spec_def spec_key_def)

lemma spec_key_eq: "spec_key a = spec_key b \<longleftrightarrow> same_experiment a b"
  unfolding spec_key_def canon_spec_eq same_experiment_def by blast

section \<open>Properties\<close>

text \<open>
  The lifecycle of a hypothesis is monotone and finite: repeated updates of a card change its
  status at most four times, reach \<open>validated\<close> only from \<open>promising\<close>, and never change a card whose
  status has no outgoing edge (validated, deprioritized, rejected, candidate, selected).
\<close>

theorem card_history_bounded:
  assumes "card_history st ts"
  shows "lifecycle_stage st + length ts \<le> 4 \<and>
    (''validated'' \<in> set ts \<longrightarrow> ''promising'' \<in> set (st # ts)) \<and>
    (lifecycle_allowed st = [] \<longrightarrow> ts = [])"
proof (intro conjI)
  have w: "hl.walk st ts" using assms by (rule card_history_walk)
  then show "lifecycle_stage st + length ts \<le> 4"
    using hl.walk_length [OF w] lifecycle_stage_le [of "last (st # ts)"] by linarith
  show "lifecycle_allowed st = [] \<longrightarrow> ts = []" using w by (cases ts) auto
  show "''validated'' \<in> set ts \<longrightarrow> ''promising'' \<in> set (st # ts)"
    using w
  proof (induction ts arbitrary: st)
    case (Cons t ts)
    then show ?case using lifecycle_edge [of t st] by auto
  qed simp
qed

definition demo_card :: hypothesis_card where
  "demo_card = \<lparr>hc_id = 1, hc_session_id = 2, hc_charter_id = 3, hc_cycle_id = 4, hc_title = [],
     hc_statement = [], hc_evidence_ids = [], hc_critique = JNull,
     hc_novelty_score = None, hc_feasibility_score = None, hc_impact_score = None, hc_rank = None, hc_status = ''compiled'', hc_rejection_reason = None,
     hc_created_at = 0, hc_updated_at = 0\<rparr>"

lemma demo_card_activates:
  "update_hypothesis_status demo_env demo_card None None ''continue_current'' None empty_db =
     Inr (demo_card\<lparr>hc_status := ''active'', hc_updated_at := 1000\<rparr>,
          put_card (demo_card\<lparr>hc_status := ''active'', hc_updated_at := 1000\<rparr>) empty_db)"
  by (simp add: update_hypothesis_status_def compute_lifecycle_status_def lifecycle_allowed_def
      VALID_TRANSITIONS_def demo_card_def demo_env_def Let_def)

theorem card_history_bounded_witness:
  "card_history ''compiled'' [''active''] \<and> lifecycle_stage ''compiled'' + length [''active''] \<le> 4"
proof -
  have "card_history (hc_status demo_card) [''active'']"
    using card_history.card_step [OF demo_card_activates _ card_history.card_start]
    by (simp add: demo_card_def)
  then have "card_history ''compiled'' [''active'']" by (simp add: demo_card_def)
  then show ?thesis using card_history_bounded by blast
qed

text \<open>
  The budget counts every run once: after the runs of the hypotheses \<open>hs\<close> the total has
  grown by their number and each hypothesis by its own occurrences, and the per-hypothesis counts
  still add up to the total.
\<close>

theorem budget_counts_every_run:
  assumes "budget_inv b"
  shows "budget_inv (fold (incremented e) hs b) \<and>
    ab_total_runs (fold (incremented e) hs b) = ab_total_runs b + length hs \<and>
    rph_get (ab_runs_per_hypothesis (fold (incremented e) hs b)) h =
      rph_get (ab_runs_per_hypothesis b) h + count_list hs h"
  using assms
  by (induction hs arbitrary: b) (auto simp: incremented_inv rph_get_incremented)

definition demo_budget :: autonomy_budget where
  "demo_budget = \<lparr>ab_id = 1, ab_cycle_id = 4, ab_total_runs = 0, ab_wall_clock_elapsed_s = 0,
     ab_runs_per_hypothesis = [], ab_started_at = 0, ab_last_run_completed_at = None,
     ab_created_at = 0, ab_updated_at = 0\<rparr>"

theorem budget_counts_every_run_witness:
  "rph_get (ab_runs_per_hypothesis (fold (incremented demo_env) [7, 8, 7] demo_budget)) 7 = 2"
  using budget_counts_every_run [of demo_budget demo_env "[7, 8, 7]" 7]
  by (simp add: budget_inv_def demo_budget_def rph_get_def)

text \<open>
  A budget stop is permanent: once a run-count limit or the wall-clock limit is reached, it
  is still reached after any further run that completes later.
\<close>

theorem budget_stop_permanent:
  assumes "check_budget p b \<noteq> None"
    and "ab_wall_clock_elapsed_s b \<le> of_int (now e - ab_started_at b) / 1000000"
  shows "check_budget p (incremented e h b) \<noteq> None"
proof -
  have "ab_wall_clock_elapsed_s b / 3600 \<le> ab_wall_clock_elapsed_s (incremented e h b) / 3600"
    using assms(2) by (simp add: incremented_def)
  then show ?thesis
    using assms(1) by (auto simp: check_budget_def split: option.splits if_splits)
qed

theorem budget_stop_permanent_witness:
  "check_budget (AutonomyPolicy\<lparr>max_total_runs := Some 0\<rparr>) (incremented demo_env 7 demo_budget) \<noteq> None"
  using budget_stop_permanent [of "AutonomyPolicy\<lparr>max_total_runs := Some 0\<rparr>" demo_budget demo_env 7]
  by (simp add: check_budget_def demo_budget_def demo_env_def)

text \<open>
  Gates are opt-in: the default policy never pauses, a gate that fires is one the policy
  enables, and the hardware gate cannot fire between two runs with the same hardware profile.
\<close>

theorem gates_opt_in:
  "evaluate_gates AutonomyPolicy b c = Inr None \<and>
   (evaluate_gates p b c = Inr (Some g) \<longrightarrow> gate_enabled (checkpoint_gates p) g) \<and>
   (current_hardware_profile c = next_hardware_profile c \<longrightarrow>
      evaluate_gates p b c \<noteq> Inr (Some ''before_hardware_escalation''))"
  using is_hardware_escalation_same
  by (auto simp: evaluate_gates_def Let_def AutonomyPolicy_def CheckpointGateConfig_def res_bind_Inr_iff
      split: if_splits option.splits)

definition demo_context :: gate_context where
  "demo_context = \<lparr>runs_since_last_gate = 3, gc_wall_clock_elapsed_s = 0, next_hardware_profile = JNull,
     current_hardware_profile = JNull, is_result_promotion = True, has_network_access = False\<rparr>"

theorem gates_opt_in_witness:
  "gate_enabled (CheckpointGateConfig\<lparr>before_result_promotion := True\<rparr>) ''before_result_promotion''"
proof -
  let ?p = "AutonomyPolicy\<lparr>checkpoint_gates := CheckpointGateConfig\<lparr>before_result_promotion := True\<rparr>\<rparr>"
  have "evaluate_gates ?p demo_budget demo_context = Inr (Some ''before_result_promotion'')"
    by (simp add: evaluate_gates_def CheckpointGateConfig_def demo_context_def Let_def)
  then show ?thesis
    using gates_opt_in [of demo_budget demo_context ?p "''before_result_promotion''"] by simp
qed

text \<open>
  Exact repetition is detected exactly: where the hash separates the specifications compared,
  a spec is reported as a duplicate if and only if some other validated spec of the cycle has the
  same code plan, controls, metrics and baseline up to the order of dictionary keys.
\<close>

theorem exact_repetition_iff:
  assumes "inj_on sha256 (spec_key ` insert cur (set (prior_specs s k cur)))"
  shows "(\<exists>r. detect_repetition sha256 s k cur = Inr r \<and> is_duplicate r) \<longleftrightarrow>
    (\<exists>p\<in>set (specs s). sp_cycle_id p = k \<and> sp_id p \<noteq> sp_id cur \<and> sp_status p = ''validated'' \<and>
       same_experiment cur p)"
proof -
  have fp: "fingerprint_spec sha256 cur = fingerprint_spec sha256 p \<longleftrightarrow> same_experiment cur p"
    if "p \<in> set (prior_specs s k cur)" for p
  proof -
    have "spec_key cur \<in> spec_key ` insert cur (set (prior_specs s k cur))"
      "spec_key p \<in> spec_key ` insert cur (set (prior_specs s k cur))" using that by auto
    from inj_on_eq_iff [OF assms this] show ?thesis by (simp add: fingerprint_key spec_key_eq)
  qed
  have "(\<exists>r. detect_repetition sha256 s k cur = Inr r \<and> is_duplicate r) \<longleftrightarrow>
      find (\<lambda>p. fingerprint_spec sha256 cur = fingerprint_spec sha256 p) (prior_specs s k cur) \<noteq> None"
    by (auto simp: detect_repetition_def res_bind_Inr_iff split: option.splits)
  also have "\<dots> \<longleftrightarrow> (\<exists>p\<in>set (prior_specs s k cur). same_experiment cur p)"
    using fp by (auto simp: find_None_iff)
  finally show ?thesis by (auto simp: prior_specs_def)
qed

definition demo_spec :: experiment_spec where
  "demo_spec = \<lparr>sp_id = 1, sp_card_id = 7, sp_charter_id = 3, sp_cycle_id = 4, sp_title = [],
     sp_description = [], sp_baseline = JNull, sp_controls = JList [], sp_metrics = JList [],
     sp_expected_artifacts = JNull, sp_stop_conditions = JNull, sp_code_plan = JObj [],
     sp_hardware_profile = JNull, sp_base_image = None, sp_build_recipe = JNull,
     sp_status = ''validated'', sp_created_at = 0, sp_updated_at = 0, sp_primary_metric_index = None\<rparr>"

theorem exact_repetition_iff_witness:
  "\<exists>r. detect_repetition (\<lambda>_. ''h'') (empty_db\<lparr>specs := [demo_spec\<lparr>sp_id := 2\<rparr>]\<rparr>) 4 demo_spec = Inr r \<and>
     is_duplicate r"
proof -
  let ?s = "empty_db\<lparr>specs := [demo_spec\<lparr>sp_id := 2\<rparr>]\<rparr>"
  have one: "spec_key ` insert demo_spec (set (prior_specs ?s 4 demo_spec)) = {spec_key demo_spec}"
    by (simp add: prior_specs_def demo_spec_def spec_key_def)
  have "inj_on (\<lambda>_. ''h'') (spec_key ` insert demo_spec (set (prior_specs ?s 4 demo_spec)))"
    unfolding one by simp
  from exact_repetition_iff [OF this] show ?thesis
    by (simp add: demo_spec_def same_experiment_def)
qed

text \<open>
  A near duplicate differs in numbers only by little: the reported prior spec is a validated
  one of the same cycle with the same plan, metrics and baseline, and its controls are either the
  same or have, number by number, a relative difference of at most one percent.
\<close>

theorem near_repetition_sound:
  assumes "detect_repetition sha256 s k cur = Inr r" and "is_near_duplicate r"
  shows "\<exists>p\<in>set (prior_specs s k cur). prior_spec_id r = Some (sp_id p) \<and>
    without_controls cur = without_controls p \<and>
    (canon (sp_controls cur) = canon (sp_controls p) \<or>
     list_all2 (\<lambda>a b. \<bar>a - b\<bar> \<le> max \<bar>a\<bar> \<bar>b\<bar> / 100)
       (extract_numbers (sp_controls cur)) (extract_numbers (sp_controls p)))"
proof -
  from assms obtain p where fn: "first_near cur (prior_specs s k cur) = Inr (Some p)"
    and id: "prior_spec_id r = Some (sp_id p)"
    by (auto simp: detect_repetition_def res_bind_Inr_iff split: option.splits)
  note p = first_near_Some [OF fn]
  have close: "\<bar>a - b\<bar> \<le> max \<bar>a\<bar> \<bar>b\<bar> / 100" if "number_close (1 / 100) a b" for a b
  proof (cases "max \<bar>a\<bar> \<bar>b\<bar> = 0")
    case True
    then have "a = 0" "b = 0" by (auto simp: max_def split: if_splits)
    then show ?thesis by simp
  next
    case False
    then have "0 < max \<bar>a\<bar> \<bar>b\<bar>" by (auto simp: max_def split: if_splits)
    then show ?thesis using that False by (auto simp: number_close_def divide_simps)
  qed
  have "canon (sp_controls cur) = canon (sp_controls p) \<or>
      list_all2 (number_close (1 / 100)) (extract_numbers (sp_controls cur)) (extract_numbers (sp_controls p))"
    using p by (auto simp: controls_within_tolerance_def res_bind_Inr_iff Let_def split: if_splits)
  then show ?thesis using p id close by (blast intro: list_all2_mono)
qed

definition demo_near :: experiment_spec where
  "demo_near = demo_spec\<lparr>sp_controls := JList [JInt 1001]\<rparr>"

definition demo_prior :: experiment_spec where
  "demo_prior = demo_spec\<lparr>sp_id := 2, sp_controls := JList [JInt 1000]\<rparr>"

theorem near_repetition_sound_witness:
  "\<bar>(1001::real) - 1000\<bar> \<le> max \<bar>1001\<bar> \<bar>1000\<bar> / 100"
proof -
  let ?h = "\<lambda>j. if j = spec_key demo_near then ''a'' else ''b''"
  let ?s = "empty_db\<lparr>specs := [demo_prior]\<rparr>"
  let ?r = "\<lparr>is_duplicate = False, is_near_duplicate = True, prior_spec_id = Some 2,
             match_type = Some ''near_duplicate''\<rparr>"
  have ps: "prior_specs ?s 4 demo_near = [demo_prior]"
    by (simp add: prior_specs_def demo_prior_def demo_near_def demo_spec_def)
  have ne: "spec_key demo_prior \<noteq> spec_key demo_near"
    by (simp add: spec_key_eq same_experiment_def demo_prior_def demo_near_def)
  have id: "sp_id demo_prior = 2" by (simp add: demo_prior_def)
  have near: "first_near demo_near [demo_prior] = Inr (Some demo_prior)"
    by (simp add: without_controls_def controls_within_tolerance_def number_close_def
        demo_prior_def demo_near_def demo_spec_def)
  have "detect_repetition ?h ?s 4 demo_near = Inr ?r"
    using ne by (simp add: detect_repetition_def ps fingerprint_key near id del: first_near.simps)
  from near_repetition_sound [OF this] show ?thesis
    by (simp add: ps demo_prior_def demo_near_def)
qed

end
