(* ===== verification/Execution_Common.thy ===== *)
theory Execution_Common
  imports Job_Queue
begin

text \<open>
  Helpers the execution, verification and autonomy operators share
  (\<open>libs/execution/operators/_common.py\<close>) and the creation of run records they repeat.
\<close>

definition run_record_id_from_payload :: "op_input \<Rightarrow> uuid res" where
  "run_record_id_from_payload i =
    (let raw = dget (oi_payload i) ''run_record_id'' in
     if raw = JNull then Inl (ExecutionStateError ''payload is missing run_record_id'')
     else UUID_of raw)"

definition load_run_record :: "db \<Rightarrow> uuid \<Rightarrow> run_record res" where
  "load_run_record s run_id =
    res_bind (scalar_one_or_none (filter (\<lambda>r. rn_id r = run_id) (runs s)))
      (\<lambda>r. case r of None \<Rightarrow> Inl (ExecutionStateError ''run record not found'') | Some x \<Rightarrow> Inr x)"

definition enqueue_next :: "env \<Rightarrow> uuid \<Rightarrow> string \<Rightarrow> uuid \<Rightarrow> dict \<Rightarrow> db \<Rightarrow> uuid \<times> db" where
  "enqueue_next e cycle_id next_job_type run_record_id extra s =
    (case create_job e (Some cycle_id) next_job_type
            (Some (dupdate [(''run_record_id'', JUuid run_record_id)] extra)) 10 s of
       (j, s') \<Rightarrow> (j_id j, s'))"

text \<open>The last lines of the run's error log, as the postmortem and the remediation read them.\<close>

definition file_tail :: "db \<Rightarrow> string \<Rightarrow> string" where
  "file_tail s path =
    (case map_of (disk s) path of None \<Rightarrow> [] | Some t \<Rightarrow> join_with [CHR 10] (last_n 50 (py_splitlines t)))"

definition log_tail :: "db \<Rightarrow> run_record \<Rightarrow> string" where
  "log_tail s run =
    (case rn_stderr_path run of
       Some (c # p) \<Rightarrow> file_tail s (c # p)
     | _ \<Rightarrow> (case rn_stdout_path run of Some (c # p) \<Rightarrow> file_tail s (c # p) | _ \<Rightarrow> []))"

text \<open>\<open>select(func.coalesce(func.max(RunRecord.run_number), 0))\<close> for one spec.\<close>

definition max_run_number :: "db \<Rightarrow> uuid \<Rightarrow> int" where
  "max_run_number s spec_id =
    (case map rn_run_number (filter (\<lambda>r. rn_spec_id r = spec_id) (runs s)) of
       [] \<Rightarrow> 0 | n # ns \<Rightarrow> fold max ns n)"

definition pending_run :: "env \<Rightarrow> uuid \<Rightarrow> uuid \<Rightarrow> uuid \<Rightarrow> uuid \<Rightarrow> uuid option \<Rightarrow> int \<Rightarrow> run_record" where
  "pending_run e i spec_id charter_id cycle_id parent n =
     \<lparr>rn_id = i, rn_spec_id = spec_id, rn_parent_run_id = parent, rn_charter_id = charter_id,
      rn_cycle_id = cycle_id, rn_run_number = n, rn_status = ''pending'', rn_workspace_path = None,
      rn_container_id = None, rn_image_ref = None, rn_command = None, rn_env_vars = JNull,
      rn_resource_limits = JNull, rn_resource_usage = JNull, rn_exit_code = None, rn_stdout_path = None,
      rn_stderr_path = None,
      rn_metrics_output = JNull, rn_artifact_manifest = JNull, rn_failure_class = None,
      rn_error = None, rn_started_at = None, rn_completed_at = None, rn_created_at = now e,
      rn_updated_at = now e\<rparr>"

definition add_run :: "run_record \<Rightarrow> db \<Rightarrow> db" where
  "add_run r s = (tick_uuid s)\<lparr>runs := runs s @ [r]\<rparr>"

definition put_run :: "run_record \<Rightarrow> db \<Rightarrow> db" where
  "put_run r s = s\<lparr>runs := update_where (\<lambda>x. rn_id x = rn_id r) (\<lambda>_. r) (runs s)\<rparr>"

section \<open>Facts\<close>

lemma fold_max_ge: "(n::int) \<le> fold max ns n \<and> (\<forall>m\<in>set ns. m \<le> fold max ns n)"
proof (induction ns arbitrary: n)
  case (Cons a ns)
  have "max a n \<le> fold max ns (max a n)" "\<forall>m\<in>set ns. m \<le> fold max ns (max a n)"
    using Cons.IH [of "max a n"] by blast+
  then show ?case by auto
qed simp

lemma max_run_number_ge:
  assumes "r \<in> set (runs s)" and "rn_spec_id r = k"
  shows "rn_run_number r \<le> max_run_number s k"
proof -
  have m: "rn_run_number r \<in> set (map rn_run_number (filter (\<lambda>r. rn_spec_id r = k) (runs s)))"
    using assms by auto
  then obtain n ns where ns: "map rn_run_number (filter (\<lambda>r. rn_spec_id r = k) (runs s)) = n # ns"
    by (cases "map rn_run_number (filter (\<lambda>r. rn_spec_id r = k) (runs s))") auto
  have "rn_run_number r \<le> fold max ns n" using m fold_max_ge [of n ns] unfolding ns by auto
  then show ?thesis unfolding max_run_number_def ns by simp
qed

lemma load_run_record_in:
  assumes "load_run_record s k = Inr run"
  shows "run \<in> set (runs s) \<and> rn_id run = k"
proof -
  have f: "filter (\<lambda>r. rn_id r = k) (runs s) = [run]"
    using assms by (auto simp: load_run_record_def res_bind_Inr_iff scalar_one_or_none_Some_iff split: option.splits)
  have "run \<in> set (filter (\<lambda>r. rn_id r = k) (runs s))" unfolding f by simp
  then show ?thesis by simp
qed

lemma create_job_frame [simp]:
  "runs (snd (create_job e c t p pr s)) = runs s" "decisions (snd (create_job e c t p pr s)) = decisions s"
  "cards (snd (create_job e c t p pr s)) = cards s" "specs (snd (create_job e c t p pr s)) = specs s"
  "budgets (snd (create_job e c t p pr s)) = budgets s" "cycles (snd (create_job e c t p pr s)) = cycles s"
  "events (snd (create_job e c t p pr s)) = events s"
  "patterns (snd (create_job e c t p pr s)) = patterns s"
  "actions (snd (create_job e c t p pr s)) = actions s"
  "uuid_calls (snd (create_job e c t p pr s)) = Suc (uuid_calls s)"
  by (simp_all add: create_job_def Let_def)

lemma create_job_jobs:
  "jobs (snd (create_job e c t p pr s)) = jobs s @ [fst (create_job e c t p pr s)]"
  "j_type (fst (create_job e c t p pr s)) = t" "j_payload (fst (create_job e c t p pr s)) = p"
  "j_status (fst (create_job e c t p pr s)) = Js_pending" "j_cycle_id (fst (create_job e c t p pr s)) = c"
  by (simp_all add: create_job_def Let_def)

lemma enqueue_next_snd:
  "snd (enqueue_next e k t r x s) =
     snd (create_job e (Some k) t (Some (dupdate [(''run_record_id'', JUuid r)] x)) 10 s)"
  by (simp add: enqueue_next_def split: prod.splits)

lemma add_run_frame [simp]:
  "decisions (add_run r s) = decisions s" "jobs (add_run r s) = jobs s" "cards (add_run r s) = cards s"
  "events (add_run r s) = events s" "budgets (add_run r s) = budgets s" "cycles (add_run r s) = cycles s"
  "specs (add_run r s) = specs s" "runs (add_run r s) = runs s @ [r]"
  by (simp_all add: add_run_def)

lemma table_get_put_run:
  "table_get rn_id (runs (put_run r s)) k =
     (if k = rn_id r \<and> k \<in> rn_id ` set (runs s) then Some r else table_get rn_id (runs s) k)"
  by (auto simp: put_run_def table_get_put)

lemma put_run_ids [simp]: "rn_id ` set (runs (put_run r s)) = rn_id ` set (runs s)"
  by (auto simp: put_run_def set_update_where image_iff) metis

lemma put_run_frame [simp]:
  "jobs (put_run r s) = jobs s" "actions (put_run r s) = actions s" "events (put_run r s) = events s"
  "specs (put_run r s) = specs s" "cycles (put_run r s) = cycles s" "disk (put_run r s) = disk s"
  "reports (put_run r s) = reports s" "uuid_calls (put_run r s) = uuid_calls s"
  by (simp_all add: put_run_def)

end
