(* ===== verification/Signals.thy ===== *)
theory Signals
  imports Autonomy_Core Execution_Common
begin

text \<open>
  What a finished run says about its hypothesis line: the metric frontier
  (\<open>libs/remediation/frontier.py\<close>), the directional signal
  (\<open>libs/remediation/signal_classification.py\<close>), the recommendation rules
  (\<open>libs/remediation/recommendations.py\<close>), the retry lineage and the other helpers of
  \<open>libs/remediation/operators/_common.py\<close>, and the operators \<open>signal_classify\<close> and \<open>recommend\<close>.

  The reasoning of a signal is not stored; that of a recommendation is, because \<open>loop_decide\<close> reads
  it.  The walk up the retry lineage is a loop without a bound in the code: here it is a partial function
  whose value None is a walk that never ends, and so are the operators that walk.
\<close>

section \<open>Metric frontier\<close>

definition is_improvement :: "real \<Rightarrow> real \<Rightarrow> string \<Rightarrow> bool" where
  "is_improvement current best direction =
    (if direction = ''maximize'' then current > best else current < best)"

definition new_frontier ::
  "env \<Rightarrow> uuid \<Rightarrow> uuid \<Rightarrow> uuid \<Rightarrow> uuid \<Rightarrow> uuid \<Rightarrow> string \<Rightarrow> string \<Rightarrow> real \<Rightarrow> bool \<Rightarrow> metric_frontier" where
  "new_frontier e i charter_id card_id spec_id run_id metric_name direction v ok =
     \<lparr>mf_id = i, mf_charter_id = charter_id, mf_card_id = card_id, mf_metric_name = metric_name,
      mf_metric_direction = direction, mf_best_run_id = run_id, mf_best_spec_id = spec_id, mf_best_value = v,
      mf_best_achieved_at = now e, mf_total_runs = 1, mf_successful_runs = (if ok then 1 else 0),
      mf_runs_since_improvement = 0, mf_updated_at = now e, mf_created_at = now e\<rparr>"

definition advanced_frontier ::
  "env \<Rightarrow> uuid \<Rightarrow> uuid \<Rightarrow> string \<Rightarrow> real \<Rightarrow> bool \<Rightarrow> metric_frontier \<Rightarrow> metric_frontier" where
  "advanced_frontier e spec_id run_id direction v ok f =
    (let f1 = f\<lparr>mf_total_runs := mf_total_runs f + 1,
                mf_successful_runs := mf_successful_runs f + (if ok then 1 else 0)\<rparr>;
         f2 = (if is_improvement v (mf_best_value f) direction \<and> ok
               then f1\<lparr>mf_best_run_id := run_id, mf_best_spec_id := spec_id, mf_best_value := v,
                       mf_best_achieved_at := now e, mf_runs_since_improvement := 0\<rparr>
               else f1\<lparr>mf_runs_since_improvement := mf_runs_since_improvement f + 1\<rparr>)
     in f2\<lparr>mf_updated_at := now e\<rparr>)"

definition load_line_frontier :: "db \<Rightarrow> uuid \<Rightarrow> uuid \<Rightarrow> metric_frontier option res" where
  "load_line_frontier s charter_id card_id =
     scalar_one_or_none (filter (\<lambda>f. mf_charter_id f = charter_id \<and> mf_card_id f = card_id) (frontiers s))"

definition upsert_frontier ::
  "env \<Rightarrow> uuid \<Rightarrow> uuid \<Rightarrow> uuid \<Rightarrow> uuid \<Rightarrow> string \<Rightarrow> string \<Rightarrow> real \<Rightarrow> bool \<Rightarrow> db
   \<Rightarrow> (metric_frontier \<times> bool \<times> db) res" where
  "upsert_frontier e charter_id card_id spec_id run_id metric_name direction v ok s =
    res_bind (load_line_frontier s charter_id card_id) (\<lambda>r.
      case r of
        None \<Rightarrow>
          let f = new_frontier e (new_uuid e s) charter_id card_id spec_id run_id metric_name direction v ok
          in Inr (f, True, (tick_uuid s)\<lparr>frontiers := frontiers s @ [f]\<rparr>)
      | Some f \<Rightarrow>
          let f' = advanced_frontier e spec_id run_id direction v ok f
          in Inr (f', is_improvement v (mf_best_value f) direction \<and> ok,
                  s\<lparr>frontiers := update_where (\<lambda>x. mf_id x = mf_id f) (\<lambda>_. f') (frontiers s)\<rparr>))"

section \<open>Directional signal\<close>

record signal_result =
  sg_signal :: string
  sg_delta :: "real option"

definition mean :: "real list \<Rightarrow> real" where
  "mean xs = sum_list xs / of_nat (length xs)"

definition stdev :: "real list \<Rightarrow> real" where
  "stdev xs = sqrt (sum_list (map (\<lambda>x. (x - mean xs)\<^sup>2) xs) / of_nat (length xs - 1))"

text \<open>Consecutive pairs of a list, oldest first.\<close>

definition pairs :: "'a list \<Rightarrow> ('a \<times> 'a) list" where
  "pairs xs = zip xs (tl xs)"

definition rel_change :: "real \<Rightarrow> real \<Rightarrow> real" where
  "rel_change prev cur = \<bar>cur - prev\<bar> / max \<bar>prev\<bar> (1 / 10 ^ 8)"

definition improving :: "string \<Rightarrow> real \<Rightarrow> bool" where
  "improving direction delta = (if direction = ''maximize'' then delta > 0 else delta < 0)"

definition is_breakthrough :: "real \<Rightarrow> real list \<Rightarrow> string \<Rightarrow> bool" where
  "is_breakthrough v history direction \<longleftrightarrow>
     length history \<ge> 3 \<and> improving direction (v - last history) \<and> stdev history > 0 \<and>
     \<bar>v - mean history\<bar> / stdev history > 2"

definition is_noisy :: "real \<Rightarrow> real list \<Rightarrow> bool" where
  "is_noisy v history \<longleftrightarrow>
     length history \<ge> 3 \<and>
     (let deltas = map (\<lambda>(a, b). b - a) (pairs (last_n 3 history @ [v]))
      in length (filter (\<lambda>(a, b). b * a < 0) (pairs deltas)) \<ge> length deltas - 1)"

definition is_stalled :: "real \<Rightarrow> real list \<Rightarrow> real \<Rightarrow> bool" where
  "is_stalled v history noise_band \<longleftrightarrow>
     length history \<ge> 2 \<and> rel_change (last history) v \<le> noise_band \<and>
     (\<forall>(a, b)\<in>set (pairs (last_n 2 history @ [v])). rel_change a b \<le> noise_band)"

definition classify_signal :: "real \<Rightarrow> real list \<Rightarrow> string \<Rightarrow> real \<Rightarrow> signal_result" where
  "classify_signal v history direction noise_band =
    (if history = [] then \<lparr>sg_signal = ''advancing'', sg_delta = None\<rparr>
     else
       let delta = v - last history;
           signal = (if is_breakthrough v history direction then ''breakthrough''
                     else if is_noisy v history then ''noisy''
                     else if is_stalled v history noise_band then ''stalled''
                     else if rel_change (last history) v \<le> noise_band then ''stalled''
                     else if improving direction delta then ''advancing'' else ''regressing'')
       in \<lparr>sg_signal = signal, sg_delta = Some delta\<rparr>)"

section \<open>Recommendation rules\<close>

record recommendation_inputs =
  ri_signal :: "string option"
  ri_runs_since_improvement :: nat
  ri_total_runs :: nat
  ri_successful_runs :: nat
  ri_remediation_attempts :: nat
  ri_remediation_exhausted :: bool
  ri_has_unresolved_failures :: bool
  ri_failed :: bool

record recommendation_result =
  rs_type :: string
  rs_action :: string
  rs_reasoning :: string

abbreviation nat_str :: "nat \<Rightarrow> string" where
  "nat_str n \<equiv> int_str (int n)"

definition failed_recommendation :: "recommendation_inputs \<Rightarrow> recommendation_result" where
  "failed_recommendation i =
    (if ri_remediation_exhausted i then
       (if ri_successful_runs i = 0 then
          \<lparr>rs_type = ''hypothesis_pivot'',
           rs_action = ''All runs failed and remediation is exhausted. Consider a fundamentally different approach or hypothesis.'',
           rs_reasoning = ''No successful runs out of '' @ nat_str (ri_total_runs i) @ '' total; '' @
             nat_str (ri_remediation_attempts i) @ '' remediation attempts exhausted. '' @
             ''Mechanical issues appear intractable for this approach.''\<rparr>
        else
          \<lparr>rs_type = ''parameter_variation'',
           rs_action = ''Recent run failed after remediation. Try adjusting experiment parameters to avoid this failure mode.'',
           rs_reasoning = nat_str (ri_successful_runs i) @ '' prior successes exist but latest run failed after '' @
             nat_str (ri_remediation_attempts i) @ '' remediation attempts. '' @
             ''The approach has worked before; parameter adjustments may help.''\<rparr>)
     else
       \<lparr>rs_type = ''continue_current'',
        rs_action = ''Remediation resolved the failure. Continue with current approach.'',
        rs_reasoning = ''Failure was mechanical and has been resolved through remediation.''\<rparr>)"

definition stalled_recommendation :: "recommendation_inputs \<Rightarrow> recommendation_result" where
  "stalled_recommendation i =
    (if ri_runs_since_improvement i \<ge> STALL_THRESHOLD then
       \<lparr>rs_type = ''hypothesis_pivot'',
        rs_action = ''No improvement in '' @ nat_str (ri_runs_since_improvement i) @
          '' runs. Consider a new hypothesis or fundamentally different approach.'',
        rs_reasoning = ''Metric stalled for '' @ nat_str (ri_runs_since_improvement i) @ '' runs (threshold: '' @
          nat_str STALL_THRESHOLD @ ''). Diminishing returns suggest the current hypothesis has been exhausted.''\<rparr>
     else
       \<lparr>rs_type = ''parameter_variation'',
        rs_action = ''Metric has plateaued. Try different hyperparameters, controls, or training configurations.'',
        rs_reasoning = ''Metric stalled for '' @ nat_str (ri_runs_since_improvement i) @
          '' runs (below pivot threshold of '' @ nat_str STALL_THRESHOLD @
          ''). Parameter variation may break through the plateau.''\<rparr>)"

definition advancing_recommendation :: "recommendation_inputs \<Rightarrow> recommendation_result" where
  "advancing_recommendation i =
    (if ri_has_unresolved_failures i then
       \<lparr>rs_type = ''parameter_variation'',
        rs_action = ''Progress is being made but recurring failures suggest parameter adjustments to improve reliability.'',
        rs_reasoning = ''Metric is advancing but there are unresolved failure patterns. '' @
          ''Tweaking parameters may reduce failure rate while maintaining progress.''\<rparr>
     else
       \<lparr>rs_type = ''continue_current'',
        rs_action = ''Metric is improving. Continue with current approach.'',
        rs_reasoning = ''Directional signal is advancing with no unresolved failures.''\<rparr>)"

definition compute_recommendation :: "recommendation_inputs \<Rightarrow> recommendation_result" where
  "compute_recommendation i =
    (if ri_failed i then failed_recommendation i
     else if ri_signal i = Some ''breakthrough'' then
       \<lparr>rs_type = ''continue_current'',
        rs_action = ''Significant improvement detected. Continue with current approach.'',
        rs_reasoning = ''Metric showed breakthrough-level improvement. This approach is producing strong results.''\<rparr>
     else if ri_signal i = Some ''advancing'' then advancing_recommendation i
     else if ri_signal i = Some ''stalled'' then stalled_recommendation i
     else if ri_signal i = Some ''regressing'' then
       \<lparr>rs_type = ''parameter_variation'',
        rs_action = ''Metric is moving in the wrong direction. Revert recent changes or adjust parameters.'',
        rs_reasoning = ''Directional signal shows regression. Recent modifications are hurting performance; parameter adjustments needed.''\<rparr>
     else if ri_signal i = Some ''noisy'' then
       \<lparr>rs_type = ''parameter_variation'',
        rs_action = ''Metric is oscillating. Consider increasing sample size, fixing random seeds, or reducing learning rate.'',
        rs_reasoning = ''Directional signal shows noise. High variance in metric suggests instability in the experimental setup.''\<rparr>
     else
       \<lparr>rs_type = ''parameter_variation'',
        rs_action = ''Signal is ambiguous. Try parameter adjustments to clarify direction.'',
        rs_reasoning = ''Unrecognized signal '' @ [CHR 39] @ (case ri_signal i of None \<Rightarrow> ''None'' | Some x \<Rightarrow> x) @
          [CHR 39] @ ''; defaulting to parameter variation.''\<rparr>)"

section \<open>Helpers of the operators\<close>

definition enqueue_next_phase4 :: "env \<Rightarrow> uuid \<Rightarrow> string \<Rightarrow> uuid \<Rightarrow> dict \<Rightarrow> db \<Rightarrow> db" where
  "enqueue_next_phase4 e cycle_id next_job_type run_record_id extra s =
     snd (create_job e (Some cycle_id) next_job_type
            (Some (dupdate [(''run_record_id'', JUuid run_record_id)] extra)) 10 s)"

text \<open>The loop of \<open>load_lineage_run_ids\<close>: None if it never leaves the parent chain.\<close>

partial_function (option) lineage_loop :: "run_record list \<Rightarrow> uuid option \<Rightarrow> uuid list \<Rightarrow> uuid list option" where
  "lineage_loop rs current_id lineage_ids =
    (case current_id of
       None \<Rightarrow> Some lineage_ids
     | Some k \<Rightarrow>
        (case table_get rn_id rs k of
           None \<Rightarrow> Some (lineage_ids @ [k])
         | Some r \<Rightarrow> lineage_loop rs (rn_parent_run_id r) (lineage_ids @ [k])))"

definition load_lineage_run_ids :: "db \<Rightarrow> uuid \<Rightarrow> uuid list option" where
  "load_lineage_run_ids s run_id = map_option rev (lineage_loop (runs s) (Some run_id) [])"

definition load_lineage_actions :: "db \<Rightarrow> uuid \<Rightarrow> remediation_action list option" where
  "load_lineage_actions s run_id =
     map_option (\<lambda>ids. sort_key ra_created_at (filter (\<lambda>a. ra_run_id a \<in> set ids) (actions s)))
       (load_lineage_run_ids s run_id)"

definition count_lineage_attempts :: "db \<Rightarrow> uuid \<Rightarrow> nat option" where
  "count_lineage_attempts s run_id = map_option length (load_lineage_actions s run_id)"

definition load_experiment_spec :: "db \<Rightarrow> uuid \<Rightarrow> experiment_spec res" where
  "load_experiment_spec s spec_id =
    (case table_get sp_id (specs s) spec_id of
       None \<Rightarrow> Inl (ExecutionStateError ''experiment spec not found'') | Some sp \<Rightarrow> Inr sp)"

definition primary_index :: "experiment_spec \<Rightarrow> int" where
  "primary_index sp = (case sp_primary_metric_index sp of None \<Rightarrow> 0 | Some i \<Rightarrow> i)"

text \<open>\<open>len(x)\<close>.\<close>

fun py_len :: "json \<Rightarrow> int res" where
  "py_len (JList xs) = Inr (int (length xs))"
| "py_len (JObj d) = Inr (int (length d))"
| "py_len (JStr s) = Inr (int (length s))"
| "py_len (JUuid u) = Inr 36"
| "py_len _ = Inl TypeError"

definition get_primary_metric :: "experiment_spec \<Rightarrow> json option res" where
  "get_primary_metric sp =
    (let metrics = or_list (sp_metrics sp) in
     if \<not> truthy metrics then Inr None
     else res_bind (py_len metrics) (\<lambda>n.
       res_bind (py_index metrics (if primary_index sp \<ge> n then 0 else primary_index sp)) (\<lambda>m. Inr (Some m))))"

text \<open>An operator's session: an exception rolls back to the store it started from.\<close>

definition committed :: "db \<Rightarrow> (op_result \<times> db) res \<Rightarrow> op_result res \<times> db" where
  "committed s m = (case m of Inl err \<Rightarrow> (Inl err, s) | Inr (r, s') \<Rightarrow> (Inr r, s'))"

text \<open>\<open>except ExecutionStateError\<close> around the payload: any other error is raised.\<close>

definition with_run_id :: "op_input \<Rightarrow> db \<Rightarrow> (uuid \<Rightarrow> op_result res \<times> db) \<Rightarrow> op_result res \<times> db" where
  "with_run_id i s f =
    (case run_record_id_from_payload i of
       Inl (ExecutionStateError m) \<Rightarrow> (Inr (op_fail m), s)
     | Inl err \<Rightarrow> (Inl err, s)
     | Inr run_id \<Rightarrow> f run_id)"

lemma committed_Inr: "committed s m = (Inr r, s') \<longleftrightarrow> m = Inr (r, s')"
  by (auto simp: committed_def split: sum.splits prod.splits)

lemma with_run_id_Inr:
  assumes "with_run_id i s f = (Inr r, s')" and "or_success r"
  obtains k where "run_record_id_from_payload i = Inr k" "f k = (Inr r, s')"
proof (cases "run_record_id_from_payload i")
  case (Inl err)
  then show ?thesis using assms by (cases err) (auto simp: with_run_id_def)
qed (use assms that in \<open>simp add: with_run_id_def\<close>)

section \<open>The signal operator\<close>

definition nulls_last :: "time option \<Rightarrow> int \<times> int" where
  "nulls_last t = (case t of None \<Rightarrow> (1, 0) | Some x \<Rightarrow> (0, x))"

definition prior_runs :: "db \<Rightarrow> run_record \<Rightarrow> experiment_spec \<Rightarrow> run_record list" where
  "prior_runs s run sp =
    (let ids = map sp_id (filter (\<lambda>x. sp_card_id x = sp_card_id sp) (specs s))
     in sort_key (\<lambda>r. nulls_last (rn_completed_at r))
          (filter (\<lambda>r. rn_spec_id r \<in> set ids \<and> rn_id r \<noteq> rn_id run \<and> rn_status r = ''completed'') (runs s)))"

text \<open>The values of the metric in the earlier runs, with the entries of \<open>history_window\<close>.\<close>

fun run_history :: "pylib \<Rightarrow> string \<Rightarrow> run_record list \<Rightarrow> (real \<times> json) list res" where
  "run_history py metric [] = Inr []"
| "run_history py metric (r # rs) =
    res_bind (jget_or (or_dict (rn_metrics_output r)) metric JNull) (\<lambda>v.
      if v = JNull then run_history py metric rs
      else res_bind (py_float py v) (\<lambda>x.
        res_bind (run_history py metric rs) (\<lambda>h.
          Inr ((x, JObj [(''run_id'', JUuid (rn_id r)), (''value'', JFloat x),
                 (''created_at'', case rn_completed_at r of None \<Rightarrow> JNull | Some t \<Rightarrow> JStr (isoformat py t))]) # h))))"

definition within_bounds :: "pylib \<Rightarrow> json \<Rightarrow> json \<Rightarrow> json \<Rightarrow> bool res" where
  "within_bounds py v lo hi =
    res_bind (if lo = JNull then Inr True
              else res_bind (py_float py v) (\<lambda>x. res_bind (py_float py lo) (\<lambda>l. Inr (\<not> x < l)))) (\<lambda>above.
    res_bind (if hi = JNull then Inr True
              else res_bind (py_float py v) (\<lambda>x. res_bind (py_float py hi) (\<lambda>h. Inr (\<not> x > h)))) (\<lambda>below.
      Inr (above \<and> below)))"

fun constraint_metrics :: "pylib \<Rightarrow> json \<Rightarrow> int \<Rightarrow> (int \<times> json) list \<Rightarrow> json list res" where
  "constraint_metrics py run_metrics primary_idx [] = Inr []"
| "constraint_metrics py run_metrics primary_idx ((i, m) # ms) =
    (if i = primary_idx then constraint_metrics py run_metrics primary_idx ms
     else res_bind (jget_or m ''name'' (JStr [])) (\<lambda>nm.
       let name = py_str (float_repr py) nm in
       res_bind (jget_or run_metrics name JNull) (\<lambda>v.
         if v = JNull then constraint_metrics py run_metrics primary_idx ms
         else res_bind (jget_or m ''min'' JNull) (\<lambda>lo. res_bind (jget_or m ''max'' JNull) (\<lambda>hi.
           res_bind (within_bounds py v lo hi) (\<lambda>ok. res_bind (py_float py v) (\<lambda>x.
             res_bind (constraint_metrics py run_metrics primary_idx ms) (\<lambda>rest.
               Inr (JObj [(''name'', JStr name), (''value'', JFloat x), (''within_bounds'', JBool ok)] # rest)))))))))"

definition null_if_empty :: "json list \<Rightarrow> json" where
  "null_if_empty xs = (if xs = [] then JNull else JList xs)"

definition persist_signal ::
  "env \<Rightarrow> run_record \<Rightarrow> string \<Rightarrow> real \<Rightarrow> string \<Rightarrow> signal_result \<Rightarrow> json \<Rightarrow> json \<Rightarrow> db \<Rightarrow> (uuid \<times> db) res" where
  "persist_signal e run metric_name v direction sg cm hw s =
    res_bind (scalar_one_or_none (filter (\<lambda>d. ds_run_id d = rn_id run) (signals s))) (\<lambda>row.
      case row of
        None \<Rightarrow>
          let d = \<lparr>ds_id = new_uuid e s, ds_run_id = rn_id run, ds_charter_id = rn_charter_id run,
                   ds_cycle_id = rn_cycle_id run, ds_spec_id = rn_spec_id run, ds_signal = sg_signal sg,
                   ds_metric_name = metric_name, ds_metric_value = v, ds_metric_delta = sg_delta sg,
                   ds_metric_direction = direction, ds_constraint_metrics = cm, ds_history_window = hw,
                   ds_created_at = now e\<rparr>
          in Inr (ds_id d, (tick_uuid s)\<lparr>signals := signals s @ [d]\<rparr>)
      | Some d0 \<Rightarrow>
          let d = d0\<lparr>ds_signal := sg_signal sg, ds_metric_name := metric_name, ds_metric_value := v,
                     ds_metric_delta := sg_delta sg, ds_metric_direction := direction,
                     ds_constraint_metrics := cm, ds_history_window := hw\<rparr>
          in Inr (ds_id d, s\<lparr>signals := update_where (\<lambda>x. ds_id x = ds_id d0) (\<lambda>_. d) (signals s)\<rparr>))"

text \<open>\<open>vr = ...scalar_one_or_none(); if vr is not None: vr.column = id\<close>.\<close>

definition update_report :: "uuid \<Rightarrow> (verification_report \<Rightarrow> verification_report) \<Rightarrow> db \<Rightarrow> db res" where
  "update_report run_id f s =
    res_bind (scalar_one_or_none (filter (\<lambda>v. vr_run_id v = run_id) (reports s))) (\<lambda>vr.
      Inr (case vr of None \<Rightarrow> s
           | Some v \<Rightarrow> s\<lparr>reports := update_where (\<lambda>x. vr_id x = vr_id v) (\<lambda>_. f v) (reports s)\<rparr>))"

definition record_signal ::
  "pylib \<Rightarrow> env \<Rightarrow> run_record \<Rightarrow> experiment_spec \<Rightarrow> string \<Rightarrow> string \<Rightarrow> json \<Rightarrow> real \<Rightarrow> db \<Rightarrow> (op_result \<times> db) res" where
  "record_signal py e run sp metric_name direction run_metrics v s =
    res_bind (run_history py metric_name (prior_runs s run sp)) (\<lambda>history.
      let sg = classify_signal v (map fst history) direction (1 / 100) in
    res_bind (case or_list (sp_metrics sp) of JList ms \<Rightarrow> Inr ms | _ \<Rightarrow> Inl TypeError) (\<lambda>all_metrics.
    res_bind (constraint_metrics py run_metrics (primary_index sp)
                (zip (map int [0..<length all_metrics]) all_metrics)) (\<lambda>cm.
    res_bind (persist_signal e run metric_name v direction sg (null_if_empty cm)
                (null_if_empty (map snd history)) s) (\<lambda>(signal_id, s1).
    res_bind (update_report (rn_id run) (\<lambda>r. r\<lparr>vr_signal_id := Some signal_id\<rparr>) s1) (\<lambda>s2.
    res_bind (upsert_frontier e (rn_charter_id run) (sp_card_id sp) (rn_spec_id run) (rn_id run) metric_name
                direction v True s2) (\<lambda>(f, improved, s3).
      let s4 = emit_sys e ''signal.classified'' (rn_charter_id run) (rn_cycle_id run)
                 [(''run_record_id'', JUuid (rn_id run)), (''signal'', JStr (sg_signal sg)),
                  (''metric_name'', JStr metric_name), (''metric_value'', JFloat v),
                  (''delta'', case sg_delta sg of None \<Rightarrow> JNull | Some d \<Rightarrow> JFloat d)] s3;
          s5 = emit_sys e (if improved \<and> mf_total_runs f = 1 then ''signal.frontier_created'' else ''signal.frontier_updated'')
                 (rn_charter_id run) (rn_cycle_id run)
                 [(''hypothesis_card_id'', JUuid (sp_card_id sp)), (''best_metric_value'', JFloat (mf_best_value f)),
                  (''runs_since_improvement'', JInt (int (mf_runs_since_improvement f))),
                  (''improved'', JBool improved)] s4
      in Inr (OperatorResult, enqueue_next_phase4 e (rn_cycle_id run) ''recommend'' (rn_id run) [] s5)))))))"

definition signal_classify_operator :: "pylib \<Rightarrow> env \<Rightarrow> operator" where
  "signal_classify_operator py e i s =
    with_run_id i s (\<lambda>run_id. committed s
     (res_bind (load_run_record s run_id) (\<lambda>run.
      res_bind (load_experiment_spec s (rn_spec_id run)) (\<lambda>sp.
        let skip = Inr (OperatorResult, enqueue_next_phase4 e (rn_cycle_id run) ''recommend'' (rn_id run) [] s) in
      res_bind (get_primary_metric sp) (\<lambda>primary.
        case primary of
          None \<Rightarrow> skip
        | Some m \<Rightarrow>
      res_bind (jget_or m ''name'' (JStr [])) (\<lambda>nm.
      res_bind (jget_or m ''direction'' (JStr ''maximize'')) (\<lambda>dr.
        let metric_name = py_str (float_repr py) nm; direction = py_str (float_repr py) dr;
            run_metrics = or_dict (rn_metrics_output run) in
      res_bind (jget_or run_metrics metric_name JNull) (\<lambda>cv.
        if cv = JNull then skip
        else res_bind (py_float py cv) (\<lambda>v.
          if table_get hc_id (cards s) (sp_card_id sp) = None then skip
          else record_signal py e run sp metric_name direction run_metrics v s)))))))))"

section \<open>The recommend operator\<close>

definition persist_recommendation ::
  "env \<Rightarrow> run_record \<Rightarrow> uuid \<Rightarrow> recommendation_result \<Rightarrow> json \<Rightarrow> db \<Rightarrow> (uuid \<times> db) res" where
  "persist_recommendation e run spec_id rec summary s =
    res_bind (scalar_one_or_none (filter (\<lambda>r. rr_run_id r = rn_id run) (recommendations s))) (\<lambda>row.
      case row of
        None \<Rightarrow>
          let r = \<lparr>rr_id = new_uuid e s, rr_run_id = rn_id run, rr_charter_id = rn_charter_id run,
                   rr_cycle_id = rn_cycle_id run, rr_spec_id = spec_id, rr_type = rs_type rec,
                   rr_action = rs_action rec, rr_reasoning = rs_reasoning rec, rr_inputs_summary = summary,
                   rr_created_at = now e\<rparr>
          in Inr (rr_id r, (tick_uuid s)\<lparr>recommendations := recommendations s @ [r]\<rparr>)
      | Some r0 \<Rightarrow>
          let r = r0\<lparr>rr_type := rs_type rec, rr_action := rs_action rec, rr_reasoning := rs_reasoning rec,
                     rr_inputs_summary := summary\<rparr>
          in Inr (rr_id r, s\<lparr>recommendations := update_where (\<lambda>x. rr_id x = rr_id r0) (\<lambda>_. r) (recommendations s)\<rparr>))"

text \<open>Postmortems joined to their runs: of one spec (counted), and of the runs of a lineage.\<close>

definition spec_postmortems :: "db \<Rightarrow> uuid \<Rightarrow> nat" where
  "spec_postmortems s spec_id =
     length (concat (map (\<lambda>p. filter (\<lambda>r. rn_id r = pm_run_id p \<and> rn_spec_id r = spec_id) (runs s)) (postmortems s)))"

definition lineage_postmortems :: "db \<Rightarrow> uuid list \<Rightarrow> failure_postmortem list" where
  "lineage_postmortems s ids =
     filter (\<lambda>p. \<exists>r\<in>set (runs s). rn_id r = pm_run_id p \<and> rn_id r \<in> set ids) (postmortems s)"

definition recommendation_inputs_of ::
  "db \<Rightarrow> bool \<Rightarrow> directional_signal option \<Rightarrow> metric_frontier option \<Rightarrow> remediation_action list \<Rightarrow> uuid list
   \<Rightarrow> recommendation_inputs" where
  "recommendation_inputs_of s failed sig fr acts ids =
    (let exhausted = (\<exists>a\<in>set acts. ra_outcome a = ''exhausted'')
     in \<lparr>ri_signal = map_option ds_signal sig,
         ri_runs_since_improvement = (case fr of None \<Rightarrow> 0 | Some f \<Rightarrow> mf_runs_since_improvement f),
         ri_total_runs = (case fr of None \<Rightarrow> 1 | Some f \<Rightarrow> mf_total_runs f),
         ri_successful_runs = (case fr of None \<Rightarrow> (if failed then 0 else 1) | Some f \<Rightarrow> mf_successful_runs f),
         ri_remediation_attempts = length acts, ri_remediation_exhausted = exhausted,
         ri_has_unresolved_failures = (failed \<or> exhausted \<or> lineage_postmortems s ids \<noteq> []),
         ri_failed = failed\<rparr>)"

definition inputs_summary :: "db \<Rightarrow> uuid \<Rightarrow> metric_frontier option \<Rightarrow> recommendation_inputs \<Rightarrow> json" where
  "inputs_summary s spec_id fr i =
    JObj [(''signal'', case ri_signal i of None \<Rightarrow> JNull | Some x \<Rightarrow> JStr x),
          (''frontier'', case fr of None \<Rightarrow> JNull
             | Some f \<Rightarrow> JObj [(''best_metric_value'', JFloat (mf_best_value f)),
                  (''runs_since_improvement'', JInt (int (mf_runs_since_improvement f))),
                  (''total_runs'', JInt (int (mf_total_runs f))),
                  (''successful_runs'', JInt (int (mf_successful_runs f)))]),
          (''remediation_attempts'', JInt (int (ri_remediation_attempts i))),
          (''remediation_exhausted'', JBool (ri_remediation_exhausted i)),
          (''has_unresolved_failures'', JBool (ri_has_unresolved_failures i)),
          (''failed_path'', JBool (ri_failed i)),
          (''historical_postmortem_count'', JInt (int (spec_postmortems s spec_id)))]"

text \<open>\<open>autonomy_cfg.get("mode") == "autonomous"\<close> for the cycle of the run.\<close>

definition is_autonomous :: "db \<Rightarrow> uuid \<Rightarrow> bool res" where
  "is_autonomous s cycle_id =
    (let cfg = (case table_get cy_id (cycles s) cycle_id of None \<Rightarrow> [] | Some c \<Rightarrow> opt_dict (cy_config c))
     in res_bind (jget_or (dget_or cfg ''autonomy'' (JObj [])) ''mode'' JNull) (\<lambda>m. Inr (m = JStr ''autonomous'')))"

text \<open>Routing: the loop in autonomous mode, the report otherwise.\<close>

definition route_recommendation :: "env \<Rightarrow> run_record \<Rightarrow> uuid \<Rightarrow> bool \<Rightarrow> db \<Rightarrow> op_result \<times> db" where
  "route_recommendation e run rec_id autonomous s =
    (if autonomous then
       let loop_started = filter (\<lambda>d. ld_cycle_id d = rn_cycle_id run) (decisions s) = [];
           s1 = snd (create_job e (Some (rn_cycle_id run)) ''loop_decide''
                  (Some [(''run_record_id'', JUuid (rn_id run)), (''recommendation_id'', JUuid rec_id)]) 5 s);
           s2 = (if loop_started
                 then emit_sys e ''autonomy.loop_started'' (rn_charter_id run) (rn_cycle_id run)
                        [(''run_record_id'', JUuid (rn_id run))] s1
                 else s1)
       in (op_patch Cy_loop_deciding, s2)
     else (op_patch Cy_reporting, s))"

definition recommend_run ::
  "env \<Rightarrow> bool \<Rightarrow> run_record \<Rightarrow> experiment_spec \<Rightarrow> remediation_action list \<Rightarrow> uuid list \<Rightarrow> db \<Rightarrow> (op_result \<times> db) res" where
  "recommend_run e failed run sp acts ids s =
    res_bind (scalar_one_or_none (filter (\<lambda>d. ds_run_id d = rn_id run) (signals s))) (\<lambda>sig.
    res_bind (load_line_frontier s (rn_charter_id run) (sp_card_id sp)) (\<lambda>fr.
      let inp = recommendation_inputs_of s failed sig fr acts ids; rec = compute_recommendation inp in
    res_bind (persist_recommendation e run (sp_id sp) rec (inputs_summary s (sp_id sp) fr inp) s) (\<lambda>(rec_id, s1).
    res_bind (update_report (rn_id run) (\<lambda>r. r\<lparr>vr_recommendation_id := Some rec_id\<rparr>) s1) (\<lambda>s2.
      let s3 = emit_sys e ''signal.recommendation_produced'' (rn_charter_id run) (rn_cycle_id run)
                 [(''run_record_id'', JUuid (rn_id run)), (''recommendation_type'', JStr (rs_type rec)),
                  (''action'', JStr (rs_action rec))] s2
      in res_bind (is_autonomous s3 (rn_cycle_id run)) (\<lambda>auto_mode.
           Inr (route_recommendation e run rec_id auto_mode s3))))))"

text \<open>\<open>bool(op_input.payload.get("failed"))\<close>.\<close>

definition failed_path :: "op_input \<Rightarrow> bool" where
  "failed_path i = truthy (dget (oi_payload i) ''failed'')"

definition recommend_operator :: "env \<Rightarrow> op_input \<Rightarrow> db \<Rightarrow> (op_result res \<times> db) option" where
  "recommend_operator e i s =
    (case run_record_id_from_payload i of
       Inl (ExecutionStateError m) \<Rightarrow> Some (Inr (op_fail m), s)
     | Inl err \<Rightarrow> Some (Inl err, s)
     | Inr run_id \<Rightarrow>
        (case res_bind (load_run_record s run_id) (\<lambda>run.
                res_bind (load_experiment_spec s (rn_spec_id run)) (\<lambda>sp. Inr (run, sp))) of
           Inl err \<Rightarrow> Some (Inl err, s)
         | Inr (run, sp) \<Rightarrow>
            Option.bind (load_lineage_actions s (rn_id run)) (\<lambda>acts.
            Option.bind (load_lineage_run_ids s (rn_id run)) (\<lambda>ids.
              Some (committed s (recommend_run e (failed_path i) run sp acts ids s))))))"

section \<open>Retry lineages\<close>

text \<open>Parents are stored before their retries: every writer of run records appends with a fresh key.\<close>

fun parents_ok :: "uuid list \<Rightarrow> run_record list \<Rightarrow> bool" where
  "parents_ok seen [] = True"
| "parents_ok seen (r # rs) \<longleftrightarrow>
     rn_id r \<notin> set seen \<and> (case rn_parent_run_id r of None \<Rightarrow> True | Some p \<Rightarrow> p \<in> set seen) \<and>
     parents_ok (seen @ [rn_id r]) rs"

text \<open>The ancestors of a run, itself first, in a table listed newest first.\<close>

fun ancestors :: "run_record list \<Rightarrow> uuid \<Rightarrow> uuid list" where
  "ancestors [] k = [k]"
| "ancestors (r # rs) k =
    (if rn_id r = k then k # (case rn_parent_run_id r of None \<Rightarrow> [] | Some p \<Rightarrow> ancestors rs p) else ancestors rs k)"

lemma parents_ok_snoc:
  "parents_ok seen (rs @ [r]) \<longleftrightarrow> parents_ok seen rs \<and> rn_id r \<notin> set seen \<union> rn_id ` set rs \<and>
     (case rn_parent_run_id r of None \<Rightarrow> True | Some p \<Rightarrow> p \<in> set seen \<union> rn_id ` set rs)"
  by (induction rs arbitrary: seen) (auto split: option.splits)

lemma parents_ok_distinct: "parents_ok seen rs \<Longrightarrow> distinct (map rn_id rs) \<and> set seen \<inter> rn_id ` set rs = {}"
  by (induction rs rule: rev_induct) (auto simp: parents_ok_snoc)

lemma parents_ok_prefix: "parents_ok seen (pre @ suf) \<Longrightarrow> parents_ok seen pre"
  by (induction suf rule: rev_induct) (simp_all add: parents_ok_snoc flip: append_assoc)

lemma lineage_loop_ancestors_upto:
  "parents_ok [] (pre @ suf) \<Longrightarrow> k \<notin> rn_id ` set suf \<Longrightarrow>
   lineage_loop (pre @ suf) (Some k) acc = Some (acc @ ancestors (rev pre) k)"
proof (induction pre arbitrary: suf k acc rule: rev_induct)
  case Nil
  then have "table_get rn_id suf k = None" by (simp add: table_get_None_iff)
  then show ?case by (simp add: lineage_loop.simps)
next
  case (snoc r pre)
  let ?T = "pre @ r # suf"
  have ok: "parents_ok [] ?T" using snoc.prems(1) by simp
  have ok': "parents_ok [] (pre @ [r])" using parents_ok_prefix [of "[]" "pre @ [r]" suf] ok by simp
  have dist: "distinct (map rn_id ?T)" using parents_ok_distinct [OF ok] by simp
  show ?case
  proof (cases "rn_id r = k")
    case True
    have get: "table_get rn_id ?T k = Some r"
      using table_get_unique [OF dist, of r] True by simp
    show ?thesis
    proof (cases "rn_parent_run_id r")
      case None
      then show ?thesis using get True by (simp add: lineage_loop.simps [of _ "Some k"] lineage_loop.simps [of _ None])
    next
      case (Some p)
      then have "p \<in> rn_id ` set pre" using ok' by (simp add: parents_ok_snoc)
      then have "p \<notin> rn_id ` set (r # suf)" using dist by (fastforce simp: disjoint_iff)
      from snoc.IH [OF ok this, of "acc @ [k]"] show ?thesis
        using get True Some by (simp add: lineage_loop.simps [of _ "Some k"])
    qed
  next
    case False
    then have "k \<notin> rn_id ` set (r # suf)" using snoc.prems(2) by simp
    from snoc.IH [OF ok this] show ?thesis using False by simp
  qed
qed

lemma load_lineage_ancestors:
  "parents_ok [] (runs s) \<Longrightarrow> load_lineage_run_ids s k = Some (rev (ancestors (rev (runs s)) k))"
  using lineage_loop_ancestors_upto [of "runs s" "[]" k "[]"] by (simp add: load_lineage_run_ids_def)

lemma ancestors_new:
  "rn_id r \<notin> rn_id ` set rs \<Longrightarrow> k \<noteq> rn_id r \<Longrightarrow> ancestors (rev (rs @ [r])) k = ancestors (rev rs) k"
  by simp

text \<open>The walk depends only on the keys and parents of the runs, and not on later rows.\<close>

definition lineage_keys :: "db \<Rightarrow> (uuid \<times> uuid option) list" where
  "lineage_keys s = map (\<lambda>r. (rn_id r, rn_parent_run_id r)) (runs s)"

lemma ancestors_cong:
  "map (\<lambda>r. (rn_id r, rn_parent_run_id r)) rs = map (\<lambda>r. (rn_id r, rn_parent_run_id r)) rs' \<Longrightarrow>
   ancestors rs k = ancestors rs' k"
proof (induction rs arbitrary: rs' k)
  case (Cons r rs)
  then obtain r' rs'' where "rs' = r' # rs''" by (cases rs') auto
  with Cons show ?case by (auto split: option.splits)
qed simp

lemma ancestors_suffix:
  "k \<notin> rn_id ` set suf \<Longrightarrow> ancestors (rev (pre @ suf)) k = ancestors (rev pre) k"
  by (induction suf rule: rev_induct) (auto simp flip: append_assoc)

lemma lineage_actions_ok:
  assumes "parents_ok [] (runs s)"
  shows "load_lineage_actions s k = Some (sort_key ra_created_at
      (filter (\<lambda>a. ra_run_id a \<in> set (ancestors (rev (runs s)) k)) (actions s)))"
    "count_lineage_attempts s k =
      Some (length (filter (\<lambda>a. ra_run_id a \<in> set (ancestors (rev (runs s)) k)) (actions s)))"
  using load_lineage_ancestors [OF assms] by (simp_all add: count_lineage_attempts_def load_lineage_actions_def)

section \<open>The frontier against the history of a line\<close>

text \<open>One recorded run of a line: surroundings, spec, run and value.\<close>

type_synonym line_run = "env \<times> uuid \<times> uuid \<times> real"

abbreviation lr_value :: "line_run \<Rightarrow> real" where "lr_value c \<equiv> snd (snd (snd c))"
abbreviation lr_run :: "line_run \<Rightarrow> uuid" where "lr_run c \<equiv> fst (snd (snd c))"

definition first_index :: "real \<Rightarrow> line_run list \<Rightarrow> nat" where
  "first_index b cs = length (takeWhile (\<lambda>c. lr_value c \<noteq> b) cs)"

text \<open>The specification of the frontier as a function of the whole history of successful runs.\<close>

definition frontier_of_history :: "string \<Rightarrow> line_run list \<Rightarrow> metric_frontier \<Rightarrow> bool" where
  "frontier_of_history direction cs f \<longleftrightarrow>
     mf_best_value f \<in> lr_value ` set cs \<and>
     (\<forall>c\<in>set cs. \<not> is_improvement (lr_value c) (mf_best_value f) direction) \<and>
     mf_best_run_id f = lr_run (cs ! first_index (mf_best_value f) cs) \<and>
     mf_total_runs f = length cs \<and> mf_successful_runs f = length cs \<and>
     Suc (first_index (mf_best_value f) cs + mf_runs_since_improvement f) = length cs"

lemma first_index_less: "b \<in> lr_value ` set cs \<Longrightarrow> first_index b cs < length cs"
  unfolding first_index_def by (induction cs) auto

lemma first_index_append: "b \<in> lr_value ` set cs \<Longrightarrow> first_index b (cs @ ds) = first_index b cs"
  unfolding first_index_def by (induction cs) auto

lemma first_index_new: "b \<notin> lr_value ` set cs \<Longrightarrow> first_index b (cs @ [(e, sp, r, b)]) = length cs"
  unfolding first_index_def by (induction cs) auto

lemma advanced_frontier_history:
  assumes h: "frontier_of_history direction cs f"
  shows "frontier_of_history direction (cs @ [(e, sp, r, v)]) (advanced_frontier e sp r direction v True f)"
proof (cases "is_improvement v (mf_best_value f) direction")
  case True
  have worse: "\<not> is_improvement w v direction" "w \<noteq> v" if "w \<in> lr_value ` set cs" for w
    using h True that by (auto simp: frontier_of_history_def is_improvement_def split: if_splits)
  then have "first_index v (cs @ [(e, sp, r, v)]) = length cs" by (intro first_index_new) blast
  moreover have "\<not> is_improvement v v direction" by (simp add: is_improvement_def)
  ultimately show ?thesis
    using h True worse by (auto simp: frontier_of_history_def advanced_frontier_def Let_def nth_append)
next
  case False
  let ?b = "mf_best_value f"
  have b: "?b \<in> lr_value ` set cs" using h by (simp add: frontier_of_history_def)
  have "first_index ?b (cs @ [(e, sp, r, v)]) = first_index ?b cs" by (rule first_index_append [OF b])
  moreover have "first_index ?b cs < length cs" by (rule first_index_less [OF b])
  ultimately show ?thesis
    using h False by (auto simp: frontier_of_history_def advanced_frontier_def Let_def nth_append)
qed

lemma new_frontier_history:
  "frontier_of_history direction [(e, sp, r, v)] (new_frontier e i ch h sp r m direction v True)"
  by (simp add: frontier_of_history_def new_frontier_def first_index_def is_improvement_def)

fun record_line ::
  "uuid \<Rightarrow> uuid \<Rightarrow> string \<Rightarrow> string \<Rightarrow> line_run list \<Rightarrow> db \<Rightarrow> db res" where
  "record_line ch h metric direction [] s = Inr s"
| "record_line ch h metric direction ((e, sp, r, v) # cs) s =
    res_bind (upsert_frontier e ch h sp r metric direction v True s) (\<lambda>(_, _, s').
      record_line ch h metric direction cs s')"

abbreviation line_rows :: "uuid \<Rightarrow> uuid \<Rightarrow> db \<Rightarrow> metric_frontier list" where
  "line_rows ch h s \<equiv> filter (\<lambda>f. mf_charter_id f = ch \<and> mf_card_id f = h) (frontiers s)"

lemma advanced_frontier_keys [simp]:
  "mf_id (advanced_frontier e sp r d v ok f) = mf_id f"
  "mf_charter_id (advanced_frontier e sp r d v ok f) = mf_charter_id f"
  "mf_card_id (advanced_frontier e sp r d v ok f) = mf_card_id f"
  by (simp_all add: advanced_frontier_def Let_def)

lemma filter_update_unique:
  assumes "distinct (map key tbl)" and "filter P tbl = [r]" and "key r' = key r" and "P r'"
  shows "filter P (update_where (\<lambda>x. key x = key r) (\<lambda>_. r') tbl) = [r']"
  using assms(1,2)
proof (induction tbl)
  case (Cons a tbl)
  show ?case
  proof (cases "P a")
    case True
    then have a: "a = r" "filter P tbl = []" using Cons.prems(2) by simp_all
    then have "update_where (\<lambda>x. key x = key r) (\<lambda>_. r') tbl = tbl"
      using Cons.prems(1) by (intro update_where_none) (auto simp: image_iff)
    then show ?thesis using a assms(4) by simp
  next
    case False
    then have f: "filter P tbl = [r]" using Cons.prems(2) by simp
    have "r \<in> set (filter P tbl)" unfolding f by simp
    then have "r \<in> set tbl" by simp
    then have "key a \<noteq> key r" using Cons.prems(1) by (metis distinct.simps(2) image_eqI list.set_map list.simps(9))
    then show ?thesis using False Cons.IH Cons.prems(1) f by simp
  qed
qed simp

lemma upsert_frontier_existing:
  assumes "distinct (map mf_id (frontiers s))" and "line_rows ch h s = [f]"
  shows "\<exists>imp s1. upsert_frontier e ch h sp r m d v ok s = Inr (advanced_frontier e sp r d v ok f, imp, s1) \<and>
    line_rows ch h s1 = [advanced_frontier e sp r d v ok f] \<and> distinct (map mf_id (frontiers s1))"
proof -
  have f: "mf_charter_id f = ch" "mf_card_id f = h"
    using assms(2) by (metis (mono_tags, lifting) filter_eq_ConsD)+
  have "map mf_id (update_where (\<lambda>x. mf_id x = mf_id f) (\<lambda>_. advanced_frontier e sp r d v ok f) (frontiers s)) =
      map mf_id (frontiers s)"
    by (simp add: update_where_def)
  moreover have "filter (\<lambda>f. mf_charter_id f = ch \<and> mf_card_id f = h)
      (update_where (\<lambda>x. mf_id x = mf_id f) (\<lambda>_. advanced_frontier e sp r d v ok f) (frontiers s)) =
      [advanced_frontier e sp r d v ok f]"
    by (rule filter_update_unique [OF assms]) (simp_all add: f)
  ultimately show ?thesis
    using assms by (simp add: upsert_frontier_def load_line_frontier_def Let_def)
qed

lemma record_line_history:
  assumes "frontier_of_history d hist f" and "distinct (map mf_id (frontiers s))" and "line_rows ch h s = [f]"
  shows "\<exists>s' f'. record_line ch h m d cs s = Inr s' \<and> line_rows ch h s' = [f'] \<and> frontier_of_history d (hist @ cs) f'"
  using assms
proof (induction cs arbitrary: hist f s)
  case Nil
  then show ?case by auto
next
  case (Cons c cs)
  obtain e sp r v where c: "c = (e, sp, r, v)" by (cases c)
  obtain imp s1 where u: "upsert_frontier e ch h sp r m d v True s = Inr (advanced_frontier e sp r d v True f, imp, s1)"
    and s1: "line_rows ch h s1 = [advanced_frontier e sp r d v True f]" "distinct (map mf_id (frontiers s1))"
    using upsert_frontier_existing [OF Cons.prems(2,3)] by blast
  from Cons.IH [OF advanced_frontier_history [OF Cons.prems(1), of e sp r v] s1(2,1)] show ?case
    by (simp add: c u)
qed

section \<open>Properties\<close>

text \<open>
  C27: The frontier of a hypothesis line, maintained run by run, is the one its whole history determines:
  after any non-empty sequence of successful runs the line has exactly one row, its best value is a recorded
  value no recorded value improves on, its best run is the first that reached it, and the counters are the
  number of runs and the number of runs after that one.
\<close>

theorem frontier_refines_history:
  assumes none: "line_rows ch h s = []" and ids: "distinct (map mf_id (frontiers s))"
    and fresh: "new_uuid e s \<notin> mf_id ` set (frontiers s)"
  shows "\<exists>s' f. record_line ch h m d ((e, sp, r, v) # cs) s = Inr s' \<and> line_rows ch h s' = [f] \<and>
    frontier_of_history d ((e, sp, r, v) # cs) f"
proof -
  let ?f = "new_frontier e (new_uuid e s) ch h sp r m d v True"
  let ?s = "(tick_uuid s)\<lparr>frontiers := frontiers s @ [?f]\<rparr>"
  have u: "upsert_frontier e ch h sp r m d v True s = Inr (?f, True, ?s)"
    using none by (simp add: upsert_frontier_def load_line_frontier_def Let_def)
  have "distinct (map mf_id (frontiers ?s))" "line_rows ch h ?s = [?f]"
    using none ids fresh by (auto simp: new_frontier_def)
  from record_line_history [OF new_frontier_history this, of m cs] show ?thesis by (simp add: u)
qed

theorem frontier_refines_history_witness:
  "\<exists>s' f. record_line 3 7 ''acc'' ''maximize'' [(demo_env, 1, 20, 5), (demo_env, 1, 21, 8), (demo_env, 1, 22, 6)] empty_db = Inr s' \<and>
     line_rows 3 7 s' = [f] \<and>
     frontier_of_history ''maximize'' [(demo_env, 1, 20, 5), (demo_env, 1, 21, 8), (demo_env, 1, 22, 6)] f"
  by (rule frontier_refines_history) (simp_all add: empty_db_def)

section \<open>Signals under a change of sign\<close>

lemma sum_list_map_uminus: "sum_list (map uminus xs) = - sum_list (xs :: real list)"
  by (induction xs) simp_all

lemma mean_uminus: "mean (map uminus xs) = - mean xs"
  by (simp add: mean_def sum_list_map_uminus)

lemma stdev_uminus: "stdev (map uminus xs) = stdev xs"
proof -
  have "(- x - - mean xs)\<^sup>2 = (x - mean xs)\<^sup>2" for x by (simp add: power2_commute)
  then show ?thesis by (simp add: stdev_def mean_uminus comp_def)
qed

lemma pairs_map: "pairs (map f xs) = map (\<lambda>(a, b). (f a, f b)) (pairs xs)"
  by (simp add: pairs_def zip_map_map map_tl flip: map_tl)

lemma last_n_map: "last_n n (map f xs) = map f (last_n n xs)"
  by (simp add: last_n_def drop_map)

lemma rel_change_uminus: "rel_change (- a) (- b) = rel_change a b"
  by (simp add: rel_change_def abs_minus_commute)

lemma improving_uminus: "improving ''minimize'' (- x) = improving ''maximize'' x"
  by (simp add: improving_def)

lemma breakthrough_uminus:
  assumes "h \<noteq> []"
  shows "is_breakthrough (- v) (map uminus h) ''minimize'' = is_breakthrough v h ''maximize''"
proof -
  have "\<bar>- v - - mean h\<bar> = \<bar>v - mean h\<bar>" by (simp add: abs_minus_commute)
  moreover have "improving ''minimize'' (- v - - last h) = improving ''maximize'' (v - last h)"
    using improving_uminus [of "v - last h"] by simp
  ultimately show ?thesis
    using assms by (simp add: is_breakthrough_def stdev_uminus mean_uminus last_map)
qed

lemma noisy_uminus: "is_noisy (- v) (map uminus h) = is_noisy v h"
proof -
  let ?xs = "last_n 3 h @ [v]"
  have d: "map (\<lambda>(a, b). b - a) (pairs (map uminus ?xs)) = map uminus (map (\<lambda>(a, b). b - a) (pairs ?xs))"
    by (simp only: pairs_map map_map) (simp add: comp_def case_prod_unfold)
  have "filter (\<lambda>(a, b). b * a < 0) (pairs (map uminus ds)) =
      map (\<lambda>(a, b). (- a, - b)) (filter (\<lambda>(a, b). b * a < 0) (pairs (ds :: real list)))" for ds
    by (simp only: pairs_map filter_map) (simp add: comp_def case_prod_unfold)
  with d show ?thesis by (simp add: is_noisy_def Let_def last_n_map del: map_map)
qed

lemma stalled_uminus:
  assumes "h \<noteq> []"
  shows "is_stalled (- v) (map uminus h) nb = is_stalled v h nb"
proof -
  have "set (pairs (last_n 2 (map uminus h) @ [- v])) = (\<lambda>(a, b). (- a, - b)) ` set (pairs (last_n 2 h @ [v]))"
    using pairs_map [of uminus "last_n 2 h @ [v]"] by (simp add: last_n_map)
  then show ?thesis using assms by (simp add: is_stalled_def rel_change_uminus last_map split_def)
qed

text \<open>
  The classification does not depend on how a metric is oriented: negating every value and
  swapping maximize for minimize gives the same signal with the opposite delta.  After a first run, an
  \<open>advancing\<close> or \<open>breakthrough\<close> signal always means the value improved on the previous one, and
  \<open>regressing\<close> that it got worse by more than the noise band.
\<close>

theorem signal_orientation:
  assumes h: "h \<noteq> []"
  shows "classify_signal (- v) (map uminus h) ''minimize'' nb =
      (classify_signal v h ''maximize'' nb)\<lparr>sg_delta := Some (- (v - last h))\<rparr> \<and>
    (sg_signal (classify_signal v h d nb) \<in> {''advancing'', ''breakthrough''} \<longrightarrow> is_improvement v (last h) d) \<and>
    (sg_signal (classify_signal v h d nb) = ''regressing'' \<longrightarrow>
       \<not> is_improvement v (last h) d \<and> rel_change (last h) v > nb)"
proof -
  have "classify_signal (- v) (map uminus h) ''minimize'' nb =
      (classify_signal v h ''maximize'' nb)\<lparr>sg_delta := Some (- (v - last h))\<rparr>"
    using h improving_uminus [of "v - last h"]
    by (simp add: classify_signal_def Let_def breakthrough_uminus noisy_uminus stalled_uminus rel_change_uminus last_map)
  then show ?thesis
    using h by (auto simp: classify_signal_def Let_def is_breakthrough_def improving_def is_improvement_def split: if_splits)
qed

theorem signal_orientation_witness:
  "classify_signal (- 2) [- 1] ''minimize'' (1 / 100) = \<lparr>sg_signal = ''advancing'', sg_delta = Some (- 1)\<rparr>"
  using signal_orientation [of "[1]" 2 "1 / 100" "''maximize''"]
  by (simp add: classify_signal_def Let_def is_breakthrough_def is_noisy_def is_stalled_def rel_change_def improving_def)

section \<open>Recommendations\<close>

lemma persist_recommendation_rows:
  assumes "persist_recommendation e run k rec sm s = Inr (i, s')" and "distinct (map rr_id (recommendations s))"
  shows "\<exists>r. filter (\<lambda>x. rr_run_id x = rn_id run) (recommendations s') = [r] \<and> rr_id r = i \<and> rr_type r = rs_type rec \<and>
     rr_action r = rs_action rec \<and> rr_reasoning r = rs_reasoning rec"
proof (cases "scalar_one_or_none (filter (\<lambda>r. rr_run_id r = rn_id run) (recommendations s))")
  case (Inl err)
  then show ?thesis using assms by (simp add: persist_recommendation_def)
next
  case (Inr row)
  show ?thesis
  proof (cases row)
    case None
    then show ?thesis using assms Inr by (auto simp: persist_recommendation_def Let_def)
  next
    case (Some r0)
    then have f: "filter (\<lambda>r. rr_run_id r = rn_id run) (recommendations s) = [r0]"
      using Inr by (simp add: scalar_one_or_none_Some_iff)
    then have "rr_run_id r0 = rn_id run" by (metis (mono_tags, lifting) filter_eq_ConsD)
    with filter_update_unique [OF assms(2) f, of "r0\<lparr>rr_type := rs_type rec, rr_action := rs_action rec,
        rr_reasoning := rs_reasoning rec, rr_inputs_summary := sm\<rparr>"] show ?thesis
      using assms Inr Some by (auto simp: persist_recommendation_def Let_def)
  qed
qed

lemma update_report_frame:
  "update_report k f s = Inr s' \<Longrightarrow> recommendations s' = recommendations s \<and> cycles s' = cycles s \<and> jobs s' = jobs s"
  by (auto simp: update_report_def res_bind_Inr_iff split: option.splits)

lemma enqueue_phase4_frame [simp]:
  "recommendations (snd (create_job e c t p pr s)) = recommendations s"
  by (simp add: create_job_def Let_def)

lemma recommend_run_rows:
  assumes "recommend_run e failed run sp acts ids s = Inr (r, s')" and "distinct (map rr_id (recommendations s))"
  obtains sig fr rec where "rec = compute_recommendation (recommendation_inputs_of s failed sig fr acts ids)"
    "\<exists>x. filter (\<lambda>x. rr_run_id x = rn_id run) (recommendations s') = [x] \<and> rr_type x = rs_type rec \<and>
       rr_reasoning x = rs_reasoning rec"
    "or_state_patch r \<in> {[(''cycle_status'', JStr ''loop_deciding'')], [(''cycle_status'', JStr ''reporting'')]}"
proof -
  obtain sig where sig: "scalar_one_or_none (filter (\<lambda>d. ds_run_id d = rn_id run) (signals s)) = Inr sig"
    using assms(1) by (auto simp: recommend_run_def res_bind_Inr_iff)
  obtain fr where fr: "load_line_frontier s (rn_charter_id run) (sp_card_id sp) = Inr fr"
    using assms(1) sig by (auto simp: recommend_run_def res_bind_Inr_iff)
  let ?i = "recommendation_inputs_of s failed sig fr acts ids"
  let ?rec = "compute_recommendation ?i"
  obtain rid s1 where p: "persist_recommendation e run (sp_id sp) ?rec (inputs_summary s (sp_id sp) fr ?i) s = Inr (rid, s1)"
    using assms(1) sig fr by (auto simp: recommend_run_def res_bind_Inr_iff Let_def)
  obtain s2 where u: "update_report (rn_id run) (\<lambda>r. r\<lparr>vr_recommendation_id := Some rid\<rparr>) s1 = Inr s2"
    using assms(1) sig fr p by (auto simp: recommend_run_def res_bind_Inr_iff Let_def)
  let ?s3 = "emit_sys e ''signal.recommendation_produced'' (rn_charter_id run) (rn_cycle_id run)
      [(''run_record_id'', JUuid (rn_id run)), (''recommendation_type'', JStr (rs_type ?rec)),
       (''action'', JStr (rs_action ?rec))] s2"
  obtain am where r: "route_recommendation e run rid am ?s3 = (r, s')"
    using assms(1) sig fr p u by (auto simp: recommend_run_def res_bind_Inr_iff Let_def)
  have "recommendations s' = recommendations s1"
    using r update_report_frame [OF u] by (auto simp: route_recommendation_def Let_def split: if_splits)
  then have "\<exists>x. filter (\<lambda>x. rr_run_id x = rn_id run) (recommendations s') = [x] \<and> rr_type x = rs_type ?rec \<and>
      rr_reasoning x = rs_reasoning ?rec"
    using persist_recommendation_rows [OF p assms(2)] by auto
  moreover have "or_state_patch r \<in> {[(''cycle_status'', JStr ''loop_deciding'')], [(''cycle_status'', JStr ''reporting'')]}"
    using r by (auto simp: route_recommendation_def Let_def split: if_splits)
  ultimately show ?thesis by (rule that [OF refl])
qed

lemma recommend_operator_run:
  assumes op: "recommend_operator e i s = Some (Inr r, s')" and ok: "or_success r" and par: "parents_ok [] (runs s)"
  obtains run sp where "run \<in> set (runs s)" "run_record_id_from_payload i = Inr (rn_id run)"
    "recommend_run e (failed_path i) run sp
       (sort_key ra_created_at (filter (\<lambda>a. ra_run_id a \<in> set (ancestors (rev (runs s)) (rn_id run))) (actions s)))
       (rev (ancestors (rev (runs s)) (rn_id run))) s = Inr (r, s')"
proof (cases "run_record_id_from_payload i")
  case (Inl err)
  then show ?thesis using op ok by (cases err) (auto simp: recommend_operator_def)
next
  case (Inr k)
  show ?thesis
  proof (cases "res_bind (load_run_record s k) (\<lambda>run. res_bind (load_experiment_spec s (rn_spec_id run)) (\<lambda>sp. Inr (run, sp)))")
    case (Inl err)
    then show ?thesis using op Inr by (simp add: recommend_operator_def)
  next
    case p: (Inr rs)
    obtain run sp where rs: "rs = (run, sp)" by (cases rs)
    then have "load_run_record s k = Inr run" using p by (auto simp: res_bind_Inr_iff)
    from load_run_record_in [OF this] have run: "run \<in> set (runs s)" "rn_id run = k" by auto
    have "committed s (recommend_run e (failed_path i) run sp
       (sort_key ra_created_at (filter (\<lambda>a. ra_run_id a \<in> set (ancestors (rev (runs s)) (rn_id run))) (actions s)))
       (rev (ancestors (rev (runs s)) (rn_id run))) s) = (Inr r, s')"
      using op Inr p rs by (simp add: recommend_operator_def lineage_actions_ok [OF par] load_lineage_ancestors [OF par])
    then show ?thesis using run Inr
      by (intro that [of run sp]) (auto simp: committed_def split: sum.splits prod.splits)
  qed
qed


definition demo_failed_run :: run_record where
  "demo_failed_run = (pending_run demo_env 20 1 3 4 None 1)\<lparr>rn_status := ''failed'', rn_failure_class := Some ''metric_parse''\<rparr>"

definition demo_skipped :: remediation_action where
  "demo_skipped = \<lparr>ra_id = 40, ra_run_id = 20, ra_retry_run_id = None, ra_charter_id = 3, ra_cycle_id = 4, ra_spec_id = 1,
     ra_failure_class = ''metric_parse'', ra_strategy = ''skip'', ra_strategy_tier = ''focused'', ra_action_detail = JNull,
     ra_outcome = ''skipped'', ra_attempt_number = 1, ra_max_attempts = 3, ra_created_at = 900\<rparr>"

definition demo_failed_world :: db where
  "demo_failed_world = empty_db\<lparr>runs := [demo_failed_run], specs := [demo_spec], actions := [demo_skipped]\<rparr>"

definition demo_failed_input :: op_input where
  "demo_failed_input = \<lparr>oi_cycle_id = 4, oi_charter_id = 3, oi_job_id = 9, oi_job_type = ''recommend'',
     oi_payload = [(''run_record_id'', JUuid 20), (''failed'', JBool True)]\<rparr>"

lemma demo_failed_facts:
  "parents_ok [] (runs demo_failed_world)" "rn_id demo_failed_run = 20" "runs demo_failed_world = [demo_failed_run]"
  "rn_parent_run_id demo_failed_run = None" "rn_spec_id demo_failed_run = 1" "sp_id demo_spec = 1"
  "specs demo_failed_world = [demo_spec]" "actions demo_failed_world = [demo_skipped]" "cycles demo_failed_world = []"
  "signals demo_failed_world = []" "frontiers demo_failed_world = []" "reports demo_failed_world = []"
  "recommendations demo_failed_world = []" "ra_run_id demo_skipped = 20" "ra_outcome demo_skipped = ''skipped''"
  by (simp_all add: demo_failed_world_def demo_failed_run_def pending_run_def demo_spec_def empty_db_def demo_skipped_def)

lemma demo_recommend:
  "\<exists>r s'. recommend_operator demo_env demo_failed_input demo_failed_world = Some (Inr r, s') \<and> or_success r"
proof -
  have "\<exists>r s'. recommend_run demo_env True demo_failed_run demo_spec acts ids demo_failed_world = Inr (r, s') \<and> or_success r"
    for acts ids
    by (simp add: recommend_run_def demo_failed_facts load_line_frontier_def persist_recommendation_def update_report_def
        is_autonomous_def dget_or_def route_recommendation_def OperatorResult_def Let_def)
  then obtain r s' where r: "recommend_run demo_env True demo_failed_run demo_spec
      (sort_key ra_created_at (filter (\<lambda>a. ra_run_id a \<in> set (ancestors [demo_failed_run] 20)) [demo_skipped]))
      (rev (ancestors [demo_failed_run] 20)) demo_failed_world = Inr (r, s')" "or_success r"
    by blast
  have run: "load_run_record demo_failed_world 20 = Inr demo_failed_run"
    "load_experiment_spec demo_failed_world 1 = Inr demo_spec"
    by (simp_all add: load_run_record_def load_experiment_spec_def demo_failed_facts)
  have inp: "run_record_id_from_payload demo_failed_input = Inr 20" "failed_path demo_failed_input"
    by (simp_all add: demo_failed_input_def run_record_id_from_payload_def failed_path_def)
  have lin: "load_lineage_actions demo_failed_world 20 =
      Some (sort_key ra_created_at (filter (\<lambda>a. ra_run_id a \<in> set (ancestors [demo_failed_run] 20)) [demo_skipped]))"
    "load_lineage_run_ids demo_failed_world 20 = Some (rev (ancestors [demo_failed_run] 20))"
    using lineage_actions_ok(1) [OF demo_failed_facts(1), of 20] load_lineage_ancestors [OF demo_failed_facts(1), of 20]
    by (simp_all only: demo_failed_facts rev.simps append.simps)
  have "recommend_operator demo_env demo_failed_input demo_failed_world = Some (Inr r, s')"
    unfolding recommend_operator_def inp sum.case run res_bind.simps demo_failed_facts(2,5) prod.case lin
      Option.bind.simps option.case
    using r inp by (simp add: committed_def)
  then show ?thesis using r(2) by blast
qed


end
