(* ===== verification/Execution.thy ===== *)
theory Execution
  imports Signals
begin

text \<open>
  Execution of one run: the metric contract (\<open>libs/execution/metrics.py\<close>), the container runner
  (\<open>libs/adapters/container/docker_runner.py\<close>), the git worktree (\<open>libs/adapters/git/worktree.py\<close>) and the
  operators \<open>execution_setup\<close>, \<open>execution_run\<close> and \<open>execution_capture\<close>
  (\<open>libs/execution/operators/setup.py\<close>, \<open>run.py\<close>, \<open>capture.py\<close>).

  Outside lie git, the file system of the workspace and the Docker daemon: the record \<open>exec_ext\<close> holds what they
  answer, \<open>Inl\<close> with the text of the exception where a call raises one.  The runner polls the daemon once a
  second; what one turn of its loop sees (and what other sessions commit before it) is a \<open>container_obs\<close>, and a run of
  the container is the list of its turns.  When the list ends before the loop does, the operator has not
  returned yet: the value is None.  Creating local directories and writing the log file are taken to succeed.
\<close>

section \<open>Metric contract\<close>

record parsed_metrics =
  pp_values :: "(string \<times> real) list"
  pp_warnings :: "string list"
  pp_errors :: "string list"

definition parsed_ok :: "parsed_metrics \<Rightarrow> bool" where
  "parsed_ok p \<longleftrightarrow> pp_errors p = []"

text \<open>What reading \<open>metrics.json\<close> gives: no file, text that is not JSON (or unreadable), or a value.\<close>

datatype metrics_file = Metrics_missing | Metrics_corrupt string | Metrics_json json

text \<open>The value of one entry as a finite float; a bool is an int in Python.\<close>

fun finite_float :: "json \<Rightarrow> real option" where
  "finite_float (JBool b) = Some (if b then 1 else 0)"
| "finite_float (JInt i) = Some (of_int i)"
| "finite_float (JFloat r) = Some r"
| "finite_float _ = None"

text \<open>The error for an entry that is not one: the code tells text and containers from not-a-number and infinity.\<close>

fun type_name :: "json \<Rightarrow> string" where
  "type_name JNull = ''NoneType''"
| "type_name (JBool b) = ''bool''"
| "type_name (JInt i) = ''int''"
| "type_name (JStr s) = ''str''"
| "type_name (JUuid u) = ''str''"
| "type_name (JList xs) = ''list''"
| "type_name (JObj d) = ''dict''"
| "type_name _ = ''float''"

definition entry_error :: "pylib \<Rightarrow> string \<Rightarrow> json \<Rightarrow> string" where
  "entry_error py key v =
    (if v = JNaN \<or> (\<exists>neg\<in>{True, False}. v = JInf neg)
     then ''metric '' @ [CHR 39] @ key @ [CHR 39] @ '': value is '' @ py_str (float_repr py) v @ '' (NaN/inf not allowed)''
     else ''metric '' @ [CHR 39] @ key @ [CHR 39] @ '': value '' @ py_repr (float_repr py) v @
       '' is not numeric (type '' @ type_name v @ '')'')"

definition metric_errors :: "pylib \<Rightarrow> dict \<Rightarrow> string list" where
  "metric_errors py raw = map (\<lambda>(k, v). entry_error py k v) (filter (\<lambda>(_, v). finite_float v = None) raw)"

fun metric_values :: "dict \<Rightarrow> (string \<times> real) list" where
  "metric_values [] = []"
| "metric_values ((k, v) # d) =
    (case finite_float v of None \<Rightarrow> metric_values d | Some r \<Rightarrow> (k, r) # metric_values d)"

text \<open>
  \<open>{m["name"] for m in expected_metrics if "name" in m}\<close>.  Python leaves the order of this set open; here it is the order
  of first occurrence, which only orders the error messages.
\<close>

definition expected_name :: "json \<Rightarrow> json list res" where
  "expected_name m =
    res_bind (py_in (JStr ''name'') m) (\<lambda>b.
      if \<not> b then Inr []
      else case m of
             JObj d \<Rightarrow> res_bind (key_text (dget d ''name'')) (\<lambda>_. Inr [dget d ''name''])
           | _ \<Rightarrow> Inl TypeError)"

definition expected_names :: "json \<Rightarrow> json list res" where
  "expected_names expected_metrics =
    res_bind (py_iter expected_metrics) (\<lambda>ms. res_bind (map_res expected_name ms) (\<lambda>ns.
      Inr (first_occurrences (concat ns))))"

definition name_found :: "(string \<times> real) list \<Rightarrow> json \<Rightarrow> bool" where
  "name_found values n = (case key_text n of Inr (Some t) \<Rightarrow> t \<in> fst ` set values | _ \<Rightarrow> False)"

definition check_values :: "pylib \<Rightarrow> dict \<Rightarrow> json list \<Rightarrow> parsed_metrics" where
  "check_values py raw names =
    (let values = metric_values raw in
     \<lparr>pp_values = values,
      pp_warnings = map (\<lambda>n. ''extra metric '' @ [CHR 39] @ n @ [CHR 39] @ '' not in expected metrics'')
        (sort (filter (\<lambda>n. \<forall>x\<in>set names. key_text x \<noteq> Inr (Some n)) (map fst values))),
      pp_errors = metric_errors py raw @
        map (\<lambda>n. ''expected metric '' @ [CHR 39] @ py_str (float_repr py) n @ [CHR 39] @ '' not found in metrics output'')
          (filter (\<lambda>n. \<not> name_found values n) names)\<rparr>)"

definition parse_metrics :: "pylib \<Rightarrow> metrics_file \<Rightarrow> json \<Rightarrow> parsed_metrics res" where
  "parse_metrics py file expected_metrics =
    (case file of
       Metrics_missing \<Rightarrow> Inr \<lparr>pp_values = [], pp_warnings = [],
          pp_errors = [''metrics file missing: /artifacts/metrics.json not found'']\<rparr>
     | Metrics_corrupt msg \<Rightarrow> Inr \<lparr>pp_values = [], pp_warnings = [], pp_errors = [''metrics file corrupt: '' @ msg]\<rparr>
     | Metrics_json (JObj raw) \<Rightarrow> res_bind (expected_names expected_metrics) (\<lambda>names. Inr (check_values py raw names))
     | Metrics_json _ \<Rightarrow> Inr \<lparr>pp_values = [], pp_warnings = [],
          pp_errors = [''metrics file must be a flat JSON object {name: value}'']\<rparr>)"

section \<open>Container runner\<close>

record run_spec =
  ru_workspace_path :: string
  ru_image :: string
  ru_command :: "string list"
  ru_env :: json
  ru_gpu_enabled :: bool
  ru_gpu_count :: int
  ru_memory_limit :: string
  ru_timeout_seconds :: int
  ru_artifact_output_path :: string

record run_outcome =
  oc_exit_code :: int
  oc_wall_time_s :: real
  oc_resource_usage :: dict
  oc_container_id :: string
  oc_terminal_state :: string
  oc_status_message :: "string option"

text \<open>
  One turn of the polling loop: what other sessions have committed, the two clocks, whether pausing, killing
  or stopping raises, the log text since a second, the seconds since the start, and the state of the container
  (the exit code once it has exited).
\<close>

record container_obs =
  ob_session :: "db \<Rightarrow> db"
  ob_now :: time
  ob_epoch :: int
  ob_control :: "string option"
  ob_logs :: "int \<Rightarrow> string + string"
  ob_elapsed :: real
  ob_stop :: "string option"
  ob_wait :: "string + int option"

record docker =
  dk_open :: "run_spec \<Rightarrow> string option \<Rightarrow> string + string"
  dk_start :: "string option"
  dk_epoch :: int
  dk_turns :: "container_obs list"
  dk_finished :: time
  dk_wall :: real
  dk_stats :: json

definition telemetry_callback :: "env \<Rightarrow> uuid \<Rightarrow> string \<Rightarrow> string \<Rightarrow> dict \<Rightarrow> db \<Rightarrow> db" where
  "telemetry_callback e run_id event_type message payload s =
     (tick_uuid s)\<lparr>telemetry := telemetry s @
        [\<lparr>rt_id = new_uuid e s, rt_run_id = run_id, rt_timestamp = now e, rt_event_type = event_type,
          rt_payload = JObj (dupdate [(''message'', JStr message)] payload)\<rparr>]\<rparr>"

datatype control = Ctl_none | Ctl_pause | Ctl_cancel

definition control_callback :: "env \<Rightarrow> uuid \<Rightarrow> time \<Rightarrow> db \<Rightarrow> (control \<times> time \<times> db) res" where
  "control_callback e run_id last_progress_at s =
    res_bind (load_run_record s run_id) (\<lambda>fresh.
      if rn_status fresh = ''cancelled'' then Inr (Ctl_cancel, last_progress_at, s)
      else if rn_status fresh = ''paused'' then Inr (Ctl_pause, last_progress_at, s)
      else if now e - last_progress_at \<ge> 30000000
      then Inr (Ctl_none, now e,
             emit_sys e ''execution.run_progress'' (rn_charter_id fresh) (rn_cycle_id fresh)
               [(''run_record_id'', JUuid (rn_id fresh)),
                (''wall_time_s'', JInt (max 0 (trunc (of_int (now e - (case rn_started_at fresh of None \<Rightarrow> now e | Some t \<Rightarrow> t)) / 1000000)))),
                (''status'', JStr (rn_status fresh))] s)
      else Inr (Ctl_none, last_progress_at, s))"

text \<open>The lines of one fetch that are new, in order, and the lines seen so far.\<close>

fun new_lines :: "string list \<Rightarrow> string list \<Rightarrow> string list \<times> string list" where
  "new_lines seen [] = ([], seen)"
| "new_lines seen (l # ls) =
    (if l = [] \<or> l \<in> set seen then new_lines seen ls
     else case new_lines (l # seen) ls of (fresh, seen') \<Rightarrow> (l # fresh, seen'))"

record loop_state =
  lo_db :: db
  lo_lines :: "string list"
  lo_cursor :: int
  lo_seen :: "string list"
  lo_progress :: time

definition note_telemetry :: "env \<Rightarrow> uuid \<Rightarrow> string \<Rightarrow> string \<Rightarrow> dict \<Rightarrow> loop_state \<Rightarrow> loop_state" where
  "note_telemetry e run_id event_type message payload l =
     l\<lparr>lo_db := telemetry_callback e run_id event_type message payload (lo_db l), lo_lines := lo_lines l @ [message]\<rparr>"

definition fetch_logs :: "env \<Rightarrow> uuid \<Rightarrow> container_obs \<Rightarrow> loop_state \<Rightarrow> string + loop_state" where
  "fetch_logs e run_id ob l =
    (case ob_logs ob (max (lo_cursor l) (ob_epoch ob - 1)) of
       Inl err \<Rightarrow> Inl err
     | Inr decoded \<Rightarrow>
        if decoded = [] then Inr l
        else case new_lines (lo_seen l) (py_splitlines decoded) of (fresh, seen') \<Rightarrow>
          let l1 = fold (\<lambda>line. note_telemetry e run_id ''log'' line []) fresh l
          in Inr (l1\<lparr>lo_cursor := ob_epoch ob, lo_seen := (if length seen' > 500 then [] else seen')\<rparr>))"

text \<open>How the loop ended: the exit code, the terminal state and its message; or the exception it raised.\<close>

type_synonym loop_end = "(string + int \<times> string \<times> string option) \<times> loop_state"

definition exc_text :: "exc \<Rightarrow> string" where
  "exc_text err = (case err of ExecutionStateError m \<Rightarrow> m | ValueError m \<Rightarrow> m | _ \<Rightarrow> [])"

definition obey :: "env \<Rightarrow> uuid \<Rightarrow> string \<Rightarrow> container_obs \<Rightarrow> string \<Rightarrow> loop_state \<Rightarrow> loop_end" where
  "obey e run_id container_id ob state l =
    (case ob_control ob of
       Some err \<Rightarrow> (Inl err, l)
     | None \<Rightarrow> (Inr (-1, state, Some (''container '' @ state)),
         note_telemetry e run_id ''status_change'' (''container_'' @ state) [(''container_id'', JStr container_id)] l))"

text \<open>One turn: the end of the loop, or the state the next turn starts from.\<close>

definition loop_turn ::
  "env \<Rightarrow> uuid \<Rightarrow> string \<Rightarrow> int \<Rightarrow> container_obs \<Rightarrow> loop_state \<Rightarrow> loop_end + loop_state" where
  "loop_turn e0 run_id container_id timeout_seconds ob l0 =
    (let e = e0\<lparr>now := ob_now ob\<rparr>; l = l0\<lparr>lo_db := ob_session ob (lo_db l0)\<rparr> in
     case control_callback e run_id (lo_progress l) (lo_db l) of
       Inl err \<Rightarrow> Inl (Inl (exc_text err), l)
     | Inr (Ctl_pause, _, _) \<Rightarrow> Inl (obey e run_id container_id ob ''paused'' l)
     | Inr (Ctl_cancel, _, _) \<Rightarrow> Inl (obey e run_id container_id ob ''cancelled'' l)
     | Inr (Ctl_none, t, s1) \<Rightarrow>
        (case fetch_logs e run_id ob (l\<lparr>lo_db := s1, lo_progress := t\<rparr>) of
           Inl err \<Rightarrow> Inl (Inl err, l\<lparr>lo_db := s1, lo_progress := t\<rparr>)
         | Inr l2 \<Rightarrow>
            if ob_elapsed ob > of_int timeout_seconds
            then (case ob_stop ob of
                    Some err \<Rightarrow> Inl (Inl err, l2)
                  | None \<Rightarrow> Inl (Inr (-1, ''failed'', Some ''timeout''),
                      note_telemetry e run_id ''status_change'' ''timeout'' [(''elapsed_s'', JFloat (ob_elapsed ob))] l2))
            else (case ob_wait ob of
                    Inl err \<Rightarrow> Inl (Inl err, l2)
                  | Inr (Some code) \<Rightarrow> Inl (Inr (code, if code = 0 then ''completed'' else ''failed'', None), l2)
                  | Inr None \<Rightarrow> Inr l2)))"

fun poll_loop ::
  "env \<Rightarrow> uuid \<Rightarrow> string \<Rightarrow> int \<Rightarrow> container_obs list \<Rightarrow> loop_state \<Rightarrow> loop_end option" where
  "poll_loop e run_id container_id timeout_seconds [] l = None"
| "poll_loop e run_id container_id timeout_seconds (ob # obs) l =
    (case loop_turn e run_id container_id timeout_seconds ob l of
       Inl r \<Rightarrow> Some r
     | Inr l' \<Rightarrow> poll_loop e run_id container_id timeout_seconds obs l')"

definition collect_usage :: "real \<Rightarrow> json \<Rightarrow> dict" where
  "collect_usage wall raw_stats =
    (let base = [(''wall_time_s'', JFloat (py_round 2 wall))] in
     case dget (as_dict raw_stats) ''memory_stats'' of
       JObj mem_stats \<Rightarrow>
         (case py_num (dget mem_stats ''max_usage'') of
            None \<Rightarrow> base
          | Some x \<Rightarrow> base @ [(''peak_memory_mb'', JFloat (py_round 1 (x / (1024 * 1024))))])
     | _ \<Rightarrow> base)"

text \<open>\<open>DockerRunner.run\<close>: the outcome or the exception, the lines the callback collected and the store.\<close>

definition runner_run ::
  "env \<Rightarrow> docker \<Rightarrow> run_spec \<Rightarrow> uuid \<Rightarrow> string option \<Rightarrow> db \<Rightarrow> ((string + run_outcome) \<times> string list \<times> db) option" where
  "runner_run e dk spec run_id resume s =
    (let l0 = \<lparr>lo_db = s, lo_lines = [], lo_cursor = dk_epoch dk - 1, lo_seen = [], lo_progress = 0\<rparr> in
     case dk_open dk spec resume of
       Inl err \<Rightarrow> Some (Inl err, [], s)
     | Inr container_id \<Rightarrow>
        (let started = note_telemetry e run_id ''status_change''
               (if resume = None then ''container_started'' else ''container_resumed'') [(''container_id'', JStr container_id)] l0
         in case (if resume = None then dk_start dk else None) of
              Some err \<Rightarrow> Some (Inl err, [], s)
            | None \<Rightarrow>
               map_option (\<lambda>(r, l). (case r of
                   Inl err \<Rightarrow> Inl err
                 | Inr (code, state, message) \<Rightarrow>
                    Inr \<lparr>oc_exit_code = code, oc_wall_time_s = py_round 2 (dk_wall dk),
                         oc_resource_usage = collect_usage (dk_wall dk) (dk_stats dk), oc_container_id = container_id,
                         oc_terminal_state = state, oc_status_message = message\<rparr>, lo_lines l, lo_db l))
                 (poll_loop e run_id container_id (ru_timeout_seconds spec) (dk_turns dk) started)))"

section \<open>Workspace\<close>

record exec_ext =
  xx_py :: pylib
  xx_data_root :: string
  xx_git_add :: "string \<Rightarrow> string option"
  xx_git_commit :: "string \<Rightarrow> string \<Rightarrow> string + string"
  xx_write :: "string \<Rightarrow> string \<Rightarrow> string \<Rightarrow> string option"
  xx_build :: "json \<Rightarrow> string \<Rightarrow> string \<Rightarrow> string option"
  xx_exists :: "string \<Rightarrow> bool"

text \<open>\<open>git worktree add\<close> in the workspace directory of the run, and \<open>git add; git commit; git rev-parse HEAD\<close>.\<close>

definition create_worktree :: "exec_ext \<Rightarrow> uuid \<Rightarrow> string + string" where
  "create_worktree x run_id =
    (let p = xx_data_root x @ ''/workspaces/'' @ uuid_str run_id
     in case xx_git_add x p of Some err \<Rightarrow> Inl err | None \<Rightarrow> Inr p)"

definition commit_worktree :: "exec_ext \<Rightarrow> string \<Rightarrow> string \<Rightarrow> string + string" where
  "commit_worktree x path message =
    (case xx_git_commit x path message of Inl err \<Rightarrow> Inl err | Inr out \<Rightarrow> Inr (py_strip out))"

text \<open>\<open>DockerRunner.build_image\<close> returns the tag it was given.\<close>

definition build_image :: "exec_ext \<Rightarrow> json \<Rightarrow> string \<Rightarrow> string \<Rightarrow> string + string" where
  "build_image x dockerfile_content tag context_path =
    (case xx_build x dockerfile_content tag context_path of Some err \<Rightarrow> Inl err | None \<Rightarrow> Inr tag)"

section \<open>Setting up a run\<close>

text \<open>\<open>dict(v)\<close> for a JSON value, and \<open>overrides[key].get(field, default)\<close> when the key is there.\<close>

fun py_dict :: "json \<Rightarrow> dict res" where
  "py_dict (JObj d) = Inr d"
| "py_dict _ = Inl TypeError"

definition override :: "json \<Rightarrow> string \<Rightarrow> string \<Rightarrow> json \<Rightarrow> json option res" where
  "override overrides key entry dflt =
    res_bind (py_in (JStr key) overrides) (\<lambda>present.
      if \<not> present then Inr None
      else case overrides of
             JObj d \<Rightarrow> res_bind (jget_or (dget d key) entry dflt) (\<lambda>v. Inr (Some v))
           | _ \<Rightarrow> Inl TypeError)"

definition patched_plan :: "json \<Rightarrow> json \<Rightarrow> dict res" where
  "patched_plan code_plan overrides =
    res_bind (py_dict (or_dict code_plan)) (\<lambda>plan.
    res_bind (override overrides ''code_plan'' ''patched_files'' (JObj [])) (\<lambda>patch.
      case patch of
        None \<Rightarrow> Inr plan
      | Some p \<Rightarrow>
          res_bind (py_dict (dget_or plan ''files'' (JObj []))) (\<lambda>existing.
          res_bind (py_dict p) (\<lambda>new. Inr (dset plan ''files'' (JObj (dupdate existing new)))))))"

fun write_files :: "exec_ext \<Rightarrow> string \<Rightarrow> dict \<Rightarrow> unit res" where
  "write_files x dir [] = Inr ()"
| "write_files x dir ((name, JStr content) # fs) =
    (case xx_write x dir name content of Some err \<Rightarrow> Inl (ExternalError err) | None \<Rightarrow> write_files x dir fs)"
| "write_files x dir ((name, JUuid u) # fs) =
    (case xx_write x dir name (uuid_str u) of Some err \<Rightarrow> Inl (ExternalError err) | None \<Rightarrow> write_files x dir fs)"
| "write_files x dir (_ # fs) = Inl TypeError"

text \<open>\<open>' '.join(xs)\<close>.\<close>

fun text_of :: "json \<Rightarrow> string res" where
  "text_of (JStr s) = Inr s"
| "text_of (JUuid u) = Inr (uuid_str u)"
| "text_of _ = Inl TypeError"

definition py_join :: "string \<Rightarrow> json \<Rightarrow> string res" where
  "py_join sep v = res_bind (py_iter v) (\<lambda>xs. res_bind (map_res text_of xs) (\<lambda>ts. Inr (join_with sep ts)))"

text \<open>The build recipe after the extra packages of a remediation; None when there is none.\<close>

definition patched_recipe :: "string \<Rightarrow> json \<Rightarrow> json \<Rightarrow> dict option res" where
  "patched_recipe image_ref recipe overrides =
    res_bind (if truthy recipe then res_bind (py_dict recipe) (\<lambda>d. Inr (Some d)) else Inr None) (\<lambda>base.
    res_bind (override overrides ''build_recipe'' ''extra_pip_packages'' (JList [])) (\<lambda>extra.
      case extra of
        None \<Rightarrow> Inr base
      | Some pkgs \<Rightarrow>
          if \<not> truthy pkgs then Inr base
          else res_bind (py_join '' '' pkgs) (\<lambda>names.
            case base of
              Some d \<Rightarrow>
                if d \<noteq> [] \<and> truthy (dget d ''dockerfile_content'')
                then res_bind (text_of (dget d ''dockerfile_content'')) (\<lambda>c.
                       Inr (Some (dset d ''dockerfile_content''
                         (JStr (c @ [CHR 10] @ ''RUN pip install '' @ names @ [CHR 10])))))
                else Inr (Some [(''dockerfile_content'',
                       JStr (''FROM '' @ image_ref @ [CHR 10] @ ''RUN pip install '' @ names @ [CHR 10]))])
            | None \<Rightarrow> Inr (Some [(''dockerfile_content'',
                       JStr (''FROM '' @ image_ref @ [CHR 10] @ ''RUN pip install '' @ names @ [CHR 10]))]))))"

definition default_limits :: "json \<Rightarrow> json res" where
  "default_limits hardware_profile =
    (let hw = or_dict hardware_profile in
     res_bind (jget_or hw ''memory_gb'' JNull) (\<lambda>mem.
     res_bind (jget_or hw ''timeout_seconds'' (JInt 3600)) (\<lambda>tmo.
     res_bind (jget_or hw ''gpu_required'' (JBool False)) (\<lambda>gpu.
     res_bind (jget_or hw ''gpu_count'' (JInt 1)) (\<lambda>count.
       Inr (JObj [(''memory'', JStr (case mem of JInt n \<Rightarrow> int_str n @ ''g'' | JBool b \<Rightarrow> (if b then ''Trueg'' else ''Falseg'')
                                      | _ \<Rightarrow> ''16g'')),
                  (''timeout'', tmo), (''gpu'', gpu), (''gpu_count'', count)]))))))"

text \<open>A failure of the run that the operator itself reports: the row is committed as failed.\<close>

definition failed_row :: "env \<Rightarrow> string \<Rightarrow> string \<Rightarrow> run_record \<Rightarrow> run_record" where
  "failed_row e cls msg run =
     run\<lparr>rn_status := ''failed'', rn_failure_class := Some cls, rn_error := Some msg, rn_completed_at := Some (now e)\<rparr>"

definition give_up :: "env \<Rightarrow> string \<Rightarrow> string \<Rightarrow> run_record \<Rightarrow> db \<Rightarrow> op_result \<times> db" where
  "give_up e cls msg run s = (op_fail msg, put_run (failed_row e cls msg run) s)"

text \<open>The image of the run: the base image, or the one built from the recipe (the tag takes an identifier).\<close>

definition resolve_image ::
  "exec_ext \<Rightarrow> env \<Rightarrow> string \<Rightarrow> run_record \<Rightarrow> string \<Rightarrow> dict option \<Rightarrow> db \<Rightarrow> (string + string) \<times> db" where
  "resolve_image x e worktree run image_ref recipe s =
    (case recipe of
       Some d \<Rightarrow>
         if d \<noteq> [] \<and> truthy (dget d ''dockerfile_content'')
         then (case build_image x (dget d ''dockerfile_content'') (''synthetos-exp-'' @ uuid_str (new_uuid e s)) worktree of
                 Inl err \<Rightarrow> (Inl err, tick_uuid s)
               | Inr img \<Rightarrow> (Inr img, emit_sys e ''execution.image_built'' (rn_charter_id run) (rn_cycle_id run)
                    [(''run_record_id'', JUuid (rn_id run)), (''image'', JStr img)] (tick_uuid s)))
         else (Inr image_ref, s)
     | None \<Rightarrow> (Inr image_ref, s))"

definition finish_setup ::
  "env \<Rightarrow> run_record \<Rightarrow> string \<Rightarrow> string \<Rightarrow> string \<Rightarrow> json \<Rightarrow> string \<Rightarrow> db \<Rightarrow> op_result \<times> db" where
  "finish_setup e run worktree image_ref sha limits command s =
    (let run' = run\<lparr>rn_image_ref := Some image_ref, rn_command := Some command, rn_resource_limits := limits\<rparr>;
         s1 = emit_sys e ''execution.workspace_created'' (rn_charter_id run) (rn_cycle_id run)
                [(''run_record_id'', JUuid (rn_id run)), (''workspace_path'', JStr worktree),
                 (''image'', JStr image_ref), (''commit_sha'', JStr sha)] (put_run run' s)
     in (OperatorResult, snd (enqueue_next e (rn_cycle_id run) ''execution_run'' (rn_id run) [] s1)))"

definition setup_image ::
  "exec_ext \<Rightarrow> env \<Rightarrow> run_record \<Rightarrow> experiment_spec \<Rightarrow> string \<Rightarrow> string \<Rightarrow> dict \<Rightarrow> json \<Rightarrow> db \<Rightarrow> (op_result \<times> db) res" where
  "setup_image x e run sp worktree sha plan overrides s =
    (let base = (case sp_base_image sp of Some (c # cs) \<Rightarrow> c # cs | _ \<Rightarrow> ''python:3.12-slim'') in
     res_bind (patched_recipe base (sp_build_recipe sp) overrides) (\<lambda>recipe.
       case resolve_image x e worktree run base recipe s of
         (Inl err, s1) \<Rightarrow> Inr (give_up e ''dependency'' (''image build failed: '' @ err) run s1)
       | (Inr image_ref, s1) \<Rightarrow>
           res_bind (if truthy (rn_resource_limits run) then Inr (rn_resource_limits run)
                     else default_limits (sp_hardware_profile sp)) (\<lambda>limits.
             Inr (finish_setup e run worktree image_ref sha limits
                    (''python '' @ py_str (float_repr (xx_py x)) (dget_or plan ''entry_point'' (JStr ''run_experiment.py''))) s1))))"

definition setup_code ::
  "exec_ext \<Rightarrow> env \<Rightarrow> run_record \<Rightarrow> experiment_spec \<Rightarrow> string \<Rightarrow> json \<Rightarrow> db \<Rightarrow> (op_result \<times> db) res" where
  "setup_code x e run sp worktree overrides s =
    res_bind (patched_plan (sp_code_plan sp) overrides) (\<lambda>plan.
    res_bind (py_dict (dget_or plan ''files'' (JObj []))) (\<lambda>fs.
    res_bind (write_files x worktree fs) (\<lambda>_.
      case commit_worktree x worktree (''experiment: '' @ sp_title sp @ '' run '' @ int_str (rn_run_number run)) of
        Inl err \<Rightarrow> Inr (give_up e ''dependency'' (''worktree commit failed: '' @ err) run s)
      | Inr sha \<Rightarrow>
          if sha = [] then Inr (give_up e ''dependency'' ''worktree commit failed: empty commit sha'' run s)
          else res_bind (py_dict (or_dict (rn_env_vars run))) (\<lambda>vars.
                 setup_image x e (run\<lparr>rn_env_vars := JObj (dset vars ''commit_sha'' (JStr sha)), rn_status := ''building''\<rparr>)
                   sp worktree sha plan overrides s))))"

definition setup_run ::
  "exec_ext \<Rightarrow> env \<Rightarrow> run_record \<Rightarrow> experiment_spec \<Rightarrow> json \<Rightarrow> db \<Rightarrow> (op_result \<times> db) res" where
  "setup_run x e run0 sp overrides s =
    (let run = run0\<lparr>rn_status := ''workspace_setup'', rn_started_at := Some (now e)\<rparr> in
     case create_worktree x (rn_id run) of
       Inl err \<Rightarrow> Inr (give_up e ''dependency'' (''worktree creation failed: '' @ err) run s)
     | Inr worktree \<Rightarrow> setup_code x e (run\<lparr>rn_workspace_path := Some worktree\<rparr>) sp worktree overrides s)"

text \<open>\<open>db.get(ExperimentSpec, id)\<close> with the early return of the execution and verification operators.\<close>

definition with_spec ::
  "db \<Rightarrow> uuid \<Rightarrow> (run_record \<Rightarrow> experiment_spec \<Rightarrow> (op_result \<times> db) res) \<Rightarrow> (op_result \<times> db) res" where
  "with_spec s run_id f =
    res_bind (load_run_record s run_id) (\<lambda>run.
      case table_get sp_id (specs s) (rn_spec_id run) of
        None \<Rightarrow> Inr (op_fail ''experiment spec not found'', s)
      | Some sp \<Rightarrow> f run sp)"

definition execution_setup_operator :: "exec_ext \<Rightarrow> env \<Rightarrow> operator" where
  "execution_setup_operator x e i s =
     with_run_id i s (\<lambda>run_id. committed s (with_spec s run_id (\<lambda>run sp.
       setup_run x e run sp (dget_or (oi_payload i) ''remediation_overrides'' (JObj [])) s)))"

section \<open>Running the container\<close>

definition OOM_SIGNALS :: "string list" where "OOM_SIGNALS = [''oom'', ''out of memory'', ''killed'', ''signal 9'']"
definition TIMEOUT_SIGNALS :: "string list" where "TIMEOUT_SIGNALS = [''timeout'']"
definition DEPENDENCY_SIGNALS :: "string list" where
  "DEPENDENCY_SIGNALS = [''modulenotfounderror'', ''importerror'', ''no such file'']"
definition ARTIFACT_SIGNALS :: "string list" where
  "ARTIFACT_SIGNALS = [''filenotfounderror'', ''artifact'', ''missing output'', ''expected output'']"

definition mentions :: "string list \<Rightarrow> string \<Rightarrow> bool" where
  "mentions sigs t \<longleftrightarrow> (\<exists>m\<in>set sigs. has_text m t)"

definition classify_failure :: "int \<Rightarrow> string \<Rightarrow> string" where
  "classify_failure exit_code stderr_tail =
    (let lower = map char_lower stderr_tail in
     if exit_code = 137 \<or> mentions OOM_SIGNALS lower then ''oom''
     else if mentions TIMEOUT_SIGNALS lower then ''timeout''
     else if mentions DEPENDENCY_SIGNALS lower then ''dependency''
     else if mentions ARTIFACT_SIGNALS lower then ''invalid_artifact''
     else if exit_code \<noteq> 0 then ''runtime'' else ''unknown'')"

definition log_path :: "exec_ext \<Rightarrow> uuid \<Rightarrow> string \<Rightarrow> string" where
  "log_path x run_id name = xx_data_root x @ ''/logs/'' @ uuid_str run_id @ ''/'' @ name"

text \<open>GPU, GPU count, memory and timeout out of the resource limits of the row.\<close>

definition run_limits :: "pylib \<Rightarrow> json \<Rightarrow> (bool \<times> int \<times> string \<times> int) res" where
  "run_limits py limits =
    res_bind (jget_or limits ''gpu'' (JBool False)) (\<lambda>gpu.
    res_bind (jget_or limits ''gpu_count'' (JInt 1)) (\<lambda>gc. res_bind (py_int py gc) (\<lambda>gpu_count.
    res_bind (jget_or limits ''memory'' (JStr ''16g'')) (\<lambda>mem.
    res_bind (jget_or limits ''timeout'' (JInt 3600)) (\<lambda>tm. res_bind (py_int py tm) (\<lambda>timeout.
      Inr (truthy gpu, gpu_count, py_str (float_repr py) mem, timeout)))))))"

definition make_run_spec :: "exec_ext \<Rightarrow> run_record \<Rightarrow> string \<Rightarrow> run_spec res" where
  "make_run_spec x run workspace =
     res_bind (py_dict (or_dict (rn_env_vars run))) (\<lambda>vars.
     res_bind (run_limits (xx_py x) (or_dict (rn_resource_limits run))) (\<lambda>(gpu, gpu_count, mem, timeout).
       Inr \<lparr>ru_workspace_path = workspace,
            ru_image = (case rn_image_ref run of Some (c # cs) \<Rightarrow> c # cs | _ \<Rightarrow> ''python:3.12-slim''),
            ru_command = [''sh'', ''-c'', case rn_command run of Some (c # cs) \<Rightarrow> c # cs | _ \<Rightarrow> ''python run_experiment.py''],
            ru_env = JObj vars, ru_gpu_enabled = gpu, ru_gpu_count = gpu_count,
            ru_memory_limit = mem, ru_timeout_seconds = timeout,
            ru_artifact_output_path = xx_data_root x @ ''/artifacts/'' @ uuid_str (rn_id run)\<rparr>))"

text \<open>
  What follows the return of the runner.  The session writes only the columns it changed, so it leaves the row as
  other sessions have it by then with these columns set.
\<close>

definition outcome_row :: "run_outcome \<Rightarrow> run_record \<Rightarrow> run_record" where
  "outcome_row oc run =
     run\<lparr>rn_container_id := Some (oc_container_id oc),
         rn_exit_code := (if oc_exit_code oc \<ge> 0 then Some (oc_exit_code oc) else None),
         rn_resource_usage := JObj (oc_resource_usage oc)\<rparr>"

definition container_failed :: "env \<Rightarrow> run_outcome \<Rightarrow> string list \<Rightarrow> run_record \<Rightarrow> db \<Rightarrow> op_result \<times> db" where
  "container_failed e oc lines run s =
    (let cls = classify_failure (oc_exit_code oc) (join_with [CHR 10] (last_n 50 lines));
         row = failed_row e cls (''container exited with code '' @ int_str (oc_exit_code oc)) run;
         s1 = emit_sys e ''execution.run_failed'' (rn_charter_id run) (rn_cycle_id run)
                [(''run_record_id'', JUuid (rn_id run)), (''exit_code'', JInt (oc_exit_code oc)),
                 (''failure_class'', JStr cls)] (put_run row s)
     in (op_patch Cy_verifying, snd (enqueue_next e (rn_cycle_id run) ''verification_check'' (rn_id run) [] s1)))"

definition container_succeeded :: "env \<Rightarrow> run_outcome \<Rightarrow> run_record \<Rightarrow> db \<Rightarrow> op_result \<times> db" where
  "container_succeeded e oc run s =
    (let s1 = emit_sys e ''execution.run_completed'' (rn_charter_id run) (rn_cycle_id run)
                [(''run_record_id'', JUuid (rn_id run)), (''exit_code'', JInt 0),
                 (''wall_time_s'', JFloat (oc_wall_time_s oc))] (put_run (run\<lparr>rn_status := ''capturing''\<rparr>) s)
     in (OperatorResult, snd (enqueue_next e (rn_cycle_id run) ''execution_capture'' (rn_id run) [] s1)))"

definition after_container :: "env \<Rightarrow> run_outcome \<Rightarrow> string list \<Rightarrow> run_record \<Rightarrow> db \<Rightarrow> op_result \<times> db" where
  "after_container e oc lines run0 s =
    (let run = outcome_row oc run0 in
     if oc_terminal_state oc = ''paused''
     then (OperatorResult, put_run (run\<lparr>rn_status := ''paused'', rn_updated_at := now e\<rparr>) s)
     else if oc_terminal_state oc = ''cancelled''
     then (OperatorResult, put_run (run\<lparr>rn_status := ''cancelled'', rn_completed_at := Some (now e), rn_updated_at := now e\<rparr>) s)
     else if oc_exit_code oc \<noteq> 0 then container_failed e oc lines run s
     else container_succeeded e oc run s)"

text \<open>The session commits the failure or what the outcome says; the update of a deleted row raises.\<close>

definition finish_container ::
  "exec_ext \<Rightarrow> env \<Rightarrow> uuid \<Rightarrow> (string + run_outcome) \<times> string list \<times> db \<Rightarrow> op_result res \<times> db" where
  "finish_container x e run_id out =
    (case out of (r, lines, s) \<Rightarrow>
      case table_get rn_id (runs s) run_id of
        None \<Rightarrow> (Inl (ExternalError ''StaleDataError''), s)
      | Some run \<Rightarrow>
         (case (case r of
                  Inl err \<Rightarrow> give_up e ''runtime'' (''container execution failed: '' @ err) run s
                | Inr oc \<Rightarrow> after_container e oc lines run
                    (s\<lparr>disk := dset (disk s) (log_path x run_id ''stdout.log'') (join_with [CHR 10] lines)\<rparr>)) of
            (res, s') \<Rightarrow> (Inr res, s')))"

definition started_row :: "exec_ext \<Rightarrow> run_record \<Rightarrow> run_record" where
  "started_row x run =
     run\<lparr>rn_status := ''running'', rn_stdout_path := Some (log_path x (rn_id run) ''stdout.log''),
         rn_stderr_path := Some (log_path x (rn_id run) ''stderr.log'')\<rparr>"

definition run_container ::
  "exec_ext \<Rightarrow> docker \<Rightarrow> env \<Rightarrow> run_record \<Rightarrow> string \<Rightarrow> bool \<Rightarrow> db \<Rightarrow> (op_result res \<times> db) option" where
  "run_container x dk e run workspace resume_requested s =
    (case make_run_spec x (started_row x run) workspace of
       Inl err \<Rightarrow> Some (Inl err, s)
     | Inr spec \<Rightarrow>
        (let s1 = emit_sys e ''execution.container_started'' (rn_charter_id run) (rn_cycle_id run)
                   [(''run_record_id'', JUuid (rn_id run)), (''image'', JStr (ru_image spec)),
                    (''resume'', JBool resume_requested)] (put_run (started_row x run) s);
             resume = (if resume_requested then (case rn_container_id run of Some (c # cs) \<Rightarrow> Some (c # cs) | _ \<Rightarrow> None) else None)
         in map_option (finish_container x (e\<lparr>now := dk_finished dk\<rparr>) (rn_id run))
              (runner_run e dk spec (rn_id run) resume s1)))"

definition execution_run_operator :: "exec_ext \<Rightarrow> docker \<Rightarrow> env \<Rightarrow> op_input \<Rightarrow> db \<Rightarrow> (op_result res \<times> db) option" where
  "execution_run_operator x dk e i s =
    (case run_record_id_from_payload i of
       Inl (ExecutionStateError m) \<Rightarrow> Some (Inr (op_fail m), s)
     | Inl err \<Rightarrow> Some (Inl err, s)
     | Inr run_id \<Rightarrow>
        (case load_run_record s run_id of
           Inl err \<Rightarrow> Some (Inl err, s)
         | Inr run \<Rightarrow>
            (case rn_workspace_path run of
               Some (c # cs) \<Rightarrow>
                 if xx_exists x (c # cs)
                 then run_container x dk e run (c # cs) (truthy (dget (oi_payload i) ''resume'')) s
                 else (case give_up e ''dependency'' ''workspace path does not exist'' (run\<lparr>rn_status := ''running''\<rparr>) s of
                         (r, s') \<Rightarrow> Some (Inr r, s'))
             | _ \<Rightarrow> (case give_up e ''dependency'' ''workspace path does not exist'' (run\<lparr>rn_status := ''running''\<rparr>) s of
                         (r, s') \<Rightarrow> Some (Inr r, s')))))"

section \<open>Capturing artifacts\<close>

text \<open>The files below the artifact directory, sorted by path: path relative to it, size and SHA-256.\<close>

record artifact_file =
  af_path :: "string list"
  af_size :: int
  af_hash :: string

definition collect_artifacts :: "artifact_file list option \<Rightarrow> json list" where
  "collect_artifacts dir =
    (case dir of None \<Rightarrow> []
     | Some fs \<Rightarrow> map (\<lambda>f. JObj [(''name'', JStr (last (af_path f))), (''path'', JStr (join_with ''/'' (af_path f))),
         (''size_bytes'', JInt (af_size f)), (''hash'', JStr (af_hash f))]) (sort_key af_path fs))"

definition capture_failed :: "env \<Rightarrow> run_record \<Rightarrow> parsed_metrics \<Rightarrow> db \<Rightarrow> op_result \<times> db" where
  "capture_failed e run p s =
    (let row = failed_row e ''metric_parse'' (join_with ''; '' (pp_errors p)) run;
         s1 = emit_sys e ''execution.run_failed'' (rn_charter_id run) (rn_cycle_id run)
                [(''run_record_id'', JUuid (rn_id run)), (''failure_class'', JStr ''metric_parse''),
                 (''errors'', JList (map JStr (pp_errors p)))] (put_run row s)
     in (op_patch Cy_verifying, snd (enqueue_next e (rn_cycle_id run) ''verification_check'' (rn_id run) [] s1)))"

definition capture_completed :: "env \<Rightarrow> run_record \<Rightarrow> parsed_metrics \<Rightarrow> nat \<Rightarrow> db \<Rightarrow> op_result \<times> db" where
  "capture_completed e run p artifact_count s =
    (let row = run\<lparr>rn_status := ''completed'', rn_completed_at := Some (now e)\<rparr>;
         s1 = emit_sys e ''execution.artifacts_captured'' (rn_charter_id run) (rn_cycle_id run)
                [(''run_record_id'', JUuid (rn_id run)), (''artifact_count'', JInt (int artifact_count)),
                 (''metric_count'', JInt (int (length (pp_values p))))] (put_run row s)
     in (op_patch Cy_verifying, snd (enqueue_next e (rn_cycle_id run) ''verification_check'' (rn_id run) [] s1)))"

definition metrics_json :: "parsed_metrics \<Rightarrow> json" where
  "metrics_json p = JObj (map (\<lambda>(k, v). (k, JFloat v)) (pp_values p))"

definition capture_run ::
  "pylib \<Rightarrow> artifact_file list option \<Rightarrow> metrics_file \<Rightarrow> env \<Rightarrow> run_record \<Rightarrow> experiment_spec \<Rightarrow> db \<Rightarrow> (op_result \<times> db) res" where
  "capture_run py dir file e run sp s =
    (let manifest = collect_artifacts dir in
     res_bind (parse_metrics py file (or_list (sp_metrics sp))) (\<lambda>p.
       let run1 = run\<lparr>rn_artifact_manifest := JList manifest, rn_metrics_output := metrics_json p\<rparr> in
       Inr (if parsed_ok p then capture_completed e run1 p (length manifest) s else capture_failed e run1 p s)))"

text \<open>\<open>dir\<close> and \<open>file\<close> are what the artifact directory of the run holds.\<close>

definition execution_capture_operator ::
  "pylib \<Rightarrow> (uuid \<Rightarrow> artifact_file list option) \<Rightarrow> (uuid \<Rightarrow> metrics_file) \<Rightarrow> env \<Rightarrow> operator" where
  "execution_capture_operator py dir file e i s =
     with_run_id i s (\<lambda>run_id. committed s (with_spec s run_id (\<lambda>run sp.
       capture_run py (dir run_id) (file run_id) e run sp s)))"

section \<open>The polling loop ends\<close>

lemma loop_turn_timeout:
  assumes "of_int t < ob_elapsed ob"
  shows "\<exists>r. loop_turn e k c t ob l = Inl r"
proof (cases "control_callback (e\<lparr>now := ob_now ob\<rparr>) k (lo_progress l) (ob_session ob (lo_db l))")
  case (Inl err)
  then show ?thesis by (simp add: loop_turn_def Let_def)
next
  case (Inr p)
  obtain ctl u s1 where p: "p = (ctl, u, s1)" by (cases p)
  show ?thesis
  proof (cases ctl)
    case Ctl_none
    then show ?thesis using Inr p assms
      by (cases "fetch_logs (e\<lparr>now := ob_now ob\<rparr>) k ob (l\<lparr>lo_db := s1, lo_progress := u\<rparr>)"; cases "ob_stop ob")
        (simp_all add: loop_turn_def Let_def)
  qed (use Inr p in \<open>simp_all add: loop_turn_def Let_def\<close>)
qed

lemma poll_loop_ends:
  "ob \<in> set obs \<Longrightarrow> of_int t < ob_elapsed ob \<Longrightarrow> poll_loop e k c t obs l \<noteq> None"
proof (induction obs arbitrary: l)
  case (Cons a obs)
  show ?case
  proof (cases "loop_turn e k c t a l")
    case (Inr l')
    then have "ob \<noteq> a" using loop_turn_timeout [OF Cons.prems(2), of e k c l] by auto
    then show ?thesis using Cons Inr by simp
  qed simp
qed simp

definition timeout_of :: "exec_ext \<Rightarrow> run_record \<Rightarrow> int" where
  "timeout_of x run =
    (case run_limits (xx_py x) (or_dict (rn_resource_limits run)) of Inl _ \<Rightarrow> 0 | Inr (_, _, _, t) \<Rightarrow> t)"

lemma make_run_spec_timeout:
  assumes "make_run_spec x run ws = Inr spec"
  shows "ru_timeout_seconds spec = timeout_of x run"
proof (cases "run_limits (xx_py x) (or_dict (rn_resource_limits run))")
  case (Inr p)
  obtain gpu gc mem t where "p = (gpu, gc, mem, t)" by (cases p)
  then show ?thesis using assms Inr
    by (cases "py_dict (or_dict (rn_env_vars run))") (auto simp: timeout_of_def make_run_spec_def)
qed (use assms in \<open>cases "py_dict (or_dict (rn_env_vars run))"; simp add: make_run_spec_def\<close>)

lemma runner_run_ends:
  assumes "ob \<in> set (dk_turns dk)" and "of_int (ru_timeout_seconds spec) < ob_elapsed ob"
  shows "runner_run e dk spec k resume s \<noteq> None"
proof (cases "dk_open dk spec resume")
  case (Inr c)
  show ?thesis
  proof (cases "if resume = None then dk_start dk else None")
    case None
    then show ?thesis using Inr poll_loop_ends [OF assms] unfolding runner_run_def Let_def Inr sum.case None option.case
      by simp
  next
    case (Some err)
    then show ?thesis using Inr by (simp add: runner_run_def Let_def)
  qed
qed (simp add: runner_run_def)

lemma row_simps [simp]:
  "rn_id (failed_row e c m run) = rn_id run" "rn_status (failed_row e c m run) = ''failed''"
  "rn_id (outcome_row oc run) = rn_id run" "rn_charter_id (outcome_row oc run) = rn_charter_id run"
  "rn_cycle_id (outcome_row oc run) = rn_cycle_id run"
  "rn_failure_class (failed_row e c m run) = Some c" "rn_stderr_path (failed_row e c m run) = rn_stderr_path run"
  "rn_stdout_path (failed_row e c m run) = rn_stdout_path run"
  "rn_stderr_path (outcome_row oc run) = rn_stderr_path run" "rn_stdout_path (outcome_row oc run) = rn_stdout_path run"
  by (simp_all add: failed_row_def outcome_row_def)

lemma enqueue_next_runs [simp]: "runs (snd (enqueue_next e k t r x s)) = runs s"
  by (simp add: enqueue_next_snd)

text \<open>The statuses a run can have when its container is over.\<close>

definition settled :: "uuid \<Rightarrow> db \<Rightarrow> bool" where
  "settled k s \<longleftrightarrow> (\<exists>row. table_get rn_id (runs s) k = Some row \<and>
     rn_status row \<in> {''failed'', ''paused'', ''cancelled'', ''capturing''})"

lemma settled_put_run:
  "rn_id row \<in> rn_id ` set (runs s) \<Longrightarrow> rn_status row \<in> {''failed'', ''paused'', ''cancelled'', ''capturing''} \<Longrightarrow>
   settled (rn_id row) (put_run row s)"
  by (simp add: settled_def table_get_put_run)

lemma settled_cong: "runs s' = runs s \<Longrightarrow> settled k s' = settled k s"
  by (simp add: settled_def)

lemma give_up_settled: "rn_id run \<in> rn_id ` set (runs s) \<Longrightarrow> settled (rn_id run) (snd (give_up e c m run s))"
  using settled_put_run [of "failed_row e c m run" s] by (simp add: give_up_def)

lemma after_container_settled:
  assumes "rn_id run \<in> rn_id ` set (runs s)"
  shows "settled (rn_id run) (snd (after_container e oc lines run s))"
proof -
  let ?run = "outcome_row oc run"
  have id: "rn_id ?run \<in> rn_id ` set (runs s)" using assms by simp
  have "settled (rn_id run) (snd (container_failed e oc lines ?run s))"
    using settled_put_run [of "failed_row e c m ?run" s for c m] id
    by (simp add: container_failed_def Let_def settled_cong [of "snd (enqueue_next _ _ _ _ _ _)"] settled_cong [of "emit_event_sync _ _ _ _ _ _ _ _"])
  moreover have "settled (rn_id run) (snd (container_succeeded e oc ?run s))"
    using settled_put_run [of "?run\<lparr>rn_status := ''capturing''\<rparr>" s] id
    by (simp add: container_succeeded_def Let_def settled_cong [of "snd (enqueue_next _ _ _ _ _ _)"] settled_cong [of "emit_event_sync _ _ _ _ _ _ _ _"])
  moreover have "settled (rn_id run) (put_run (?run\<lparr>rn_status := ''paused'', rn_updated_at := now e\<rparr>) s)"
    using settled_put_run [of "?run\<lparr>rn_status := ''paused'', rn_updated_at := now e\<rparr>" s] id by simp
  moreover have "settled (rn_id run) (put_run (?run\<lparr>rn_status := ''cancelled'', rn_completed_at := Some (now e), rn_updated_at := now e\<rparr>) s)"
    using settled_put_run [of "?run\<lparr>rn_status := ''cancelled'', rn_completed_at := Some (now e), rn_updated_at := now e\<rparr>" s] id by simp
  ultimately show ?thesis by (simp add: after_container_def Let_def)
qed

lemma finish_container_settled:
  assumes "finish_container x e k (r, lines, s) = (Inr res, s')"
  shows "settled k s'"
proof -
  obtain run where run: "table_get rn_id (runs s) k = Some run"
    using assms by (cases "table_get rn_id (runs s) k") (simp_all add: finish_container_def)
  from table_get_Some_in [OF run] have k: "rn_id run = k" "rn_id run \<in> rn_id ` set (runs s)" by auto
  show ?thesis
  proof (cases r)
    case (Inl err)
    have "s' = snd (give_up e ''runtime'' (''container execution failed: '' @ err) run s)"
      using assms unfolding finish_container_def prod.case run option.case Inl sum.case
      by (cases "give_up e ''runtime'' (''container execution failed: '' @ err) run s") simp
    then show ?thesis using give_up_settled [OF k(2)] k(1) by simp
  next
    case (Inr oc)
    let ?s = "s\<lparr>disk := dset (disk s) (log_path x k ''stdout.log'') (join_with [CHR 10] lines)\<rparr>"
    have "s' = snd (after_container e oc lines run ?s)"
      using assms unfolding finish_container_def prod.case run option.case Inr sum.case
      by (cases "after_container e oc lines run ?s") simp
    then show ?thesis using after_container_settled [of run ?s] k by simp
  qed
qed

lemma timeout_of_started [simp]: "timeout_of x (started_row x run) = timeout_of x run"
  by (simp add: timeout_of_def started_row_def)

lemma run_container_returns:
  assumes ob: "ob \<in> set (dk_turns dk)" and late: "of_int (timeout_of x run) < ob_elapsed ob"
  shows "\<exists>res s'. run_container x dk e run ws rq s = Some (res, s') \<and> (\<forall>r. res = Inr r \<longrightarrow> settled (rn_id run) s')"
proof (cases "make_run_spec x (started_row x run) ws")
  case (Inr spec)
  have "of_int (ru_timeout_seconds spec) < ob_elapsed ob"
    using late make_run_spec_timeout [OF Inr] by simp
  let ?rr = "runner_run e dk spec (rn_id run)
      (if rq then (case rn_container_id run of Some (c # cs) \<Rightarrow> Some (c # cs) | _ \<Rightarrow> None) else None)
      (emit_sys e ''execution.container_started'' (rn_charter_id run) (rn_cycle_id run)
                   [(''run_record_id'', JUuid (rn_id run)), (''image'', JStr (ru_image spec)),
                    (''resume'', JBool rq)] (put_run (started_row x run) s))"
  have "?rr \<noteq> None" by (rule runner_run_ends [OF ob]) fact
  then obtain y where y: "?rr = Some y" unfolding not_None_eq by (rule exE)
  obtain r lines s1 where y3: "y = (r, lines, s1)" by (cases y)
  obtain res s' where f: "finish_container x (e\<lparr>now := dk_finished dk\<rparr>) (rn_id run) (r, lines, s1) = (res, s')"
    by (cases "finish_container x (e\<lparr>now := dk_finished dk\<rparr>) (rn_id run) (r, lines, s1)")
  have "run_container x dk e run ws rq s = Some (res, s')"
    unfolding run_container_def Inr sum.case Let_def y y3 option.map f ..
  then show ?thesis using finish_container_settled f by blast
qed (simp add: run_container_def)

text \<open>
  C30: \<open>execution_run\<close> always returns: the runner polls once a second, so when the container is given as many turns as
  its timeout has seconds, and two more, the loop has ended (by an exit, a pause, a cancellation, an error of the
  daemon, or the timeout), and when the operator does not raise, the run is left failed, paused, cancelled or
  capturing, never running.
\<close>

theorem container_run_returns:
  assumes k: "run_record_id_from_payload i = Inr k" "load_run_record s k = Inr run"
    and pace: "\<forall>n<length (dk_turns dk). real n \<le> ob_elapsed (dk_turns dk ! n)"
    and turns: "max 0 (timeout_of x run) + 2 \<le> int (length (dk_turns dk))"
  shows "\<exists>res s'. execution_run_operator x dk e i s = Some (res, s') \<and> (\<forall>r. res = Inr r \<longrightarrow> settled k s')"
proof -
  let ?n = "length (dk_turns dk) - 1"
  let ?ob = "dk_turns dk ! ?n"
  have n: "?n < length (dk_turns dk)" and t: "timeout_of x run < int ?n" using turns by linarith+
  then have "real_of_int (timeout_of x run) < ob_elapsed ?ob"
    using pace [rule_format, OF n] by linarith
  moreover have "?ob \<in> set (dk_turns dk)" using n by simp
  ultimately have run: "\<exists>res s'. run_container x dk e run ws rq s = Some (res, s') \<and> (\<forall>r. res = Inr r \<longrightarrow> settled (rn_id run) s')"
    for ws rq by (intro run_container_returns)
  from load_run_record_in [OF k(2)] have id: "rn_id run = k" "rn_id run \<in> rn_id ` set (runs s)" by auto
  have bad: "\<exists>res s'. (case give_up e ''dependency'' ''workspace path does not exist'' (run\<lparr>rn_status := ''running''\<rparr>) s of
         (r, s') \<Rightarrow> Some (Inr r :: op_result res, s')) = Some (res, s') \<and> (\<forall>r. res = Inr r \<longrightarrow> settled k s')"
    using give_up_settled [of "run\<lparr>rn_status := ''running''\<rparr>" s] id by (simp add: give_up_def)
  show ?thesis
    unfolding execution_run_operator_def k sum.case
    using run bad by (auto simp: id split: option.splits list.splits)
qed

lemma with_spec_Inr:
  assumes "with_spec s k f = Inr (r, s')" and "or_success r"
  obtains run sp where "load_run_record s k = Inr run" "table_get sp_id (specs s) (rn_spec_id run) = Some sp"
    "f run sp = Inr (r, s')"
proof (cases "load_run_record s k")
  case (Inr run)
  show ?thesis
  proof (cases "table_get sp_id (specs s) (rn_spec_id run)")
    case (Some sp)
    then show ?thesis using that Inr assms by (simp add: with_spec_def)
  qed (use Inr assms in \<open>auto simp: with_spec_def\<close>)
qed (use assms in \<open>simp add: with_spec_def\<close>)

section \<open>What capture stores\<close>

lemma metric_values_keys: "metric_errors py raw = [] \<Longrightarrow> map fst (metric_values raw) = map fst raw"
  by (induction raw) (auto simp: metric_errors_def split: option.splits)

lemma expected_names_member:
  assumes "expected_names (JList ms) = Inr names" and "JObj m \<in> set ms" and "dget m ''name'' = JStr n"
  shows "JStr n \<in> set names"
proof -
  obtain ns where ns: "map_res expected_name ms = Inr ns" "names = first_occurrences (concat ns)"
    using assms(1) by (auto simp: expected_names_def res_bind_Inr_iff)
  obtain y where y: "expected_name (JObj m) = Inr y" "y \<in> set ns" using map_res_in [OF ns(1) assms(2)] .
  have "''name'' \<in> fst ` set m"
    using assms(3) by (force simp: dget_def split: option.splits dest: map_of_SomeD)
  then have "y = [JStr n]" using y(1) assms(3) by (simp add: expected_name_def)
  then show ?thesis using y(2) ns(2) by (force simp: first_occurrences_def)
qed

text \<open>A metrics file that passes: a JSON object of finite numbers that has every metric the spec names.\<close>

lemma parse_metrics_ok:
  assumes "parse_metrics py file (or_list metrics) = Inr p" and "parsed_ok p"
  obtains raw where "file = Metrics_json (JObj raw)" "map fst (pp_values p) = map fst raw"
    "\<And>m n. JObj m \<in> set (as_list metrics) \<Longrightarrow> dget m ''name'' = JStr n \<Longrightarrow> n \<in> fst ` set (pp_values p)"
proof -
  obtain raw where f: "file = Metrics_json (JObj raw)"
    using assms by (auto simp: parse_metrics_def parsed_ok_def split: metrics_file.splits json.splits)
  with assms(1) obtain names where names: "expected_names (or_list metrics) = Inr names" and p: "p = check_values py raw names"
    by (auto simp: parse_metrics_def res_bind_Inr_iff)
  have err: "metric_errors py raw = []" and found: "\<forall>n\<in>set names. name_found (metric_values raw) n"
    using assms(2) by (auto simp: p parsed_ok_def check_values_def Let_def filter_empty_conv)
  have v: "pp_values p = metric_values raw" by (simp add: p check_values_def Let_def)
  have "n \<in> fst ` set (pp_values p)" if m: "JObj m \<in> set (as_list metrics)" "dget m ''name'' = JStr n" for m n
  proof -
    obtain ms where ms: "metrics = JList ms" "JObj m \<in> set ms" using m(1) by (cases metrics) simp_all
    then have "or_list metrics = JList ms" by (auto simp: or_list_def)
    then have "JStr n \<in> set names" using expected_names_member names ms m(2) by simp
    then show ?thesis using found v by (auto simp: name_found_def)
  qed
  then show ?thesis using that [OF f] metric_values_keys [OF err] v by simp
qed

lemma emit_put_runs: "runs (emit_event_sync e et ch cy p act ai (put_run r s)) = runs (put_run r s)"
  by simp

definition captured_row :: "(uuid \<Rightarrow> artifact_file list option) \<Rightarrow> run_record \<Rightarrow> parsed_metrics \<Rightarrow> run_record" where
  "captured_row dir run p =
     run\<lparr>rn_artifact_manifest := JList (collect_artifacts (dir (rn_id run))), rn_metrics_output := metrics_json p\<rparr>"

definition capture_end :: "env \<Rightarrow> run_record \<Rightarrow> parsed_metrics \<Rightarrow> nat \<Rightarrow> db \<Rightarrow> op_result \<times> db" where
  "capture_end e run p n s = (if parsed_ok p then capture_completed e run p n s else capture_failed e run p s)"

lemma captured_row_id [simp]: "rn_id (captured_row dir run p) = rn_id run" "rn_spec_id (captured_row dir run p) = rn_spec_id run"
  "rn_metrics_output (captured_row dir run p) = metrics_json p"
  by (simp_all add: captured_row_def)

lemma capture_operator_Inr:
  assumes op: "execution_capture_operator py dir file e i s = (Inr r, s')" and ok: "or_success r"
  obtains k run sp p where "run_record_id_from_payload i = Inr k" "load_run_record s k = Inr run"
    "table_get sp_id (specs s) (rn_spec_id run) = Some sp" "parse_metrics py (file k) (or_list (sp_metrics sp)) = Inr p"
    "capture_end e (captured_row dir run p) p (length (collect_artifacts (dir k))) s = (r, s')"
proof -
  obtain k where k: "run_record_id_from_payload i = Inr k"
    and c: "with_spec s k (\<lambda>run sp. capture_run py (dir k) (file k) e run sp s) = Inr (r, s')"
    using with_run_id_Inr [OF op [unfolded execution_capture_operator_def] ok] unfolding committed_Inr by metis
  obtain run sp where run: "load_run_record s k = Inr run" and sp: "table_get sp_id (specs s) (rn_spec_id run) = Some sp"
    and f: "capture_run py (dir k) (file k) e run sp s = Inr (r, s')"
    using with_spec_Inr [OF c ok] by metis
  from load_run_record_in [OF run] have id: "rn_id run = k" by simp
  obtain p where p: "parse_metrics py (file k) (or_list (sp_metrics sp)) = Inr p"
    using f by (auto simp: capture_run_def Let_def res_bind_Inr_iff)
  have "capture_end e (captured_row dir run p) p (length (collect_artifacts (dir k))) s = (r, s')"
    using f p id by (simp add: capture_run_def Let_def capture_end_def captured_row_def)
  then show ?thesis using that k run sp p by blast
qed


text \<open>
  The words the classifier looks for are matched anywhere: a failing run that merely loads a model whose name contains
  \<open>oom\<close> counts as out of memory, while the loop's own timeout message is recognised when no such word occurs.
\<close>

lemma bloom_is_oom: "classify_failure 1 ''loading bloom-560m'' = ''oom''"
  by code_simp

lemma timeout_is_timeout: "classify_failure (-1) ''epoch 3 timeout'' = ''timeout''"
  by code_simp

definition demo_turn :: "nat \<Rightarrow> container_obs" where
  "demo_turn n = \<lparr>ob_session = (\<lambda>s. s), ob_now = 1000, ob_epoch = 0, ob_control = None, ob_logs = (\<lambda>_. Inr []),
     ob_elapsed = real n, ob_stop = None, ob_wait = Inr None\<rparr>"

definition demo_docker :: docker where
  "demo_docker = \<lparr>dk_open = (\<lambda>_ _. Inr ''c1''), dk_start = None, dk_epoch = 0, dk_turns = map demo_turn [0..<12],
     dk_finished = 2000, dk_wall = 11, dk_stats = JNull\<rparr>"

definition demo_exec :: exec_ext where
  "demo_exec = \<lparr>xx_py = \<lparr>float_repr = (\<lambda>_. []), parse_float = (\<lambda>_. None), parse_int = (\<lambda>_. None),
       json_text = (\<lambda>_. []), isoformat = (\<lambda>_. [])\<rparr>,
     xx_data_root = ''/data'', xx_git_add = (\<lambda>_. None), xx_git_commit = (\<lambda>_ _. Inr ''abc''),
     xx_write = (\<lambda>_ _ _. None), xx_build = (\<lambda>_ _ _. None), xx_exists = (\<lambda>_. True)\<rparr>"

definition demo_ready_run :: run_record where
  "demo_ready_run = (pending_run demo_env 20 1 3 4 None 1)\<lparr>rn_workspace_path := Some ''/data/workspaces/w'',
     rn_resource_limits := JObj [(''timeout'', JInt 10)]\<rparr>"

definition demo_ready_world :: db where
  "demo_ready_world = empty_db\<lparr>runs := [demo_ready_run], specs := [demo_spec]\<rparr>"

definition demo_run_input :: op_input where
  "demo_run_input = \<lparr>oi_cycle_id = 4, oi_charter_id = 3, oi_job_id = 9, oi_job_type = ''execution_run'',
     oi_payload = [(''run_record_id'', JUuid 20)]\<rparr>"

lemma demo_ready_facts:
  "run_record_id_from_payload demo_run_input = Inr 20" "load_run_record demo_ready_world 20 = Inr demo_ready_run"
  "table_get sp_id (specs demo_ready_world) 1 = Some demo_spec" "rn_spec_id demo_ready_run = 1"
  "timeout_of demo_exec demo_ready_run = 10"
  by (simp_all add: demo_run_input_def run_record_id_from_payload_def load_run_record_def demo_ready_world_def
      demo_ready_run_def pending_run_def demo_spec_def timeout_of_def run_limits_def or_dict_def dget_or_def)

theorem container_run_returns_witness:
  "\<exists>res s'. execution_run_operator demo_exec demo_docker demo_env demo_run_input demo_ready_world = Some (res, s') \<and>
     (\<forall>r. res = Inr r \<longrightarrow> settled 20 s')"
  by (rule container_run_returns [OF demo_ready_facts(1,2)])
    (simp_all add: demo_docker_def demo_ready_facts demo_turn_def nth_append)


end
