(* ===== verification/Skills.thy ===== *)
theory Skills
  imports Cycle_Machine
begin

text \<open>
  Skill packages: discovery on disk and validation (\<open>libs/skills/parser.py\<close>, \<open>validator.py\<close>,
  \<open>loader.py\<close>), the persisted registry (\<open>registry.py\<close>) with its endpoints
  (\<open>apps/api/routers/skills.py\<close>), runtime trust enforcement (\<open>enforcement.py\<close>, \<open>lineage.py\<close>) and the
  loading of prompts (\<open>libs/discovery/skill_support.py\<close>).

  A path is the list of its parts, with the part \<open>/\<close> first when it is absolute.  The file system, the
  front-matter parser and the manifest validation of pydantic are the record \<open>skill_files\<close>.
\<close>

section \<open>Trust tiers and manifests\<close>

definition squote :: "string \<Rightarrow> string" where
  "squote t = [CHR 39] @ t @ [CHR 39]"

fun tier_value :: "trust_tier \<Rightarrow> string" where
  "tier_value First_party_trusted = ''first_party_trusted''"
| "tier_value User_local_trusted = ''user_local_trusted''"
| "tier_value Third_party_untrusted = ''third_party_untrusted''"

text \<open>\<open>TrustTier(text)\<close>; None for the ValueError.\<close>

definition TrustTier_of :: "string \<Rightarrow> trust_tier option" where
  "TrustTier_of t = find (\<lambda>x. tier_value x = t) [First_party_trusted, User_local_trusted, Third_party_untrusted]"

definition ELEVATED_CAPABILITIES :: "string list" where
  "ELEVATED_CAPABILITIES = [''python.hooks'', ''fs.write'', ''network.access'', ''run.control'']"

record skill_manifest =
  sm_id :: string
  sm_version :: string
  sm_phase :: "string option"
  sm_allowed_operators :: "string list"
  sm_preferred_models :: "string list"
  sm_context_inputs :: "string list"
  sm_outputs :: "string list"
  sm_capabilities :: "string list"
  sm_risk_level :: string
  sm_trust_tier_required :: trust_tier

text \<open>\<open>manifest.model_dump()\<close>.\<close>

definition model_dump :: "skill_manifest \<Rightarrow> json" where
  "model_dump m = JObj
     [(''id'', JStr (sm_id m)), (''version'', JStr (sm_version m)),
      (''phase'', case sm_phase m of None \<Rightarrow> JNull | Some p \<Rightarrow> JStr p),
      (''allowed_operators'', JList (map JStr (sm_allowed_operators m))),
      (''preferred_models'', JList (map JStr (sm_preferred_models m))),
      (''context_inputs'', JList (map JStr (sm_context_inputs m))),
      (''outputs'', JList (map JStr (sm_outputs m))),
      (''capabilities'', JList (map JStr (sm_capabilities m))),
      (''risk_level'', JStr (sm_risk_level m)),
      (''trust_tier_required'', JStr (tier_value (sm_trust_tier_required m)))]"

section \<open>Discovery on disk\<close>

type_synonym path = "string list"

definition path_text :: "path \<Rightarrow> string" where
  "path_text p =
    (case p of [] \<Rightarrow> ''.''
     | w # ws \<Rightarrow> if w = ''/'' then ''/'' @ join_with ''/'' ws else join_with ''/'' (w # ws))"

record skill_files =
  sx_rglob :: "path \<Rightarrow> path list option"
  sx_frontmatter :: "path \<Rightarrow> (dict \<times> string) option"
  sx_manifest :: "dict \<Rightarrow> skill_manifest option"
  sx_exists :: "path \<Rightarrow> bool"
  sx_sha256 :: "path \<Rightarrow> string"

definition parse_skill_file :: "skill_files \<Rightarrow> path \<Rightarrow> (skill_manifest \<times> string) res" where
  "parse_skill_file x p =
    (case sx_frontmatter x p of
       None \<Rightarrow> Inl (SkillParseError (''Failed to parse '' @ path_text p))
     | Some (metadata, content) \<Rightarrow>
        if ''id'' \<notin> fst ` set metadata
        then Inl (SkillParseError (''missing required id in '' @ path_text p))
        else (case sx_manifest x metadata of
                None \<Rightarrow> Inl (SkillParseError (''Invalid manifest in '' @ path_text p))
              | Some m \<Rightarrow> Inr (m, content)))"

definition validate_skill :: "skill_files \<Rightarrow> skill_manifest \<Rightarrow> path \<Rightarrow> trust_tier \<Rightarrow> string list res" where
  "validate_skill x m source_path tier =
    (case find (\<lambda>cap. cap \<in> set ELEVATED_CAPABILITIES \<and> tier = Third_party_untrusted) (sm_capabilities m) of
       Some cap \<Rightarrow> Inl (SkillValidationError cap)
     | None \<Rightarrow> Inr
        ((if ''python.hooks'' \<in> set (sm_capabilities m) \<and> \<not> sx_exists x (butlast source_path @ [''hooks.py''])
          then [''Skill '' @ squote (sm_id m) @ '' declares python.hooks capability but hooks.py not found''] else []) @
         (if sm_version m = ''0.1.0'' then [''Skill '' @ squote (sm_id m) @ '' uses default version 0.1.0''] else [])))"

record discovered_skill =
  dk_manifest :: skill_manifest
  dk_body :: string
  dk_source_path :: path
  dk_trust_tier :: trust_tier
  dk_content_hash :: string
  dk_warnings :: "string list"

text \<open>\<open>path.is_relative_to(first_root)\<close> compares parts.\<close>

definition infer_trust_tier :: "path \<Rightarrow> path option \<Rightarrow> trust_tier" where
  "infer_trust_tier p first_party_root =
    (case first_party_root of
       Some first_root \<Rightarrow> if take (length first_root) p = first_root then First_party_trusted else User_local_trusted
     | None \<Rightarrow> User_local_trusted)"

definition discover_file :: "skill_files \<Rightarrow> path option \<Rightarrow> path \<Rightarrow> discovered_skill list" where
  "discover_file x first_root p =
    (case parse_skill_file x p of
       Inl _ \<Rightarrow> []
     | Inr (m, body) \<Rightarrow>
        (case validate_skill x m p (infer_trust_tier p first_root) of
           Inl _ \<Rightarrow> []
         | Inr ws \<Rightarrow> [\<lparr>dk_manifest = m, dk_body = body, dk_source_path = p, dk_trust_tier = infer_trust_tier p first_root,
                       dk_content_hash = sx_sha256 x p, dk_warnings = ws\<rparr>]))"

definition discover_skills :: "skill_files \<Rightarrow> path list \<Rightarrow> path option \<Rightarrow> discovered_skill list" where
  "discover_skills x search_paths first_root =
     concat (map (\<lambda>sp. case sx_rglob x sp of None \<Rightarrow> [] | Some files \<Rightarrow> concat (map (discover_file x first_root) files))
       search_paths)"

section \<open>Registry\<close>

text \<open>\<open>SkillDefinitionRead.model_validate(row)\<close>: pydantic refuses a tier that is not of the enumeration.\<close>

definition read_skill :: "skill_definition \<Rightarrow> skill_definition res" where
  "read_skill d = (if TrustTier_of (sk_trust_tier d) = None then Inl (ValueError ''trust_tier'') else Inr d)"

definition updated_skill :: "env \<Rightarrow> discovered_skill \<Rightarrow> skill_definition \<Rightarrow> skill_definition" where
  "updated_skill e k d =
     d\<lparr>sk_version := sm_version (dk_manifest k), sk_phase := sm_phase (dk_manifest k),
       sk_trust_tier := tier_value (dk_trust_tier k), sk_manifest := model_dump (dk_manifest k),
       sk_body := Some (dk_body k), sk_content_hash := Some (dk_content_hash k),
       sk_source_path := Some (path_text (dk_source_path k)), sk_discovered_at := now e\<rparr>"

definition new_skill :: "env \<Rightarrow> uuid \<Rightarrow> discovered_skill \<Rightarrow> skill_definition" where
  "new_skill e i k =
     \<lparr>sk_id = i, sk_skill_id = sm_id (dk_manifest k), sk_version = sm_version (dk_manifest k),
      sk_phase = sm_phase (dk_manifest k), sk_trust_tier = tier_value (dk_trust_tier k),
      sk_manifest = model_dump (dk_manifest k), sk_body = Some (dk_body k),
      sk_content_hash = Some (dk_content_hash k), sk_enabled = True,
      sk_source_path = Some (path_text (dk_source_path k)), sk_discovered_at = now e\<rparr>"

definition find_skill :: "db \<Rightarrow> string \<Rightarrow> skill_definition option res" where
  "find_skill s skill_id = scalar_one_or_none (filter (\<lambda>d. sk_skill_id d = skill_id) (skills s))"

definition upsert_skill :: "env \<Rightarrow> discovered_skill \<Rightarrow> db \<Rightarrow> (skill_definition \<times> db) res" where
  "upsert_skill e k s =
    res_bind (find_skill s (sm_id (dk_manifest k))) (\<lambda>existing.
      case existing of
        Some d \<Rightarrow>
          let d' = updated_skill e k d
          in res_bind (read_skill d') (\<lambda>r.
               Inr (r, s\<lparr>skills := update_where (\<lambda>x. sk_id x = sk_id d) (\<lambda>_. d') (skills s)\<rparr>))
      | None \<Rightarrow>
          let d' = new_skill e (new_uuid e s) k
          in res_bind (read_skill d') (\<lambda>r. Inr (r, (tick_uuid s)\<lparr>skills := skills s @ [d']\<rparr>)))"

text \<open>The total counts every skill, also when only the enabled ones are listed.\<close>

definition list_skills :: "db \<Rightarrow> bool \<Rightarrow> nat \<Rightarrow> nat \<Rightarrow> (skill_definition list \<times> nat) res" where
  "list_skills s enabled_only offset limit =
    (let rows = (if enabled_only then filter sk_enabled (skills s) else skills s)
     in res_bind (map_res read_skill (page offset limit (sort_key sk_skill_id rows))) (\<lambda>items.
          Inr (items, length (skills s))))"

definition get_skill :: "db \<Rightarrow> string \<Rightarrow> skill_definition option res" where
  "get_skill s skill_id =
    res_bind (find_skill s skill_id) (\<lambda>d. case d of None \<Rightarrow> Inr None | Some x \<Rightarrow> res_bind (read_skill x) (\<lambda>r. Inr (Some r)))"

definition get_skill_endpoint :: "db \<Rightarrow> string \<Rightarrow> skill_definition res" where
  "get_skill_endpoint s skill_id =
    res_bind (get_skill s skill_id) (\<lambda>d. case d of None \<Rightarrow> Inl (HTTPException 404) | Some x \<Rightarrow> Inr x)"

fun upsert_all :: "env \<Rightarrow> discovered_skill list \<Rightarrow> db \<Rightarrow> (skill_definition list \<times> db) res" where
  "upsert_all e [] s = Inr ([], s)"
| "upsert_all e (k # ks) s =
    res_bind (upsert_skill e k s) (\<lambda>(d, s1). res_bind (upsert_all e ks s1) (\<lambda>(ds, s2). Inr (d # ds, s2)))"

definition discover_skills_endpoint ::
  "skill_files \<Rightarrow> path list \<Rightarrow> env \<Rightarrow> db \<Rightarrow> (nat \<times> skill_definition list) res \<times> db" where
  "discover_skills_endpoint x search_paths e s =
    (case upsert_all e (discover_skills x search_paths (Some [''skills''])) s of
       Inl err \<Rightarrow> (Inl err, s)
     | Inr (ds, s') \<Rightarrow> (Inr (length ds, ds), s'))"

section \<open>Runtime enforcement\<close>

record enforcement_result =
  en_allowed :: bool
  en_reason :: string
  en_elevated :: bool

definition skill_capabilities :: "pylib \<Rightarrow> json \<Rightarrow> string list res" where
  "skill_capabilities py manifest =
    (if \<not> truthy manifest then Inr []
     else res_bind (jget_or manifest ''capabilities'' JNull) (\<lambda>caps.
          res_bind (py_iter (or_list caps)) (\<lambda>cs. Inr (map (py_str (float_repr py)) cs))))"

definition enforce :: "pylib \<Rightarrow> string \<Rightarrow> string \<Rightarrow> json \<Rightarrow> dict \<Rightarrow> enforcement_result res" where
  "enforce py skill_id tier_text manifest cycle_config =
    (case TrustTier_of tier_text of
       None \<Rightarrow> Inr \<lparr>en_allowed = False, en_reason = ''unknown trust tier '' @ squote tier_text, en_elevated = False\<rparr>
     | Some tier \<Rightarrow>
        res_bind (skill_capabilities py manifest) (\<lambda>caps.
        res_bind (jget_or (dget_or cycle_config ''skills'' (JObj [])) ''require_first_party_for_execution'' (JBool False)) (\<lambda>req.
          let elevated = (\<exists>c\<in>set caps. c \<in> set ELEVATED_CAPABILITIES) in
          if truthy req \<and> tier \<noteq> First_party_trusted
          then Inr \<lparr>en_allowed = False,
                 en_reason = ''cycle policy requires first_party_trusted skills but '' @ squote skill_id @
                   '' has trust tier '' @ squote (tier_value tier),
                 en_elevated = elevated\<rparr>
          else if elevated \<and> tier = Third_party_untrusted
          then Inr \<lparr>en_allowed = False,
                 en_reason = ''skill declares elevated capabilities '' @
                   py_repr (float_repr py) (JList (map JStr (sorted_list_of_set (set caps \<inter> set ELEVATED_CAPABILITIES)))) @
                   '' but trust tier is third_party_untrusted'',
                 en_elevated = True\<rparr>
          else Inr \<lparr>en_allowed = True, en_reason = [], en_elevated = elevated\<rparr>)))"

definition cycle_config_of :: "db \<Rightarrow> uuid \<Rightarrow> dict" where
  "cycle_config_of s cycle_id =
    (case table_get cy_id (cycles s) cycle_id of None \<Rightarrow> [] | Some c \<Rightarrow> opt_dict (cy_config c))"

definition binding_row :: "env \<Rightarrow> uuid \<Rightarrow> skill_definition \<Rightarrow> uuid \<Rightarrow> string \<Rightarrow> json \<Rightarrow> skill_binding" where
  "binding_row e i d cycle_id operator_type config =
     \<lparr>sb_id = i, sb_skill_def_id = sk_id d, sb_cycle_id = Some cycle_id, sb_operator_type = Some operator_type,
      sb_bound_at = now e, sb_config = config\<rparr>"

definition add_binding :: "env \<Rightarrow> skill_definition \<Rightarrow> uuid \<Rightarrow> string \<Rightarrow> json \<Rightarrow> db \<Rightarrow> uuid option \<times> db" where
  "add_binding e d cycle_id operator_type config s =
    (let i = new_uuid e s
     in (Some i, (tick_uuid s)\<lparr>bindings := bindings s @ [binding_row e i d cycle_id operator_type config]\<rparr>))"

definition record_skill_usage ::
  "pylib \<Rightarrow> env \<Rightarrow> string \<Rightarrow> uuid \<Rightarrow> string \<Rightarrow> uuid \<Rightarrow> json \<Rightarrow> bool \<Rightarrow> db \<Rightarrow> (uuid option \<times> db) res" where
  "record_skill_usage py e skill_id cycle_id operator_type job_id config raise_on_block s =
    res_bind (find_skill s skill_id) (\<lambda>row.
      case row of
        None \<Rightarrow> Inr (None, s)
      | Some d \<Rightarrow>
          res_bind (enforce py skill_id (sk_trust_tier d) (sk_manifest d) (cycle_config_of s cycle_id)) (\<lambda>dec.
            if \<not> en_allowed dec then
              let s1 = emit_event_sync e ''skill.blocked'' None (Some cycle_id)
                         (Some [(''skill_id'', JStr skill_id), (''trust_tier'', JStr (sk_trust_tier d)),
                                (''reason'', JStr (en_reason dec)), (''operator_type'', JStr operator_type),
                                (''job_id'', JUuid job_id)]) Actor_system None s
              in if raise_on_block then Inl (SkillTrustViolation skill_id) else Inr (None, s1)
            else
              Inr (add_binding e d cycle_id operator_type config
                (if en_elevated dec
                 then emit_event_sync e ''skill.invoked'' None (Some cycle_id)
                        (Some [(''skill_id'', JStr skill_id), (''trust_tier'', JStr (sk_trust_tier d)),
                               (''operator_type'', JStr operator_type), (''job_id'', JUuid job_id)])
                        Actor_system None s
                 else s))))"

text \<open>The calls of the modelled operators name the provider and the model and pass no response.\<close>

definition record_model_call ::
  "env \<Rightarrow> uuid option \<Rightarrow> uuid option \<Rightarrow> string \<Rightarrow> string \<Rightarrow> string \<Rightarrow> int option \<Rightarrow> int option \<Rightarrow> db \<Rightarrow> uuid \<times> db" where
  "record_model_call e cycle_id job_id role provider model_id input_tokens output_tokens s =
    (let i = new_uuid e s;
         row = \<lparr>mc_id = i, mc_cycle_id = cycle_id, mc_job_id = job_id,
                mc_provider = (if provider = [] then ''unknown'' else provider),
                mc_model_id = (if model_id = [] then ''unknown'' else model_id), mc_role = Some role,
                mc_input_tokens = input_tokens, mc_output_tokens = output_tokens, mc_created_at = now e\<rparr>
     in (i, (tick_uuid s)\<lparr>model_calls := model_calls s @ [row]\<rparr>))"

section \<open>Prompts\<close>

record skill_prompt_result =
  kp_prompt :: "string option"
  kp_warning :: "string option"

definition no_prompt :: "string \<Rightarrow> string \<Rightarrow> skill_prompt_result" where
  "no_prompt skill_id why = \<lparr>kp_prompt = None, kp_warning = Some (''skill '' @ squote skill_id @ why)\<rparr>"

definition load_skill_prompt :: "db \<Rightarrow> string \<Rightarrow> string \<Rightarrow> skill_prompt_result res" where
  "load_skill_prompt s skill_id operator_type =
    res_bind (find_skill s skill_id) (\<lambda>row.
      case row of
        None \<Rightarrow> Inr (no_prompt skill_id '' not found in registry'')
      | Some d \<Rightarrow>
          if \<not> sk_enabled d then Inr (no_prompt skill_id '' is disabled'')
          else res_bind (jget_or (or_dict (sk_manifest d)) ''allowed_operators'' JNull) (\<lambda>allowed.
               res_bind (if truthy allowed then py_in (JStr operator_type) allowed else Inr True) (\<lambda>ok.
                 if \<not> ok then Inr (no_prompt skill_id ('' is not allowed for operator '' @ squote operator_type))
                 else let body = py_strip (case sk_body d of None \<Rightarrow> [] | Some b \<Rightarrow> b)
                      in Inr (if body = [] then no_prompt skill_id '' has no prompt body''
                              else \<lparr>kp_prompt = Some body, kp_warning = None\<rparr>))))"

definition join_skill_prompts :: "string option list \<Rightarrow> string option" where
  "join_skill_prompts prompts =
    (let parts = filter (\<lambda>p. p \<noteq> []) (map (\<lambda>p. case p of None \<Rightarrow> [] | Some t \<Rightarrow> py_strip t) prompts)
     in if parts = [] then None else Some (join_with [CHR 10, CHR 10] parts))"

section \<open>Facts\<close>

lemma TrustTier_of_value [simp]: "TrustTier_of (tier_value t) = Some t"
  by (cases t) (simp_all add: TrustTier_of_def)

lemma read_skill_row [simp]:
  "read_skill (updated_skill e k d) = Inr (updated_skill e k d)" "read_skill (new_skill e i k) = Inr (new_skill e i k)"
  by (simp_all add: read_skill_def updated_skill_def new_skill_def)

lemma updated_skill_keys [simp]:
  "sk_skill_id (updated_skill e k d) = sk_skill_id d" "sk_id (updated_skill e k d) = sk_id d"
  "sk_enabled (updated_skill e k d) = sk_enabled d"
  by (simp_all add: updated_skill_def)

lemma new_skill_keys [simp]:
  "sk_skill_id (new_skill e i k) = sm_id (dk_manifest k)" "sk_id (new_skill e i k) = i" "sk_enabled (new_skill e i k)"
  by (simp_all add: new_skill_def)

lemma py_str_JStr_list [simp]: "map (\<lambda>x. py_str fr (JStr x)) cs = cs"
  by (induction cs) simp_all

lemma skill_capabilities_dump [simp]: "skill_capabilities py (model_dump m) = Inr (sm_capabilities m)"
  by (cases "sm_capabilities m") (simp_all add: skill_capabilities_def model_dump_def or_list_def dget_or_def comp_def)

lemma py_eq_JStr [simp]: "py_eq (JStr a) (JStr b) \<longleftrightarrow> a = b"
  by (simp add: py_eq_def)

text \<open>Which operators a manifest admits: every one when it names none.\<close>

definition admits :: "skill_manifest \<Rightarrow> string \<Rightarrow> bool" where
  "admits m operator_type \<longleftrightarrow> sm_allowed_operators m = [] \<or> operator_type \<in> set (sm_allowed_operators m)"

lemma load_skill_prompt_dump:
  assumes "find_skill s skill_id = Inr (Some d)" and "sk_manifest d = model_dump m" and "sk_body d = Some body"
  shows "load_skill_prompt s skill_id op = Inr
    (if \<not> sk_enabled d then no_prompt skill_id '' is disabled''
     else if \<not> admits m op then no_prompt skill_id ('' is not allowed for operator '' @ squote op)
     else if py_strip body = [] then no_prompt skill_id '' has no prompt body''
     else \<lparr>kp_prompt = Some (py_strip body), kp_warning = None\<rparr>)"
proof -
  let ?al = "JList (map JStr (sm_allowed_operators m))"
  have a: "jget_or (or_dict (sk_manifest d)) ''allowed_operators'' JNull = Inr (JList (map JStr (sm_allowed_operators m)))"
    by (simp add: assms(2) model_dump_def or_dict_def dget_or_def)
  have b: "(if truthy ?al then py_in (JStr op) ?al else Inr True) = Inr (admits m op)"
    by (auto simp: admits_def)
  show ?thesis
    unfolding load_skill_prompt_def assms(1) res_bind.simps option.case a b assms(3) Let_def by simp
qed

lemma find_skill_unique:
  assumes "distinct (map sk_skill_id (skills s))"
  shows "find_skill s k = Inr (table_get sk_skill_id (skills s) k)"
proof (cases "table_get sk_skill_id (skills s) k")
  case None
  then have "filter (\<lambda>d. sk_skill_id d = k) (skills s) = []" by (auto simp: table_get_None_iff filter_empty_conv)
  then show ?thesis using None by (simp add: find_skill_def)
next
  case (Some d)
  then show ?thesis using filter_key_singleton [OF assms Some] by (simp add: find_skill_def)
qed

definition registry_ok :: "db \<Rightarrow> bool" where
  "registry_ok s \<longleftrightarrow> distinct (map sk_skill_id (skills s)) \<and> distinct (map sk_id (skills s))"

text \<open>The row a discovered skill has in the registry after its upsert, from the row it had before.\<close>

definition registered :: "env \<Rightarrow> discovered_skill \<Rightarrow> db \<Rightarrow> skill_definition" where
  "registered e k s = (case table_get sk_skill_id (skills s) (sm_id (dk_manifest k)) of
     None \<Rightarrow> new_skill e (new_uuid e s) k | Some d \<Rightarrow> updated_skill e k d)"

lemma registered_fields [simp]:
  "sk_manifest (registered e k s) = model_dump (dk_manifest k)" "sk_body (registered e k s) = Some (dk_body k)"
  "sk_trust_tier (registered e k s) = tier_value (dk_trust_tier k)"
  by (auto simp: registered_def new_skill_def updated_skill_def split: option.splits)

lemma replace_by_unique_key:
  assumes "distinct (map key tbl)" and "d \<in> set tbl"
  shows "update_where (\<lambda>x. key x = key d) (\<lambda>_. d') tbl = update_where (\<lambda>x. x = d) (\<lambda>_. d') tbl"
proof -
  have "key x = key d \<longleftrightarrow> x = d" if "x \<in> set tbl" for x
    using assms that by (auto simp: distinct_map inj_on_def)
  then show ?thesis by (simp add: update_where_def)
qed

lemma table_get_replace:
  assumes "distinct (map key tbl)" and "table_get key tbl k = Some d" and "key d' = k"
  shows "table_get key (update_where (\<lambda>x. x = d) (\<lambda>_. d') tbl) k' = (if k' = k then Some d' else table_get key tbl k')"
  using assms
proof (induction tbl)
  case (Cons r rs)
  show ?case
  proof (cases "key r = k")
    case True
    then have "d = r" using Cons.prems by simp
    moreover have "r \<notin> set rs" using Cons.prems by auto
    ultimately have "update_where (\<lambda>x. x = d) (\<lambda>_. d') rs = rs" by (intro update_where_none) auto
    then show ?thesis using \<open>d = r\<close> True Cons.prems by auto
  next
    case False
    then have "table_get key rs k = Some d" using Cons.prems by simp
    moreover then have "d \<noteq> r" using False by (auto dest: table_get_Some_in)
    ultimately show ?thesis using Cons False by auto
  qed
qed simp

lemma upsert_skill_result:
  assumes wf: "registry_ok s"
  obtains s' where "upsert_skill e k s = Inr (registered e k s, s')"
    "\<And>k'. table_get sk_skill_id (skills s') k' =
       (if k' = sm_id (dk_manifest k) then Some (registered e k s) else table_get sk_skill_id (skills s) k')"
    "distinct (map sk_skill_id (skills s'))" "bindings s' = bindings s" "cycles s' = cycles s"
proof (cases "table_get sk_skill_id (skills s) (sm_id (dk_manifest k))")
  case None
  let ?s' = "(tick_uuid s)\<lparr>skills := skills s @ [registered e k s]\<rparr>"
  have r: "registered e k s = new_skill e (new_uuid e s) k" using None by (simp add: registered_def)
  have "upsert_skill e k s = Inr (registered e k s, ?s')"
    using wf None by (simp add: upsert_skill_def find_skill_unique registry_ok_def Let_def r)
  moreover have "distinct (map sk_skill_id (skills ?s'))"
    using wf None by (auto simp: registry_ok_def r table_get_None_iff)
  ultimately show ?thesis using None
    by (intro that [of ?s']) (auto simp: table_get_append r split: option.splits)
next
  case (Some d)
  then have d: "d \<in> set (skills s)" "sk_skill_id d = sm_id (dk_manifest k)" by (auto dest: table_get_Some_in)
  let ?r = "registered e k s"
  let ?s' = "s\<lparr>skills := update_where (\<lambda>x. sk_id x = sk_id d) (\<lambda>_. ?r) (skills s)\<rparr>"
  have r: "?r = updated_skill e k d" using Some by (simp add: registered_def)
  have eq: "skills ?s' = update_where (\<lambda>x. x = d) (\<lambda>_. ?r) (skills s)"
    using wf d by (simp add: registry_ok_def replace_by_unique_key)
  have "map sk_skill_id (update_where (\<lambda>x. x = d) (\<lambda>_. ?r) (skills s)) = map sk_skill_id (skills s)"
    unfolding update_where_def by (simp add: r)
  then have "map sk_skill_id (skills ?s') = map sk_skill_id (skills s)" unfolding eq .
  moreover have "upsert_skill e k s = Inr (?r, ?s')"
    using wf Some by (simp add: upsert_skill_def find_skill_unique registry_ok_def Let_def r)
  moreover have "table_get sk_skill_id (skills ?s') k' =
      (if k' = sm_id (dk_manifest k) then Some ?r else table_get sk_skill_id (skills s) k')" for k'
    unfolding eq by (rule table_get_replace) (use wf Some in \<open>simp_all add: registry_ok_def r d\<close>)
  ultimately show ?thesis using wf by (intro that [of ?s']) (simp_all add: registry_ok_def)
qed

section \<open>Properties\<close>

text \<open>
  C33: The registry gives back what discovery put into it: after the upsert of a discovered skill, the lookup by
  its name returns the stored row, the capabilities read from the stored manifest are those of the manifest, an
  operator the manifest admits gets the stripped body as prompt (unless the skill was disabled or the body is
  blank), and every other skill is found as before.
\<close>

theorem registry_roundtrip:
  assumes "registry_ok s"
  shows "\<exists>s'. upsert_skill e k s = Inr (registered e k s, s') \<and>
    get_skill s' (sm_id (dk_manifest k)) = Inr (Some (registered e k s)) \<and>
    skill_capabilities py (sk_manifest (registered e k s)) = Inr (sm_capabilities (dk_manifest k)) \<and>
    (sk_enabled (registered e k s) \<and> admits (dk_manifest k) op \<and> py_strip (dk_body k) \<noteq> [] \<longrightarrow>
       load_skill_prompt s' (sm_id (dk_manifest k)) op = Inr \<lparr>kp_prompt = Some (py_strip (dk_body k)), kp_warning = None\<rparr>) \<and>
    (\<forall>other. other \<noteq> sm_id (dk_manifest k) \<longrightarrow> find_skill s' other = find_skill s other)"
proof -
  obtain s' where s': "upsert_skill e k s = Inr (registered e k s, s')"
    and get: "\<And>k'. table_get sk_skill_id (skills s') k' =
       (if k' = sm_id (dk_manifest k) then Some (registered e k s) else table_get sk_skill_id (skills s) k')"
    and dist: "distinct (map sk_skill_id (skills s'))"
    using upsert_skill_result [OF assms] by blast
  have find: "find_skill s' (sm_id (dk_manifest k)) = Inr (Some (registered e k s))"
    using find_skill_unique [OF dist] get by simp
  have "get_skill s' (sm_id (dk_manifest k)) = Inr (Some (registered e k s))"
    by (simp add: get_skill_def find read_skill_def)
  moreover have "find_skill s' other = find_skill s other" if "other \<noteq> sm_id (dk_manifest k)" for other
    using that find_skill_unique [OF dist] get assms by (simp add: find_skill_unique registry_ok_def)
  ultimately show ?thesis
    using s' load_skill_prompt_dump [OF find registered_fields(1,2)] by auto
qed

text \<open>What the cycle policy and the elevated capabilities ask of the tier of a skill.\<close>

definition trust_ok :: "bool \<Rightarrow> skill_manifest \<Rightarrow> trust_tier \<Rightarrow> bool" where
  "trust_ok require_first_party m tier \<longleftrightarrow>
     (require_first_party \<longrightarrow> tier = First_party_trusted) \<and>
     (set (sm_capabilities m) \<inter> set ELEVATED_CAPABILITIES \<noteq> {} \<longrightarrow> tier \<noteq> Third_party_untrusted)"

lemma enforce_dump:
  assumes "jget_or (dget_or cfg ''skills'' (JObj [])) ''require_first_party_for_execution'' (JBool False) = Inr req"
  shows "\<exists>dec. enforce py skill_id (tier_value tier) (model_dump m) cfg = Inr dec \<and>
    (en_allowed dec \<longleftrightarrow> trust_ok (truthy req) m tier) \<and>
    (en_allowed dec \<longrightarrow> (en_elevated dec \<longleftrightarrow> set (sm_capabilities m) \<inter> set ELEVATED_CAPABILITIES \<noteq> {}))"
  unfolding enforce_def TrustTier_of_value option.case skill_capabilities_dump res_bind.simps assms Let_def trust_ok_def
  by auto

text \<open>
  C32: The binding boundary enforces trust: for a skill of the registry, recording its use appends a binding exactly
  when its tier satisfies the cycle's first-party policy and its elevated capabilities, and then announces the
  invocation exactly when there are such capabilities; otherwise no binding is written and one \<open>skill.blocked\<close>
  event is, or the violation is raised when the caller asked for it.
\<close>

theorem bindings_need_trust:
  assumes "find_skill s skill_id = Inr (Some d)" and "sk_manifest d = model_dump m" and "sk_trust_tier d = tier_value tier"
    and "jget_or (dget_or (cycle_config_of s cycle_id) ''skills'' (JObj [])) ''require_first_party_for_execution'' (JBool False) = Inr req"
  shows "if trust_ok (truthy req) m tier
    then \<exists>i s'. record_skill_usage py e skill_id cycle_id op job config raising s = Inr (Some i, s') \<and>
           bindings s' = bindings s @ [binding_row e i d cycle_id op config] \<and>
           event_types s' = event_types s @
             (if set (sm_capabilities m) \<inter> set ELEVATED_CAPABILITIES \<noteq> {} then [''skill.invoked''] else [])
    else if raising then record_skill_usage py e skill_id cycle_id op job config raising s = Inl (SkillTrustViolation skill_id)
    else \<exists>s'. record_skill_usage py e skill_id cycle_id op job config raising s = Inr (None, s') \<and>
           bindings s' = bindings s \<and> event_types s' = event_types s @ [''skill.blocked'']"
proof -
  obtain dec where dec: "enforce py skill_id (tier_value tier) (model_dump m) (cycle_config_of s cycle_id) = Inr dec"
    "en_allowed dec \<longleftrightarrow> trust_ok (truthy req) m tier"
    "en_allowed dec \<longrightarrow> (en_elevated dec \<longleftrightarrow> set (sm_capabilities m) \<inter> set ELEVATED_CAPABILITIES \<noteq> {})"
    using enforce_dump [OF assms(4)] by blast
  have use: "record_skill_usage py e skill_id cycle_id op job config raising s =
     (if \<not> en_allowed dec then
        (if raising then Inl (SkillTrustViolation skill_id)
         else Inr (None, emit_event_sync e ''skill.blocked'' None (Some cycle_id)
                     (Some [(''skill_id'', JStr skill_id), (''trust_tier'', JStr (sk_trust_tier d)),
                            (''reason'', JStr (en_reason dec)), (''operator_type'', JStr op),
                            (''job_id'', JUuid job)]) Actor_system None s))
      else Inr (add_binding e d cycle_id op config
        (if en_elevated dec then emit_event_sync e ''skill.invoked'' None (Some cycle_id)
           (Some [(''skill_id'', JStr skill_id), (''trust_tier'', JStr (sk_trust_tier d)), (''operator_type'', JStr op),
                  (''job_id'', JUuid job)]) Actor_system None s else s)))"
    unfolding record_skill_usage_def assms(1) res_bind.simps option.case assms(2,3) dec(1) Let_def by simp
  show ?thesis
  proof (cases "trust_ok (truthy req) m tier")
    case True
    then have a: "en_allowed dec" using dec by blast
    show ?thesis using True a dec(3) unfolding use by (simp add: add_binding_def Let_def)
  next
    case False
    then show ?thesis using dec(2) unfolding use by simp
  qed
qed

text \<open>
  Discovery infers only the two trusted tiers from the location of a file, so neither the validation at
  discovery nor the capability check at run time ever rejects a discovered skill.
\<close>

lemma infer_trusted: "infer_trust_tier p first_root \<noteq> Third_party_untrusted"
  by (cases first_root) (simp_all add: infer_trust_tier_def)

lemma discover_file_tier:
  assumes "k \<in> set (discover_file x first_root p)"
  shows "dk_trust_tier k = infer_trust_tier p first_root"
proof -
  obtain m body where p: "parse_skill_file x p = Inr (m, body)"
    using assms by (cases "parse_skill_file x p") (auto simp: discover_file_def)
  show ?thesis
    using assms unfolding discover_file_def p sum.case prod.case
    by (cases "validate_skill x m p (infer_trust_tier p first_root)") simp_all
qed

lemma discovery_only_trusted:
  assumes "k \<in> set (discover_skills x search_paths first_root)"
  shows "dk_trust_tier k \<noteq> Third_party_untrusted" and "trust_ok False (dk_manifest k) (dk_trust_tier k)"
proof -
  obtain sp where sp: "k \<in> set (case sx_rglob x sp of None \<Rightarrow> [] | Some files \<Rightarrow> concat (map (discover_file x first_root) files))"
    using assms by (auto simp: discover_skills_def)
  then obtain p where "k \<in> set (discover_file x first_root p)" by (cases "sx_rglob x sp") auto
  then show t: "dk_trust_tier k \<noteq> Third_party_untrusted" using discover_file_tier infer_trusted by metis
  show "trust_ok False (dk_manifest k) (dk_trust_tier k)" using t by (simp add: trust_ok_def)
qed

definition demo_manifest :: skill_manifest where
  "demo_manifest = \<lparr>sm_id = ''verification.run_evaluation'', sm_version = ''1'', sm_phase = None, sm_allowed_operators = [],
     sm_preferred_models = [], sm_context_inputs = [], sm_outputs = [], sm_capabilities = [''fs.write''],
     sm_risk_level = ''low'', sm_trust_tier_required = Third_party_untrusted\<rparr>"

definition demo_discovered :: discovered_skill where
  "demo_discovered = \<lparr>dk_manifest = demo_manifest, dk_body = ''prompt'', dk_source_path = [''skills'', ''skill.md''],
     dk_trust_tier = Third_party_untrusted, dk_content_hash = ''h'', dk_warnings = []\<rparr>"

definition demo_skill_world :: db where
  "demo_skill_world = empty_db\<lparr>skills := [new_skill demo_env 7 demo_discovered]\<rparr>"

definition nopy :: pylib where
  "nopy = \<lparr>float_repr = (\<lambda>_. []), parse_float = (\<lambda>_. None), parse_int = (\<lambda>_. None), json_text = (\<lambda>_. []),
     isoformat = (\<lambda>_. [])\<rparr>"

theorem registry_roundtrip_witness:
  "registry_ok empty_db \<and> (\<exists>s'. upsert_skill demo_env demo_discovered empty_db = Inr (registered demo_env demo_discovered empty_db, s') \<and>
     get_skill s' ''verification.run_evaluation'' = Inr (Some (registered demo_env demo_discovered empty_db)))"
  using registry_roundtrip [of empty_db demo_env demo_discovered nopy "''verification_postmortem''"]
  by (auto simp: registry_ok_def empty_db_def demo_discovered_def demo_manifest_def)

theorem bindings_need_trust_witness:
  "\<exists>s'. record_skill_usage nopy demo_env ''verification.run_evaluation'' 4 ''verification_postmortem'' 5 JNull False demo_skill_world =
     Inr (None, s') \<and> event_types s' = [''skill.blocked'']"
proof -
  have f: "find_skill demo_skill_world ''verification.run_evaluation'' = Inr (Some (new_skill demo_env 7 demo_discovered))"
    by (simp add: find_skill_def demo_skill_world_def demo_discovered_def demo_manifest_def)
  have c: "jget_or (dget_or (cycle_config_of demo_skill_world 4) ''skills'' (JObj [])) ''require_first_party_for_execution'' (JBool False) =
      Inr (JBool False)"
    by (simp add: cycle_config_of_def demo_skill_world_def empty_db_def dget_or_def)
  have t: "\<not> trust_ok (truthy (JBool False)) demo_manifest Third_party_untrusted"
    by (simp add: trust_ok_def demo_manifest_def ELEVATED_CAPABILITIES_def)
  have m: "sk_manifest (new_skill demo_env 7 demo_discovered) = model_dump demo_manifest"
    "sk_trust_tier (new_skill demo_env 7 demo_discovered) = tier_value Third_party_untrusted"
    by (simp_all add: new_skill_def demo_discovered_def)
  have ev: "event_types demo_skill_world = []" by (simp add: demo_skill_world_def empty_db_def)
  show ?thesis
    using bindings_need_trust [OF f m c, of nopy demo_env "''verification_postmortem''" 5 JNull False]
    unfolding if_not_P [OF t] if_False ev append_Nil
    by (elim exE conjE) (rule exI, rule conjI)
qed

end
