(* ===== verification/Paging.thy ===== *)
theory Paging
  imports Job_Queue Skills
begin

text \<open>
  The listing endpoints all answer a page of the matching rows and the number of matching rows.  The locale
  \<open>paged_query\<close> states that contract and proves once what a client gets that reads page after page; every
  listing of the services interprets it on its own query (the registry listing of \<open>Skills\<close> cannot: its
  total counts rows the page leaves out).
\<close>

section \<open>Queries\<close>

text \<open>A filter that is only applied when the parameter is given.\<close>

definition opt_match :: "'a option \<Rightarrow> 'a \<Rightarrow> bool" where
  "opt_match f x \<longleftrightarrow> (case f of None \<Rightarrow> True | Some a \<Rightarrow> x = a)"

definition listing :: "('r \<Rightarrow> bool) \<Rightarrow> ('r list \<Rightarrow> 'r list) \<Rightarrow> 'r list \<Rightarrow> nat \<Rightarrow> nat \<Rightarrow> 'r list \<times> nat" where
  "listing P ord tbl offset limit = (page offset limit (ord (filter P tbl)), length (filter P tbl))"

text \<open>A client that reads all pages of one size, as many as the first answer's total asks for.\<close>

definition read_pages :: "(nat \<Rightarrow> nat \<Rightarrow> 'r list \<times> nat) \<Rightarrow> nat \<Rightarrow> 'r list" where
  "read_pages serve limit =
     concat (map (\<lambda>i. fst (serve (i * limit) limit)) [0..<(snd (serve 0 limit) + limit - 1) div limit])"

lemma opt_match_simps [simp]: "opt_match None x" "opt_match (Some a) x \<longleftrightarrow> x = a"
  by (simp_all add: opt_match_def)

lemma length_order_desc [simp]: "length (order_desc key xs) = length xs"
  by (simp add: order_desc_def)

lemma pages_concat: "concat (map (\<lambda>i. page (i * l) l xs) [0..<n]) = take (n * l) xs"
proof (induction n)
  case (Suc n)
  have "take (n * l) xs @ take l (drop (n * l) xs) = take (n * l + l) xs" by (simp add: take_add)
  with Suc show ?case by (simp add: page_def add.commute)
qed simp

lemma enough_pages:
  assumes "0 < (l::nat)"
  shows "n \<le> (n + l - 1) div l * l"
proof -
  have "n + l - 1 = (n + l - 1) div l * l + (n + l - 1) mod l" by simp
  moreover have "(n + l - 1) mod l < l" using assms by simp
  ultimately show ?thesis by linarith
qed

section \<open>The contract of a listing\<close>

locale paged_query =
  fixes serve :: "nat \<Rightarrow> nat \<Rightarrow> 'r list \<times> nat"
    and rows :: "'r list"
  assumes serves: "serve offset limit = (page offset limit rows, length rows)"
begin

lemma read_all:
  assumes "0 < l"
  shows "read_pages serve l = rows"
  using enough_pages [OF assms, of "length rows"] by (simp add: read_pages_def serves pages_concat)

lemma page_bounded: "length (fst (serve offset limit)) \<le> limit"
  by (simp add: serves page_def)

lemma page_subset: "set (fst (serve offset limit)) \<subseteq> set rows"
  by (auto simp: serves page_def dest: in_set_takeD in_set_dropD)

lemma past_the_end: "length rows \<le> offset \<Longrightarrow> fst (serve offset limit) = []"
  by (simp add: serves page_def)

end

lemma paged_listing: "(\<And>xs. length (ord xs) = length xs) \<Longrightarrow> paged_query (listing P ord tbl) (ord (filter P tbl))"
  by unfold_locales (simp add: listing_def)

interpretation cycles_page: paged_query "list_cycles s charter_id"
  "order_desc cy_created_at (filter (\<lambda>c. opt_match charter_id (cy_charter_id c)) (cycles s))" for s charter_id
  by unfold_locales (simp add: list_cycles_def Let_def split: option.splits)

interpretation charters_page: paged_query "list_charters s" "order_desc ch_created_at (charters s)" for s
  by unfold_locales (simp add: list_charters_def)

interpretation jobs_page: paged_query "api_list_jobs s cycle_id"
  "order_desc j_created_at (filter (\<lambda>j. opt_match (map_option Some cycle_id) (j_cycle_id j)) (jobs s))" for s cycle_id
  by unfold_locales (simp add: api_list_jobs_def Let_def split: option.splits)

end
