(* ===== verification/Experiment_Service.thy ===== *)
theory Experiment_Service
  imports Execution Paging
begin

text \<open>
  The experiment API: \<open>libs/core/services/experiment_service.py\<close> and \<open>apps/api/routers/experiment.py\<close>.
  Starting sessions, compilations and runs, controlling a run, the listings, and the telemetry stream.

  A service call is one transaction: it returns its value and the store it commits, or the exception, after
  which everything is rolled back.  The Docker daemon is the record \<open>run_killer\<close>; removing a worktree
  never raises and leaves no trace in the store.
\<close>

section \<open>Requests\<close>

record hypothesis_budget =
  hb_max_hypotheses :: int
  hb_max_critique_rounds :: int

definition HypothesisBudget :: hypothesis_budget where
  "HypothesisBudget = \<lparr>hb_max_hypotheses = 10, hb_max_critique_rounds = 2\<rparr>"

definition budget_valid :: "hypothesis_budget \<Rightarrow> bool" where
  "budget_valid b \<longleftrightarrow> 1 \<le> hb_max_hypotheses b \<and> hb_max_hypotheses b \<le> 50 \<and>
     1 \<le> hb_max_critique_rounds b \<and> hb_max_critique_rounds b \<le> 5"

definition budget_dump :: "hypothesis_budget \<Rightarrow> json" where
  "budget_dump b = JObj [(''max_hypotheses'', JInt (hb_max_hypotheses b)),
     (''max_critique_rounds'', JInt (hb_max_critique_rounds b))]"

record compile_request =
  cq_cycle_id :: uuid
  cq_charter_id :: uuid
  cq_card_ids :: "uuid list option"
  cq_hardware_profile :: "dict option"
  cq_base_image :: "string option"

record card_update =
  cu_status :: "string option"
  cu_rejection_reason :: "string option"

section \<open>Hypothesis sessions\<close>

definition start_hypothesis_session ::
  "env \<Rightarrow> uuid \<Rightarrow> uuid \<Rightarrow> hypothesis_budget option \<Rightarrow> actor_type \<Rightarrow> string option \<Rightarrow> db \<Rightarrow>
     ((hypothesis_session \<times> uuid) \<times> db) res" where
  "start_hypothesis_session e cycle_id charter_id budget atype aid s =
    (case get_cycle s cycle_id of
       None \<Rightarrow> Inl (ExperimentServiceError ''cycle not found'')
     | Some c \<Rightarrow>
        if cy_status c \<noteq> Cy_evidence_ready then Inl (ExperimentServiceError ''expected evidence_ready'')
        else
          let hs = \<lparr>hs_id = new_uuid e s, hs_cycle_id = cycle_id, hs_charter_id = charter_id, hs_status = ''created'',
                    hs_budget = budget_dump (case budget of None \<Rightarrow> HypothesisBudget | Some b \<Rightarrow> b),
                    hs_error = None, hs_step_log = Some [], hs_stats = Some [], hs_started_at = None,
                    hs_created_at = now e, hs_updated_at = now e, hs_completed_at = None\<rparr>;
              s1 = (tick_uuid s)\<lparr>sessions := sessions s @ [hs]\<rparr>
          in case create_job e (Some cycle_id) ''hypothesis_generate''
                   (Some [(''hypothesis_session_id'', JUuid (hs_id hs))]) 10 s1 of
               (j, s2) \<Rightarrow> Inr ((hs, j_id j),
                 emit_event e ''ideation.session_started'' (Some charter_id) (Some cycle_id)
                   (Some [(''hypothesis_session_id'', JUuid (hs_id hs))]) atype aid s2))"

definition get_hypothesis_session :: "db \<Rightarrow> uuid \<Rightarrow> hypothesis_session option" where
  "get_hypothesis_session s k = table_get hs_id (sessions s) k"

definition list_hypothesis_sessions ::
  "db \<Rightarrow> uuid option \<Rightarrow> uuid option \<Rightarrow> nat \<Rightarrow> nat \<Rightarrow> hypothesis_session list \<times> nat" where
  "list_hypothesis_sessions s charter_id cycle_id =
     listing (\<lambda>h. opt_match charter_id (hs_charter_id h) \<and> opt_match cycle_id (hs_cycle_id h))
       (order_desc hs_created_at) (sessions s)"

section \<open>Hypothesis cards\<close>

text \<open>\<open>ORDER BY rank ASC NULLS LAST, created_at\<close>.\<close>

definition card_order :: "hypothesis_card list \<Rightarrow> hypothesis_card list" where
  "card_order = sort_key (\<lambda>c. (hc_rank c = None, (case hc_rank c of None \<Rightarrow> 0 | Some r \<Rightarrow> r), hc_created_at c))"

definition list_hypothesis_cards ::
  "db \<Rightarrow> uuid option \<Rightarrow> uuid option \<Rightarrow> string option \<Rightarrow> nat \<Rightarrow> nat \<Rightarrow> hypothesis_card list \<times> nat" where
  "list_hypothesis_cards s cycle_id session_id status =
     listing (\<lambda>c. opt_match cycle_id (hc_cycle_id c) \<and> opt_match session_id (hc_session_id c) \<and>
         opt_match status (hc_status c)) card_order (cards s)"

definition get_hypothesis_card :: "db \<Rightarrow> uuid \<Rightarrow> hypothesis_card option" where
  "get_hypothesis_card s k = table_get hc_id (cards s) k"

definition update_hypothesis_card :: "env \<Rightarrow> uuid \<Rightarrow> card_update \<Rightarrow> db \<Rightarrow> (hypothesis_card \<times> db) res" where
  "update_hypothesis_card e card_id body s =
    (case table_get hc_id (cards s) card_id of
       None \<Rightarrow> Inl (ExperimentServiceError ''hypothesis card not found'')
     | Some c \<Rightarrow>
        let c1 = (case cu_status body of None \<Rightarrow> c | Some t \<Rightarrow> c\<lparr>hc_status := t\<rparr>);
            c2 = (case cu_rejection_reason body of None \<Rightarrow> c1 | Some t \<Rightarrow> c1\<lparr>hc_rejection_reason := Some t\<rparr>);
            c3 = c2\<lparr>hc_updated_at := now e\<rparr>
        in Inr (c3, s\<lparr>cards := update_where (\<lambda>x. hc_id x = card_id) (\<lambda>_. c3) (cards s)\<rparr>))"

section \<open>Experiment specs\<close>

definition list_experiment_specs ::
  "db \<Rightarrow> uuid option \<Rightarrow> string option \<Rightarrow> nat \<Rightarrow> nat \<Rightarrow> experiment_spec list \<times> nat" where
  "list_experiment_specs s cycle_id status =
     listing (\<lambda>p. opt_match cycle_id (sp_cycle_id p) \<and> opt_match status (sp_status p)) (order_desc sp_created_at) (specs s)"

definition get_experiment_spec :: "db \<Rightarrow> uuid \<Rightarrow> experiment_spec option" where
  "get_experiment_spec s k = table_get sp_id (specs s) k"

definition put_spec :: "experiment_spec \<Rightarrow> db \<Rightarrow> db" where
  "put_spec p s = s\<lparr>specs := update_where (\<lambda>x. sp_id x = sp_id p) (\<lambda>_. p) (specs s)\<rparr>"

text \<open>The newest completed session of the cycle; NULL completion times come first in a descending order.\<close>

definition completed_session :: "db \<Rightarrow> uuid \<Rightarrow> hypothesis_session option" where
  "completed_session s cycle_id =
     first_row (sort_key (\<lambda>h. case hs_completed_at h of None \<Rightarrow> (False, 0) | Some t \<Rightarrow> (True, - t))
       (filter (\<lambda>h. hs_cycle_id h = cycle_id \<and> hs_status h = ''completed'') (sessions s)))"

definition compile_protocols ::
  "env \<Rightarrow> compile_request \<Rightarrow> actor_type \<Rightarrow> string option \<Rightarrow> db \<Rightarrow> ((experiment_spec list \<times> uuid) \<times> db) res" where
  "compile_protocols e body atype aid s =
    (case get_cycle s (cq_cycle_id body) of
       None \<Rightarrow> Inl (ExperimentServiceError ''cycle not found'')
     | Some c \<Rightarrow>
        if cy_status c \<noteq> Cy_portfolio_ready then Inl (ExperimentServiceError ''expected portfolio_ready'')
        else (case completed_session s (cq_cycle_id body) of
            None \<Rightarrow> Inl (ExperimentServiceError ''no completed hypothesis session found for cycle'')
          | Some hs \<Rightarrow>
              let payload = [(''hypothesis_session_id'', JUuid (hs_id hs))]
                    @ (case cq_card_ids body of Some (k # ks) \<Rightarrow> [(''hypothesis_card_ids'', JList (map JUuid (k # ks)))] | _ \<Rightarrow> [])
                    @ (case cq_hardware_profile body of Some (x # d) \<Rightarrow> [(''hardware_profile'', JObj (x # d))] | _ \<Rightarrow> [])
                    @ (case cq_base_image body of Some (ch # t) \<Rightarrow> [(''base_image'', JStr (ch # t))] | _ \<Rightarrow> [])
              in case create_job e (Some (cq_cycle_id body)) ''protocol_compile'' (Some payload) 10 s of
                   (j, s1) \<Rightarrow> Inr (([], j_id j),
                     emit_event e ''protocol.compilation_started'' (Some (cq_charter_id body)) (Some (cq_cycle_id body))
                       (Some [(''job_id'', JUuid (j_id j))]) atype aid s1)))"

section \<open>Runs\<close>

definition list_run_records ::
  "db \<Rightarrow> uuid option \<Rightarrow> uuid option \<Rightarrow> string option \<Rightarrow> nat \<Rightarrow> nat \<Rightarrow> run_record list \<times> nat" where
  "list_run_records s cycle_id spec_id status =
     listing (\<lambda>r. opt_match cycle_id (rn_cycle_id r) \<and> opt_match spec_id (rn_spec_id r) \<and> opt_match status (rn_status r))
       (order_desc rn_created_at) (runs s)"

definition get_run_record :: "db \<Rightarrow> uuid \<Rightarrow> run_record option" where
  "get_run_record s k = table_get rn_id (runs s) k"

definition count_runs :: "db \<Rightarrow> uuid \<Rightarrow> nat" where
  "count_runs s spec_id = length (filter (\<lambda>r. rn_spec_id r = spec_id) (runs s))"

definition start_run ::
  "env \<Rightarrow> uuid \<Rightarrow> bool \<Rightarrow> actor_type \<Rightarrow> string option \<Rightarrow> db \<Rightarrow> ((run_record \<times> uuid) \<times> db) res" where
  "start_run e spec_id gpu_enabled atype aid s =
    (case table_get sp_id (specs s) spec_id of
       None \<Rightarrow> Inl (ExperimentServiceError ''experiment spec not found'')
     | Some sp \<Rightarrow>
        if sp_status sp \<noteq> ''validated'' then Inl (ExperimentServiceError ''expected validated'')
        else (case get_cycle s (sp_cycle_id sp) of
            None \<Rightarrow> Inl (ExperimentServiceError ''cycle not found'')
          | Some c \<Rightarrow>
              let s1 = (if cy_status c = Cy_protocol_ready
                        then put_cycle (c\<lparr>cy_status := Cy_running, cy_updated_at := now e\<rparr>) s else s);
                  run = pending_run e (new_uuid e s1) spec_id (sp_charter_id sp) (sp_cycle_id sp) None
                          (int (count_runs s1 spec_id) + 1);
                  s2 = put_spec (sp\<lparr>sp_status := ''executing'', sp_updated_at := now e\<rparr>) (add_run run s1)
              in case create_job e (Some (sp_cycle_id sp)) ''execution_setup''
                       (Some [(''run_record_id'', JUuid (rn_id run))]) 10 s2 of
                   (j, s3) \<Rightarrow> Inr ((run, j_id j),
                     emit_event e ''execution.workspace_created'' (Some (sp_charter_id sp)) (Some (sp_cycle_id sp))
                       (Some [(''run_record_id'', JUuid (rn_id run)), (''experiment_spec_id'', JUuid spec_id),
                              (''gpu_enabled'', JBool gpu_enabled)]) atype aid s3)))"

section \<open>Run control\<close>

definition ALLOWED_ACTIONS :: "(string \<times> string list) list" where
  "ALLOWED_ACTIONS =
    [(''pending'', [''cancel'']), (''workspace_setup'', [''cancel'']), (''building'', [''cancel'']),
     (''running'', [''pause'', ''cancel'']), (''paused'', [''resume'', ''cancel'']),
     (''capturing'', []), (''completed'', []), (''failed'', [''retry'']), (''cancelled'', [''retry''])]"

definition allowed_actions :: "string \<Rightarrow> string list" where
  "allowed_actions status = (case map_of ALLOWED_ACTIONS status of None \<Rightarrow> [] | Some xs \<Rightarrow> xs)"

text \<open>\<open>Job.payload["run_record_id"].astext == str(run_id)\<close>.\<close>

definition payload_run :: "uuid \<Rightarrow> job \<Rightarrow> bool" where
  "payload_run run_id j \<longleftrightarrow>
    (case dget (opt_dict (j_payload j)) ''run_record_id'' of
       JUuid u \<Rightarrow> u = run_id | JStr t \<Rightarrow> t = uuid_str run_id | _ \<Rightarrow> False)"

definition update_jobs :: "(job \<Rightarrow> bool) \<Rightarrow> (job \<Rightarrow> job) \<Rightarrow> db \<Rightarrow> db" where
  "update_jobs P f s = s\<lparr>jobs := update_where P f (jobs s)\<rparr>"

text \<open>Connecting to the Docker daemon and killing a container; None when it worked or the container is gone.\<close>

record run_killer =
  rk_connect :: "string option"
  rk_kill :: "string \<Rightarrow> string option"

definition kill_container :: "run_killer \<Rightarrow> run_record \<Rightarrow> string option" where
  "kill_container x run =
    (case rn_container_id run of
       Some (c # cs) \<Rightarrow> (case rk_connect x of Some err \<Rightarrow> Some err | None \<Rightarrow> rk_kill x (c # cs))
     | _ \<Rightarrow> None)"

definition run_event :: "env \<Rightarrow> string \<Rightarrow> run_record \<Rightarrow> actor_type \<Rightarrow> string option \<Rightarrow> db \<Rightarrow> db" where
  "run_event e et run atype aid =
     emit_event e et (Some (rn_charter_id run)) (Some (rn_cycle_id run)) (Some [(''run_record_id'', JUuid (rn_id run))]) atype aid"

definition cancel_run ::
  "env \<Rightarrow> run_killer \<Rightarrow> run_record \<Rightarrow> actor_type \<Rightarrow> string option \<Rightarrow> db \<Rightarrow> (run_record \<times> db) res" where
  "cancel_run e x run atype aid s =
    (let run' = run\<lparr>rn_status := ''cancelled'', rn_completed_at := Some (now e), rn_updated_at := now e\<rparr>;
         s1 = update_jobs (\<lambda>j. j_status j \<in> {Js_pending, Js_claimed, Js_running, Js_paused} \<and> payload_run (rn_id run) j)
                (\<lambda>j. j\<lparr>j_status := Js_cancelled, j_completed_at := Some (now e)\<rparr>) (put_run run' s);
         s2 = run_event e ''execution.run_cancelled'' run' atype aid s1
     in case kill_container x run' of Some err \<Rightarrow> Inl (ExternalError err) | None \<Rightarrow> Inr (run', s2))"

definition pause_run :: "env \<Rightarrow> run_record \<Rightarrow> actor_type \<Rightarrow> string option \<Rightarrow> db \<Rightarrow> (run_record \<times> db) res" where
  "pause_run e run atype aid s =
    (let run' = run\<lparr>rn_status := ''paused'', rn_updated_at := now e\<rparr>;
         s1 = update_jobs (\<lambda>j. j_status j \<in> {Js_claimed, Js_running} \<and> payload_run (rn_id run) j)
                (\<lambda>j. j\<lparr>j_status := Js_paused\<rparr>) (put_run run' s)
     in Inr (run', run_event e ''execution.run_paused'' run' atype aid s1))"

text \<open>The cycle is set to running directly, not through the state machine.\<close>

definition force_running :: "env \<Rightarrow> uuid \<Rightarrow> db \<Rightarrow> db" where
  "force_running e cycle_id s =
    (case get_cycle s cycle_id of
       None \<Rightarrow> s
     | Some c \<Rightarrow> if cy_status c \<noteq> Cy_running
                 then put_cycle (c\<lparr>cy_status := Cy_running, cy_updated_at := now e\<rparr>) s else s)"

definition resume_run :: "env \<Rightarrow> run_record \<Rightarrow> db \<Rightarrow> (run_record \<times> db) res" where
  "resume_run e run s =
    (let run' = run\<lparr>rn_status := ''running'', rn_updated_at := now e\<rparr>
     in case create_job e (Some (rn_cycle_id run)) ''execution_run''
               (Some [(''run_record_id'', JUuid (rn_id run)), (''resume'', JBool True)]) 10 (put_run run' s) of
          (_, s1) \<Rightarrow> Inr (run', force_running e (rn_cycle_id run) s1))"

definition retry_run :: "env \<Rightarrow> run_record \<Rightarrow> db \<Rightarrow> (run_record \<times> db) res" where
  "retry_run e run s =
    (let new_run = pending_run e (new_uuid e s) (rn_spec_id run) (rn_charter_id run) (rn_cycle_id run) None
                     (int (count_runs s (rn_spec_id run)) + 1);
         s1 = force_running e (rn_cycle_id run) (add_run new_run s)
     in Inr (new_run, snd (create_job e (Some (rn_cycle_id run)) ''execution_setup''
                        (Some [(''run_record_id'', JUuid (rn_id new_run))]) 10 s1)))"

definition control_run ::
  "env \<Rightarrow> run_killer \<Rightarrow> uuid \<Rightarrow> string \<Rightarrow> actor_type \<Rightarrow> string option \<Rightarrow> db \<Rightarrow> (run_record \<times> db) res" where
  "control_run e x run_id action atype aid s =
    (case table_get rn_id (runs s) run_id of
       None \<Rightarrow> Inl (ExperimentServiceError ''run record not found'')
     | Some run \<Rightarrow>
        if action \<notin> set (allowed_actions (rn_status run)) then Inl (ExperimentServiceError ''action not allowed'')
        else if action = ''cancel'' then cancel_run e x run atype aid s
        else if action = ''pause'' then pause_run e run atype aid s
        else if action = ''resume'' then resume_run e run s
        else if action = ''retry'' then retry_run e run s
        else Inr (run, s))"


section \<open>Telemetry and verification queries\<close>

definition telemetry_after :: "db \<Rightarrow> uuid \<Rightarrow> uuid option \<Rightarrow> nat \<Rightarrow> run_telemetry list" where
  "telemetry_after s run_id since limit =
     take limit (sort_key rt_timestamp
       (filter (\<lambda>t. rt_run_id t = run_id \<and> (case since of None \<Rightarrow> True | Some u \<Rightarrow> rt_id t > u)) (telemetry s)))"

definition list_run_telemetry :: "db \<Rightarrow> uuid \<Rightarrow> uuid option \<Rightarrow> nat \<Rightarrow> run_telemetry list" where
  "list_run_telemetry s run_id since limit = telemetry_after s run_id since limit"

definition get_verification_report :: "db \<Rightarrow> uuid \<Rightarrow> verification_report option res" where
  "get_verification_report s run_id = scalar_one_or_none (filter (\<lambda>v. vr_run_id v = run_id) (reports s))"

definition get_failure_postmortem :: "db \<Rightarrow> uuid \<Rightarrow> failure_postmortem option res" where
  "get_failure_postmortem s run_id = scalar_one_or_none (filter (\<lambda>p. pm_run_id p = run_id) (postmortems s))"

definition list_verification_reports ::
  "db \<Rightarrow> uuid option \<Rightarrow> string option \<Rightarrow> nat \<Rightarrow> nat \<Rightarrow> verification_report list \<times> nat" where
  "list_verification_reports s cycle_id verdict =
     listing (\<lambda>v. opt_match cycle_id (vr_cycle_id v) \<and> opt_match verdict (vr_verdict v))
       (order_desc vr_created_at) (reports s)"

text \<open>
  The generator behind the telemetry stream.  It polls in one session that never commits, and \<open>db.get\<close>
  answers from the identity map of the session: once the run has been loaded, later polls see the same object,
  \<open>loaded\<close>.  The list holds the store as each poll finds it.
\<close>

definition TERMINAL_STATUSES :: "string list" where
  "TERMINAL_STATUSES = [''completed'', ''failed'', ''cancelled'']"

definition session_get :: "run_record option \<Rightarrow> db \<Rightarrow> uuid \<Rightarrow> run_record option" where
  "session_get loaded s run_id = (case loaded of Some r \<Rightarrow> Some r | None \<Rightarrow> table_get rn_id (runs s) run_id)"

fun telemetry_stream ::
  "uuid \<Rightarrow> uuid option \<Rightarrow> run_record option \<Rightarrow> db list \<Rightarrow> run_telemetry list \<times> bool" where
  "telemetry_stream run_id cursor loaded [] = ([], False)"
| "telemetry_stream run_id cursor loaded (s # polls) =
    (let rows = telemetry_after s run_id cursor 100;
         cursor' = (if rows = [] then cursor else Some (rt_id (last rows)));
         run = session_get loaded s run_id
     in if (case run of None \<Rightarrow> False | Some r \<Rightarrow> rn_status r \<in> set TERMINAL_STATUSES) then (rows, True)
        else case telemetry_stream run_id cursor' run polls of (later, fin) \<Rightarrow> (rows @ later, fin))"

section \<open>Endpoints\<close>

text \<open>An \<open>ExperimentServiceError\<close> becomes the given HTTP status; request validation answers 422.\<close>

definition service_http :: "int \<Rightarrow> 'a res \<Rightarrow> 'a res" where
  "service_http code m = (case m of Inl (ExperimentServiceError _) \<Rightarrow> Inl (HTTPException code) | _ \<Rightarrow> m)"

definition or_404 :: "'a option \<Rightarrow> 'a res" where
  "or_404 r = (case r of None \<Rightarrow> Inl (HTTPException 404) | Some v \<Rightarrow> Inr v)"

definition validated :: "bool \<Rightarrow> 'a res \<Rightarrow> 'a res" where
  "validated ok m = (if ok then m else Inl (HTTPException 422))"

definition start_hypothesis_session_endpoint ::
  "env \<Rightarrow> uuid \<Rightarrow> uuid \<Rightarrow> hypothesis_budget \<Rightarrow> db \<Rightarrow> ((hypothesis_session \<times> uuid) \<times> db) res" where
  "start_hypothesis_session_endpoint e cycle_id charter_id budget s =
     validated (budget_valid budget)
       (service_http 400 (start_hypothesis_session e cycle_id charter_id (Some budget) Actor_user None s))"

definition update_hypothesis_card_endpoint :: "env \<Rightarrow> uuid \<Rightarrow> card_update \<Rightarrow> db \<Rightarrow> (hypothesis_card \<times> db) res" where
  "update_hypothesis_card_endpoint e card_id body s =
     validated (case cu_status body of None \<Rightarrow> True
                | Some t \<Rightarrow> t \<in> {''candidate'', ''selected'', ''rejected'', ''deferred''})
       (service_http 400 (update_hypothesis_card e card_id body s))"

definition compile_protocols_endpoint ::
  "env \<Rightarrow> compile_request \<Rightarrow> db \<Rightarrow> ((experiment_spec list \<times> uuid) \<times> db) res" where
  "compile_protocols_endpoint e body s = service_http 400 (compile_protocols e body Actor_user None s)"

definition start_run_endpoint :: "env \<Rightarrow> uuid \<Rightarrow> bool \<Rightarrow> db \<Rightarrow> ((run_record \<times> uuid) \<times> db) res" where
  "start_run_endpoint e spec_id gpu_enabled s = service_http 400 (start_run e spec_id gpu_enabled Actor_user None s)"

definition control_run_endpoint :: "env \<Rightarrow> run_killer \<Rightarrow> uuid \<Rightarrow> string \<Rightarrow> db \<Rightarrow> (run_record \<times> db) res" where
  "control_run_endpoint e x run_id action s =
     validated (action \<in> {''pause'', ''resume'', ''cancel'', ''retry''})
       (service_http 409 (control_run e x run_id action Actor_user None s))"

definition get_run_record_endpoint :: "db \<Rightarrow> uuid \<Rightarrow> run_record res" where
  "get_run_record_endpoint s k = or_404 (get_run_record s k)"

definition get_hypothesis_session_endpoint :: "db \<Rightarrow> uuid \<Rightarrow> hypothesis_session res" where
  "get_hypothesis_session_endpoint s k = or_404 (get_hypothesis_session s k)"

definition get_hypothesis_card_endpoint :: "db \<Rightarrow> uuid \<Rightarrow> hypothesis_card res" where
  "get_hypothesis_card_endpoint s k = or_404 (get_hypothesis_card s k)"

definition get_experiment_spec_endpoint :: "db \<Rightarrow> uuid \<Rightarrow> experiment_spec res" where
  "get_experiment_spec_endpoint s k = or_404 (get_experiment_spec s k)"

definition get_verification_report_endpoint :: "db \<Rightarrow> uuid \<Rightarrow> verification_report res" where
  "get_verification_report_endpoint s k = res_bind (get_verification_report s k) or_404"

definition get_failure_postmortem_endpoint :: "db \<Rightarrow> uuid \<Rightarrow> failure_postmortem res" where
  "get_failure_postmortem_endpoint s k = res_bind (get_failure_postmortem s k) or_404"

section \<open>Listings\<close>

interpretation sessions_page: paged_query "list_hypothesis_sessions s charter_id cycle_id"
  "order_desc hs_created_at (filter (\<lambda>h. opt_match charter_id (hs_charter_id h) \<and> opt_match cycle_id (hs_cycle_id h))
     (sessions s))" for s charter_id cycle_id
  unfolding list_hypothesis_sessions_def by (rule paged_listing) simp

interpretation cards_page: paged_query "list_hypothesis_cards s cycle_id session_id status"
  "card_order (filter (\<lambda>c. opt_match cycle_id (hc_cycle_id c) \<and> opt_match session_id (hc_session_id c) \<and>
     opt_match status (hc_status c)) (cards s))" for s cycle_id session_id status
  unfolding list_hypothesis_cards_def by (rule paged_listing) (simp add: card_order_def)

interpretation specs_page: paged_query "list_experiment_specs s cycle_id status"
  "order_desc sp_created_at (filter (\<lambda>p. opt_match cycle_id (sp_cycle_id p) \<and> opt_match status (sp_status p)) (specs s))"
  for s cycle_id status
  unfolding list_experiment_specs_def by (rule paged_listing) simp

interpretation runs_page: paged_query "list_run_records s cycle_id spec_id status"
  "order_desc rn_created_at (filter (\<lambda>r. opt_match cycle_id (rn_cycle_id r) \<and> opt_match spec_id (rn_spec_id r) \<and>
     opt_match status (rn_status r)) (runs s))" for s cycle_id spec_id status
  unfolding list_run_records_def by (rule paged_listing) simp

interpretation reports_page: paged_query "list_verification_reports s cycle_id verdict"
  "order_desc vr_created_at (filter (\<lambda>v. opt_match cycle_id (vr_cycle_id v) \<and> opt_match verdict (vr_verdict v)) (reports s))"
  for s cycle_id verdict
  unfolding list_verification_reports_def by (rule paged_listing) simp

section \<open>Properties of run control\<close>

fun control_status :: "string \<Rightarrow> string" where
  "control_status a = (if a = ''cancel'' then ''cancelled'' else if a = ''pause'' then ''paused''
     else if a = ''resume'' then ''running'' else ''pending'')"

lemma allowed_action_cases:
  "a \<in> set (allowed_actions st) \<Longrightarrow> a = ''cancel'' \<or> a = ''pause'' \<or> a = ''resume'' \<or> a = ''retry''"
  by (auto simp: allowed_actions_def ALLOWED_ACTIONS_def split: option.splits if_splits)

lemma update_jobs_frame [simp]:
  "runs (update_jobs P f s) = runs s" "cycles (update_jobs P f s) = cycles s" "events (update_jobs P f s) = events s"
  "jobs (update_jobs P f s) = update_where P f (jobs s)"
  by (simp_all add: update_jobs_def)

lemma run_event_frame [simp]:
  "runs (run_event e et r act ai s) = runs s" "cycles (run_event e et r act ai s) = cycles s"
  "jobs (run_event e et r act ai s) = jobs s"
  by (simp_all add: run_event_def emit_event_eq_sync)

lemma force_running_frame [simp]:
  "runs (force_running e k s) = runs s" "jobs (force_running e k s) = jobs s" "events (force_running e k s) = events s"
  by (simp_all add: force_running_def split: option.splits)

lemma kill_container_cong: "rn_container_id r' = rn_container_id r \<Longrightarrow> kill_container x r' = kill_container x r"
  by (simp add: kill_container_def)

text \<open>What each action leaves when it is accepted.\<close>

lemma control_run_actions:
  assumes run: "table_get rn_id (runs s) k = Some run" and ok: "a \<in> set (allowed_actions (rn_status run))"
  shows "control_run e x k a act aid s =
    (if a = ''cancel'' then cancel_run e x run act aid s else if a = ''pause'' then pause_run e run act aid s
     else if a = ''resume'' then resume_run e run s else retry_run e run s)"
  using allowed_action_cases [OF ok] run ok unfolding control_run_def by auto

lemma cancel_run_Inr:
  "cancel_run e x run act aid s = Inr (run', s') \<longleftrightarrow> kill_container x run = None \<and>
     run' = run\<lparr>rn_status := ''cancelled'', rn_completed_at := Some (now e), rn_updated_at := now e\<rparr> \<and>
     s' = run_event e ''execution.run_cancelled'' run' act aid
       (update_jobs (\<lambda>j. j_status j \<in> {Js_pending, Js_claimed, Js_running, Js_paused} \<and> payload_run (rn_id run) j)
         (\<lambda>j. j\<lparr>j_status := Js_cancelled, j_completed_at := Some (now e)\<rparr>) (put_run run' s))"
proof -
  have k: "kill_container x (run\<lparr>rn_status := ''cancelled'', rn_completed_at := Some (now e), rn_updated_at := now e\<rparr>) =
      kill_container x run" by (rule kill_container_cong) simp
  show ?thesis unfolding cancel_run_def Let_def k by (cases "kill_container x run") auto
qed

lemma control_run_Inr:
  assumes "control_run e x k a act aid s = Inr (run', s')"
  obtains run where "table_get rn_id (runs s) k = Some run" "a \<in> set (allowed_actions (rn_status run))"
  using assms unfolding control_run_def by (auto split: option.splits if_splits)

lemma pause_run_runs: "pause_run e run act aid s = Inr (run', s') \<Longrightarrow>
    run' = run\<lparr>rn_status := ''paused'', rn_updated_at := now e\<rparr> \<and> runs s' = runs (put_run run' s)"
  by (auto simp: pause_run_def Let_def)

lemma resume_run_runs: "resume_run e run s = Inr (run', s') \<Longrightarrow>
    run' = run\<lparr>rn_status := ''running'', rn_updated_at := now e\<rparr> \<and> runs s' = runs (put_run run' s)"
  by (auto simp: resume_run_def Let_def create_job_def)

lemma retry_run_runs: "retry_run e run s = Inr (run', s') \<Longrightarrow>
    run' = pending_run e (new_uuid e s) (rn_spec_id run) (rn_charter_id run) (rn_cycle_id run) None
      (int (count_runs s (rn_spec_id run)) + 1) \<and> runs s' = runs s @ [run']"
  by (auto simp: retry_run_def Let_def)


text \<open>
  C35: After a cancellation the run is cancelled, no job of the run can be claimed or resumed any more, the jobs
  of other runs are untouched, and the queue stays well-formed.
\<close>

theorem cancel_quiesces_run:
  assumes "control_run e x k ''cancel'' act aid s = Inr (run', s')"
  shows "rn_status run' = ''cancelled'' \<and>
    (\<forall>j\<in>set (jobs s'). payload_run k j \<longrightarrow> j_status j \<in> terminal_jobs) \<and>
    filter (\<lambda>j. \<not> payload_run k j) (jobs s') = filter (\<lambda>j. \<not> payload_run k j) (jobs s) \<and>
    (queue_wf m s \<longrightarrow> queue_wf m s')"
proof -
  from control_run_Inr [OF assms] obtain run
    where run: "table_get rn_id (runs s) k = Some run" "''cancel'' \<in> set (allowed_actions (rn_status run))" .
  have id: "rn_id run = k" using table_get_Some_in [OF run(1)] by simp
  let ?f = "\<lambda>j. j\<lparr>j_status := Js_cancelled, j_completed_at := Some (now e)\<rparr>"
  let ?P = "\<lambda>j. j_status j \<in> {Js_pending, Js_claimed, Js_running, Js_paused} \<and> payload_run k j"
  have s': "rn_status run' = ''cancelled''" and js: "jobs s' = update_where ?P ?f (jobs s)"
    using assms unfolding control_run_actions [OF run] by (auto simp: cancel_run_Inr id)
  have pl: "payload_run k (?f j) = payload_run k j" for j by (simp add: payload_run_def)
  have a: "\<forall>j\<in>set (jobs s'). payload_run k j \<longrightarrow> j_status j \<in> terminal_jobs"
  proof (intro ballI impI)
    fix j assume "j \<in> set (jobs s')" "payload_run k j"
    then obtain j0 where "j = (if ?P j0 then ?f j0 else j0)" unfolding js set_update_where by blast
    then show "j_status j \<in> terminal_jobs" using \<open>payload_run k j\<close> by (cases "?P j0"; cases "j_status j0") auto
  qed
  have b: "filter (\<lambda>j. \<not> payload_run k j) (jobs s') = filter (\<lambda>j. \<not> payload_run k j) (jobs s)"
    unfolding js by (rule filter_update_where_other) (auto simp: pl)
  have c: "queue_wf m s'" if wf: "queue_wf m s"
  proof -
    have "map j_id (jobs s') = map j_id (jobs s)" unfolding js by (rule map_update_where) simp
    moreover have "job_wf m j" if "j \<in> set (jobs s')" for j
    proof -
      obtain j0 where "j0 \<in> set (jobs s)" "j = (if ?P j0 then ?f j0 else j0)" using \<open>j \<in> set (jobs s')\<close> unfolding js set_update_where by blast
      then show ?thesis using wf by (auto simp: queue_wf_def job_wf_def)
    qed
    ultimately show ?thesis using wf by (simp add: queue_wf_def job_ids_def)
  qed
  from s' a b c show ?thesis by blast
qed

lemma force_running_cycle:
  assumes "get_cycle s k = Some c" and "cy_status c \<noteq> Cy_running"
  shows "get_cycle (force_running e k s) k = Some (c\<lparr>cy_status := Cy_running, cy_updated_at := now e\<rparr>)"
proof -
  have "cy_id c = k" "k \<in> cy_id ` set (cycles s)" using assms(1) by (auto simp: get_cycle_def dest: table_get_Some_in)
  then show ?thesis using assms by (simp add: force_running_def put_cycle_def get_cycle_def table_get_put)
qed

text \<open>
  Resuming or retrying a run sets its cycle to running from any status, also where the state machine has no
  such transition, and logs no event: afterwards the event log no longer agrees with the cycle.
\<close>

theorem run_control_bypasses_state_machine:
  assumes ok: "control_run e x k a act aid s = Inr (run', s')" and a: "a = ''resume'' \<or> a = ''retry''"
    and c: "get_cycle s (rn_cycle_id run') = Some c" "cy_status c \<noteq> Cy_running" and log: "log_agrees s"
  shows "get_cycle s' (rn_cycle_id run') = Some (c\<lparr>cy_status := Cy_running, cy_updated_at := now e\<rparr>) \<and>
    events s' = events s \<and> \<not> log_agrees s'"
proof -
  from control_run_Inr [OF ok] obtain run
    where run: "table_get rn_id (runs s) k = Some run" "a \<in> set (allowed_actions (rn_status run))" .
  obtain s1 where s1: "cycles s' = cycles (force_running e (rn_cycle_id run') s1)" "cycles s1 = cycles s" "events s' = events s"
  proof (cases "a = ''resume''")
    case True
    then have "resume_run e run s = Inr (run', s')" using ok unfolding control_run_actions [OF run] by simp
    then show ?thesis
      by (intro that [of "snd (create_job e (Some (rn_cycle_id run))
          ''execution_run'' (Some [(''run_record_id'', JUuid (rn_id run)), (''resume'', JBool True)]) 10 (put_run run' s))"])
        (auto simp: resume_run_def Let_def case_prod_beta)
  next
    case False
    then have "retry_run e run s = Inr (run', s')" using ok a unfolding control_run_actions [OF run] by simp
    then show ?thesis
      by (intro that [of "add_run run' s"]) (auto simp: retry_run_def Let_def pending_run_def)
  qed
  have c1: "get_cycle s1 (rn_cycle_id run') = Some c" using c(1) s1(2) by (simp add: get_cycle_def)
  have g: "get_cycle s' (rn_cycle_id run') = Some (c\<lparr>cy_status := Cy_running, cy_updated_at := now e\<rparr>)"
    using force_running_cycle [OF c1 c(2), of e] s1(1) by (simp add: get_cycle_def)
  have "logged_status (events s) (cy_id c) = JStr (cycle_status_value (cy_status c))"
    using log c(1) by (auto simp: log_agrees_def get_cycle_def dest: table_get_Some_in)
  moreover have "c\<lparr>cy_status := Cy_running, cy_updated_at := now e\<rparr> \<in> set (cycles s')"
    using g by (auto simp: get_cycle_def dest: table_get_Some_in)
  ultimately have "\<not> log_agrees s'"
    using c(2) cycle_status_value_inj [of "cy_status c" Cy_running] s1(3)
    by (force simp: log_agrees_def)
  with g s1(3) show ?thesis by blast
qed

text \<open>
  A client that reads every listing of the experiment API page by page, with any page size, gets
  exactly the matching rows, each once, in the order of the listing.
\<close>

theorem listings_complete:
  assumes "0 < l"
  shows "read_pages (list_run_records s cy sp st) l =
      order_desc rn_created_at (filter (\<lambda>r. opt_match cy (rn_cycle_id r) \<and> opt_match sp (rn_spec_id r) \<and>
        opt_match st (rn_status r)) (runs s)) \<and>
    read_pages (list_experiment_specs s cy st) l =
      order_desc sp_created_at (filter (\<lambda>p. opt_match cy (sp_cycle_id p) \<and> opt_match st (sp_status p)) (specs s)) \<and>
    read_pages (list_hypothesis_cards s cy hs st) l =
      card_order (filter (\<lambda>c. opt_match cy (hc_cycle_id c) \<and> opt_match hs (hc_session_id c) \<and>
        opt_match st (hc_status c)) (cards s)) \<and>
    read_pages (list_hypothesis_sessions s ch cy) l =
      order_desc hs_created_at (filter (\<lambda>h. opt_match ch (hs_charter_id h) \<and> opt_match cy (hs_cycle_id h)) (sessions s)) \<and>
    read_pages (list_verification_reports s cy st) l =
      order_desc vr_created_at (filter (\<lambda>v. opt_match cy (vr_cycle_id v) \<and> opt_match st (vr_verdict v)) (reports s))"
  by (intro conjI runs_page.read_all specs_page.read_all cards_page.read_all sessions_page.read_all
      reports_page.read_all assms)

definition demo_stuck_run :: run_record where
  "demo_stuck_run = demo_ready_run\<lparr>rn_status := ''failed''\<rparr>"

definition demo_closed_world :: db where
  "demo_closed_world = empty_db\<lparr>
     cycles := [\<lparr>cy_id = 4, cy_charter_id = 3, cy_status = Cy_closed, cy_config = None, cy_created_at = 1,
       cy_updated_at = 1, cy_started_at = Some 1, cy_completed_at = Some 9\<rparr>],
     runs := [demo_stuck_run],
     events := [\<lparr>ev_id = 1, ev_charter_id = Some 3, ev_cycle_id = Some 4, ev_type = ''research_cycle_transitioned'',
       ev_payload = Some [(''from_status'', JStr ''reporting''), (''to_status'', JStr ''closed'')],
       ev_actor_type = Actor_worker, ev_actor_id = None, ev_created_at = 9\<rparr>]\<rparr>"

definition no_docker :: run_killer where
  "no_docker = \<lparr>rk_connect = Some ''refused'', rk_kill = (\<lambda>_. None)\<rparr>"

lemma demo_closed_facts:
  "rn_id demo_stuck_run = 20" "rn_cycle_id demo_stuck_run = 4" "rn_status demo_stuck_run = ''failed''"
  "table_get rn_id (runs demo_closed_world) 20 = Some demo_stuck_run" "log_agrees demo_closed_world"
  "new_uuid demo_env demo_closed_world = 100" "rn_id ` set (runs demo_closed_world) = {20}"
  by (simp_all add: demo_stuck_run_def demo_ready_run_def demo_closed_world_def pending_run_def log_agrees_def
      logged_status_def is_status_event_def event_status_def opt_dict_def new_uuid_def demo_env_def empty_db_def)

lemma demo_retry:
  "\<exists>run' s'. control_run demo_env no_docker 20 ''retry'' Actor_user None demo_closed_world = Inr (run', s') \<and>
     rn_cycle_id run' = 4"
proof -
  have ok: "''retry'' \<in> set (allowed_actions (rn_status demo_stuck_run))"
    by (simp add: demo_closed_facts allowed_actions_def ALLOWED_ACTIONS_def)
  show ?thesis unfolding control_run_actions [OF demo_closed_facts(4) ok]
    by (simp add: retry_run_def Let_def pending_run_def demo_closed_facts)
qed


theorem run_control_bypasses_state_machine_witness:
  "\<exists>run' s'. control_run demo_env no_docker 20 ''retry'' Actor_user None demo_closed_world = Inr (run', s') \<and>
     map_option cy_status (get_cycle demo_closed_world 4) = Some Cy_closed \<and>
     map_option cy_status (get_cycle s' 4) = Some Cy_running \<and> \<not> log_agrees s' \<and>
     validate_transition Cy_closed Cy_running = Inl (InvalidTransitionError ''closed'' ''running'')"
proof -
  obtain run' s' where r: "control_run demo_env no_docker 20 ''retry'' Actor_user None demo_closed_world = Inr (run', s')"
    "rn_cycle_id run' = 4" using demo_retry by blast
  obtain c where c: "get_cycle demo_closed_world (rn_cycle_id run') = Some c" "cy_status c = Cy_closed"
    using r(2) by (simp add: get_cycle_def demo_closed_world_def)
  have "get_cycle s' (rn_cycle_id run') = Some (c\<lparr>cy_status := Cy_running, cy_updated_at := now demo_env\<rparr>) \<and>
      events s' = events demo_closed_world \<and> \<not> log_agrees s'"
    by (rule run_control_bypasses_state_machine [OF r(1) _ c(1) _ demo_closed_facts(5)]) (simp_all add: c(2))
  with r c show ?thesis by (simp add: validate_transition_def)
qed

definition demo_active_world :: db where
  "demo_active_world = empty_db\<lparr>runs := [demo_ready_run],
     jobs := [\<lparr>j_id = 9, j_cycle_id = Some 4, j_type = ''execution_setup'', j_status = Js_pending,
       j_payload = Some [(''run_record_id'', JUuid 20)], j_result = None, j_error = None, j_claimed_by = None,
       j_claimed_at = None, j_heartbeat_at = None, j_priority = 10, j_created_at = 1, j_completed_at = None,
       j_reclaim_count = 0\<rparr>]\<rparr>"

theorem cancel_quiesces_run_witness:
  "\<exists>run' s'. control_run demo_env no_docker 20 ''cancel'' Actor_user None demo_active_world = Inr (run', s') \<and>
     (\<forall>j\<in>set (jobs s'). payload_run 20 j \<longrightarrow> j_status j \<in> terminal_jobs)"
proof -
  have run: "table_get rn_id (runs demo_active_world) 20 = Some demo_ready_run" "rn_status demo_ready_run = ''pending''"
    "rn_container_id demo_ready_run = None"
    by (simp_all add: demo_active_world_def demo_ready_run_def pending_run_def)
  have ok: "''cancel'' \<in> set (allowed_actions (rn_status demo_ready_run))"
    by (simp add: run allowed_actions_def ALLOWED_ACTIONS_def)
  have "kill_container no_docker demo_ready_run = None" by (simp add: kill_container_def run)
  then obtain run' s' where "control_run demo_env no_docker 20 ''cancel'' Actor_user None demo_active_world = Inr (run', s')"
    unfolding control_run_actions [OF run(1) ok] using cancel_run_Inr by simp
  with cancel_quiesces_run [OF this] show ?thesis by blast
qed

theorem listings_complete_witness:
  "read_pages (list_run_records demo_closed_world None None (Some ''failed'')) 1 = [demo_stuck_run]"
  using listings_complete [of 1 demo_closed_world None None "Some ''failed''" None None]
  by (simp add: demo_closed_world_def demo_closed_facts order_desc_def)

end
