(* ===== verification/Pipeline_Stages.thy ===== *)
theory Pipeline_Stages
  imports Experiment_Service
begin

text \<open>
  What the operators of the three document pipelines have in common: each works on one session named by the payload
  of its job and hands over to the next stage by inserting one job with the same payload.  The locale
  \<open>pipeline_stage\<close> is that contract; the operators of discovery, analysis and ideation interpret it.
\<close>

definition upd_lib :: "(library \<Rightarrow> library) \<Rightarrow> db \<Rightarrow> db" where
  "upd_lib f s = s\<lparr>lib := f (lib s)\<rparr>"

lemma upd_lib_simps [simp]:
  "lib (upd_lib f s) = f (lib s)" "jobs (upd_lib f s) = jobs s" "events (upd_lib f s) = events s"
  "cycles (upd_lib f s) = cycles s" "sessions (upd_lib f s) = sessions s" "cards (upd_lib f s) = cards s"
  "discoveries (upd_lib f s) = discoveries s" "analyses (upd_lib f s) = analyses s" "uuid_calls (upd_lib f s) = uuid_calls s"
  "disk (upd_lib f s) = disk s" "charters (upd_lib f s) = charters s" "skills (upd_lib f s) = skills s"
  by (simp_all add: upd_lib_def)

text \<open>\<open>ORDER BY key DESC NULLS LAST\<close>.\<close>

definition desc_nulls_last :: "('r \<Rightarrow> real option) \<Rightarrow> 'r list \<Rightarrow> 'r list" where
  "desc_nulls_last key = sort_key (\<lambda>r. case key r of None \<Rightarrow> (1::nat, 0) | Some x \<Rightarrow> (0, - x))"

lemma set_desc_nulls_last [simp]: "set (desc_nulls_last key rs) = set rs"
  by (simp add: desc_nulls_last_def)

text \<open>A list of rows built one after the other, each with its own identifier.\<close>

fun fresh_rows :: "env \<Rightarrow> (uuid \<Rightarrow> 'a \<Rightarrow> 'b) \<Rightarrow> 'a list \<Rightarrow> db \<Rightarrow> 'b list \<times> db" where
  "fresh_rows e mk [] s = ([], s)"
| "fresh_rows e mk (x # xs) s = (case fresh_rows e mk xs (tick_uuid s) of (ys, s') \<Rightarrow> (mk (new_uuid e s) x # ys, s'))"

lemma fresh_rows_list:
  "fst (fresh_rows e mk xs s) = map (\<lambda>(i, x). mk (uuid7 e i) x) (enumerate (uuid_calls s) xs)"
  by (induction e mk xs s rule: fresh_rows.induct) (auto simp: new_uuid_def split: prod.splits)

lemma fresh_rows_store: "snd (fresh_rows e mk xs s) = s\<lparr>uuid_calls := uuid_calls s + length xs\<rparr>"
  by (induction e mk xs s rule: fresh_rows.induct) (auto simp: tick_uuid_def split: prod.splits)

lemma fresh_rows_Pair: "fresh_rows e mk xs s = (ys, s') \<Longrightarrow> s' = s\<lparr>uuid_calls := uuid_calls s + length xs\<rparr>"
  using fresh_rows_store [of e mk xs s] by simp

section \<open>The contract of a stage\<close>

definition handed_over :: "string \<Rightarrow> string \<Rightarrow> op_input \<Rightarrow> job \<Rightarrow> bool" where
  "handed_over key next i j \<longleftrightarrow> j_type j = next \<and> j_status j = Js_pending \<and>
     (\<exists>k. UUID_of (dget (oi_payload i) key) = Inr k \<and> j_payload j = Some [(key, JUuid k)])"

locale pipeline_stage =
  fixes stage :: operator and key :: string and next_type :: string
  assumes success_hands_over:
      "stage i s = (Inr r, s') \<Longrightarrow> or_success r \<Longrightarrow> \<exists>j. jobs s' = jobs s @ [j] \<and> handed_over key next_type i j"
    and failure_hands_nothing:
      "stage i s = (res, s') \<Longrightarrow> (\<forall>r. res = Inr r \<longrightarrow> \<not> or_success r) \<Longrightarrow> jobs s' = jobs s"
begin

lemma at_most_one: "jobs (snd (stage i s)) = jobs s \<or> (\<exists>j. jobs (snd (stage i s)) = jobs s @ [j] \<and> handed_over key next_type i j)"
proof (cases "\<exists>r. fst (stage i s) = Inr r \<and> or_success r")
  case True
  then show ?thesis using success_hands_over [of i s _ "snd (stage i s)"] by (metis prod.collapse)
next
  case False
  then show ?thesis using failure_hands_nothing [of i s "fst (stage i s)" "snd (stage i s)"] by auto
qed

text \<open>Work a stage committed before its worker died is done again: the next stage is then enqueued twice.\<close>

lemma repeated_stage_duplicates:
  assumes "stage i s = (Inr r, s1)" "or_success r" "stage i s1 = (Inr r', s2)" "or_success r'"
  shows "\<exists>j j'. jobs s2 = jobs s @ [j, j'] \<and> handed_over key next_type i j \<and> handed_over key next_type i j'"
  using success_hands_over [OF assms(1,2)] success_hands_over [OF assms(3,4)] by auto

end

text \<open>
  A pipeline whose stages run one after the other on the job the stage before left; it stops at the first stage that
  fails or raises.  A stage comes with the type of its job and reads the time when it runs.
\<close>

fun run_stages :: "(nat \<Rightarrow> env) \<Rightarrow> (string \<times> (env \<Rightarrow> operator)) list \<Rightarrow> op_input \<Rightarrow> db \<Rightarrow> nat \<times> db" where
  "run_stages clock [] i s = (0, s)"
| "run_stages clock ((ty, f) # fs) i s =
    (case f (clock (length fs)) (i\<lparr>oi_job_type := ty\<rparr>) s of
       (Inr r, s') \<Rightarrow> if or_success r then (case run_stages clock fs i s' of (n, s'') \<Rightarrow> (Suc n, s'')) else (0, s')
     | (Inl err, s') \<Rightarrow> (0, s'))"

text \<open>The types of the jobs a chain of stages hands over to, in order.\<close>

inductive staged :: "string \<Rightarrow> (string \<times> (env \<Rightarrow> operator)) list \<Rightarrow> bool" for key where
  last: "(\<And>e i s. jobs (snd (f e i s)) = jobs s) \<Longrightarrow> staged key [(ty, f)]"
| more: "(\<And>e. pipeline_stage (f e) key ty') \<Longrightarrow> staged key ((ty', g) # fs) \<Longrightarrow> staged key ((ty, f) # (ty', g) # fs)"

lemma handed_over_input [simp]: "handed_over key next (i\<lparr>oi_job_type := ty\<rparr>) j = handed_over key next i j"
  by (simp add: handed_over_def)

lemma run_stages_hand_over:
  assumes "staged key fs" and "run_stages clock fs i s = (n, s')"
  shows "n \<le> length fs \<and> (\<exists>new. jobs s' = jobs s @ new \<and> list_all2 (\<lambda>j t. handed_over key t i j) new (take n (map fst (tl fs))))"
  using assms
proof (induction arbitrary: s n s')
  case (last f ty)
  obtain res s1 where f: "f (clock 0) (i\<lparr>oi_job_type := ty\<rparr>) s = (res, s1)" by (cases "f (clock 0) (i\<lparr>oi_job_type := ty\<rparr>) s")
  have "jobs s1 = jobs s" using last(1) [of "clock 0" "i\<lparr>oi_job_type := ty\<rparr>" s] f by simp
  then show ?case using last(2) f by (auto split: sum.splits if_splits)
next
  case (more f ty' g fs ty)
  define e where "e = clock (length ((ty', g) # fs))"
  obtain res s1 where f: "f e (i\<lparr>oi_job_type := ty\<rparr>) s = (res, s1)" by (cases "f e (i\<lparr>oi_job_type := ty\<rparr>) s")
  note stage = more(1) [of e]
  show ?case
  proof (cases "\<exists>r. res = Inr r \<and> or_success r")
    case True
    then obtain r where r: "res = Inr r" "or_success r" by blast
    obtain j where j: "jobs s1 = jobs s @ [j]" "handed_over key ty' i j"
      using pipeline_stage.success_hands_over [OF stage f [unfolded r(1)] r(2)] by auto
    obtain m s2 where rest: "run_stages clock ((ty', g) # fs) i s1 = (m, s2)" by (cases "run_stages clock ((ty', g) # fs) i s1")
    have ns: "n = Suc m" "s' = s2" using more.prems f r rest unfolding run_stages.simps(2) [of clock ty f] e_def [symmetric] by auto
    obtain new where "m \<le> length ((ty', g) # fs)" "jobs s2 = jobs s1 @ new"
      "list_all2 (\<lambda>j t. handed_over key t i j) new (take m (map fst fs))"
      using more.IH [OF rest] by auto
    then show ?thesis using j ns by (intro conjI exI [of _ "j # new"]) auto
  next
    case False
    then have "n = 0" "s' = s1"
      using more.prems f unfolding run_stages.simps(2) [of clock ty f] e_def [symmetric] by (auto split: sum.splits)
    moreover have "jobs s1 = jobs s" using pipeline_stage.failure_hands_nothing [OF stage f] False by auto
    ultimately show ?thesis by simp
  qed
qed

end
