(* ===== verification/Pipeline_Sessions.thy ===== *)
theory Pipeline_Sessions
  imports Execution_Common
begin

text \<open>
  The session helpers the three document pipelines repeat: \<open>libs/discovery/operators/_common.py\<close>,
  \<open>libs/analysis/operators/_common.py\<close> and \<open>libs/ideation/operators/_common.py\<close>.  Each pipeline keeps
  a session row with a status, an error, statistics and a structured step log; \<open>mark_failed\<close> is what
  the worker calls when a job of the pipeline fails.  The locale \<open>failure_log\<close> is the contract the
  three copies share, interpreted on each of them.
\<close>

section \<open>Shared shapes\<close>

definition log_entry :: "env \<Rightarrow> string \<Rightarrow> string \<Rightarrow> dict \<Rightarrow> step_entry" where
  "log_entry e step status detail = \<lparr>se_step = step, se_status = status, se_at = now e, se_detail = detail\<rparr>"

text \<open>\<open>payload.get(key)\<close>, the pipeline's own error when it is missing, \<open>UUID(str(raw))\<close> otherwise.\<close>

definition id_from_payload :: "string \<Rightarrow> exc \<Rightarrow> op_input \<Rightarrow> uuid res" where
  "id_from_payload key missing i =
    (let raw = dget (oi_payload i) key in if raw = JNull then Inl missing else UUID_of raw)"

definition load_by_id :: "('r \<Rightarrow> uuid) \<Rightarrow> exc \<Rightarrow> 'r list \<Rightarrow> uuid \<Rightarrow> 'r res" where
  "load_by_id key missing rows k =
    res_bind (scalar_one_or_none (filter (\<lambda>r. key r = k) rows))
      (\<lambda>r. case r of None \<Rightarrow> Inl missing | Some x \<Rightarrow> Inr x)"

section \<open>Discovery\<close>

definition session_id_from_payload :: "op_input \<Rightarrow> uuid res" where
  "session_id_from_payload = id_from_payload ''session_id'' (DiscoveryStateError ''payload is missing session_id'')"

definition load_session :: "db \<Rightarrow> uuid \<Rightarrow> discovery_session res" where
  "load_session s = load_by_id dis_id (DiscoveryStateError ''discovery session not found'') (discoveries s)"

definition discovery_append_step_log ::
  "env \<Rightarrow> string \<Rightarrow> string \<Rightarrow> dict \<Rightarrow> discovery_session \<Rightarrow> discovery_session" where
  "discovery_append_step_log e step status detail d =
     d\<lparr>dis_step_log := Some (opt_list (dis_step_log d) @ [log_entry e step status detail])\<rparr>"

definition discovery_merge_stats :: "dict \<Rightarrow> discovery_session \<Rightarrow> discovery_session" where
  "discovery_merge_stats extra d = d\<lparr>dis_stats := Some (dupdate (opt_dict (dis_stats d)) extra)\<rparr>"

definition discovery_enqueue_next :: "env \<Rightarrow> uuid \<Rightarrow> string \<Rightarrow> uuid \<Rightarrow> db \<Rightarrow> uuid \<times> db" where
  "discovery_enqueue_next e cycle_id next_job_type session_id s =
    (case create_job e (Some cycle_id) next_job_type (Some [(''session_id'', JUuid session_id)]) 10 s of
       (j, s') \<Rightarrow> (j_id j, s'))"

definition discovery_mark_started_if_needed :: "env \<Rightarrow> discovery_session \<Rightarrow> discovery_session" where
  "discovery_mark_started_if_needed e d =
    (if dis_started_at d = None then d\<lparr>dis_started_at := Some (now e)\<rparr> else d)"

definition discovery_mark_failed ::
  "env \<Rightarrow> string \<Rightarrow> string \<Rightarrow> dict \<Rightarrow> discovery_session \<Rightarrow> bool \<times> discovery_session" where
  "discovery_mark_failed e step error detail d =
    (if dis_status d = ''failed'' \<and> dis_error d = Some error then (False, d)
     else (True, discovery_append_step_log e step ''failed'' (dset detail ''error'' (JStr error))
                   (d\<lparr>dis_status := ''failed'', dis_error := Some error, dis_completed_at := Some (now e)\<rparr>)))"

section \<open>Analysis\<close>

definition analysis_session_id_from_payload :: "op_input \<Rightarrow> uuid res" where
  "analysis_session_id_from_payload =
     id_from_payload ''analysis_session_id'' (AnalysisStateError ''payload is missing analysis_session_id'')"

definition load_analysis_session :: "db \<Rightarrow> uuid \<Rightarrow> analysis_session res" where
  "load_analysis_session s = load_by_id an_id (AnalysisStateError ''analysis session not found'') (analyses s)"

definition analysis_append_step_log ::
  "env \<Rightarrow> string \<Rightarrow> string \<Rightarrow> dict \<Rightarrow> analysis_session \<Rightarrow> analysis_session" where
  "analysis_append_step_log e step status detail a =
     a\<lparr>an_step_log := Some (opt_list (an_step_log a) @ [log_entry e step status detail])\<rparr>"

definition analysis_merge_stats :: "dict \<Rightarrow> analysis_session \<Rightarrow> analysis_session" where
  "analysis_merge_stats extra a = a\<lparr>an_stats := Some (dupdate (opt_dict (an_stats a)) extra)\<rparr>"

definition analysis_budget :: "analysis_session \<Rightarrow> dict" where
  "analysis_budget a = opt_dict (an_budget a)"

definition analysis_enqueue_next :: "env \<Rightarrow> uuid \<Rightarrow> string \<Rightarrow> uuid \<Rightarrow> db \<Rightarrow> uuid \<times> db" where
  "analysis_enqueue_next e cycle_id next_job_type analysis_session_id s =
    (case create_job e (Some cycle_id) next_job_type
            (Some [(''analysis_session_id'', JUuid analysis_session_id)]) 10 s of
       (j, s') \<Rightarrow> (j_id j, s'))"

definition analysis_mark_started_if_needed :: "env \<Rightarrow> analysis_session \<Rightarrow> analysis_session" where
  "analysis_mark_started_if_needed e a =
    (if an_started_at a = None then a\<lparr>an_started_at := Some (now e)\<rparr> else a)"

definition analysis_mark_failed ::
  "env \<Rightarrow> string \<Rightarrow> string \<Rightarrow> dict \<Rightarrow> analysis_session \<Rightarrow> bool \<times> analysis_session" where
  "analysis_mark_failed e step error detail a =
    (if an_status a = ''failed'' \<and> an_error a = Some error then (False, a)
     else (True, analysis_append_step_log e step ''failed'' (dset detail ''error'' (JStr error))
                   (a\<lparr>an_status := ''failed'', an_error := Some error, an_completed_at := Some (now e)\<rparr>)))"

section \<open>Ideation\<close>

definition hypothesis_session_id_from_payload :: "op_input \<Rightarrow> uuid res" where
  "hypothesis_session_id_from_payload =
     id_from_payload ''hypothesis_session_id'' (IdeationStateError ''payload is missing hypothesis_session_id'')"

definition load_hypothesis_session :: "db \<Rightarrow> uuid \<Rightarrow> hypothesis_session res" where
  "load_hypothesis_session s = load_by_id hs_id (IdeationStateError ''hypothesis session not found'') (sessions s)"

definition ideation_append_step_log ::
  "env \<Rightarrow> string \<Rightarrow> string \<Rightarrow> dict \<Rightarrow> hypothesis_session \<Rightarrow> hypothesis_session" where
  "ideation_append_step_log e step status detail h =
     h\<lparr>hs_step_log := Some (opt_list (hs_step_log h) @ [log_entry e step status detail])\<rparr>"

definition ideation_merge_stats :: "dict \<Rightarrow> hypothesis_session \<Rightarrow> hypothesis_session" where
  "ideation_merge_stats extra h = h\<lparr>hs_stats := Some (dupdate (opt_dict (hs_stats h)) extra)\<rparr>"

definition ideation_enqueue_next :: "env \<Rightarrow> uuid \<Rightarrow> string \<Rightarrow> uuid \<Rightarrow> db \<Rightarrow> uuid \<times> db" where
  "ideation_enqueue_next e cycle_id next_job_type hypothesis_session_id s =
    (case create_job e (Some cycle_id) next_job_type
            (Some [(''hypothesis_session_id'', JUuid hypothesis_session_id)]) 10 s of
       (j, s') \<Rightarrow> (j_id j, s'))"

definition ideation_mark_started_if_needed :: "env \<Rightarrow> hypothesis_session \<Rightarrow> hypothesis_session" where
  "ideation_mark_started_if_needed e h =
    (if hs_started_at h = None then h\<lparr>hs_started_at := Some (now e)\<rparr> else h)"

definition ideation_mark_failed ::
  "env \<Rightarrow> string \<Rightarrow> string \<Rightarrow> dict \<Rightarrow> hypothesis_session \<Rightarrow> bool \<times> hypothesis_session" where
  "ideation_mark_failed e step error detail h =
    (if hs_status h = ''failed'' \<and> hs_error h = Some error then (False, h)
     else (True, ideation_append_step_log e step ''failed'' (dset detail ''error'' (JStr error))
                   (h\<lparr>hs_status := ''failed'', hs_error := Some error, hs_completed_at := Some (now e)\<rparr>)))"

section \<open>The failure log\<close>

text \<open>Successive failures of the jobs of one session.\<close>

definition mark_each ::
  "(env \<Rightarrow> string \<Rightarrow> string \<Rightarrow> dict \<Rightarrow> 'r \<Rightarrow> bool \<times> 'r) \<Rightarrow> env \<Rightarrow> string \<Rightarrow> dict \<Rightarrow> string list \<Rightarrow> 'r \<Rightarrow> 'r" where
  "mark_each mark e step detail errors r = fold (\<lambda>m r. snd (mark e step m detail r)) errors r"

definition logged_errors :: "step_entry list \<Rightarrow> json list" where
  "logged_errors entries = map (\<lambda>en. dget (se_detail en) ''error'') entries"

lemma cons_tl_remdups_adj: "f a # map f (tl (remdups_adj (a # as))) = map f (remdups_adj (a # as))"
  by (metis hd_remdups_adj list.collapse list.distinct(1) list.sel(1) list.simps(9) remdups_adj_Nil_iff)

text \<open>
  The contract: marking with the error the session already carries changes nothing and says so;
  marking with another error sets it and appends one entry that carries it.
\<close>

locale failure_log =
  fixes status :: "'r \<Rightarrow> string" and err :: "'r \<Rightarrow> string option" and log :: "'r \<Rightarrow> step_entry list"
    and mark :: "env \<Rightarrow> string \<Rightarrow> string \<Rightarrow> dict \<Rightarrow> 'r \<Rightarrow> bool \<times> 'r"
  assumes mark_same: "status r = ''failed'' \<Longrightarrow> err r = Some m \<Longrightarrow> mark e st m d r = (False, r)"
    and mark_new: "\<not> (status r = ''failed'' \<and> err r = Some m) \<Longrightarrow>
      fst (mark e st m d r) \<and> status (snd (mark e st m d r)) = ''failed'' \<and> err (snd (mark e st m d r)) = Some m \<and>
      log (snd (mark e st m d r)) = log r @ [log_entry e st ''failed'' (dset d ''error'' (JStr m))]"
begin

lemma mark_sets: "status (snd (mark e st m d r)) = ''failed'' \<and> err (snd (mark e st m d r)) = Some m"
  by (cases "status r = ''failed'' \<and> err r = Some m") (simp add: mark_same, simp add: mark_new)

lemma mark_idempotent: "mark e' st' m d' (snd (mark e st m d r)) = (False, snd (mark e st m d r))"
  by (rule mark_same) (simp_all add: mark_sets)

lemma mark_changed_iff: "fst (mark e st m d r) \<longleftrightarrow> log (snd (mark e st m d r)) \<noteq> log r"
  by (cases "status r = ''failed'' \<and> err r = Some m") (simp add: mark_same, simp add: mark_new)

lemma dget_dset: "dget (dset d k v) k = v"
  by (simp add: dget_def)

lemma failed_log:
  "status r = ''failed'' \<Longrightarrow> err r = Some m \<Longrightarrow>
   logged_errors (log (mark_each mark e st d ms r)) = logged_errors (log r) @ map JStr (tl (remdups_adj (m # ms)))"
proof (induction ms arbitrary: r m)
  case Nil
  then show ?case by (simp add: mark_each_def)
next
  case (Cons a ms)
  let ?r = "snd (mark e st a d r)"
  have ih: "logged_errors (log (mark_each mark e st d ms ?r)) = logged_errors (log ?r) @ map JStr (tl (remdups_adj (a # ms)))"
    by (rule Cons.IH) (simp_all add: mark_sets)
  have step: "mark_each mark e st d (a # ms) r = mark_each mark e st d ms ?r" by (simp add: mark_each_def)
  show ?case
  proof (cases "a = m")
    case True
    then have "?r = r" using mark_same [OF Cons.prems] by simp
    then show ?thesis using ih step True by simp
  next
    case False
    have "log ?r = log r @ [log_entry e st ''failed'' (dset d ''error'' (JStr a))]"
      using mark_new [of r a e st d] Cons.prems False by simp
    then show ?thesis using ih step False
      by (simp add: logged_errors_def log_entry_def dget_dset cons_tl_remdups_adj)
  qed
qed

text \<open>A session that had not failed logs the sequence of its failures without immediate repetitions.\<close>

lemma fresh_log:
  assumes "status r \<noteq> ''failed''"
  shows "logged_errors (log (mark_each mark e st d ms r)) = logged_errors (log r) @ map JStr (remdups_adj ms)"
proof (cases ms)
  case Nil
  then show ?thesis by (simp add: mark_each_def)
next
  case (Cons a as)
  let ?r = "snd (mark e st a d r)"
  have "logged_errors (log (mark_each mark e st d as ?r)) =
      logged_errors (log ?r) @ map JStr (tl (remdups_adj (a # as)))"
    by (rule failed_log) (simp_all add: mark_sets)
  moreover have "log ?r = log r @ [log_entry e st ''failed'' (dset d ''error'' (JStr a))]"
    using mark_new [of r a e st d] assms by simp
  ultimately show ?thesis
    by (simp add: Cons mark_each_def logged_errors_def log_entry_def dget_dset cons_tl_remdups_adj)
qed

end

interpretation discovery_log: failure_log dis_status dis_error "\<lambda>d. opt_list (dis_step_log d)" discovery_mark_failed
  by unfold_locales (auto simp: discovery_mark_failed_def discovery_append_step_log_def opt_list_def)

interpretation analysis_log: failure_log an_status an_error "\<lambda>a. opt_list (an_step_log a)" analysis_mark_failed
  by unfold_locales (auto simp: analysis_mark_failed_def analysis_append_step_log_def opt_list_def)

interpretation ideation_log: failure_log hs_status hs_error "\<lambda>h. opt_list (hs_step_log h)" ideation_mark_failed
  by unfold_locales (auto simp: ideation_mark_failed_def ideation_append_step_log_def opt_list_def)

section \<open>Properties\<close>

text \<open>
  In each of the three pipelines a session that had not failed logs the errors of its failing
  jobs in order and without immediate repetitions: reporting the failure a session already carries
  (the operator marks it, then the worker marks it again) adds no second entry.
\<close>

theorem failure_logged_once:
  "(dis_status d \<noteq> ''failed'' \<longrightarrow>
     logged_errors (opt_list (dis_step_log (mark_each discovery_mark_failed e st dt ms d))) =
     logged_errors (opt_list (dis_step_log d)) @ map JStr (remdups_adj ms)) \<and>
   (an_status a \<noteq> ''failed'' \<longrightarrow>
     logged_errors (opt_list (an_step_log (mark_each analysis_mark_failed e st dt ms a))) =
     logged_errors (opt_list (an_step_log a)) @ map JStr (remdups_adj ms)) \<and>
   (hs_status h \<noteq> ''failed'' \<longrightarrow>
     logged_errors (opt_list (hs_step_log (mark_each ideation_mark_failed e st dt ms h))) =
     logged_errors (opt_list (hs_step_log h)) @ map JStr (remdups_adj ms))"
  by (intro conjI impI; rule discovery_log.fresh_log analysis_log.fresh_log ideation_log.fresh_log, assumption)

definition demo_hypothesis_session :: hypothesis_session where
  "demo_hypothesis_session = \<lparr>hs_id = 30, hs_cycle_id = 4, hs_charter_id = 3, hs_status = ''running'', hs_budget = JNull, hs_error = None,
     hs_step_log = None, hs_stats = None, hs_started_at = Some 1, hs_created_at = 1, hs_updated_at = 1,
     hs_completed_at = None\<rparr>"

theorem failure_logged_once_witness:
  "hs_status demo_hypothesis_session \<noteq> ''failed'' \<and>
   logged_errors (opt_list (hs_step_log
     (mark_each ideation_mark_failed demo_env ''rank'' [] [''a'', ''a'', ''b''] demo_hypothesis_session))) =
     [JStr ''a'', JStr ''b'']"
  using failure_logged_once [of undefined demo_env "''rank''" "[]" "[''a'', ''a'', ''b'']" undefined demo_hypothesis_session]
  by (simp add: demo_hypothesis_session_def logged_errors_def opt_list_def)

end
