(* ===== verification/Discovery_Ranking.thy ===== *)
theory Discovery_Ranking
  imports Storage
begin

text \<open>
  The pure part of the discovery pipeline: the cross-source dedupe keys and the merge of colliding hits
  (\<open>libs/adapters/sources/dedupe.py\<close>), reciprocal rank fusion (\<open>libs/discovery/ranking.py\<close>), the two views
  (\<open>libs/discovery/views.py\<close>) and the evaluation metrics (\<open>libs/discovery/evaluation.py\<close>).  The hex digest of
  SHA-1 is the argument \<open>sha1\<close>.
\<close>

section \<open>Hits and dedupe keys\<close>

record source_hit =
  sh_source :: string
  sh_external_id :: string
  sh_title :: string
  sh_abstract :: string
  sh_authors :: "string list"
  sh_categories :: "string list"
  sh_venue :: "string option"
  sh_year :: "int option"
  sh_doi :: "string option"
  sh_source_url :: "string option"
  sh_pdf_url :: "string option"
  sh_embedding :: "real list option"
  sh_bm25_score :: "real option"
  sh_dense_score :: "real option"
  sh_first_stage_score :: "real option"

definition py_lower :: "string \<Rightarrow> string" where
  "py_lower s = map char_lower s"

definition DOI_PREFIXES :: "string list" where
  "DOI_PREFIXES = [''http://doi.org/'', ''https://doi.org/'', ''http://dx.doi.org/'', ''https://dx.doi.org/'']"

definition strip_doi_prefix :: "string \<Rightarrow> string" where
  "strip_doi_prefix t =
     (case find (startswith (py_lower t)) DOI_PREFIXES of None \<Rightarrow> t | Some p \<Rightarrow> drop (length p) t)"

definition or_none :: "string \<Rightarrow> string option" where
  "or_none t = (if t = [] then None else Some t)"

definition normalize_doi :: "string option \<Rightarrow> string option" where
  "normalize_doi doi =
     (case doi of Some (c # t) \<Rightarrow> or_none (py_lower (strip_doi_prefix (py_strip (c # t)))) | _ \<Rightarrow> None)"

definition is_digit :: "char \<Rightarrow> bool" where
  "is_digit c = (let n = (of_char c :: nat) in 48 \<le> n \<and> n \<le> 57)"

text \<open>\<open>re.sub(r"v\d+$", "", t)\<close>.\<close>

definition strip_version :: "string \<Rightarrow> string" where
  "strip_version t =
    (let digits = takeWhile is_digit (rev t); rest = dropWhile is_digit (rev t)
     in if digits \<noteq> [] \<and> rest \<noteq> [] \<and> hd rest = CHR ''v'' then rev (tl rest) else t)"

definition normalize_arxiv_id :: "string \<Rightarrow> string option" where
  "normalize_arxiv_id i =
     (if i = [] then None else or_none (strip_version (removeprefix (py_lower (py_strip i)) ''arxiv:'')))"

definition surname_of :: "string \<Rightarrow> string" where
  "surname_of raw =
    (let author = py_strip raw in
     if CHR '','' \<in> set author then py_lower (py_strip (takeWhile (\<lambda>c. c \<noteq> CHR '','') author))
     else case rev (py_split author) of [] \<Rightarrow> [] | w # _ \<Rightarrow> py_lower (py_strip w))"

definition title_key :: "(string \<Rightarrow> string) \<Rightarrow> source_hit \<Rightarrow> string" where
  "title_key sha1 h =
     ''title:'' @ sha1 (py_lower (py_strip (sh_title h)) @ ''|'' @
       (case sh_authors h of [] \<Rightarrow> [] | a # _ \<Rightarrow> surname_of a))"

definition dedupe_key :: "(string \<Rightarrow> string) \<Rightarrow> source_hit \<Rightarrow> string" where
  "dedupe_key sha1 h =
    (case normalize_doi (sh_doi h) of
       Some doi \<Rightarrow> ''doi:'' @ doi
     | None \<Rightarrow>
        (case (if startswith (sh_source h) ''arxiv'' \<or> sh_source h = ''internal_corpus''
               then normalize_arxiv_id (sh_external_id h) else None) of
           Some a \<Rightarrow> ''arxiv:'' @ a
         | None \<Rightarrow> title_key sha1 h))"

section \<open>Merging\<close>

definition fill_list :: "'a list \<Rightarrow> 'a list \<Rightarrow> 'a list" where
  "fill_list a b = (if a = [] then b else a)"

definition fill_opt :: "'a option \<Rightarrow> 'a option \<Rightarrow> 'a option" where
  "fill_opt a b = (case a of None \<Rightarrow> b | Some x \<Rightarrow> Some x)"

definition fill_opt_list :: "'a list option \<Rightarrow> 'a list option \<Rightarrow> 'a list option" where
  "fill_opt_list a b = (case a of Some (x # xs) \<Rightarrow> a | _ \<Rightarrow> b)"

text \<open>The loop over the dumped fields; the last step keeps an embedding only the second hit has.\<close>

definition merge_hits :: "source_hit \<Rightarrow> source_hit \<Rightarrow> source_hit" where
  "merge_hits p q =
     \<lparr>sh_source = fill_list (sh_source p) (sh_source q), sh_external_id = fill_list (sh_external_id p) (sh_external_id q),
      sh_title = fill_list (sh_title p) (sh_title q), sh_abstract = fill_list (sh_abstract p) (sh_abstract q),
      sh_authors = fill_list (sh_authors p) (sh_authors q), sh_categories = fill_list (sh_categories p) (sh_categories q),
      sh_venue = fill_opt_list (sh_venue p) (sh_venue q), sh_year = fill_opt (sh_year p) (sh_year q),
      sh_doi = fill_opt_list (sh_doi p) (sh_doi q), sh_source_url = fill_opt_list (sh_source_url p) (sh_source_url q),
      sh_pdf_url = fill_opt_list (sh_pdf_url p) (sh_pdf_url q),
      sh_embedding = (if sh_embedding p = None \<and> sh_embedding q \<noteq> None then sh_embedding q
                      else fill_opt_list (sh_embedding p) (sh_embedding q)),
      sh_bm25_score = fill_opt (sh_bm25_score p) (sh_bm25_score q),
      sh_dense_score = fill_opt (sh_dense_score p) (sh_dense_score q),
      sh_first_stage_score = fill_opt (sh_first_stage_score p) (sh_first_stage_score q)\<rparr>"

definition dedupe_step :: "(source_hit \<Rightarrow> string) \<Rightarrow> source_hit \<Rightarrow> (string \<times> source_hit) list \<times> nat \<Rightarrow> (string \<times> source_hit) list \<times> nat" where
  "dedupe_step key h acc =
    (case acc of (seen, dropped) \<Rightarrow>
      (case map_of seen (key h) of
         None \<Rightarrow> (dset seen (key h) h, dropped)
       | Some existing \<Rightarrow> (dset seen (key h) (merge_hits existing h), Suc dropped)))"

definition dedupe_hits :: "(string \<Rightarrow> string) \<Rightarrow> source_hit list \<Rightarrow> source_hit list \<times> nat" where
  "dedupe_hits sha1 hits =
    (case fold (dedupe_step (dedupe_key sha1)) hits ([], 0) of (seen, dropped) \<Rightarrow> (map snd seen, dropped))"

section \<open>Fusing rankings\<close>

definition rrf_one :: "nat \<Rightarrow> string list \<Rightarrow> (string \<times> real) list \<Rightarrow> (string \<times> real) list" where
  "rrf_one k ranked fused =
     fold (\<lambda>(rank, d) f. dset f d ((case map_of f d of None \<Rightarrow> 0 | Some v \<Rightarrow> v) + 1 / (of_nat k + of_nat rank + 1)))
       (enumerate 0 ranked) fused"

definition rrf_fuse :: "nat \<Rightarrow> string list list \<Rightarrow> (string \<times> real) list" where
  "rrf_fuse k rankings = fold (rrf_one k) rankings []"

definition normalize_scores :: "(string \<times> real) list \<Rightarrow> (string \<times> real) list" where
  "normalize_scores scores =
    (case map snd scores of
       [] \<Rightarrow> []
     | v # vs \<Rightarrow>
        let lo = fold min vs v; hi = fold max vs v
        in if hi - lo < 1 / 10 ^ 12 then map (\<lambda>(d, _). (d, 1)) scores
           else map (\<lambda>(d, x). (d, (x - lo) / (hi - lo))) scores)"

text \<open>\<open>_ranked_dedupe_keys\<close>.\<close>

fun ranked_keys :: "string list \<Rightarrow> string list \<Rightarrow> string list" where
  "ranked_keys seen [] = []"
| "ranked_keys seen (k # ks) = (if k \<in> set seen then ranked_keys seen ks else k # ranked_keys (k # seen) ks)"

section \<open>Views\<close>

text \<open>\<open>ranked[:k]\<close>: a negative bound counts from the end.\<close>

definition py_take :: "int \<Rightarrow> 'a list \<Rightarrow> 'a list" where
  "py_take k xs = (if 0 \<le> k then take (nat k) xs else take (length xs - nat (- k)) xs)"

definition score_of :: "paper_card \<Rightarrow> real" where
  "score_of c = (case pc_final_score c of None \<Rightarrow> 0 | Some x \<Rightarrow> x)"

definition build_stable_view :: "paper_card list \<Rightarrow> int \<Rightarrow> paper_card list" where
  "build_stable_view cs top_k = py_take top_k (sort_key (\<lambda>c. (- score_of c, uuid_str (pc_id c))) cs)"

definition view_cosine :: "real list \<Rightarrow> real list \<Rightarrow> real" where
  "view_cosine a b =
    (if a = [] \<or> b = [] then 0
     else let dot = sum_list (map2 (*) a b); na = sqrt (sum_list (map (\<lambda>x. x * x) a));
              nb = sqrt (sum_list (map (\<lambda>y. y * y) b))
          in if na = 0 \<or> nb = 0 then 0 else dot / (na * nb))"

definition category_overlap :: "string list \<Rightarrow> string list \<Rightarrow> real" where
  "category_overlap a b =
    (if a = [] \<or> b = [] then 0
     else of_nat (card (set a \<inter> set b)) / of_nat (card (set a \<union> set b)))"

definition similarity :: "paper_card \<Rightarrow> paper_card \<Rightarrow> real" where
  "similarity a b =
    (case (pc_embedding a, pc_embedding b) of
       (Some (x # xs), Some (y # ys)) \<Rightarrow> view_cosine (x # xs) (y # ys)
     | _ \<Rightarrow> category_overlap (pc_categories a) (pc_categories b))"

definition mmr_penalty :: "paper_card list \<Rightarrow> paper_card \<Rightarrow> real" where
  "mmr_penalty selected cand =
    (case map (similarity cand) selected of [] \<Rightarrow> 0 | x # xs \<Rightarrow> fold max xs x)"

definition mmr_score :: "real \<Rightarrow> paper_card list \<Rightarrow> paper_card \<Rightarrow> real" where
  "mmr_score lam selected cand = lam * score_of cand - (1 - lam) * mmr_penalty selected cand"

text \<open>The inner loop: the first candidate no later one beats.\<close>

definition mmr_better :: "(paper_card \<Rightarrow> real) \<Rightarrow> paper_card \<Rightarrow> paper_card option \<Rightarrow> paper_card option" where
  "mmr_better f cand best = (case best of None \<Rightarrow> Some cand | Some b \<Rightarrow> if f cand > f b then Some cand else Some b)"

definition mmr_best :: "(paper_card \<Rightarrow> real) \<Rightarrow> paper_card list \<Rightarrow> paper_card option" where
  "mmr_best f pool = fold (mmr_better f) pool None"

function mmr_loop :: "real \<Rightarrow> nat \<Rightarrow> paper_card list \<Rightarrow> paper_card list \<Rightarrow> paper_card list" where
  "mmr_loop lam top_k selected pool =
    (if pool = [] \<or> \<not> length selected < top_k then selected
     else case mmr_best (mmr_score lam selected) pool of
       None \<Rightarrow> selected
     | Some b \<Rightarrow> mmr_loop lam top_k (selected @ [b]) (remove1 b pool))"
  by pat_completeness auto

termination
  by (relation "measure (\<lambda>(_, top_k, selected, _). top_k - length selected)") auto

declare mmr_loop.simps [simp del]

definition build_discovery_view :: "paper_card list \<Rightarrow> int \<Rightarrow> real \<Rightarrow> paper_card list" where
  "build_discovery_view cs top_k lam = mmr_loop lam (nat top_k) [] (sort_key (\<lambda>c. - score_of c) cs)"

section \<open>Evaluation\<close>

definition is_hit :: "string set \<Rightarrow> paper_card \<Rightarrow> bool" where
  "is_hit relevant c \<longleftrightarrow> pc_external_id c \<in> relevant \<or> pc_dedupe_key c \<in> relevant"

definition recall_at_k :: "paper_card list \<Rightarrow> string set \<Rightarrow> int \<Rightarrow> real" where
  "recall_at_k ranked relevant k =
    (if relevant = {} then 0 else of_nat (length (filter (is_hit relevant) (py_take k ranked))) / of_nat (card relevant))"

definition precision_at_k :: "paper_card list \<Rightarrow> string set \<Rightarrow> int \<Rightarrow> real" where
  "precision_at_k ranked relevant k =
    (if k \<le> 0 \<or> py_take k ranked = [] then 0
     else of_nat (length (filter (is_hit relevant) (py_take k ranked))) / of_nat (length (py_take k ranked)))"

fun mrr_from :: "nat \<Rightarrow> paper_card list \<Rightarrow> string set \<Rightarrow> real" where
  "mrr_from i [] relevant = 0"
| "mrr_from i (c # cs) relevant = (if is_hit relevant c then 1 / of_nat i else mrr_from (Suc i) cs relevant)"

definition mrr :: "paper_card list \<Rightarrow> string set \<Rightarrow> real" where
  "mrr ranked relevant = mrr_from 1 ranked relevant"


section \<open>Deduplication is grouping\<close>

lemma ranked_keys_snoc:
  "ranked_keys seen (xs @ [x]) = ranked_keys seen xs @ (if x \<in> set seen \<union> set xs then [] else [x])"
  by (induction seen xs rule: ranked_keys.induct) auto

lemma set_ranked_keys: "set (ranked_keys seen xs) = set xs - set seen"
  by (induction seen xs rule: ranked_keys.induct) auto

lemma distinct_ranked_keys: "distinct (ranked_keys seen xs)"
  by (induction seen xs rule: ranked_keys.induct) (auto simp: set_ranked_keys)

text \<open>The reference: all hits of one key, merged from the left.\<close>

definition merged_group :: "(source_hit \<Rightarrow> string) \<Rightarrow> source_hit list \<Rightarrow> string \<Rightarrow> source_hit" where
  "merged_group key hits k =
    (case filter (\<lambda>h. key h = k) hits of h # hs \<Rightarrow> fold (\<lambda>q p. merge_hits p q) hs h)"

lemma map_of_pairs: "map_of (map (\<lambda>k. (k, f k)) ks) k = (if k \<in> set ks then Some (f k) else None)"
  by (induction ks) auto

lemma dset_pairs:
  "distinct ks \<Longrightarrow> dset (map (\<lambda>k. (k, f k)) ks) k v =
     (if k \<in> set ks then map (\<lambda>k'. (k', if k' = k then v else f k')) ks else map (\<lambda>k. (k, f k)) ks @ [(k, v)])"
  by (induction ks) auto

lemma merged_group_snoc:
  "merged_group key (hits @ [h]) k =
     (if key h \<noteq> k then merged_group key hits k
      else if k \<in> key ` set hits then merge_hits (merged_group key hits k) h else h)"
proof (cases "filter (\<lambda>h. key h = k) hits")
  case Nil
  then have "k \<notin> key ` set hits" by (auto simp: filter_empty_conv)
  then show ?thesis by (simp add: merged_group_def Nil)
next
  case (Cons g gs)
  then have "g \<in> set (filter (\<lambda>h. key h = k) hits)" by simp
  then have "k \<in> key ` set hits" by auto
  then show ?thesis by (simp add: merged_group_def Cons)
qed

lemma dedupe_fold:
  "fold (dedupe_step key) hits ([], 0) =
     (map (\<lambda>k. (k, merged_group key hits k)) (ranked_keys [] (map key hits)),
      length hits - length (ranked_keys [] (map key hits))) \<and>
   length (ranked_keys [] (map key hits)) \<le> length hits"
proof (induction hits rule: rev_induct)
  case Nil
  then show ?case by simp
next
  case (snoc h hits)
  let ?ks = "ranked_keys [] (map key hits)"
  have set_ks: "set ?ks = key ` set hits" by (simp add: set_ranked_keys)
  have d: "distinct ?ks" by (rule distinct_ranked_keys)
  have ih: "fold (dedupe_step key) hits ([], 0) = (map (\<lambda>k. (k, merged_group key hits k)) ?ks, length hits - length ?ks)"
    and le: "length ?ks \<le> length hits" using snoc by auto
  show ?case
  proof (cases "key h \<in> key ` set hits")
    case True
    have "fold (dedupe_step key) (hits @ [h]) ([], 0) =
        (map (\<lambda>k. (k, if k = key h then merge_hits (merged_group key hits (key h)) h else merged_group key hits k)) ?ks,
         Suc (length hits - length ?ks))"
      using True by (simp add: ih dedupe_step_def map_of_pairs set_ks dset_pairs [OF d])
    moreover have "map (\<lambda>k. (k, if k = key h then merge_hits (merged_group key hits (key h)) h else merged_group key hits k)) ?ks =
        map (\<lambda>k. (k, merged_group key (hits @ [h]) k)) ?ks"
      using True by (auto simp: merged_group_snoc)
    ultimately show ?thesis using True le by (simp add: ranked_keys_snoc Suc_diff_le)
  next
    case False
    have "fold (dedupe_step key) (hits @ [h]) ([], 0) =
        (map (\<lambda>k. (k, merged_group key hits k)) ?ks @ [(key h, h)], length hits - length ?ks)"
      using False by (simp add: ih dedupe_step_def map_of_pairs set_ks dset_pairs [OF d])
    moreover have "map (\<lambda>k. (k, merged_group key hits k)) ?ks = map (\<lambda>k. (k, merged_group key (hits @ [h]) k)) ?ks"
      using False set_ks by (auto simp: merged_group_snoc)
    moreover have "merged_group key (hits @ [h]) (key h) = h" using False by (simp add: merged_group_snoc)
    ultimately show ?thesis using False le by (simp add: ranked_keys_snoc image_iff)
  qed
qed

text \<open>
  Deduplication keeps exactly one hit per dedupe key, in the order of first appearance: the hits of the key
  merged from the left, so the first hit of a key (the embedded copy of the internal corpus, which goes first) wins
  every field it has; the others are counted as dropped.
\<close>

theorem dedupe_groups_by_key:
  "dedupe_hits sha1 hits =
     (map (merged_group (dedupe_key sha1) hits) (ranked_keys [] (map (dedupe_key sha1) hits)),
      length hits - length (ranked_keys [] (map (dedupe_key sha1) hits)))"
  using dedupe_fold [of "dedupe_key sha1" hits] by (simp add: dedupe_hits_def comp_def)

section \<open>Reciprocal rank fusion\<close>

definition rrf_term :: "nat \<Rightarrow> string \<Rightarrow> string list \<Rightarrow> real" where
  "rrf_term k d ranked =
     (if d \<in> set ranked then 1 / (of_nat k + of_nat (length (takeWhile (\<lambda>x. x \<noteq> d) ranked)) + 1) else 0)"

definition looked_up :: "(string \<times> real) list \<Rightarrow> string \<Rightarrow> real" where
  "looked_up f d = (case map_of f d of None \<Rightarrow> 0 | Some v \<Rightarrow> v)"

lemma looked_up_dset: "looked_up (dset f x v) d = (if d = x then v else looked_up f d)"
  by (simp add: looked_up_def map_of_dset)

lemma rrf_fold:
  assumes "distinct ranked"
  shows "looked_up (fold (\<lambda>(rank, d) f. dset f d ((case map_of f d of None \<Rightarrow> 0 | Some v \<Rightarrow> v) + 1 / (of_nat k + of_nat rank + 1)))
       (enumerate n ranked) f) d =
     looked_up f d + (if d \<in> set ranked then 1 / (of_nat k + of_nat (n + length (takeWhile (\<lambda>x. x \<noteq> d) ranked)) + 1) else 0)"
  using assms
proof (induction ranked arbitrary: n f)
  case (Cons r ranked)
  let ?f = "dset f r (looked_up f r + 1 / (of_nat k + of_nat n + 1))"
  have "looked_up (fold (\<lambda>(rank, d) f. dset f d ((case map_of f d of None \<Rightarrow> 0 | Some v \<Rightarrow> v) + 1 / (of_nat k + of_nat rank + 1)))
       (enumerate n (r # ranked)) f) d =
     looked_up ?f d + (if d \<in> set ranked then 1 / (of_nat k + of_nat (Suc n + length (takeWhile (\<lambda>x. x \<noteq> d) ranked)) + 1) else 0)"
    using Cons by (simp add: looked_up_def)
  then show ?case using Cons.prems by (auto simp: looked_up_dset)
qed simp

lemma rrf_one_lookup: "distinct ranked \<Longrightarrow> looked_up (rrf_one k ranked f) d = looked_up f d + rrf_term k d ranked"
  using rrf_fold [of ranked k 0 f d] by (simp add: rrf_one_def rrf_term_def)

lemma rrf_fold_rankings:
  "list_all distinct rankings \<Longrightarrow>
   looked_up (fold (rrf_one k) rankings f) d = looked_up f d + sum_list (map (rrf_term k d) rankings)"
proof (induction rankings arbitrary: f)
  case (Cons r rankings)
  then show ?case using rrf_one_lookup [of r k f d] by simp
qed simp

lemma keys_rrf_one: "fst ` set (rrf_one k ranked f) = fst ` set f \<union> set ranked"
proof -
  have "fst ` set (fold (\<lambda>(rank, d) f. dset f d ((case map_of f d of None \<Rightarrow> 0 | Some v \<Rightarrow> v) + 1 / (of_nat k + of_nat rank + 1)))
       (enumerate n ranked) f) = fst ` set f \<union> set ranked" for n
    by (induction ranked arbitrary: n f) (auto simp: keys_dset)
  then show ?thesis by (simp add: rrf_one_def)
qed

lemma keys_rrf_fold: "fst ` set (fold (rrf_one k) rankings f) = fst ` set f \<union> \<Union> (set ` set rankings)"
  by (induction rankings arbitrary: f) (auto simp: keys_rrf_one)

lemma keys_rrf_fuse: "fst ` set (rrf_fuse k rankings) = \<Union> (set ` set rankings)"
  by (simp add: rrf_fuse_def keys_rrf_fold)

text \<open>The fused score of a document is the sum of its reciprocal ranks over the rankings that list it.\<close>

theorem fusion_sums_reciprocal_ranks:
  assumes "list_all distinct rankings"
  shows "map_of (rrf_fuse k rankings) d =
    (if d \<in> \<Union> (set ` set rankings) then Some (sum_list (map (rrf_term k d) rankings)) else None)"
proof (cases "d \<in> \<Union> (set ` set rankings)")
  case True
  then have "map_of (rrf_fuse k rankings) d \<noteq> None" by (simp add: map_of_eq_None_iff keys_rrf_fuse del: not_None_eq)
  then obtain v where v: "map_of (rrf_fuse k rankings) d = Some v" by blast
  have "looked_up (rrf_fuse k rankings) d = sum_list (map (rrf_term k d) rankings)"
    using rrf_fold_rankings [OF assms, of k "[]" d] by (simp add: rrf_fuse_def looked_up_def)
  then show ?thesis using v True by (simp add: looked_up_def)
next
  case False
  then have "map_of (rrf_fuse k rankings) d = None" by (simp only: map_of_eq_None_iff keys_rrf_fuse not_False_eq_True)
  then show ?thesis using False by simp
qed

theorem fusion_sums_reciprocal_ranks_witness:
  "map_of (rrf_fuse 60 [[''a'', ''b''], [''b'']]) ''b'' = Some (1 / 62 + 1 / 61)"
  using fusion_sums_reciprocal_ranks [of "[[''a'', ''b''], [''b'']]" 60 "''b''"] by (simp add: rrf_term_def)


section \<open>Normalized scores\<close>

lemma fold_min_le: "fold min vs v \<le> (v::real) \<and> (\<forall>x\<in>set vs. fold min vs v \<le> x)"
proof (induction vs arbitrary: v)
  case (Cons a vs)
  show ?case using Cons [of "min a v"] by auto
qed simp

lemma le_fold_max: "(v::real) \<le> fold max vs v \<and> (\<forall>x\<in>set vs. x \<le> fold max vs v)"
proof (induction vs arbitrary: v)
  case (Cons a vs)
  show ?case using Cons [of "max a v"] by auto
qed simp

text \<open>
  Normalization keeps the documents, maps every score into the unit interval and never inverts two scores; when
  all scores agree it gives every document the score 1 (the docstring says the input is returned unchanged).
\<close>

theorem normalized_scores_ordered:
  "map fst (normalize_scores f) = map fst f \<and>
   (\<forall>i<length f. 0 \<le> snd (normalize_scores f ! i) \<and> snd (normalize_scores f ! i) \<le> 1 \<and>
      (\<forall>j<length f. snd (f ! i) \<le> snd (f ! j) \<longrightarrow> snd (normalize_scores f ! i) \<le> snd (normalize_scores f ! j)))"
proof (cases "map snd f")
  case Nil
  then show ?thesis by (simp add: normalize_scores_def)
next
  case (Cons v vs)
  define lo where "lo = fold min vs v"
  define hi where "hi = fold max vs v"
  have bounds: "lo \<le> snd (f ! i) \<and> snd (f ! i) \<le> hi" if "i < length f" for i
  proof -
    have "snd (f ! i) \<in> set (map snd f)" using that by simp
    then show ?thesis unfolding Cons lo_def hi_def using fold_min_le [of vs v] le_fold_max [of v vs] by auto
  qed
  have cut: "(0::real) < 1 / 10 ^ 12" by simp
  show ?thesis
  proof (cases "hi - lo < 1 / 10 ^ 12")
    case True
    then have n: "normalize_scores f = map (\<lambda>(d, _). (d, 1)) f" by (simp add: normalize_scores_def Cons lo_def hi_def Let_def)
    show ?thesis by (simp add: n case_prod_beta comp_def)
  next
    case False
    then have pos: "0 < hi - lo" using cut by linarith
    have n: "normalize_scores f = map (\<lambda>(d, x). (d, (x - lo) / (hi - lo))) f"
      using False by (simp add: normalize_scores_def Cons lo_def hi_def Let_def)
    show ?thesis using bounds pos
      by (simp add: n case_prod_beta comp_def divide_right_mono)
  qed
qed

theorem normalized_scores_ordered_witness:
  "normalize_scores [(''a'', 1), (''b'', 3), (''c'', 2)] = [(''a'', 0), (''b'', 1), (''c'', 1 / 2)] \<and>
   snd (normalize_scores [(''a'', 1), (''b'', 3), (''c'', 2)] ! 2) \<le> snd (normalize_scores [(''a'', 1), (''b'', 3), (''c'', 2)] ! 1)"
  using normalized_scores_ordered [of "[(''a'', 1), (''b'', 3), (''c'', 2)]"]
  by (simp add: normalize_scores_def Let_def numeral_2_eq_2 All_less_Suc)

section \<open>The discovery view is greedy\<close>

lemma mmr_best_from:
  "\<exists>b. fold (mmr_better f) pool (Some a) = Some b \<and> b \<in> set (a # pool) \<and> (\<forall>c\<in>set (a # pool). f c \<le> f b) \<and>
     ((\<forall>c\<in>set pool. f c \<le> f a) \<longrightarrow> b = a)"
proof (induction pool arbitrary: a)
  case (Cons x pool)
  define y where "y = (if f x > f a then x else a)"
  have step: "fold (mmr_better f) (x # pool) (Some a) = fold (mmr_better f) pool (Some y)"
    by (simp add: mmr_better_def y_def)
  obtain b where b: "fold (mmr_better f) pool (Some y) = Some b" "b \<in> set (y # pool)" "\<forall>c\<in>set (y # pool). f c \<le> f b"
    "(\<forall>c\<in>set pool. f c \<le> f y) \<longrightarrow> b = y" using Cons by blast
  have "f a \<le> f y" "f x \<le> f y" by (auto simp: y_def)
  moreover have "(\<forall>c\<in>set (x # pool). f c \<le> f a) \<longrightarrow> y = a" by (auto simp: y_def)
  ultimately show ?case unfolding step using b by (auto simp: y_def split: if_splits)
qed simp

lemma mmr_best_Cons:
  obtains b where "mmr_best f (a # pool) = Some b" "b \<in> set (a # pool)" "\<And>c. c \<in> set (a # pool) \<Longrightarrow> f c \<le> f b"
    "(\<forall>c\<in>set pool. f c \<le> f a) \<Longrightarrow> b = a"
  using mmr_best_from [of f pool a] that by (auto simp: mmr_best_def mmr_better_def)

text \<open>One pick of the specification: a candidate outside the picks so far that no other candidate beats.\<close>

definition greedy_pick :: "real \<Rightarrow> paper_card set \<Rightarrow> paper_card list \<Rightarrow> paper_card \<Rightarrow> bool" where
  "greedy_pick lam all picked c \<longleftrightarrow> c \<in> all - set picked \<and> (\<forall>d\<in>all - set picked. mmr_score lam picked d \<le> mmr_score lam picked c)"

lemma mmr_loop_spec:
  assumes "distinct (selected @ pool)" "set selected \<union> set pool = all"
  shows "\<exists>picks. mmr_loop lam top_k selected pool = selected @ picks \<and> distinct (selected @ picks) \<and> set picks \<subseteq> set pool \<and>
    length picks = min (top_k - length selected) (length pool) \<and>
    (\<forall>i<length picks. greedy_pick lam all (selected @ take i picks) (picks ! i))"
  using assms
proof (induction lam top_k selected pool rule: mmr_loop.induct)
  case (1 lam top_k selected pool)
  show ?case
  proof (cases "pool = [] \<or> \<not> length selected < top_k")
    case True
    then have "mmr_loop lam top_k selected pool = selected" by (subst mmr_loop.simps) simp
    then show ?thesis using 1(2) True by (intro exI [of _ "[]"]) auto
  next
    case False
    then obtain a rest where pool: "pool = a # rest" by (cases pool) auto
    obtain b where b: "mmr_best (mmr_score lam selected) pool = Some b" "b \<in> set pool"
        "\<And>c. c \<in> set pool \<Longrightarrow> mmr_score lam selected c \<le> mmr_score lam selected b"
      unfolding pool using mmr_best_Cons [of "mmr_score lam selected" a rest] by blast
    have step: "mmr_loop lam top_k selected pool = mmr_loop lam top_k (selected @ [b]) (remove1 b pool)"
      using False b(1) by (subst mmr_loop.simps) simp
    have dist: "distinct ((selected @ [b]) @ remove1 b pool)" using 1(2) b(2) by auto
    have all: "set (selected @ [b]) \<union> set (remove1 b pool) = all" using 1(2,3) b(2) by auto
    obtain picks where p: "mmr_loop lam top_k (selected @ [b]) (remove1 b pool) = (selected @ [b]) @ picks"
        "distinct ((selected @ [b]) @ picks)" "set picks \<subseteq> set (remove1 b pool)"
        "length picks = min (top_k - length (selected @ [b])) (length (remove1 b pool))"
        "\<forall>i<length picks. greedy_pick lam all ((selected @ [b]) @ take i picks) (picks ! i)"
      using 1(1) [OF False b(1) dist all] by blast
    have "greedy_pick lam all selected b"
      using b(2,3) 1(2,3) by (auto simp: greedy_pick_def)
    then have greedy: "\<forall>i<length (b # picks). greedy_pick lam all (selected @ take i (b # picks)) ((b # picks) ! i)"
      using p(5) by (auto simp: less_Suc_eq_0_disj)
    have len: "length (b # picks) = min (top_k - length selected) (length pool)"
    proof -
      have n: "length (remove1 b pool) = length pool - 1" "0 < length pool" "length selected < top_k"
        using b(2) False by (auto simp: length_remove1)
      have "length picks = min (top_k - (length selected + 1)) (length pool - 1)" using p(4) unfolding n(1) by simp
      then show ?thesis using n(2,3) by (simp only: list.size)
    qed
    have sub: "set (b # picks) \<subseteq> set pool" using p(3) b(2) set_remove1_subset [of b pool] by auto
    show ?thesis
      by (rule exI [of _ "b # picks"]) (use step p(1,2) greedy len sub in simp)
  qed
qed

text \<open>
  The discovery view is the maximal-marginal-relevance selection: as many different cards as asked for and there
  are, each of them one whose relevance less its similarity to the picks before it no remaining card exceeds.
\<close>

theorem discovery_view_is_greedy:
  assumes "distinct cs"
  shows "distinct (build_discovery_view cs top_k lam) \<and> length (build_discovery_view cs top_k lam) = min (nat top_k) (length cs) \<and>
    (\<forall>i<length (build_discovery_view cs top_k lam).
       greedy_pick lam (set cs) (take i (build_discovery_view cs top_k lam)) (build_discovery_view cs top_k lam ! i))"
  using mmr_loop_spec [of "[]" "sort_key (\<lambda>c. - score_of c) cs" "set cs" lam "nat top_k"] assms
  by (auto simp: build_discovery_view_def)

lemma mmr_loop_relevance_only:
  "sorted (map (\<lambda>c. - score_of c) pool) \<Longrightarrow>
   mmr_loop 1 top_k selected pool = selected @ take (top_k - length selected) pool"
proof (induction pool arbitrary: selected)
  case Nil
  then show ?case by (subst mmr_loop.simps) simp
next
  case (Cons a pool)
  show ?case
  proof (cases "length selected < top_k")
    case True
    obtain b where b: "mmr_best (mmr_score 1 selected) (a # pool) = Some b"
        "(\<forall>c\<in>set pool. mmr_score 1 selected c \<le> mmr_score 1 selected a) \<Longrightarrow> b = a"
      using mmr_best_Cons [of "mmr_score 1 selected" a pool] by blast
    have "b = a" by (rule b(2)) (use Cons.prems in \<open>auto simp: mmr_score_def\<close>)
    then have "mmr_loop 1 top_k selected (a # pool) = mmr_loop 1 top_k (selected @ [a]) pool"
      using True b(1) by (subst mmr_loop.simps) simp
    also have "\<dots> = (selected @ [a]) @ take (top_k - length (selected @ [a])) pool"
      by (rule Cons.IH) (use Cons.prems in simp)
    finally show ?thesis using True by (simp add: take_Cons')
  qed (subst mmr_loop.simps, simp)
qed

lemma sort_key_inj_eq:
  assumes "inj_on f (set xs)" and agree: "\<And>x y. x \<in> set xs \<Longrightarrow> y \<in> set xs \<Longrightarrow> f x < f y \<Longrightarrow> g x < g y" and "distinct xs"
  shows "sort_key f xs = sort_key (g :: _ \<Rightarrow> 'b::linorder) xs"
proof (rule map_sorted_distinct_set_unique [where f = g])
  have mono: "g x \<le> g y" if "x \<in> set xs" "y \<in> set xs" "f x \<le> f y" for x y
  proof (cases "f x = f y")
    case True
    then show ?thesis using that assms(1) by (auto dest: inj_onD)
  next
    case False
    then show ?thesis using that agree [of x y] by (simp add: less_le)
  qed
  have "sorted_wrt (\<lambda>x y. f x \<le> f y) (sort_key f xs)" using sorted_sort_key [of f xs] by (simp only: sorted_map)
  then have "sorted_wrt (\<lambda>x y. g x \<le> g y) (sort_key f xs)"
    by (rule sorted_wrt_mono_rel [rotated]) (simp add: mono)
  then show "sorted (map g (sort_key f xs))" by (simp only: sorted_map)
  have inj: "inj_on g (set xs)"
  proof (rule inj_onI)
    fix x y assume xy: "x \<in> set xs" "y \<in> set xs" "g x = g y"
    then have "\<not> f x < f y" "\<not> f y < f x" using agree [of x y] agree [of y x] by auto
    then show "x = y" using xy assms(1) by (simp add: inj_onD)
  qed
  then show "distinct (map g (sort_key f xs))" "distinct (map g (sort_key g xs))"
    using assms(3) by (simp_all add: distinct_map)
  show "inj_on g (set (sort_key f xs) \<union> set (sort_key g xs))" using inj by simp
qed simp_all

text \<open>
  With full weight on relevance the discovery view is the stable view, as its docstring claims, when no two cards
  have the same score; on equal scores it follows the order of the query instead of the identifiers.
\<close>

theorem relevance_only_view_is_stable:
  assumes "distinct cs" and "inj_on score_of (set cs)" and "0 \<le> top_k"
  shows "build_discovery_view cs top_k 1 = build_stable_view cs top_k"
proof -
  have "sort_key (\<lambda>c. - score_of c) cs = sort_key (\<lambda>c. (- score_of c, uuid_str (pc_id c))) cs"
    by (rule sort_key_inj_eq) (use assms in \<open>auto simp: inj_on_def\<close>)
  moreover have "mmr_loop 1 (nat top_k) [] (sort_key (\<lambda>c. - score_of c) cs) = take (nat top_k) (sort_key (\<lambda>c. - score_of c) cs)"
    using mmr_loop_relevance_only [of "sort_key (\<lambda>c. - score_of c) cs" "nat top_k" "[]"] sorted_sort_key by simp
  ultimately show ?thesis using assms(3) by (simp add: build_discovery_view_def build_stable_view_def py_take_def)
qed


definition demo_paper :: "uuid \<Rightarrow> real \<Rightarrow> string \<Rightarrow> paper_card" where
  "demo_paper i score cat = \<lparr>pc_id = i, pc_session_id = 20, pc_charter_id = 3, pc_source = ''arxiv_live'', pc_external_id = ''2101.1'',
     pc_dedupe_key = ''k'' @ nat_digits i, pc_title = ''t'', pc_abstract = [], pc_authors = [], pc_categories = [cat], pc_venue = None,
     pc_year = None, pc_doi = None, pc_source_url = None, pc_pdf_url = None, pc_embedding = None, pc_bm25_score = None,
     pc_dense_score = None, pc_first_stage_score = None, pc_rerank_score = None, pc_final_score = Some score,
     pc_view_membership = None, pc_triage_status = ''discovered'', pc_triage_reason = None, pc_metadata_analysis = JNull,
     pc_analysis_status = ''not_analyzed'', pc_created_at = 0, pc_updated_at = 0\<rparr>"

lemma demo_papers_distinct: "distinct [demo_paper 1 9 ''a'', demo_paper 2 8 ''a'', demo_paper 3 7 ''b'']"
  by (simp add: demo_paper_def)

text \<open>With little weight on relevance the second pick is the card of another category, not the better scored one.\<close>

theorem discovery_view_is_greedy_witness:
  "build_discovery_view [demo_paper 1 9 ''a'', demo_paper 2 8 ''a'', demo_paper 3 7 ''b''] 2 (1 / 4) =
     [demo_paper 1 9 ''a'', demo_paper 3 7 ''b''] \<and>
   greedy_pick (1 / 4) (set [demo_paper 1 9 ''a'', demo_paper 2 8 ''a'', demo_paper 3 7 ''b''])
     [demo_paper 1 9 ''a''] (demo_paper 3 7 ''b'')"
proof -
  let ?cs = "[demo_paper 1 9 ''a'', demo_paper 2 8 ''a'', demo_paper 3 7 ''b'']"
  have sc: "score_of (demo_paper i x c) = x" "pc_categories (demo_paper i x c) = [c]" "pc_embedding (demo_paper i x c) = None" for i x c
    by (simp_all add: score_of_def demo_paper_def)
  have ne: "demo_paper 1 9 ''a'' \<noteq> demo_paper 2 8 ''a''" "demo_paper 1 9 ''a'' \<noteq> demo_paper 3 7 ''b''"
    "demo_paper 2 8 ''a'' \<noteq> demo_paper 3 7 ''b''" using demo_papers_distinct by auto
  have v: "build_discovery_view ?cs 2 (1 / 4) = [demo_paper 1 9 ''a'', demo_paper 3 7 ''b'']"
    using ne by (simp add: build_discovery_view_def sc mmr_loop.simps mmr_best_def mmr_better_def mmr_score_def mmr_penalty_def
        similarity_def category_overlap_def numeral_2_eq_2)
  have "greedy_pick (1 / 4) (set ?cs) (take 1 (build_discovery_view ?cs 2 (1 / 4))) (build_discovery_view ?cs 2 (1 / 4) ! 1)"
    using discovery_view_is_greedy [OF demo_papers_distinct, of 2 "1 / 4"] by (simp add: v)
  then show ?thesis using v by simp
qed

theorem relevance_only_view_is_stable_witness:
  "build_discovery_view [demo_paper 1 7 ''a'', demo_paper 2 8 ''a''] 1 1 = build_stable_view [demo_paper 1 7 ''a'', demo_paper 2 8 ''a''] 1"
  by (rule relevance_only_view_is_stable) (simp_all add: demo_paper_def score_of_def)

section \<open>Evaluation metrics\<close>

lemma mrr_from_bounds: "0 < i \<Longrightarrow> 0 \<le> mrr_from i cs rel \<and> mrr_from i cs rel \<le> 1 / of_nat i"
proof (induction cs arbitrary: i)
  case (Cons c cs)
  have "mrr_from (Suc i) cs rel \<le> 1 / of_nat (Suc i)" using Cons.IH [of "Suc i"] by simp
  also have "\<dots> \<le> 1 / of_nat i" using Cons.prems by (simp add: frac_le)
  finally show ?case using Cons by simp
qed simp

text \<open>
  Precision and mean reciprocal rank lie in the unit interval, and the reciprocal rank is 1 exactly when the
  first card is relevant.
\<close>

theorem metrics_bounded:
  "0 \<le> precision_at_k ranked rel k \<and> precision_at_k ranked rel k \<le> 1 \<and> 0 \<le> mrr ranked rel \<and> mrr ranked rel \<le> 1 \<and>
   (mrr ranked rel = 1) = (case ranked of [] \<Rightarrow> False | c # _ \<Rightarrow> is_hit rel c)"
proof -
  have p: "0 \<le> precision_at_k ranked rel k \<and> precision_at_k ranked rel k \<le> 1"
    by (simp add: precision_at_k_def divide_le_eq)
  have m: "0 \<le> mrr ranked rel \<and> mrr ranked rel \<le> 1" using mrr_from_bounds [of 1 ranked rel] by (simp add: mrr_def)
  have "(mrr ranked rel = 1) = (case ranked of [] \<Rightarrow> False | c # _ \<Rightarrow> is_hit rel c)"
  proof (cases ranked)
    case (Cons c cs)
    have "mrr_from (Suc 1) cs rel \<le> 1 / of_nat (Suc 1)" using mrr_from_bounds [of "Suc 1" cs rel] by simp
    then have "mrr_from (Suc (Suc 0)) cs rel \<noteq> 1" by simp
    then show ?thesis by (simp add: mrr_def Cons)
  qed (simp add: mrr_def)
  with p m show ?thesis by blast
qed

text \<open>
  A paper one source reports with its DOI and the other without keeps two cards, since the DOI takes precedence over
  the identifier both share; recall then counts the paper twice and can reach 2.
\<close>

theorem doi_in_one_source_splits_paper:
  assumes p: "normalize_doi (sh_doi p) = Some d" and q: "normalize_doi (sh_doi q) = None"
    and c: "pc_external_id c = sh_external_id p" "pc_external_id c' = sh_external_id p"
  shows "dedupe_hits sha1 [p, q] = ([p, q], 0) \<and> recall_at_k [c, c'] {sh_external_id p} 10 = 2"
proof -
  have kp: "dedupe_key sha1 p = ''doi:'' @ d" by (simp add: dedupe_key_def p)
  have kq: "take 4 (dedupe_key sha1 q) \<noteq> ''doi:''"
    by (auto simp: dedupe_key_def q title_key_def split: option.splits)
  have "dedupe_key sha1 q \<noteq> dedupe_key sha1 p"
  proof
    assume "dedupe_key sha1 q = dedupe_key sha1 p"
    then show False using kq by (simp add: kp)
  qed
  then have "dedupe_hits sha1 [p, q] = ([p, q], 0)"
    by (simp add: dedupe_hits_def dedupe_step_def)
  moreover have "recall_at_k [c, c'] {sh_external_id p} 10 = 2"
    by (simp add: recall_at_k_def py_take_def is_hit_def c)
  ultimately show ?thesis by blast
qed


definition demo_hit :: "string option \<Rightarrow> source_hit" where
  "demo_hit doi = \<lparr>sh_source = ''arxiv_live'', sh_external_id = ''2101.1'', sh_title = ''t'', sh_abstract = [], sh_authors = [],
     sh_categories = [], sh_venue = None, sh_year = None, sh_doi = doi, sh_source_url = None, sh_pdf_url = None,
     sh_embedding = None, sh_bm25_score = None, sh_dense_score = None, sh_first_stage_score = None\<rparr>"

theorem doi_in_one_source_splits_paper_witness:
  "dedupe_hits (\<lambda>t. t) [demo_hit (Some ''10.1''), demo_hit None] = ([demo_hit (Some ''10.1''), demo_hit None], 0) \<and>
   recall_at_k [demo_paper 1 1 ''a'', demo_paper 2 1 ''a''] {''2101.1''} 10 = 2"
proof -
  have n: "normalize_doi (sh_doi (demo_hit (Some ''10.1''))) = Some ''10.1''" "normalize_doi (sh_doi (demo_hit None)) = None"
    by (simp_all add: demo_hit_def normalize_doi_def strip_doi_prefix_def DOI_PREFIXES_def py_strip_def is_space_def py_lower_def
        char_lower_def startswith_def or_none_def)
  have e: "sh_external_id (demo_hit x) = ''2101.1''" "pc_external_id (demo_paper i sc cat) = ''2101.1''" for x i sc cat
    by (simp_all add: demo_hit_def demo_paper_def)
  show ?thesis
    using doi_in_one_source_splits_paper [OF n, of "demo_paper 1 1 ''a''" "demo_paper 2 1 ''a''" "\<lambda>t. t"] by (simp add: e)
qed

end
