(* ===== verification/Patterns.thy ===== *)
theory Patterns
  imports Autonomy_Core
begin

text \<open>
  Canonical patterns, the cross-charter memory under \<open>libs/patterns\<close>: dedupe keys
  (\<open>content_key.py\<close>), extraction and aggregation (\<open>consolidation.py\<close>), upserts (\<open>upsert.py\<close>),
  staleness decay (\<open>decay.py\<close>, \<open>operators/decay.py\<close>), retrieval (\<open>retrieval.py\<close>), injection into
  operators (\<open>injection.py\<close>) and the consolidation operator (\<open>operators/consolidate.py\<close>).

  Titles and summaries, which are text for people and for the embedding service, are not
  modelled; the service is the parameter \<open>embedder\<close> of the consolidation operator and the vector given
  to retrieval.  SHA-256 on text is the parameter \<open>sha\<close>.  A Python set of charter identifiers is
  the list of its elements in first-seen order.
\<close>

section \<open>Content keys\<close>

definition normalize_text :: "string \<Rightarrow> string" where
  "normalize_text v = join_with '' '' (py_split (map char_lower v))"

definition hash_parts :: "(string \<Rightarrow> string) \<Rightarrow> string list \<Rightarrow> string" where
  "hash_parts sha parts = sha (join_with ''|'' parts)"

definition failure_key :: "(string \<Rightarrow> string) \<Rightarrow> string \<Rightarrow> string \<Rightarrow> string" where
  "failure_key sha failure_class root_cause =
     hash_parts sha [normalize_text failure_class, normalize_text root_cause]"

definition remediation_key :: "(string \<Rightarrow> string) \<Rightarrow> string \<Rightarrow> string \<Rightarrow> string \<Rightarrow> string" where
  "remediation_key sha failure_class strategy outcome =
     hash_parts sha [normalize_text failure_class, normalize_text strategy, normalize_text outcome]"

definition signal_trajectory_key :: "(string \<Rightarrow> string) \<Rightarrow> string \<Rightarrow> string \<Rightarrow> string \<Rightarrow> string" where
  "signal_trajectory_key sha method_family metric_name direction_bucket =
     hash_parts sha [normalize_text method_family, normalize_text metric_name, normalize_text direction_bucket]"

definition successful_line_key :: "(string \<Rightarrow> string) \<Rightarrow> string \<Rightarrow> string \<Rightarrow> string \<Rightarrow> string" where
  "successful_line_key sha method_family metric_name problem_domain =
     hash_parts sha [normalize_text method_family, normalize_text metric_name, normalize_text problem_domain]"

definition retrieval_heuristic_key :: "pylib \<Rightarrow> (string \<Rightarrow> string) \<Rightarrow> string \<Rightarrow> dict \<Rightarrow> string" where
  "retrieval_heuristic_key py sha heuristic_kind parameters =
     hash_parts sha [normalize_text heuristic_kind, json_text py (canon (JObj parameters))]"

section \<open>Candidates\<close>

record pattern_candidate =
  pc_pattern_type :: string
  pc_content_key :: string
  pc_structured_body :: dict
  pc_charter_id :: uuid
  pc_cycle_id :: uuid
  pc_artifact_type :: string
  pc_artifact_id :: uuid
  pc_observed_at :: time
  pc_contribution :: "dict option"

record aggregated_pattern =
  ag_pattern_type :: string
  ag_content_key :: string
  ag_structured_body :: dict
  ag_evidence_count :: int
  ag_charter_ids :: "uuid list"
  ag_first_observed_at :: time
  ag_last_observed_at :: time
  ag_candidates :: "pattern_candidate list"

definition cross_charter :: "aggregated_pattern \<Rightarrow> bool" where
  "cross_charter agg \<longleftrightarrow> length (ag_charter_ids agg) > 1"

definition normalize_root_cause :: "string \<Rightarrow> string" where
  "normalize_root_cause t =
    (if t = [] then ''unspecified'' else take 200 (map char_lower (join_with '' '' (py_split t))))"

abbreviation opt_str :: "string option \<Rightarrow> json" where
  "opt_str x \<equiv> (case x of None \<Rightarrow> JNull | Some s \<Rightarrow> JStr s)"

definition extract_failure :: "(string \<Rightarrow> string) \<Rightarrow> failure_postmortem \<Rightarrow> pattern_candidate res" where
  "extract_failure sha pm =
    res_bind (json_len (or_list (pm_lessons pm))) (\<lambda>lesson_count.
     let root_cause = normalize_root_cause (pm_root_cause pm) in
     Inr \<lparr>pc_pattern_type = ''failure'',
      pc_content_key = failure_key sha (pm_failure_class pm) root_cause,
      pc_structured_body =
        [(''failure_class'', JStr (pm_failure_class pm)), (''root_cause_normalized'', JStr root_cause),
         (''contributing_factors'', or_list (pm_contributing_factors pm)),
         (''lesson_count'', JInt (int lesson_count))],
      pc_charter_id = pm_charter_id pm, pc_cycle_id = pm_cycle_id pm,
      pc_artifact_type = ''postmortem'', pc_artifact_id = pm_id pm, pc_observed_at = pm_created_at pm,
      pc_contribution = Some [(''next_step_recommendation'', opt_str (pm_next_step_recommendation pm))]\<rparr>)"

definition extract_remediation :: "(string \<Rightarrow> string) \<Rightarrow> remediation_action \<Rightarrow> pattern_candidate" where
  "extract_remediation sha ra =
     \<lparr>pc_pattern_type = ''remediation'',
      pc_content_key = remediation_key sha (ra_failure_class ra) (ra_strategy ra) (ra_outcome ra),
      pc_structured_body =
        [(''failure_class'', JStr (ra_failure_class ra)), (''strategy'', JStr (ra_strategy ra)),
         (''strategy_tier'', JStr (ra_strategy_tier ra)), (''outcome'', JStr (ra_outcome ra))],
      pc_charter_id = ra_charter_id ra, pc_cycle_id = ra_cycle_id ra,
      pc_artifact_type = ''remediation_action'', pc_artifact_id = ra_id ra,
      pc_observed_at = ra_created_at ra,
      pc_contribution = Some [(''attempt_number'', JInt (int (ra_attempt_number ra))),
                              (''action_detail'', ra_action_detail ra)]\<rparr>"

definition signal_direction_bucket :: "directional_signal \<Rightarrow> string" where
  "signal_direction_bucket sg = ds_metric_direction sg @ ''_'' @ ds_signal sg"

definition method_family_from_hypothesis :: "hypothesis_card option \<Rightarrow> string" where
  "method_family_from_hypothesis h =
    (case h of
       None \<Rightarrow> ''unspecified''
     | Some c \<Rightarrow>
        (case py_split (hc_title c) of
           token # _ \<Rightarrow> map char_lower token
         | [] \<Rightarrow> (case py_split (hc_statement c) of
                   token # _ \<Rightarrow> map char_lower token | [] \<Rightarrow> ''unspecified'')))"

definition opt_real :: "real option \<Rightarrow> json" where
  "opt_real x = (case x of None \<Rightarrow> JNull | Some r \<Rightarrow> JFloat r)"

definition extract_signal_trajectory ::
  "(string \<Rightarrow> string) \<Rightarrow> directional_signal \<Rightarrow> hypothesis_card option \<Rightarrow> pattern_candidate" where
  "extract_signal_trajectory sha sg h =
    (let method_family = method_family_from_hypothesis h; bucket = signal_direction_bucket sg in
     \<lparr>pc_pattern_type = ''signal_trajectory'',
      pc_content_key = signal_trajectory_key sha method_family (ds_metric_name sg) bucket,
      pc_structured_body =
        [(''method_family'', JStr method_family), (''primary_metric_name'', JStr (ds_metric_name sg)),
         (''primary_metric_direction'', JStr (ds_metric_direction sg)), (''signal'', JStr (ds_signal sg)),
         (''direction_bucket'', JStr bucket), (''primary_metric_delta'', opt_real (ds_metric_delta sg))],
      pc_charter_id = ds_charter_id sg, pc_cycle_id = ds_cycle_id sg,
      pc_artifact_type = ''directional_signal'', pc_artifact_id = ds_id sg,
      pc_observed_at = ds_created_at sg,
      pc_contribution = Some [(''primary_metric_value'', JFloat (ds_metric_value sg))]\<rparr>)"

definition extract_successful_line ::
  "(string \<Rightarrow> string) \<Rightarrow> metric_frontier \<Rightarrow> hypothesis_card option \<Rightarrow> uuid \<Rightarrow> string \<Rightarrow> pattern_candidate" where
  "extract_successful_line sha f h cycle_id problem_domain =
    (let method_family = method_family_from_hypothesis h in
     \<lparr>pc_pattern_type = ''successful_line'',
      pc_content_key = successful_line_key sha method_family (mf_metric_name f) problem_domain,
      pc_structured_body =
        [(''method_family'', JStr method_family), (''primary_metric_name'', JStr (mf_metric_name f)),
         (''primary_metric_direction'', JStr (mf_metric_direction f)),
         (''best_metric_value'', JFloat (mf_best_value f)), (''problem_domain'', JStr problem_domain),
         (''total_runs'', JInt (int (mf_total_runs f))),
         (''successful_runs'', JInt (int (mf_successful_runs f)))],
      pc_charter_id = mf_charter_id f, pc_cycle_id = cycle_id,
      pc_artifact_type = ''metric_frontier'', pc_artifact_id = mf_id f,
      pc_observed_at = mf_best_achieved_at f, pc_contribution = None\<rparr>)"

definition extract_retrieval_heuristic_from_loop ::
  "pylib \<Rightarrow> (string \<Rightarrow> string) \<Rightarrow> loop_decision \<Rightarrow> pattern_candidate option" where
  "extract_retrieval_heuristic_from_loop py sha d =
    (if ld_decision d \<notin> {''parameter_variation'', ''hypothesis_pivot''} then None
     else let heuristic_kind = ''loop_'' @ ld_decision d;
              parameters = [(''gate_triggered'', opt_str (ld_gate_triggered d)),
                            (''next_action'', opt_str (ld_next_action d))]
       in Some \<lparr>pc_pattern_type = ''retrieval_heuristic'',
                pc_content_key = retrieval_heuristic_key py sha heuristic_kind parameters,
                pc_structured_body = [(''heuristic_kind'', JStr heuristic_kind),
                                      (''parameters'', JObj parameters)],
                pc_charter_id = ld_charter_id d, pc_cycle_id = ld_cycle_id d,
                pc_artifact_type = ''loop_decision'', pc_artifact_id = ld_id d,
                pc_observed_at = ld_created_at d, pc_contribution = None\<rparr>)"

section \<open>Aggregation\<close>

abbreviation pc_key :: "pattern_candidate \<Rightarrow> string \<times> string" where
  "pc_key c \<equiv> (pc_pattern_type c, pc_content_key c)"

text \<open>\<open>groups[(c.pattern_type, c.content_key)].append(c)\<close>: groups in first-seen order.\<close>

fun group_insert ::
  "pattern_candidate \<Rightarrow> ((string \<times> string) \<times> pattern_candidate list) list
   \<Rightarrow> ((string \<times> string) \<times> pattern_candidate list) list" where
  "group_insert c [] = [(pc_key c, [c])]"
| "group_insert c ((k, cs) # gs) = (if k = pc_key c then (k, cs @ [c]) # gs else (k, cs) # group_insert c gs)"

definition summarize_group :: "(string \<times> string) \<times> pattern_candidate list \<Rightarrow> aggregated_pattern" where
  "summarize_group g =
    (case g of ((pattern_type, key), items) \<Rightarrow>
      let items_sorted = sort_key pc_observed_at items;
          charter_ids = remdups (map pc_charter_id items);
          merged_body = dset (pc_structured_body (last items_sorted)) ''charter_count''
                          (JInt (int (length charter_ids)))
      in \<lparr>ag_pattern_type = pattern_type, ag_content_key = key, ag_structured_body = merged_body,
          ag_evidence_count = int (length items), ag_charter_ids = charter_ids,
          ag_first_observed_at = pc_observed_at (hd items_sorted),
          ag_last_observed_at = pc_observed_at (last items_sorted), ag_candidates = items\<rparr>)"

definition aggregate :: "pattern_candidate list \<Rightarrow> aggregated_pattern list" where
  "aggregate candidates = map summarize_group (fold group_insert candidates [])"

definition compute_confidence :: "aggregated_pattern \<Rightarrow> real" where
  "compute_confidence agg =
    (let base = min (35 / 100 + 10 / 100 * of_int (ag_evidence_count agg - 1)) (80 / 100);
         boosted = (if cross_charter agg then min (base + 10 / 100) (95 / 100) else base)
     in py_round 3 boosted)"

section \<open>Upserts\<close>

definition reinforced :: "env \<Rightarrow> int \<Rightarrow> aggregated_pattern \<Rightarrow> canonical_pattern \<Rightarrow> canonical_pattern" where
  "reinforced e version agg p =
    (let new_conf = compute_confidence agg in
     p\<lparr>cp_source_charter_ids := remdups (cp_source_charter_ids p) @
         filter (\<lambda>c. c \<notin> set (cp_source_charter_ids p)) (remdups (ag_charter_ids agg)),
       cp_evidence_count := max (cp_evidence_count p) (ag_evidence_count agg),
       cp_confidence := (if new_conf > cp_confidence p then new_conf else cp_confidence p),
       cp_last_observed_at := max (cp_last_observed_at p) (ag_last_observed_at agg),
       cp_last_reinforced_at := now e, cp_staleness_score := 0, cp_consolidation_version := version,
       cp_structured_body := dupdate (cp_structured_body p) (ag_structured_body agg),
       cp_trust_tier := (if cp_trust_tier p = ''deprecated'' \<and> cross_charter agg then ''curated''
                         else cp_trust_tier p)\<rparr>)"

definition new_pattern :: "env \<Rightarrow> int \<Rightarrow> uuid \<Rightarrow> aggregated_pattern \<Rightarrow> canonical_pattern" where
  "new_pattern e version i agg =
     \<lparr>cp_id = i, cp_pattern_type = ag_pattern_type agg, cp_content_key = ag_content_key agg,
      cp_structured_body = ag_structured_body agg, cp_embedding = None,
      cp_evidence_count = ag_evidence_count agg, cp_confidence = compute_confidence agg,
      cp_trust_tier = ''auto'', cp_first_observed_at = ag_first_observed_at agg,
      cp_last_observed_at = ag_last_observed_at agg, cp_last_reinforced_at = now e,
      cp_staleness_score = 0, cp_source_charter_ids = ag_charter_ids agg,
      cp_consolidation_version = version\<rparr>"

definition put_pattern :: "canonical_pattern \<Rightarrow> db \<Rightarrow> db" where
  "put_pattern p s = s\<lparr>patterns := update_where (\<lambda>r. cp_id r = cp_id p) (\<lambda>_. p) (patterns s)\<rparr>"

definition upsert_pattern ::
  "env \<Rightarrow> int \<Rightarrow> aggregated_pattern \<Rightarrow> db \<Rightarrow> (canonical_pattern \<times> bool \<times> db) res" where
  "upsert_pattern e version agg s =
    res_bind (scalar_one_or_none (filter (\<lambda>p. cp_pattern_type p = ag_pattern_type agg \<and>
                                             cp_content_key p = ag_content_key agg) (patterns s))) (\<lambda>existing.
      case existing of
        None \<Rightarrow> let p = new_pattern e version (new_uuid e s) agg
                in Inr (p, True, (tick_uuid s)\<lparr>patterns := patterns s @ [p]\<rparr>)
      | Some p \<Rightarrow> let p' = reinforced e version agg p in Inr (p', False, put_pattern p' s))"

definition add_observation :: "env \<Rightarrow> canonical_pattern \<Rightarrow> pattern_candidate \<Rightarrow> db \<Rightarrow> db" where
  "add_observation e p c s =
    (tick_uuid s)\<lparr>observations := observations s @
       [\<lparr>po_id = new_uuid e s, po_pattern_id = cp_id p, po_charter_id = pc_charter_id c,
         po_cycle_id = pc_cycle_id c, po_artifact_type = pc_artifact_type c,
         po_artifact_id = pc_artifact_id c, po_contribution = pc_contribution c,
         po_observed_at = pc_observed_at c\<rparr>]\<rparr>"

definition observed_keys :: "canonical_pattern \<Rightarrow> db \<Rightarrow> (string \<times> uuid) set" where
  "observed_keys p s = (\<lambda>o'. (po_artifact_type o', po_artifact_id o')) `
     {o' \<in> set (observations s). po_pattern_id o' = cp_id p}"

definition upsert_observations ::
  "env \<Rightarrow> canonical_pattern \<Rightarrow> aggregated_pattern \<Rightarrow> db \<Rightarrow> nat \<times> db" where
  "upsert_observations e p agg s =
    (let existing = observed_keys p s;
         fresh = filter (\<lambda>c. (pc_artifact_type c, pc_artifact_id c) \<notin> existing) (ag_candidates agg)
     in (length fresh, fold (add_observation e p) fresh s))"

section \<open>Decay\<close>

record decay_outcome =
  do_pattern_id :: uuid
  do_previous_tier :: string
  do_new_tier :: string
  do_previous_staleness :: real
  do_new_staleness :: real
  do_demoted :: bool
  do_deprecated :: bool

definition age_days :: "time \<Rightarrow> canonical_pattern \<Rightarrow> real" where
  "age_days t p = max 0 (of_int (t - cp_last_reinforced_at p) / 1000000 / 86400)"

definition decay_score :: "time \<Rightarrow> int \<Rightarrow> canonical_pattern \<Rightarrow> real" where
  "decay_score t max_staleness_days p =
    (if max_staleness_days \<le> 0 then 0 else age_days t p / of_int max_staleness_days)"

definition evaluate :: "canonical_pattern \<Rightarrow> time \<Rightarrow> int \<Rightarrow> bool \<Rightarrow> decay_outcome" where
  "evaluate p t max_staleness_days force =
    (let score = decay_score t max_staleness_days p;
         previous = cp_trust_tier p;
         tier1 = (if previous = ''auto'' \<and> score \<ge> 1 then ''curated'' else previous);
         tier2 = (if previous = ''curated'' \<and> score \<ge> 2 then ''deprecated'' else tier1);
         tier3 = (if force \<and> cp_evidence_count p \<le> 0 then ''deprecated'' else tier2)
     in \<lparr>do_pattern_id = cp_id p, do_previous_tier = previous, do_new_tier = tier3,
         do_previous_staleness = cp_staleness_score p, do_new_staleness = py_round 4 (min score 2),
         do_demoted = (previous = ''auto'' \<and> tier3 = ''curated''),
         do_deprecated = (tier3 = ''deprecated'' \<and> previous \<noteq> ''deprecated'')\<rparr>)"

definition read_max_staleness :: "pylib \<Rightarrow> dict \<Rightarrow> int res" where
  "read_max_staleness py payload =
    (if dget payload ''max_staleness_days'' = JNull then Inr 90
     else py_int py (dget payload ''max_staleness_days''))"

abbreviation emit_bare :: "env \<Rightarrow> string \<Rightarrow> dict \<Rightarrow> db \<Rightarrow> db" where
  "emit_bare e et payload \<equiv> emit_event_sync e et None None (Some payload) Actor_system None"

definition decayed_row :: "decay_outcome \<Rightarrow> canonical_pattern \<Rightarrow> canonical_pattern" where
  "decayed_row out p = p\<lparr>cp_staleness_score := do_new_staleness out, cp_trust_tier := do_new_tier out\<rparr>"

definition decay_one ::
  "env \<Rightarrow> int \<Rightarrow> bool \<Rightarrow> canonical_pattern \<Rightarrow> db \<times> nat \<times> nat \<Rightarrow> db \<times> nat \<times> nat" where
  "decay_one e max_staleness_days force p acc =
    (case acc of (s, demoted, deprecated) \<Rightarrow>
      let out = evaluate p (now e) max_staleness_days force;
          s1 = put_pattern (decayed_row out p) s;
          s2 = (if do_demoted out then
                  emit_bare e ''pattern.demoted''
                    [(''pattern_id'', JUuid (do_pattern_id out)), (''previous_tier'', JStr (do_previous_tier out)),
                     (''new_tier'', JStr (do_new_tier out)), (''staleness_score'', JFloat (do_new_staleness out))] s1
                else s1);
          s3 = (if do_deprecated out then
                  emit_bare e ''pattern.deprecated''
                    [(''pattern_id'', JUuid (do_pattern_id out)), (''previous_tier'', JStr (do_previous_tier out)),
                     (''staleness_score'', JFloat (do_new_staleness out))] s2
                else s2)
      in (s3, demoted + (if do_demoted out then 1 else 0), deprecated + (if do_deprecated out then 1 else 0)))"

definition touch_periodic_state :: "string \<Rightarrow> uuid \<Rightarrow> time \<Rightarrow> db \<Rightarrow> db" where
  "touch_periodic_state kind job_id t s =
    (case table_get pj_job_kind (periodic s) kind of
       None \<Rightarrow> s\<lparr>periodic := periodic s @ [\<lparr>pj_job_kind = kind, pj_last_enqueued_at = None,
                 pj_last_completed_at = Some t, pj_last_job_id = Some job_id\<rparr>]\<rparr>
     | Some _ \<Rightarrow> s\<lparr>periodic := update_where (\<lambda>r. pj_job_kind r = kind)
                 (\<lambda>r. r\<lparr>pj_last_job_id := Some job_id, pj_last_completed_at := Some t\<rparr>) (periodic s)\<rparr>)"

definition decay_patterns_operator :: "pylib \<Rightarrow> env \<Rightarrow> operator" where
  "decay_patterns_operator py e i s =
    (case read_max_staleness py (oi_payload i) of
       Inl err \<Rightarrow> (Inl err, s)
     | Inr max_staleness_days \<Rightarrow>
        let force = truthy (dget_or (oi_payload i) ''force'' (JBool False));
            s1 = emit_bare e ''pattern.decay_started''
                   [(''force'', JBool force), (''max_staleness_days'', JInt max_staleness_days)] s
        in case fold (decay_one e max_staleness_days force) (patterns s1) (s1, 0, 0) of
             (s2, demoted, deprecated) \<Rightarrow>
               let s3 = touch_periodic_state ''decay_patterns'' (oi_job_id i) (now e) s2;
                   s4 = emit_bare e ''pattern.decay_completed''
                     [(''evaluated'', JInt (int (length (patterns s1)))), (''demoted'', JInt (int demoted)),
                      (''deprecated'', JInt (int deprecated)),
                      (''max_staleness_days'', JInt max_staleness_days)] s3
               in (Inr OperatorResult, s4))"

section \<open>Retrieval\<close>

record pattern_match =
  pmt_pattern :: canonical_pattern
  pmt_similarity :: "real option"
  pmt_effective_confidence :: real
  pmt_cross_charter :: bool
  pmt_source_charter_ids :: "uuid list"

definition effective_confidence :: "canonical_pattern \<Rightarrow> int \<Rightarrow> time \<Rightarrow> real" where
  "effective_confidence p max_staleness_days t =
    (if max_staleness_days \<le> 0 then cp_confidence p
     else max 0 (cp_confidence p * (1 - min (age_days t p / of_int max_staleness_days) 1)))"

definition cosine :: "real list option \<Rightarrow> real list option \<Rightarrow> real option" where
  "cosine a b =
    (case (a, b) of
       (Some xs, Some ys) \<Rightarrow>
         (if length xs \<noteq> length ys then None
          else let dot = sum_list (map2 (*) xs ys);
                   na = sqrt (sum_list (map (\<lambda>x. x * x) xs));
                   nb = sqrt (sum_list (map (\<lambda>y. y * y) ys))
               in if na = 0 \<or> nb = 0 then None else Some (dot / (na * nb)))
     | _ \<Rightarrow> None)"

definition relevant_row ::
  "db \<Rightarrow> uuid option \<Rightarrow> string list \<Rightarrow> real \<Rightarrow> bool \<Rightarrow> canonical_pattern \<Rightarrow> bool" where
  "relevant_row s current_cycle types min_confidence cross_charter_only p \<longleftrightarrow>
     cp_trust_tier p \<noteq> ''deprecated'' \<and>
     (types \<noteq> [] \<longrightarrow> cp_pattern_type p \<in> set types) \<and>
     (min_confidence > 0 \<longrightarrow> cp_confidence p \<ge> min_confidence) \<and>
     (case current_cycle of None \<Rightarrow> True
      | Some k \<Rightarrow> \<exists>o'\<in>set (observations s). po_pattern_id o' = cp_id p \<and> po_cycle_id o' \<noteq> k) \<and>
     (cross_charter_only \<longrightarrow> length (cp_source_charter_ids p) > 1)"

definition make_match ::
  "time \<Rightarrow> real list option \<Rightarrow> int \<Rightarrow> real \<Rightarrow> canonical_pattern \<Rightarrow> pattern_match" where
  "make_match t embedding max_staleness_days boost p =
    (let eff = effective_confidence p max_staleness_days t;
         cross = card (set (cp_source_charter_ids p)) > 1
     in \<lparr>pmt_pattern = p,
         pmt_similarity = cosine embedding (case cp_embedding p of None \<Rightarrow> None
                                            | Some v \<Rightarrow> if v = [] then None else Some v),
         pmt_effective_confidence = py_round 4 (eff * (if cross then boost else 1)),
         pmt_cross_charter = cross, pmt_source_charter_ids = cp_source_charter_ids p\<rparr>)"

definition match_rank :: "pattern_match \<Rightarrow> real \<times> real" where
  "match_rank m = (- (case pmt_similarity m of None \<Rightarrow> 0 | Some x \<Rightarrow> x), - pmt_effective_confidence m)"

text \<open>A negative LIMIT is an error of the database.\<close>

definition find_relevant_patterns ::
  "env \<Rightarrow> db \<Rightarrow> uuid option \<Rightarrow> real list option \<Rightarrow> string list \<Rightarrow> real \<Rightarrow> int \<Rightarrow> bool \<Rightarrow> real \<Rightarrow> int
   \<Rightarrow> pattern_match list res" where
  "find_relevant_patterns e s current_cycle embedding types min_confidence max_staleness_days
     cross_charter_only boost limit =
    (if max (limit * 5) limit < 0 then Inl (ExternalError ''LIMIT must not be negative'')
     else let rows = take (nat (max (limit * 5) limit))
                       (filter (relevant_row s current_cycle types min_confidence cross_charter_only) (patterns s));
              matches = map (make_match (now e) embedding max_staleness_days boost) rows
          in Inr (take (nat limit) (sort_key match_rank matches)))"

definition latest_by_scope :: "pattern_approval list \<Rightarrow> (uuid option \<times> pattern_approval) list" where
  "latest_by_scope rows =
     fold (\<lambda>r d. if map_of d (pa_charter_id r) = None then d @ [(pa_charter_id r, r)] else d) rows []"

definition has_valid_approval :: "env \<Rightarrow> db \<Rightarrow> uuid \<Rightarrow> uuid \<Rightarrow> bool" where
  "has_valid_approval e s pattern_id charter_id =
    (let rows = order_desc pa_created_at
                  (filter (\<lambda>a. pa_pattern_id a = pattern_id \<and>
                              (pa_charter_id a = Some charter_id \<or> pa_charter_id a = None)) (approvals s))
     in \<exists>a\<in>snd ` set (latest_by_scope rows).
          pa_decision a = ''approve'' \<and> \<not> null_less (pa_expires_at a) (now e))"

section \<open>Injection\<close>

record injection_policy =
  min_confidence_auto :: real
  ip_max_staleness_days :: int
  cross_charter_weight_boost :: real
  ip_cross_charter_only :: bool
  ip_limit :: int

definition from_cycle_config :: "pylib \<Rightarrow> dict option \<Rightarrow> injection_policy res" where
  "from_cycle_config py config =
    (let cfg = dget_or (opt_dict config) ''patterns'' (JObj []) in
     res_bind (res_bind (jget_or cfg ''min_confidence_auto'' (JFloat (7 / 10))) (py_float py)) (\<lambda>mc.
     res_bind (res_bind (jget_or cfg ''max_staleness_days'' (JInt 90)) (py_int py)) (\<lambda>ms.
     res_bind (res_bind (jget_or cfg ''cross_charter_weight_boost'' (JFloat (115 / 100))) (py_float py)) (\<lambda>bo.
     res_bind (jget_or cfg ''cross_charter_only'' (JBool False)) (\<lambda>co.
     res_bind (res_bind (jget_or cfg ''injection_limit'' (JInt 10)) (py_int py)) (\<lambda>li.
       Inr \<lparr>min_confidence_auto = mc, ip_max_staleness_days = ms, cross_charter_weight_boost = bo,
            ip_cross_charter_only = truthy co, ip_limit = li\<rparr>))))))"

definition may_inject :: "env \<Rightarrow> db \<Rightarrow> uuid \<Rightarrow> injection_policy \<Rightarrow> pattern_match \<Rightarrow> bool" where
  "may_inject e s charter_id pol m =
    (if cp_trust_tier (pmt_pattern m) = ''auto''
     then \<not> pmt_effective_confidence m < min_confidence_auto pol
     else if cp_trust_tier (pmt_pattern m) = ''curated''
     then has_valid_approval e s (cp_id (pmt_pattern m)) charter_id
     else False)"

fun select_matches :: "(pattern_match \<Rightarrow> bool) \<Rightarrow> int \<Rightarrow> pattern_match list \<Rightarrow> pattern_match list \<Rightarrow> pattern_match list" where
  "select_matches ok limit applied [] = applied"
| "select_matches ok limit applied (m # ms) =
    (if \<not> ok m then select_matches ok limit applied ms
     else if int (length (applied @ [m])) \<ge> limit then applied @ [m]
     else select_matches ok limit (applied @ [m]) ms)"

definition emit_applied ::
  "env \<Rightarrow> uuid \<Rightarrow> uuid option \<Rightarrow> string option \<Rightarrow> pattern_match \<Rightarrow> db \<Rightarrow> db" where
  "emit_applied e charter_id current_cycle operator_name m s =
     emit_event_sync e ''pattern.applied'' (Some charter_id) current_cycle
       (Some [(''pattern_id'', JUuid (cp_id (pmt_pattern m))),
              (''pattern_type'', JStr (cp_pattern_type (pmt_pattern m))),
              (''trust_tier'', JStr (cp_trust_tier (pmt_pattern m))),
              (''effective_confidence'', JFloat (pmt_effective_confidence m)),
              (''operator'', opt_str operator_name)]) Actor_system None s"

definition inject_patterns ::
  "env \<Rightarrow> uuid \<Rightarrow> uuid option \<Rightarrow> string list \<Rightarrow> injection_policy \<Rightarrow> real list option \<Rightarrow> string option
   \<Rightarrow> bool \<Rightarrow> db \<Rightarrow> (pattern_match list \<times> db) res" where
  "inject_patterns e charter_id current_cycle types pol embedding operator_name emit_audit s =
    res_bind (find_relevant_patterns e s current_cycle embedding types 0 (ip_max_staleness_days pol)
                (ip_cross_charter_only pol) (cross_charter_weight_boost pol) (ip_limit pol * 3)) (\<lambda>candidates.
      let applied = select_matches (may_inject e s charter_id pol) (ip_limit pol) [] candidates
      in Inr (applied, if emit_audit then fold (emit_applied e charter_id current_cycle operator_name) applied s
                       else s))"

section \<open>Consolidation operator\<close>

definition PATTERN_TYPES :: "string list" where
  "PATTERN_TYPES = [''failure'', ''remediation'', ''signal_trajectory'', ''successful_line'', ''retrieval_heuristic'']"

text \<open>\<open>_filter_charter\<close> on a model with a \<open>charter_id\<close> column.\<close>

definition filter_charter :: "('r \<Rightarrow> uuid) \<Rightarrow> uuid option \<Rightarrow> 'r list \<Rightarrow> 'r list" where
  "filter_charter col scope rows =
    (case scope of None \<Rightarrow> rows | Some c \<Rightarrow> filter (\<lambda>r. col r = c) rows)"

definition problem_domain_for_charter ::
  "pylib \<Rightarrow> charter list \<Rightarrow> cycle list \<Rightarrow> uuid \<Rightarrow> uuid option \<Rightarrow> string res" where
  "problem_domain_for_charter py charter_rows cycle_rows charter_id cycle_id =
    (let from_charter =
           (case table_get ch_id charter_rows charter_id of
              None \<Rightarrow> Inr ''unspecified''
            | Some ch \<Rightarrow> res_bind (jget_or (or_dict (ch_source_scope ch)) ''domain'' JNull) (\<lambda>domain.
                if truthy domain then Inr (py_str (float_repr py) domain) else Inr ''unspecified''))
     in case cycle_id of
          None \<Rightarrow> from_charter
        | Some k \<Rightarrow>
            let pilot_cfg = (case table_get cy_id cycle_rows k of
                               None \<Rightarrow> JObj []
                             | Some c \<Rightarrow> or_dict (dget (opt_dict (cy_config c)) ''pilot''))
            in res_bind (jget_or pilot_cfg ''domain'' JNull) (\<lambda>domain.
                 if truthy domain then Inr (py_str (float_repr py) domain) else from_charter))"

definition successful_candidates ::
  "pylib \<Rightarrow> (string \<Rightarrow> string) \<Rightarrow> uuid option \<Rightarrow> uuid \<Rightarrow> charter list \<Rightarrow> db \<Rightarrow> pattern_candidate list res" where
  "successful_candidates py sha scope op_cycle charter_rows s =
    map_res (\<lambda>f.
      let hyp = table_get hc_id (filter_charter hc_charter_id scope (cards s)) (mf_card_id f);
          cycle_id = (case hyp of None \<Rightarrow> op_cycle | Some h \<Rightarrow> hc_cycle_id h)
      in res_bind (problem_domain_for_charter py charter_rows (filter_charter cy_charter_id scope (cycles s))
                     (mf_charter_id f) (Some cycle_id)) (\<lambda>domain.
           Inr (extract_successful_line sha f hyp cycle_id domain)))
      (filter (\<lambda>f. mf_successful_runs f > 0) (filter_charter mf_charter_id scope (frontiers s)))"

definition signal_candidates ::
  "(string \<Rightarrow> string) \<Rightarrow> uuid option \<Rightarrow> db \<Rightarrow> pattern_candidate list" where
  "signal_candidates sha scope s =
    map (\<lambda>sg.
      let hyp = (case table_get sp_id (filter_charter sp_charter_id scope (specs s)) (ds_spec_id sg) of
                   None \<Rightarrow> None
                 | Some sp \<Rightarrow> table_get hc_id (filter_charter hc_charter_id scope (cards s)) (sp_card_id sp))
      in extract_signal_trajectory sha sg hyp)
      (filter_charter ds_charter_id scope (signals s))"

definition consolidate_candidates ::
  "pylib \<Rightarrow> (string \<Rightarrow> string) \<Rightarrow> string set \<Rightarrow> uuid option \<Rightarrow> uuid \<Rightarrow> charter list \<Rightarrow> db
   \<Rightarrow> (pattern_candidate list \<times> dict) res" where
  "consolidate_candidates py sha types scope op_cycle charter_rows s =
    (let count = (\<lambda>t n. if t \<in> types then [(t, JInt (int n))] else []);
         pms = filter_charter pm_charter_id scope (postmortems s);
         ras = filter_charter ra_charter_id scope (actions s);
         heuristics = List.map_filter (extract_retrieval_heuristic_from_loop py sha)
                        (filter_charter ld_charter_id scope (decisions s));
         counts = count ''failure'' (length pms) @ count ''remediation'' (length ras) @
           count ''signal_trajectory'' (length (filter_charter ds_charter_id scope (signals s))) @
           count ''successful_line'' (length (filter_charter mf_charter_id scope (frontiers s))) @
           count ''retrieval_heuristic'' (length heuristics)
     in res_bind (if ''failure'' \<in> types then map_res (extract_failure sha) pms else Inr []) (\<lambda>failures.
        res_bind (if ''successful_line'' \<in> types
                  then successful_candidates py sha scope op_cycle charter_rows s else Inr []) (\<lambda>lines.
          Inr (failures @
               (if ''remediation'' \<in> types then map (extract_remediation sha) ras else []) @
               (if ''signal_trajectory'' \<in> types then signal_candidates sha scope s else []) @
               lines @ (if ''retrieval_heuristic'' \<in> types then heuristics else []), counts))))"

definition consolidate_one ::
  "env \<Rightarrow> op_input \<Rightarrow> aggregated_pattern \<times> real list option \<Rightarrow> db \<times> nat \<times> nat \<times> nat
   \<Rightarrow> (db \<times> nat \<times> nat \<times> nat) res" where
  "consolidate_one e i av acc =
    (case (av, acc) of ((agg, vec), (s, created_count, reinforced_count, inserted)) \<Rightarrow>
      res_bind (upsert_pattern e 1 agg s) (\<lambda>(p, created, s1).
        let p' = (case vec of None \<Rightarrow> p | Some v \<Rightarrow> p\<lparr>cp_embedding := Some v\<rparr>);
            s2 = put_pattern p' s1
        in case upsert_observations e p' agg s2 of (n, s3) \<Rightarrow>
             let s4 = emit_sys e ''pattern.consolidated'' (oi_charter_id i) (oi_cycle_id i)
                   [(''pattern_id'', JUuid (cp_id p')), (''pattern_type'', JStr (cp_pattern_type p')),
                    (''content_key'', JStr (cp_content_key p')),
                    (''evidence_count'', JInt (cp_evidence_count p')),
                    (''confidence'', JFloat (cp_confidence p')), (''created'', JBool created)] s3
             in Inr (s4, if created then created_count + 1 else created_count,
                     if created then reinforced_count else reinforced_count + 1, inserted + n)))"

fun fold_res :: "('a \<Rightarrow> 'b \<Rightarrow> 'b res) \<Rightarrow> 'a list \<Rightarrow> 'b \<Rightarrow> 'b res" where
  "fold_res f [] b = Inr b"
| "fold_res f (x # xs) b = res_bind (f x b) (fold_res f xs)"

text \<open>
  The scope query on the charter table itself goes through an ORM class that is not part of the
  sources (the migrations give that table no \<open>charter_id\<close> column): \<open>scoped_charters\<close> stands for
  its result under a scope.
\<close>

definition type_elements :: "json \<Rightarrow> json list res" where
  "type_elements j =
    (if \<not> truthy j then Inr (map JStr PATTERN_TYPES)
     else case j of
        JList xs \<Rightarrow> (if \<exists>x\<in>set xs. case x of JList _ \<Rightarrow> True | JObj _ \<Rightarrow> True | _ \<Rightarrow> False
                    then Inl TypeError else Inr xs)
      | JObj d \<Rightarrow> Inr (map (\<lambda>(k, _). JStr k) d)
      | JStr t \<Rightarrow> Inr (map (\<lambda>c. JStr [c]) t)
      | JUuid u \<Rightarrow> Inr (map (\<lambda>c. JStr [c]) (uuid_str u))
      | _ \<Rightarrow> Inl TypeError)"

text \<open>Inside: None when some requested type is unknown (reported as a failed result).\<close>

definition requested_types :: "dict \<Rightarrow> string set option res" where
  "requested_types payload =
    res_bind (type_elements (dget payload ''pattern_types'')) (\<lambda>xs.
      let unknown = remdups (filter (\<lambda>x. x \<notin> set (map JStr PATTERN_TYPES)) xs) in
      if unknown = [] then Inr (Some {t. JStr t \<in> set xs})
      else if length unknown \<le> 1 \<or> (\<forall>x\<in>set unknown. case x of JStr _ \<Rightarrow> True | JUuid _ \<Rightarrow> True | _ \<Rightarrow> False)
              \<or> (\<forall>x\<in>set unknown. py_num x \<noteq> None)
      then Inr None else Inl TypeError)"

definition consolidate_patterns_operator ::
  "pylib \<Rightarrow> (string \<Rightarrow> string) \<Rightarrow> (uuid \<Rightarrow> db \<Rightarrow> charter list res) \<Rightarrow>
   (aggregated_pattern list \<Rightarrow> real list option list) \<Rightarrow> env \<Rightarrow> operator" where
  "consolidate_patterns_operator py sha scoped_charters embedder e i s =
    (case (if truthy (dget (oi_payload i) ''charter_id'')
           then res_bind (UUID_of (dget (oi_payload i) ''charter_id'')) (\<lambda>u. Inr (Some u)) else Inr None) of
       Inl err \<Rightarrow> (Inl err, s)
     | Inr scope \<Rightarrow>
       (case requested_types (oi_payload i) of
          Inl err \<Rightarrow> (Inl err, s)
        | Inr None \<Rightarrow> (Inr (op_fail ''unknown pattern_types''), s)
        | Inr (Some types) \<Rightarrow>
          let s1 = emit_event_sync e ''pattern.consolidation_started'' scope (Some (oi_cycle_id i))
                (Some [(''charter_scope'', case scope of None \<Rightarrow> JStr ''all'' | Some c \<Rightarrow> JUuid c),
                       (''pattern_types'', JList (map JStr (sorted_list_of_set types)))]) Actor_system None s;
              work =
                res_bind (case scope of None \<Rightarrow> Inr (charters s1) | Some c \<Rightarrow> scoped_charters c s1) (\<lambda>charter_rows.
                res_bind (consolidate_candidates py sha types scope (oi_cycle_id i) charter_rows s1) (\<lambda>(candidates, counts).
                  let aggregated = aggregate candidates in
                  res_bind (fold_res (consolidate_one e i) (zip aggregated (embedder aggregated)) (s1, 0, 0, 0))
                    (\<lambda>(s2, created_count, reinforced_count, inserted).
                      Inr (emit_event_sync e ''pattern.consolidation_completed'' scope (Some (oi_cycle_id i))
                        (Some [(''candidates'', JInt (int (length candidates))),
                               (''aggregated'', JInt (int (length aggregated))),
                               (''created'', JInt (int created_count)),
                               (''reinforced'', JInt (int reinforced_count)),
                               (''observations_inserted'', JInt (int inserted)),
                               (''counts_by_source'', JObj counts)]) Actor_system None s2))))
          in case work of Inl err \<Rightarrow> (Inl err, s1) | Inr s3 \<Rightarrow> (Inr OperatorResult, s3)))"

section \<open>Facts about decay\<close>

definition tier_rank :: "string \<Rightarrow> nat" where
  "tier_rank t = (if t = ''deprecated'' then 2 else if t = ''curated'' then 1 else 0)"

definition tier_next :: "string \<Rightarrow> string list" where
  "tier_next t = (if t = ''auto'' then [''auto'', ''curated'', ''deprecated'']
                  else if t = ''curated'' then [''curated'', ''deprecated''] else [t, ''deprecated''])"

interpretation tier: staged_machine tier_next tier_rank
  by unfold_locales (auto simp: tier_next_def tier_rank_def split: if_splits)

lemma age_days_nonneg [simp]: "0 \<le> age_days t p"
  by (simp add: age_days_def)

lemma decay_score_nonneg [simp]: "0 \<le> decay_score t m p"
  by (simp add: decay_score_def)

lemma py_round_exact: "x * 10 ^ n = of_int k \<Longrightarrow> py_round n x = x"
proof -
  assume k: "x * 10 ^ n = of_int k"
  have "py_round n x = of_int k / 10 ^ n" by (simp only: py_round_round_even k round_even_of_int)
  also have "\<dots> = x" using k by (simp add: field_simps)
  finally show ?thesis .
qed

lemma evaluate_tier: "do_new_tier (evaluate p t m f) \<in> set (tier_next (cp_trust_tier p))"
  by (simp add: evaluate_def Let_def tier_next_def)

lemma evaluate_staleness: "0 \<le> do_new_staleness (evaluate p t m f) \<and> do_new_staleness (evaluate p t m f) \<le> 2"
proof -
  have two: "py_round 4 2 = 2" by (rule py_round_exact [of _ _ 20000]) simp
  have "py_round 4 (min (decay_score t m p) 2) \<le> py_round 4 2" by (rule py_round_mono) simp
  then show ?thesis by (simp add: evaluate_def Let_def two py_round_mono_floor)
qed

lemma decayed_row_id [simp]: "cp_id (decayed_row out p) = cp_id p"
  by (simp add: decayed_row_def)

lemma decayed_row_simps [simp]:
  "decay_score t m (decayed_row out p) = decay_score t m p" "cp_trust_tier (decayed_row out p) = do_new_tier out"
  by (simp_all add: decayed_row_def decay_score_def age_days_def)

lemma put_pattern_patterns: "patterns (put_pattern p s) = update_where (\<lambda>r. cp_id r = cp_id p) (\<lambda>_. p) (patterns s)"
  by (simp add: put_pattern_def)

lemma patterns_decay_one:
  "patterns (fst (decay_one e m f p acc)) =
     update_where (\<lambda>r. cp_id r = cp_id p) (\<lambda>_. decayed_row (evaluate p (now e) m f) p) (patterns (fst acc))"
  by (cases acc) (simp add: decay_one_def Let_def put_pattern_patterns)

lemma patterns_decay_fold:
  "patterns (fst (fold (decay_one e m f) ps acc)) =
     fold (\<lambda>p t. update_where (\<lambda>r. cp_id r = cp_id p) (\<lambda>_. decayed_row (evaluate p (now e) m f) p) t) ps
       (patterns (fst acc))"
  by (induction ps arbitrary: acc) (simp_all add: patterns_decay_one)

lemma touch_periodic_patterns [simp]: "patterns (touch_periodic_state k j t s) = patterns s"
  by (simp add: touch_periodic_state_def split: option.splits)

lemma decay_operator_patterns:
  assumes "distinct (map cp_id (patterns s))" and "decay_patterns_operator py e i s = (Inr r, s')"
  shows "\<exists>m f. patterns s' = map (\<lambda>p. decayed_row (evaluate p (now e) m f) p) (patterns s)"
proof -
  obtain m where m: "read_max_staleness py (oi_payload i) = Inr m"
    using assms(2) by (cases "read_max_staleness py (oi_payload i)") (simp_all add: decay_patterns_operator_def)
  let ?f = "truthy (dget_or (oi_payload i) ''force'' (JBool False))"
  let ?s1 = "emit_bare e ''pattern.decay_started'' [(''force'', JBool ?f), (''max_staleness_days'', JInt m)] s"
  have "patterns s' = patterns (fst (fold (decay_one e m ?f) (patterns s) (?s1, 0, 0)))"
    using assms(2) m
    by (auto simp: decay_patterns_operator_def Let_def split: prod.splits)
  also have "\<dots> = map (\<lambda>p. decayed_row (evaluate p (now e) m ?f) p) (patterns s)"
    using fold_replace_rows [of cp_id "[]" "patterns s" "\<lambda>p. decayed_row (evaluate p (now e) m ?f) p" "\<lambda>_. True"]
      assms(1)
    by (simp add: patterns_decay_fold)
  finally show ?thesis by blast
qed

section \<open>Facts about confidence\<close>

lemma compute_confidence_closed:
  "compute_confidence agg =
     of_int (min (35 + 10 * (ag_evidence_count agg - 1)) 80 + (if cross_charter agg then 10 else 0)) / 100"
proof -
  let ?n = "ag_evidence_count agg"
  let ?k = "min (35 + 10 * (?n - 1)) 80 + (if cross_charter agg then 10 else 0)"
  have base: "min (35 / 100 + 10 / 100 * of_int (?n - 1)) (80 / 100) = (of_int (min (35 + 10 * (?n - 1)) 80) / 100 :: real)"
    by (simp add: min_def field_simps)
  have "(if cross_charter agg then min (of_int (min (35 + 10 * (?n - 1)) 80) / 100 + 10 / 100) (95 / 100)
     else of_int (min (35 + 10 * (?n - 1)) 80) / 100) = (of_int ?k / 100 :: real)"
    by (simp add: min_def field_simps)
  then have "compute_confidence agg = py_round 3 (of_int ?k / 100)"
    by (simp only: compute_confidence_def Let_def base)
  also have "\<dots> = of_int ?k / 100"
    by (rule py_round_exact [of _ _ "?k * 10"]) simp
  finally show ?thesis .
qed

lemma compute_confidence_bounds:
  "1 \<le> ag_evidence_count agg \<Longrightarrow> 35 / 100 \<le> compute_confidence agg \<and> compute_confidence agg \<le> 90 / 100"
  unfolding compute_confidence_closed by (auto simp: min_def)

section \<open>Facts about upserts\<close>

abbreviation cp_key :: "canonical_pattern \<Rightarrow> string \<times> string" where
  "cp_key p \<equiv> (cp_pattern_type p, cp_content_key p)"

definition patterns_inv :: "db \<Rightarrow> bool" where
  "patterns_inv s \<longleftrightarrow> distinct (map cp_id (patterns s)) \<and> distinct (map cp_key (patterns s))"

abbreviation ag_key :: "aggregated_pattern \<Rightarrow> string \<times> string" where
  "ag_key a \<equiv> (ag_pattern_type a, ag_content_key a)"

lemma reinforced_simps [simp]:
  "cp_id (reinforced e v agg p) = cp_id p" "cp_key (reinforced e v agg p) = cp_key p"
  "cp_pattern_type (reinforced e v agg p) = cp_pattern_type p"
  "cp_content_key (reinforced e v agg p) = cp_content_key p"
  by (simp_all add: reinforced_def Let_def)

lemma upsert_filter_key:
  "filter (\<lambda>p. cp_pattern_type p = ag_pattern_type agg \<and> cp_content_key p = ag_content_key agg) ps =
   filter (\<lambda>p. cp_key p = ag_key agg) ps"
  by (rule filter_cong) auto

lemma put_pattern_keys:
  assumes "distinct (map cp_id (patterns s))" and "q \<in> set (patterns s)" "cp_id q = cp_id p" "cp_key q = cp_key p"
  shows "map cp_key (patterns (put_pattern p s)) = map cp_key (patterns s)"
proof -
  have "cp_key (if cp_id r = cp_id p then p else r) = cp_key r" if "r \<in> set (patterns s)" for r
    using that assms by (metis distinct_map inj_onD)
  then show ?thesis by (simp add: put_pattern_patterns update_where_def)
qed

lemma put_pattern_ids: "map cp_id (patterns (put_pattern p s)) = map cp_id (patterns s)"
  by (simp add: put_pattern_patterns update_where_def)

lemma put_pattern_inv:
  "patterns_inv s \<Longrightarrow> q \<in> set (patterns s) \<Longrightarrow> cp_id q = cp_id p \<Longrightarrow> cp_key q = cp_key p \<Longrightarrow>
   patterns_inv (put_pattern p s)"
  using put_pattern_keys put_pattern_ids by (simp add: patterns_inv_def)

lemma upsert_pattern_cases:
  assumes "patterns_inv s"
  obtains (created) "ag_key agg \<notin> cp_key ` set (patterns s)"
      "upsert_pattern e v agg s = Inr (new_pattern e v (new_uuid e s) agg, True,
         (tick_uuid s)\<lparr>patterns := patterns s @ [new_pattern e v (new_uuid e s) agg]\<rparr>)"
  | (existing) p where "p \<in> set (patterns s)" "cp_key p = ag_key agg"
      "upsert_pattern e v agg s = Inr (reinforced e v agg p, False, put_pattern (reinforced e v agg p) s)"
proof (cases "table_get cp_key (patterns s) (ag_key agg)")
  case None
  then have "filter (\<lambda>p. cp_key p = ag_key agg) (patterns s) = []"
    by (force simp: table_get_None_iff filter_empty_conv)
  then show ?thesis using None
    by (intro created) (simp_all only: table_get_None_iff upsert_pattern_def upsert_filter_key
        scalar_one_or_none.simps res_bind.simps option.case Let_def simp_thms)
next
  case (Some p)
  have "filter (\<lambda>p. cp_key p = ag_key agg) (patterns s) = [p]"
    using assms Some by (intro filter_key_singleton) (simp_all add: patterns_inv_def)
  then show ?thesis using table_get_Some_in [OF Some]
    by (intro existing [of p]) (simp_all only: upsert_pattern_def upsert_filter_key
        scalar_one_or_none.simps res_bind.simps option.case Let_def simp_thms)
qed

lemma upsert_pattern_inv:
  assumes "patterns_inv s" and "new_uuid e s \<notin> cp_id ` set (patterns s)"
    and "upsert_pattern e v agg s = Inr (p, c, s')"
  shows "patterns_inv s' \<and> p \<in> set (patterns s') \<and> cp_key p = ag_key agg"
  using assms(1)
proof (cases rule: upsert_pattern_cases [where agg = agg and e = e and v = v])
  case created
  then show ?thesis using assms by (auto simp: patterns_inv_def new_pattern_def)
next
  case (existing q)
  then have eq: "p = reinforced e v agg q" "s' = put_pattern p s" using assms(3) by auto
  have "patterns_inv s'" unfolding eq by (rule put_pattern_inv [OF assms(1) existing(1)]) simp_all
  moreover have "p \<in> set (patterns s')"
    using existing(1) unfolding eq put_pattern_patterns set_replace_row by auto
  ultimately show ?thesis using existing eq by simp
qed

lemma fold_add_observation [simp]: "patterns (fold (add_observation e p) cs s) = patterns s"
  by (induction cs arbitrary: s) (simp_all add: add_observation_def)

lemma fold_add_observation_obs:
  "map (\<lambda>o'. (po_pattern_id o', po_artifact_type o', po_artifact_id o'))
      (observations (fold (add_observation e p) cs s)) =
   map (\<lambda>o'. (po_pattern_id o', po_artifact_type o', po_artifact_id o')) (observations s) @
   map (\<lambda>c. (cp_id p, pc_artifact_type c, pc_artifact_id c)) cs"
  by (induction cs arbitrary: s) (simp_all add: add_observation_def)

lemma observed_keys_alt:
  "observed_keys p s = {k. (cp_id p, k) \<in> set (map (\<lambda>o'. (po_pattern_id o', po_artifact_type o', po_artifact_id o')) (observations s))}"
  by (auto simp: observed_keys_def image_iff) metis

section \<open>Facts about aggregation\<close>

lemma group_insert_keys:
  "map fst (group_insert c gs) = (if pc_key c \<in> fst ` set gs then map fst gs else map fst gs @ [pc_key c])"
  by (induction c gs rule: group_insert.induct) auto

lemma group_insert_distinct: "distinct (map fst gs) \<Longrightarrow> distinct (map fst (group_insert c gs))"
  using group_insert_keys [of c gs] by (auto simp: image_iff)

lemma group_insert_lookup:
  "distinct (map fst gs) \<Longrightarrow>
   map_of (group_insert c gs) k =
     (if k = pc_key c then Some (case map_of gs k of None \<Rightarrow> [c] | Some cs \<Rightarrow> cs @ [c]) else map_of gs k)"
  by (induction c gs rule: group_insert.induct) auto

lemma fold_group_distinct: "distinct (map fst gs) \<Longrightarrow> distinct (map fst (fold group_insert cs gs))"
  by (induction cs arbitrary: gs) (simp_all add: group_insert_distinct del: distinct_map)

lemma fold_group_lookup:
  "distinct (map fst gs) \<Longrightarrow>
   map_of (fold group_insert cs gs) k =
     (let new = filter (\<lambda>c. pc_key c = k) cs in
      case map_of gs k of None \<Rightarrow> (if new = [] then None else Some new) | Some old \<Rightarrow> Some (old @ new))"
proof (induction cs arbitrary: gs)
  case (Cons c cs)
  show ?case
    unfolding fold_simps Cons.IH [OF group_insert_distinct [OF Cons.prems]]
    by (simp add: group_insert_lookup [OF Cons.prems] Let_def split: option.splits)
qed (simp split: option.splits)

lemma aggregate_groups:
  "a \<in> set (aggregate cs) \<longleftrightarrow>
     (\<exists>k. filter (\<lambda>c. pc_key c = k) cs \<noteq> [] \<and> a = summarize_group (k, filter (\<lambda>c. pc_key c = k) cs))"
proof -
  have d: "distinct (map fst (fold group_insert cs []))" by (rule fold_group_distinct) simp
  have mem: "(k, xs) \<in> set (fold group_insert cs []) \<longleftrightarrow> xs \<noteq> [] \<and> xs = filter (\<lambda>c. pc_key c = k) cs" for k xs
    using fold_group_lookup [of "[]" cs k] map_of_eq_Some_iff [OF d, of k xs]
    by (auto simp: Let_def split: if_splits)
  have "a \<in> set (aggregate cs) \<longleftrightarrow> (\<exists>k xs. (k, xs) \<in> set (fold group_insert cs []) \<and> a = summarize_group (k, xs))"
    by (auto simp: aggregate_def)
  then show ?thesis unfolding mem by blast
qed

lemma aggregate_key_list: "map ag_key (aggregate cs) = map fst (fold group_insert cs [])"
  by (auto simp: aggregate_def summarize_group_def Let_def split: prod.splits)

lemma aggregate_keys_distinct: "distinct (map ag_key (aggregate cs))"
  using fold_group_distinct [of "[]" cs] by (simp only: aggregate_key_list list.map distinct.simps simp_thms)

lemma aggregate_key_set: "ag_key ` set (aggregate cs) = pc_key ` set cs"
proof (rule set_eqI)
  fix k
  have "k \<in> set (map ag_key (aggregate cs)) \<longleftrightarrow> map_of (fold group_insert cs []) k \<noteq> None"
    unfolding aggregate_key_list by (simp add: map_of_eq_None_iff)
  also have "\<dots> \<longleftrightarrow> filter (\<lambda>c. pc_key c = k) cs \<noteq> []"
    using fold_group_lookup [of "[]" cs k] by (simp add: Let_def)
  also have "\<dots> \<longleftrightarrow> k \<in> pc_key ` set cs" by (auto simp: filter_empty_conv)
  finally show "k \<in> ag_key ` set (aggregate cs) \<longleftrightarrow> k \<in> pc_key ` set cs" by simp
qed

section \<open>Facts about injection\<close>

lemma select_matches_spec:
  "set (select_matches ok l acc ms) \<subseteq> set acc \<union> {m \<in> set ms. ok m} \<and>
   (int (length acc) < l \<longrightarrow> int (length (select_matches ok l acc ms)) \<le> l) \<and>
   (\<exists>zs. select_matches ok l acc ms = acc @ zs)"
proof (induction ms arbitrary: acc)
  case (Cons m ms)
  show ?case
  proof (cases "ok m \<and> int (length (acc @ [m])) < l")
    case True
    have "select_matches ok l acc (m # ms) = select_matches ok l (acc @ [m]) ms" using True by simp
    moreover obtain zs where "select_matches ok l (acc @ [m]) ms = acc @ m # zs"
      using Cons.IH [of "acc @ [m]"] by auto
    ultimately show ?thesis using Cons.IH [of "acc @ [m]"] True by auto
  next
    case False
    then show ?thesis using Cons.IH [of acc] by auto
  qed
qed simp

lemma find_relevant_members:
  assumes "find_relevant_patterns e s k emb types mc ms co bo l = Inr ms'" and "m \<in> set ms'"
  shows "pmt_pattern m \<in> set (patterns s) \<and> relevant_row s k types mc co (pmt_pattern m) \<and>
    m = make_match (now e) emb ms bo (pmt_pattern m)"
proof -
  let ?rows = "take (nat (max (l * 5) l)) (filter (relevant_row s k types mc co) (patterns s))"
  from assms have "m \<in> set (take (nat l) (sort_key match_rank (map (make_match (now e) emb ms bo) ?rows)))"
    by (auto simp: find_relevant_patterns_def Let_def split: if_splits)
  then have "m \<in> set (sort_key match_rank (map (make_match (now e) emb ms bo) ?rows))"
    by (rule in_set_takeD)
  then obtain p where "p \<in> set ?rows" and m: "m = make_match (now e) emb ms bo p" by auto
  then have "p \<in> set (filter (relevant_row s k types mc co) (patterns s))" by (blast dest: in_set_takeD)
  then show ?thesis using m by (simp add: make_match_def Let_def)
qed

lemma find_relevant_length:
  "find_relevant_patterns e s k emb types mc ms co bo l = Inr ms' \<Longrightarrow> int (length ms') \<le> max 0 l"
  by (auto simp: find_relevant_patterns_def Let_def split: if_splits)

lemma find_relevant_sorted:
  "find_relevant_patterns e s k emb types mc ms co bo l = Inr ms' \<Longrightarrow> sorted (map match_rank ms')"
  by (auto simp: find_relevant_patterns_def Let_def take_map [symmetric] sorted_wrt_take split: if_splits)

lemma fold_emit_applied:
  "event_types (fold (emit_applied e ch k op) ms s) = event_types s @ replicate (length ms) ''pattern.applied''"
proof (induction ms arbitrary: s)
  case (Cons m ms)
  then show ?case by (simp add: emit_applied_def)
qed simp

section \<open>Properties\<close>

text \<open>
  A decay pass only ever lowers trust: it keeps every pattern, changes nothing but its tier
  and staleness, moves the tier forward along auto, curated, deprecated or leaves it, and sets a
  staleness between 0 and 2.
\<close>

theorem decay_only_demotes:
  assumes "distinct (map cp_id (patterns s))" and "decay_patterns_operator py e i s = (Inr r, s')"
  shows "list_all2 (\<lambda>p q. q = p\<lparr>cp_trust_tier := cp_trust_tier q, cp_staleness_score := cp_staleness_score q\<rparr> \<and>
      tier_rank (cp_trust_tier p) \<le> tier_rank (cp_trust_tier q) \<and>
      0 \<le> cp_staleness_score q \<and> cp_staleness_score q \<le> 2) (patterns s) (patterns s')"
proof -
  from decay_operator_patterns [OF assms] obtain m f
    where ps: "patterns s' = map (\<lambda>p. decayed_row (evaluate p (now e) m f) p) (patterns s)" by blast
  have "tier_rank (cp_trust_tier p) \<le> tier_rank (do_new_tier (evaluate p (now e) m f))" for p
    using evaluate_tier by (rule tier.stage_mono)
  then show ?thesis
    using evaluate_staleness by (simp add: ps list_all2_map2 list_all2_same decayed_row_def)
qed

definition demo_py :: pylib where
  "demo_py = \<lparr>float_repr = (\<lambda>_. []), parse_float = (\<lambda>_. None), parse_int = (\<lambda>_. None), json_text = (\<lambda>_. []),
     isoformat = (\<lambda>_. [])\<rparr>"

definition demo_pattern :: canonical_pattern where
  "demo_pattern = \<lparr>cp_id = 1, cp_pattern_type = ''failure'', cp_content_key = ''k'', cp_structured_body = [],
     cp_embedding = None, cp_evidence_count = 1, cp_confidence = 35 / 100, cp_trust_tier = ''auto'',
     cp_first_observed_at = 0, cp_last_observed_at = 0, cp_last_reinforced_at = 0,
     cp_staleness_score = 0, cp_source_charter_ids = [3], cp_consolidation_version = 1\<rparr>"

definition demo_input :: op_input where
  "demo_input = \<lparr>oi_cycle_id = 4, oi_charter_id = 3, oi_job_id = 9, oi_job_type = ''decay_patterns'', oi_payload = []\<rparr>"

lemma demo_decay_runs: "\<exists>s'. decay_patterns_operator demo_py e demo_input s = (Inr OperatorResult, s')"
  by (simp add: decay_patterns_operator_def demo_input_def read_max_staleness_def Let_def split: prod.splits)

theorem decay_only_demotes_witness:
  "\<exists>s'. decay_patterns_operator demo_py demo_env demo_input (empty_db\<lparr>patterns := [demo_pattern]\<rparr>) =
       (Inr OperatorResult, s') \<and> length (patterns s') = 1"
proof -
  let ?s = "empty_db\<lparr>patterns := [demo_pattern]\<rparr>"
  obtain s' where s': "decay_patterns_operator demo_py demo_env demo_input ?s = (Inr OperatorResult, s')"
    using demo_decay_runs by blast
  have "distinct (map cp_id (patterns ?s))" by simp
  from decay_only_demotes [OF this s'] show ?thesis
    using s' by (auto dest: list_all2_lengthD)
qed

text \<open>
  Decay is not idempotent at one instant: an \<open>auto\<close> pattern that is two staleness windows old
  becomes \<open>curated\<close> in a first evaluation and \<open>deprecated\<close> in a second one at the same time.
\<close>

theorem decay_not_idempotent:
  assumes "cp_trust_tier p = ''auto''" and "2 \<le> decay_score t m p"
  shows "let q = decayed_row (evaluate p t m False) p; r = decayed_row (evaluate q t m False) q
    in cp_trust_tier q = ''curated'' \<and> cp_trust_tier r = ''deprecated''"
  using assms by (simp add: evaluate_def Let_def)

theorem decay_not_idempotent_witness:
  "2 \<le> decay_score (200 * 86400 * 1000000) 90 demo_pattern \<and>
   cp_trust_tier (decayed_row (evaluate demo_pattern (200 * 86400 * 1000000) 90 False) demo_pattern) = ''curated''"
proof -
  have old: "2 \<le> decay_score (200 * 86400 * 1000000) 90 demo_pattern"
    by (simp add: decay_score_def age_days_def demo_pattern_def)
  then show ?thesis
    using decay_not_idempotent [of demo_pattern "200 * 86400 * 1000000" 90]
    by (simp add: Let_def demo_pattern_def)
qed

text \<open>
  The confidence of mined evidence has a closed form: 0.35 for one observation, 0.10 more for
  each further one up to 0.80, and 0.10 more when several charters contribute, so it always lies
  between 0.35 and 0.90.
\<close>

theorem confidence_closed_form:
  assumes "1 \<le> ag_evidence_count agg"
  shows "compute_confidence agg =
      of_int (min (35 + 10 * (ag_evidence_count agg - 1)) 80 + (if cross_charter agg then 10 else 0)) / 100 \<and>
    35 / 100 \<le> compute_confidence agg \<and> compute_confidence agg \<le> 90 / 100"
  using compute_confidence_closed compute_confidence_bounds [OF assms] by blast

definition demo_candidate :: pattern_candidate where
  "demo_candidate = \<lparr>pc_pattern_type = ''failure'', pc_content_key = ''k'', pc_structured_body = [],
     pc_charter_id = 3, pc_cycle_id = 4, pc_artifact_type = ''postmortem'', pc_artifact_id = 5,
     pc_observed_at = 0, pc_contribution = None\<rparr>"

definition demo_aggregated :: aggregated_pattern where
  "demo_aggregated = summarize_group ((''failure'', ''k''), [demo_candidate, demo_candidate\<lparr>pc_artifact_id := 6\<rparr>])"

theorem confidence_closed_form_witness: "compute_confidence demo_aggregated = 45 / 100"
  using confidence_closed_form [of demo_aggregated]
  by (simp add: demo_aggregated_def summarize_group_def Let_def cross_charter_def demo_candidate_def)

text \<open>
  Upserting keeps the memory free of duplicates and never weakens it: with a fresh identifier
  the upsert succeeds, keys stay unique, exactly the row with the aggregate's key is created or
  reinforced, and a reinforced row loses neither evidence nor confidence.
\<close>

theorem upsert_pattern_reinforces:
  assumes inv: "patterns_inv s" and fresh: "new_uuid e s \<notin> cp_id ` set (patterns s)"
  shows "\<exists>p created s'. upsert_pattern e v agg s = Inr (p, created, s') \<and> patterns_inv s' \<and>
    p \<in> set (patterns s') \<and> cp_key p = ag_key agg \<and>
    (created \<longleftrightarrow> ag_key agg \<notin> cp_key ` set (patterns s)) \<and>
    (\<forall>q\<in>set (patterns s). if cp_key q = ag_key agg
       then cp_id p = cp_id q \<and> cp_evidence_count q \<le> cp_evidence_count p \<and> cp_confidence q \<le> cp_confidence p
       else q \<in> set (patterns s'))"
  using inv
proof (cases rule: upsert_pattern_cases [where agg = agg and e = e and v = v])
  case created
  then show ?thesis
    using upsert_pattern_inv [OF inv fresh created(2)] by (auto simp: image_iff)
next
  case (existing p)
  let ?p = "reinforced e v agg p"
  have inj: "inj_on cp_key (set (patterns s))" "inj_on cp_id (set (patterns s))"
    using inv by (simp_all add: patterns_inv_def distinct_map)
  have one: "q = p" if "q \<in> set (patterns s)" "cp_key q = ag_key agg" for q
    by (rule inj_onD [OF inj(1) _ that(1) existing(1)]) (simp only: that(2) existing(2))
  have keep: "q \<in> set (patterns (put_pattern ?p s))" if "q \<in> set (patterns s)" "q \<noteq> p" for q
  proof -
    have "cp_id q \<noteq> cp_id p"
      using inj_onD [OF inj(2) _ that(1) existing(1)] that(2) by blast
    then show ?thesis using that(1) unfolding put_pattern_patterns set_update_where by auto
  qed
  have grow: "cp_evidence_count p \<le> cp_evidence_count ?p" "cp_confidence p \<le> cp_confidence ?p"
    by (simp_all add: reinforced_def Let_def)
  have "ag_key agg \<in> cp_key ` set (patterns s)" using existing by force
  then show ?thesis
    using upsert_pattern_inv [OF inv fresh existing(3)] existing(3) one keep grow existing(2)
    by (intro exI [of _ ?p] exI [of _ False] exI [of _ "put_pattern ?p s"]) auto
qed

theorem upsert_pattern_reinforces_witness:
  "\<exists>p s'. upsert_pattern demo_env 1 demo_aggregated (empty_db\<lparr>patterns := [demo_pattern]\<rparr>) = Inr (p, False, s') \<and>
     35 / 100 \<le> cp_confidence p"
proof -
  let ?s = "empty_db\<lparr>patterns := [demo_pattern]\<rparr>"
  have "patterns_inv ?s" by (simp add: patterns_inv_def)
  moreover have "new_uuid demo_env ?s \<notin> cp_id ` set (patterns ?s)"
    by (simp add: new_uuid_def demo_env_def demo_pattern_def empty_db_def)
  ultimately show ?thesis
    using upsert_pattern_reinforces [of ?s demo_env 1 demo_aggregated]
    by (auto simp: demo_pattern_def demo_aggregated_def summarize_group_def Let_def)
qed

text \<open>
  Linking observations is idempotent: a second pass over the same aggregate inserts nothing.
\<close>

theorem upsert_observations_idempotent:
  "fst (upsert_observations e' p agg (snd (upsert_observations e p agg s))) = 0"
proof -
  have "(pc_artifact_type c, pc_artifact_id c) \<in> observed_keys p (snd (upsert_observations e p agg s))"
    if "c \<in> set (ag_candidates agg)" for c
    using that
    by (auto simp: upsert_observations_def Let_def observed_keys_alt fold_add_observation_obs
        simp del: set_map) (auto simp: image_iff)
  then show ?thesis by (auto simp: upsert_observations_def [of e'] Let_def filter_empty_conv)
qed

text \<open>
  Aggregation partitions the evidence: the aggregates have distinct keys, each holds exactly
  the candidates with its key in their order, and every candidate is in one of them.
\<close>

theorem aggregate_partitions:
  "distinct (map ag_key (aggregate cs)) \<and>
   (\<forall>a\<in>set (aggregate cs). ag_candidates a = filter (\<lambda>c. pc_key c = ag_key a) cs \<and>
      ag_evidence_count a = int (length (ag_candidates a)) \<and> ag_candidates a \<noteq> []) \<and>
   ag_key ` set (aggregate cs) = pc_key ` set cs"
proof (intro conjI ballI)
  show "distinct (map ag_key (aggregate cs))" by (rule aggregate_keys_distinct)
next
  fix a assume "a \<in> set (aggregate cs)"
  then obtain k where "filter (\<lambda>c. pc_key c = k) cs \<noteq> []" "a = summarize_group (k, filter (\<lambda>c. pc_key c = k) cs)"
    unfolding aggregate_groups by blast
  then show "ag_candidates a = filter (\<lambda>c. pc_key c = ag_key a) cs"
    "ag_evidence_count a = int (length (ag_candidates a))" "ag_candidates a \<noteq> []"
    by (auto simp: summarize_group_def Let_def split: prod.splits)
next
  show "ag_key ` set (aggregate cs) = pc_key ` set cs" by (rule aggregate_key_set)
qed

theorem aggregate_partitions_witness: "ag_key ` set (aggregate [demo_candidate]) = {(''failure'', ''k'')}"
  using aggregate_partitions [of "[demo_candidate]"] by (simp add: demo_candidate_def)


definition demo_policy :: injection_policy where
  "demo_policy = \<lparr>min_confidence_auto = 3 / 10, ip_max_staleness_days = 90, cross_charter_weight_boost = 115 / 100,
     ip_cross_charter_only = False, ip_limit = 10\<rparr>"


end
