(* ===== verification/Discovery_Pipeline.thy ===== *)
theory Discovery_Pipeline
  imports Pipeline_Stages Pipeline_Sessions Signals Skills Discovery_Ranking Patterns
begin

text \<open>
  The five discovery operators (\<open>libs/discovery/operators\<close>) with the reranker fallback
  (\<open>libs/discovery/rerank_strategy.py\<close>), and the discovery service with its endpoints
  (\<open>libs/core/services/discovery_service.py\<close>, \<open>apps/api/routers/discovery.py\<close>).

  Outside the repository's own logic are: the scoping, triage and critique models, the embedding service, the two
  sources (the full-text index and the arXiv client), the cross-encoder and the file system; they are the fields of
  \<open>discovery_ext\<close>.  A field that returns a text on the left raised an exception with that text.
\<close>

section \<open>Surroundings\<close>

record source_query =
  sq_text :: string
  sq_top_k :: int
  sq_categories :: "string list"

record scoping_packet =
  sc_dense_query :: string
  sc_synonyms :: "string list"
  sc_categories :: "string list"
  sc_exclusions :: "string list"

record rerank_doc =
  rd_id :: uuid
  rd_text :: string
  rd_first_stage_score :: "real option"

record metadata_packet =
  mp_shortlist_fit :: real
  mp_contribution_type :: string
  mp_dump :: dict

text \<open>What the cross-encoder does: scores, one of the three errors of its protocol, or any other exception.\<close>

datatype rerank_answer =
    Reranked string "(uuid \<times> real) list"
  | RerankerUnavailable string
  | RerankBudgetExceeded string
  | RerankerError string
  | RerankCrash string

record discovery_ext =
  dx_py :: pylib
  dx_sha1 :: "string \<Rightarrow> string"
  dx_scope :: "string \<Rightarrow> string \<Rightarrow> string \<Rightarrow> string + scoping_packet"
  dx_embed :: "string \<Rightarrow> real list option"
  dx_internal :: "source_query \<Rightarrow> string + source_hit list"
  dx_external :: "source_query \<Rightarrow> string + source_hit list"
  dx_rerank :: "json \<Rightarrow> string \<Rightarrow> rerank_doc list \<Rightarrow> int \<Rightarrow> real \<Rightarrow> rerank_answer"
  dx_analyze :: "string \<Rightarrow> string option \<Rightarrow> paper_card \<Rightarrow> string + metadata_packet"
  dx_critique :: "string \<Rightarrow> paper_card list \<Rightarrow> paper_card list \<Rightarrow> string \<Rightarrow> string + dict"
  dx_data_root :: string
  dx_markdown :: "discovery_session \<Rightarrow> problem_profile \<Rightarrow> paper_card list \<Rightarrow> paper_card list \<Rightarrow> dict \<Rightarrow> string"
  dx_write :: "string \<Rightarrow> string \<Rightarrow> string option"

section \<open>Shared steps\<close>

definition load_profile :: "db \<Rightarrow> uuid \<Rightarrow> problem_profile res" where
  "load_profile s = load_by_id pp_id (DiscoveryStateError ''problem profile not found'') (profiles (lib s))"

definition put_discovery :: "discovery_session \<Rightarrow> db \<Rightarrow> db" where
  "put_discovery d s = s\<lparr>discoveries := update_where (\<lambda>x. dis_id x = dis_id d) (\<lambda>_. d) (discoveries s)\<rparr>"

definition put_profile :: "problem_profile \<Rightarrow> db \<Rightarrow> db" where
  "put_profile p = upd_lib (\<lambda>l. l\<lparr>profiles := update_where (\<lambda>x. pp_id x = pp_id p) (\<lambda>_. p) (profiles l)\<rparr>)"

definition put_paper :: "paper_card \<Rightarrow> db \<Rightarrow> db" where
  "put_paper c = upd_lib (\<lambda>l. l\<lparr>papers := update_where (\<lambda>x. pc_id x = pc_id c) (\<lambda>_. c) (papers l)\<rparr>)"

definition session_papers :: "db \<Rightarrow> uuid \<Rightarrow> paper_card list" where
  "session_papers s sid = filter (\<lambda>c. pc_session_id c = sid) (papers (lib s))"

text \<open>
  The common frame: a missing id, session or profile is a failed result; what follows works on the loaded rows and
  answers the result and the store to keep, which for an early return is the one it was given.
\<close>

definition with_discovery ::
  "op_input \<Rightarrow> db \<Rightarrow> (discovery_session \<Rightarrow> problem_profile \<Rightarrow> (op_result \<times> db) res) \<Rightarrow> op_result res \<times> db" where
  "with_discovery i s f =
    (case session_id_from_payload i of
       Inl (DiscoveryStateError m) \<Rightarrow> (Inr (op_fail m), s)
     | Inl err \<Rightarrow> (Inl err, s)
     | Inr sid \<Rightarrow>
        (case res_bind (load_session s sid) (\<lambda>d. res_bind (load_profile s (dis_profile_id d)) (\<lambda>p. Inr (d, p))) of
           Inl (DiscoveryStateError m) \<Rightarrow> (Inr (op_fail m), s)
         | Inl err \<Rightarrow> (Inl err, s)
         | Inr (d, p) \<Rightarrow> committed s (f d p)))"

definition hand_over :: "env \<Rightarrow> discovery_session \<Rightarrow> string \<Rightarrow> db \<Rightarrow> uuid \<times> db" where
  "hand_over e d next_type s = discovery_enqueue_next e (dis_cycle_id d) next_type (dis_id d) s"

abbreviation JStrs :: "string list \<Rightarrow> json" where
  "JStrs ts \<equiv> JList (map JStr ts)"

definition opt_text :: "string option \<Rightarrow> json" where
  "opt_text t = (case t of None \<Rightarrow> JNull | Some x \<Rightarrow> JStr x)"

section \<open>Intake\<close>

definition scope_artifact :: "scoping_packet \<Rightarrow> dict" where
  "scope_artifact p =
     [(''derived_query'', JStr (sc_dense_query p)), (''synonyms'', JStrs (sc_synonyms p)),
      (''categories'', JStrs (sc_categories p)), (''exclusions'', JStrs (sc_exclusions p)),
      (''skill_id'', JStr ''literature.problem_scoping'')]"

definition skill_warning_entry :: "string \<Rightarrow> dict" where
  "skill_warning_entry w = [(''skill_id'', JStr ''literature.problem_scoping''), (''warning'', JStr w)]"

text \<open>The scoping skill: a warning in the log, or hints in the profile's source scope.\<close>

definition run_scoping ::
  "discovery_ext \<Rightarrow> env \<Rightarrow> skill_prompt_result \<Rightarrow> discovery_session \<Rightarrow> problem_profile
   \<Rightarrow> discovery_session \<times> problem_profile \<times> json" where
  "run_scoping x e skill d p =
    (case kp_warning skill of
       Some (c # w) \<Rightarrow> (discovery_append_step_log e ''intake'' ''warning'' (skill_warning_entry (c # w)) d, p, JNull)
     | _ \<Rightarrow>
        (case kp_prompt skill of
           Some (c # t) \<Rightarrow>
             (case dx_scope x (pp_query_text p) (pp_notes p) (c # t) of
                Inl err \<Rightarrow>
                  (discovery_append_step_log e ''intake'' ''warning''
                     (skill_warning_entry (''problem scoping skill failed: '' @ err)) d, p, JNull)
              | Inr packet \<Rightarrow>
                  (d, p\<lparr>pp_source_scope := Some (dset (opt_dict (pp_source_scope p)) ''search_hints'' (JObj (scope_artifact packet)))\<rparr>,
                   JObj (scope_artifact packet)))
         | _ \<Rightarrow> (d, p, JNull)))"

definition opt_obj :: "dict option \<Rightarrow> json" where
  "opt_obj d = (case d of None \<Rightarrow> JNull | Some x \<Rightarrow> JObj x)"

definition intake_result :: "discovery_session \<Rightarrow> uuid \<Rightarrow> op_result" where
  "intake_result d job_id =
     add_event (op_patch Cy_discovery_ready) ''discovery.intake_completed''
       [(''session_id'', JUuid (dis_id d)), (''next_job_id'', JUuid job_id)]"

definition intake_body ::
  "discovery_ext \<Rightarrow> env \<Rightarrow> db \<Rightarrow> discovery_session \<Rightarrow> problem_profile \<Rightarrow> (op_result \<times> db) res" where
  "intake_body x e s d p =
     res_bind (load_skill_prompt s ''literature.problem_scoping'' ''discovery_intake'') (\<lambda>skill.
       case run_scoping x e skill ((discovery_mark_started_if_needed e d)\<lparr>dis_status := ''intake_complete'', dis_error := None\<rparr>) p of
         (d1, p1, scoped) \<Rightarrow>
           let d2 = discovery_merge_stats [(''view_preference'', JStr (pp_view_preference p1)),
                      (''source_scope'', opt_obj (pp_source_scope p1)), (''scoped_query'', scoped)] d1;
               d3 = discovery_append_step_log e ''intake'' ''ok''
                      [(''query_text_chars'', JInt (int (length (pp_query_text p1)))),
                       (''view_preference'', JStr (pp_view_preference p1)), (''scoped_query'', scoped)] d2
           in case hand_over e d3 ''discovery_search'' (put_discovery d3 (put_profile p1 s)) of
                (job_id, s') \<Rightarrow> Inr (intake_result d3 job_id, s'))"

definition discovery_intake_operator :: "discovery_ext \<Rightarrow> env \<Rightarrow> operator" where
  "discovery_intake_operator x e i s = with_discovery i s (intake_body x e s)"

section \<open>Search\<close>

record scope_flags =
  use_internal :: bool
  use_arxiv :: bool

definition scope_flag :: "dict option \<Rightarrow> string \<Rightarrow> bool" where
  "scope_flag sc key = (case map_of (opt_dict sc) key of None \<Rightarrow> True | Some v \<Rightarrow> truthy v)"

definition scope_flags_of :: "dict option \<Rightarrow> scope_flags" where
  "scope_flags_of sc = \<lparr>use_internal = scope_flag sc ''internal_corpus'', use_arxiv = scope_flag sc ''arxiv_live''\<rparr>"

text \<open>\<open>dict(x or {})\<close> on a JSON value.\<close>

definition as_dict_res :: "json \<Rightarrow> dict res" where
  "as_dict_res j = (case or_dict j of JObj d \<Rightarrow> Inr d | _ \<Rightarrow> Inl TypeError)"

definition stripped_items :: "pylib \<Rightarrow> json \<Rightarrow> string list res" where
  "stripped_items py j =
     res_bind (py_iter (or_list j)) (\<lambda>xs. Inr (filter (\<lambda>t. t \<noteq> []) (map (\<lambda>x. py_strip (py_str (float_repr py) x)) xs)))"

definition search_hints :: "pylib \<Rightarrow> dict option \<Rightarrow> (string option \<times> string list \<times> string list) res" where
  "search_hints py sc =
     res_bind (as_dict_res (dget (opt_dict sc) ''search_hints'')) (\<lambda>hints.
     res_bind (stripped_items py (dget hints ''synonyms'')) (\<lambda>synonyms.
     res_bind (stripped_items py (dget hints ''categories'')) (\<lambda>cats.
       let q = dget hints ''derived_query''
       in Inr (if truthy q then Some (py_strip (py_str (float_repr py) q)) else None, synonyms, cats))))"

definition spaces_for_underscores :: "string \<Rightarrow> string" where
  "spaces_for_underscores t = py_strip (map (\<lambda>c. if c = CHR ''_'' then CHR '' '' else c) t)"

text \<open>One term of a pattern: its text with spaces, unless it is no text, blank or already there.\<close>

definition add_term :: "json \<Rightarrow> string list \<Rightarrow> string list" where
  "add_term v terms =
    (case v of
       JStr t \<Rightarrow>
         let term = spaces_for_underscores t
         in if py_strip t = [] \<or> term = [] \<or> term \<in> set terms then terms else terms @ [term]
     | _ \<Rightarrow> terms)"

definition add_category :: "pylib \<Rightarrow> string list \<Rightarrow> json \<Rightarrow> string list \<Rightarrow> string list" where
  "add_category py given v extra =
    (let t = py_strip (py_str (float_repr py) v) in if t = [] \<or> t \<in> set given \<or> t \<in> set extra then extra else extra @ [t])"

definition hint_step ::
  "pylib \<Rightarrow> string list \<Rightarrow> pattern_match \<Rightarrow> string list \<times> string list \<times> uuid list \<Rightarrow> (string list \<times> string list \<times> uuid list) res" where
  "hint_step py given m acc =
    (case acc of (terms, extra, ids) \<Rightarrow>
      let body = cp_structured_body (pmt_pattern m); terms1 = add_term (dget body ''heuristic_kind'') terms
      in res_bind (jget_or (or_dict (dget body ''parameters'')) ''next_action'' JNull) (\<lambda>next_action.
           Inr (add_term next_action terms1,
                (case or_list (dget body ''categories'') of JList vs \<Rightarrow> fold (add_category py given) vs extra | _ \<Rightarrow> extra),
                ids @ [cp_id (pmt_pattern m)])))"

fun hint_loop ::
  "pylib \<Rightarrow> string list \<Rightarrow> pattern_match list \<Rightarrow> string list \<times> string list \<times> uuid list \<Rightarrow> (string list \<times> string list \<times> uuid list) res" where
  "hint_loop py given [] acc = Inr acc"
| "hint_loop py given (m # ms) acc = res_bind (hint_step py given m acc) (hint_loop py given ms)"

definition apply_pattern_hints ::
  "pylib \<Rightarrow> string \<Rightarrow> string list \<Rightarrow> pattern_match list \<Rightarrow> (string \<times> string list \<times> uuid list) res" where
  "apply_pattern_hints py query cats matches =
     res_bind (hint_loop py cats matches ([], [], [])) (\<lambda>(terms, extra, ids).
       Inr (if terms = [] then query else py_strip (join_with '' '' (query # terms)), cats @ extra, ids))"

text \<open>The validation of \<open>SourceQuery\<close>.\<close>

definition source_query_of :: "string \<Rightarrow> int \<Rightarrow> string list \<Rightarrow> string + source_query" where
  "source_query_of text top_k cats =
    (if text = [] \<or> top_k < 1 \<or> 2000 < top_k then Inl ''validation error for SourceQuery''
     else Inr \<lparr>sq_text = text, sq_top_k = top_k, sq_categories = cats\<rparr>)"

definition ask :: "(source_query \<Rightarrow> string + source_hit list) \<Rightarrow> string \<Rightarrow> int \<Rightarrow> string list \<Rightarrow> string + source_hit list" where
  "ask search text top_k cats = (case source_query_of text top_k cats of Inl err \<Rightarrow> Inl err | Inr q \<Rightarrow> search q)"

record search_outcome =
  so_hits :: "source_hit list"
  so_counts :: "(string \<times> int) list"

definition scored :: "(string \<Rightarrow> string) \<Rightarrow> (string \<times> real) list \<Rightarrow> source_hit \<Rightarrow> source_hit" where
  "scored sha1 fused h = h\<lparr>sh_first_stage_score := Some (case map_of fused (dedupe_key sha1 h) of None \<Rightarrow> 0 | Some v \<Rightarrow> v)\<rparr>"

definition fuse_sources :: "discovery_ext \<Rightarrow> scope_flags \<Rightarrow> int \<Rightarrow> source_hit list \<Rightarrow> source_hit list \<Rightarrow> search_outcome" where
  "fuse_sources x fl external_top_k internal external =
    (let key = dedupe_key (dx_sha1 x);
         rankings = filter (\<lambda>r. r \<noteq> []) [ranked_keys [] (map key internal), ranked_keys [] (map key external)];
         fused = normalize_scores (rrf_fuse 60 rankings)
     in case dedupe_hits (dx_sha1 x) (internal @ external) of (deduped, dropped) \<Rightarrow>
          \<lparr>so_hits = map (scored (dx_sha1 x) fused) deduped,
           so_counts = (if use_internal fl then [(''internal_corpus'', int (length internal))] else []) @
             (if use_arxiv fl \<and> external_top_k > 0 then [(''arxiv_live'', int (length external))] else []) @
             [(''dropped_duplicates'', int dropped), (''deduped'', int (length deduped)), (''sources_fused'', int (length rankings))]\<rparr>)"

text \<open>An error of the internal source ends the search; one of the external source counts as no hits.\<close>

definition run_search ::
  "discovery_ext \<Rightarrow> string \<Rightarrow> string list \<Rightarrow> scope_flags \<Rightarrow> dict \<Rightarrow> exc + search_outcome" where
  "run_search x text cats fl budget =
     res_bind (py_int (dx_py x) (dget_or budget ''max_internal_results'' (JInt 200))) (\<lambda>ik.
     res_bind (py_int (dx_py x) (dget_or budget ''max_external_results'' (JInt 50))) (\<lambda>ek.
     res_bind (if use_internal fl
               then (case ask (dx_internal x) text ik cats of Inl err \<Rightarrow> Inl (ExternalError err) | Inr hs \<Rightarrow> Inr hs)
               else Inr []) (\<lambda>internal.
       Inr (fuse_sources x fl ek internal
              (if use_arxiv fl \<and> ek > 0 then (case ask (dx_external x) text ek cats of Inl _ \<Rightarrow> [] | Inr hs \<Rightarrow> hs) else [])))))"

definition hit_to_card :: "env \<Rightarrow> (string \<Rightarrow> string) \<Rightarrow> discovery_session \<Rightarrow> uuid \<Rightarrow> source_hit \<Rightarrow> paper_card" where
  "hit_to_card e sha1 d i h =
     \<lparr>pc_id = i, pc_session_id = dis_id d, pc_charter_id = dis_charter_id d, pc_source = sh_source h,
      pc_external_id = sh_external_id h, pc_dedupe_key = dedupe_key sha1 h, pc_title = sh_title h,
      pc_abstract = sh_abstract h, pc_authors = sh_authors h, pc_categories = sh_categories h, pc_venue = sh_venue h,
      pc_year = sh_year h, pc_doi = sh_doi h, pc_source_url = sh_source_url h, pc_pdf_url = sh_pdf_url h,
      pc_embedding = sh_embedding h, pc_bm25_score = sh_bm25_score h, pc_dense_score = sh_dense_score h,
      pc_first_stage_score = sh_first_stage_score h, pc_rerank_score = None, pc_final_score = sh_first_stage_score h,
      pc_view_membership = None, pc_triage_status = ''discovered'', pc_triage_reason = None, pc_metadata_analysis = JNull,
      pc_analysis_status = ''not_analyzed'', pc_created_at = now e, pc_updated_at = now e\<rparr>"

text \<open>The unique constraint \<open>uq_paper_cards_session_dedupe\<close>.\<close>

definition dedupe_constraint :: "paper_card list \<Rightarrow> bool" where
  "dedupe_constraint tbl \<longleftrightarrow> distinct (map (\<lambda>c. (pc_session_id c, pc_dedupe_key c)) tbl)"

definition insert_papers :: "paper_card list \<Rightarrow> db \<Rightarrow> db res" where
  "insert_papers cs s =
    (if dedupe_constraint (papers (lib s) @ cs) then Inr (upd_lib (\<lambda>l. l\<lparr>papers := papers l @ cs\<rparr>) s) else Inl IntegrityError)"

definition int_dict :: "(string \<times> int) list \<Rightarrow> dict" where
  "int_dict = map (\<lambda>(k, n). (k, JInt n))"

definition count_of :: "(string \<times> int) list \<Rightarrow> string \<Rightarrow> int" where
  "count_of counts k = (case map_of counts k of None \<Rightarrow> 0 | Some n \<Rightarrow> n)"

definition scope_dict :: "scope_flags \<Rightarrow> dict" where
  "scope_dict fl = [(''internal_corpus'', JBool (use_internal fl)), (''arxiv_live'', JBool (use_arxiv fl))]"

definition search_result :: "discovery_session \<Rightarrow> scope_flags \<Rightarrow> string \<Rightarrow> string list \<Rightarrow> (string \<times> int) list \<Rightarrow> op_result" where
  "search_result d fl query cats counts =
     add_event (add_event OperatorResult ''discovery.papers_discovered''
       [(''session_id'', JUuid (dis_id d)), (''counts'', JObj (int_dict counts)), (''scope'', JObj (scope_dict fl)),
        (''query_text'', JStr query), (''categories'', JStrs cats)])
       ''discovery.sources_deduped''
       [(''session_id'', JUuid (dis_id d)), (''deduped'', JInt (count_of counts ''deduped'')),
        (''dropped'', JInt (count_of counts ''dropped_duplicates''))]"

definition persist_search ::
  "discovery_ext \<Rightarrow> env \<Rightarrow> discovery_session \<Rightarrow> scope_flags \<Rightarrow> string \<Rightarrow> string list \<Rightarrow> uuid list \<Rightarrow> search_outcome \<Rightarrow> db \<Rightarrow> (op_result \<times> db) res" where
  "persist_search x e d fl query cats ids out s =
    (case fresh_rows e (hit_to_card e (dx_sha1 x) d) (so_hits out) s of (new, s1) \<Rightarrow>
      res_bind (insert_papers new s1) (\<lambda>s2.
        let d1 = discovery_merge_stats [(''search'', JObj (int_dict (so_counts out)))] (d\<lparr>dis_status := ''search_complete''\<rparr>);
            d2 = discovery_append_step_log e ''search'' ''ok''
                   [(''scope'', JObj (scope_dict fl)), (''query_text'', JStr query), (''categories'', JStrs cats),
                    (''pattern_ids'', JList (map JUuid ids)), (''counts'', JObj (int_dict (so_counts out)))] d1
        in Inr (search_result d fl query cats (so_counts out),
                snd (hand_over e d2 ''discovery_rerank'' (put_discovery d2 s2)))))"

text \<open>The query text: the derived query if there is one, with up to eight synonyms.\<close>

definition base_query :: "problem_profile \<Rightarrow> string option \<Rightarrow> string list \<Rightarrow> string" where
  "base_query p derived synonyms =
    (let q = (case derived of Some (c # t) \<Rightarrow> c # t | _ \<Rightarrow> pp_query_text p)
     in if synonyms = [] then q else join_with '' '' (q # take 8 synonyms))"

definition search_error_text :: "exc \<Rightarrow> string" where
  "search_error_text err = (case err of ExternalError t \<Rightarrow> t | ValueError t \<Rightarrow> t | _ \<Rightarrow> [])"

definition search_body ::
  "discovery_ext \<Rightarrow> env \<Rightarrow> db \<Rightarrow> discovery_session \<Rightarrow> problem_profile \<Rightarrow> (op_result \<times> db) res" where
  "search_body x e s d p =
    (let fl = scope_flags_of (pp_source_scope p); budget = opt_dict (pp_budget p) in
     res_bind (search_hints (dx_py x) (pp_source_scope p)) (\<lambda>(derived, synonyms, cats).
     res_bind (from_cycle_config (dx_py x) (case get_cycle s (dis_cycle_id d) of None \<Rightarrow> None | Some c \<Rightarrow> cy_config c)) (\<lambda>pol.
     res_bind (inject_patterns e (dis_charter_id d) (Some (dis_cycle_id d)) [''retrieval_heuristic''] pol
                 (dx_embed x (base_query p derived synonyms)) (Some ''discovery_search'') True s) (\<lambda>(matches, s1).
     res_bind (apply_pattern_hints (dx_py x) (base_query p derived synonyms) cats matches) (\<lambda>(query, cats', ids).
       case run_search x query cats' fl budget of
         Inl err \<Rightarrow> Inr (op_fail (''discovery_search failed: '' @ search_error_text err), s)
       | Inr out \<Rightarrow> persist_search x e d fl query cats' ids out s1)))))"

definition discovery_search_operator :: "discovery_ext \<Rightarrow> env \<Rightarrow> operator" where
  "discovery_search_operator x e i s = with_discovery i s (search_body x e s)"

section \<open>Rerank\<close>

definition build_doc_text :: "paper_card \<Rightarrow> string" where
  "build_doc_text c = py_strip (pc_title c @ [CHR 10, CHR 10] @ pc_abstract c)"

definition rerank_doc_of :: "paper_card \<Rightarrow> rerank_doc" where
  "rerank_doc_of c = \<lparr>rd_id = pc_id c, rd_text = build_doc_text c, rd_first_stage_score = pc_first_stage_score c\<rparr>"

definition doc_score :: "rerank_doc \<Rightarrow> real" where
  "doc_score d = (case rd_first_stage_score d of None \<Rightarrow> 0 | Some v \<Rightarrow> v)"

text \<open>\<open>NoOpReranker.rerank\<close>: the first-stage scores, best first; ties keep the order of the input.\<close>

definition no_op_rerank :: "int \<Rightarrow> rerank_doc list \<Rightarrow> (uuid \<times> real) list" where
  "no_op_rerank top_k docs = map (\<lambda>d. (rd_id d, doc_score d)) (py_take top_k (sort_key (\<lambda>d. - doc_score d) docs))"

record rerank_outcome =
  ro_results :: "(uuid \<times> real) list"
  ro_used_reranker :: string
  ro_fallback_reason :: "string option"

definition fallback :: "int \<Rightarrow> rerank_doc list \<Rightarrow> string \<Rightarrow> rerank_outcome" where
  "fallback top_k docs reason =
     \<lparr>ro_results = no_op_rerank top_k docs, ro_used_reranker = ''no_op'', ro_fallback_reason = Some reason\<rparr>"

text \<open>An error of the reranker's protocol falls back, any other exception is raised.\<close>

definition run_rerank ::
  "(json \<Rightarrow> string \<Rightarrow> rerank_doc list \<Rightarrow> int \<Rightarrow> real \<Rightarrow> rerank_answer) \<Rightarrow> json \<Rightarrow> string \<Rightarrow> rerank_doc list
   \<Rightarrow> bool \<Rightarrow> int \<Rightarrow> real \<Rightarrow> string + rerank_outcome" where
  "run_rerank rerank model query docs enabled top_k budget_seconds =
    (if \<not> enabled then Inr (fallback top_k docs ''policy_disabled'')
     else case rerank model query docs top_k budget_seconds of
       Reranked name results \<Rightarrow> Inr \<lparr>ro_results = results, ro_used_reranker = name, ro_fallback_reason = None\<rparr>
     | RerankerUnavailable m \<Rightarrow> Inr (fallback top_k docs (''unavailable:'' @ m))
     | RerankBudgetExceeded m \<Rightarrow> Inr (fallback top_k docs (''budget_exceeded:'' @ m))
     | RerankerError m \<Rightarrow> Inr (fallback top_k docs (''error:'' @ m))
     | RerankCrash m \<Rightarrow> Inl m)"

text \<open>A card without a final score takes its first-stage score.\<close>

definition snapshot_score :: "paper_card \<Rightarrow> paper_card" where
  "snapshot_score c = (if pc_final_score c = None then c\<lparr>pc_final_score := pc_first_stage_score c\<rparr> else c)"

text \<open>The score map is a dictionary: of two results for one paper the later counts.\<close>

definition apply_rerank :: "(uuid \<times> real) list \<Rightarrow> paper_card \<Rightarrow> paper_card" where
  "apply_rerank results c =
    (case map_of (rev results) (pc_id c) of
       None \<Rightarrow> c
     | Some v \<Rightarrow> c\<lparr>pc_rerank_score := Some v, pc_final_score := Some v\<rparr>)"

definition put_papers :: "paper_card list \<Rightarrow> db \<Rightarrow> db" where
  "put_papers cs s = fold put_paper cs s"

definition rerank_stats :: "paper_card list \<Rightarrow> paper_card list \<Rightarrow> rerank_outcome \<Rightarrow> dict" where
  "rerank_stats cs pool out =
     [(''candidates'', JInt (int (length cs))), (''rerank_pool'', JInt (int (length pool))),
      (''used_reranker'', JStr (ro_used_reranker out)), (''fallback_reason'', opt_text (ro_fallback_reason out))]"

definition rerank_result :: "discovery_session \<Rightarrow> paper_card list \<Rightarrow> rerank_outcome \<Rightarrow> op_result" where
  "rerank_result d pool out =
    (case ro_fallback_reason out of
       Some reason \<Rightarrow> add_event OperatorResult ''discovery.rerank_skipped''
         [(''session_id'', JUuid (dis_id d)), (''used_reranker'', JStr (ro_used_reranker out)), (''reason'', JStr reason)]
     | None \<Rightarrow> add_event OperatorResult ''discovery.rerank_completed''
         [(''session_id'', JUuid (dis_id d)), (''used_reranker'', JStr (ro_used_reranker out)),
          (''rerank_pool'', JInt (int (length pool)))])"

definition persist_rerank ::
  "env \<Rightarrow> discovery_session \<Rightarrow> paper_card list \<Rightarrow> paper_card list \<Rightarrow> rerank_outcome \<Rightarrow> db \<Rightarrow> op_result \<times> db" where
  "persist_rerank e d cs pool out s =
    (let s1 = put_papers (map (apply_rerank (ro_results out)) pool) (put_papers cs s);
         d1 = discovery_merge_stats [(''rerank'', JObj (rerank_stats cs pool out))] (d\<lparr>dis_status := ''rerank_complete''\<rparr>);
         d2 = discovery_append_step_log e ''rerank'' ''ok'' (rerank_stats cs pool out) d1
     in (rerank_result d pool out, snd (hand_over e d2 ''discovery_analyze'' (put_discovery d2 s1))))"

definition rerank_body ::
  "discovery_ext \<Rightarrow> env \<Rightarrow> db \<Rightarrow> discovery_session \<Rightarrow> problem_profile \<Rightarrow> (op_result \<times> db) res" where
  "rerank_body x e s d p =
    (let policy = opt_dict (pp_rerank_policy p); enabled = truthy (dget_or policy ''enabled'' (JBool True)) in
     res_bind (py_int (dx_py x) (dget_or policy ''top_n'' (JInt 100))) (\<lambda>top_n.
     res_bind (py_float (dx_py x) (dget_or policy ''budget_seconds'' (JFloat 30))) (\<lambda>budget_seconds.
       let cs = map snapshot_score (desc_nulls_last pc_first_stage_score (session_papers s (dis_id d)));
           pool = py_take top_n cs
       in case run_rerank (dx_rerank x) (dget policy ''model'') (pp_query_text p) (map rerank_doc_of pool) enabled top_n
                 budget_seconds of
            Inl err \<Rightarrow> Inr (op_fail (''discovery_rerank failed: '' @ err), s)
          | Inr out \<Rightarrow> Inr (persist_rerank e d cs pool out s))))"

definition discovery_rerank_operator :: "discovery_ext \<Rightarrow> env \<Rightarrow> operator" where
  "discovery_rerank_operator x e i s = with_discovery i s (rerank_body x e s)"

section \<open>Metadata analysis\<close>

text \<open>
  \<open>analyze_many\<close>: one answer per paper, in the order of the papers; a negative bound on the number of concurrent
  calls is refused (0, which \<open>DiscoveryBudget\<close> has no field for, would wait for ever).
\<close>

definition analyze_many ::
  "(string \<Rightarrow> string option \<Rightarrow> paper_card \<Rightarrow> string + metadata_packet) \<Rightarrow> string \<Rightarrow> string option \<Rightarrow> int \<Rightarrow> paper_card list
   \<Rightarrow> string + (uuid \<times> (string + metadata_packet)) list" where
  "analyze_many analyze problem prompt concurrency cs =
    (if concurrency < 0 then Inl ''Semaphore initial value must be >= 0''
     else Inr (map (\<lambda>c. (pc_id c, analyze problem prompt c)) cs))"

definition analyzed_card :: "paper_card \<Rightarrow> string + metadata_packet \<Rightarrow> paper_card" where
  "analyzed_card c r =
     c\<lparr>pc_metadata_analysis := JObj (case r of Inl err \<Rightarrow> [(''error'', JStr err)] | Inr packet \<Rightarrow> mp_dump packet)\<rparr>"

definition analyzed_event :: "discovery_session \<Rightarrow> uuid \<times> (string + metadata_packet) \<Rightarrow> (string \<times> dict) list" where
  "analyzed_event d r =
    (case snd r of
       Inl _ \<Rightarrow> []
     | Inr packet \<Rightarrow> [(''discovery.paper_metadata_analyzed'',
         [(''session_id'', JUuid (dis_id d)), (''paper_id'', JUuid (fst r)), (''shortlist_fit'', JFloat (mp_shortlist_fit packet)),
          (''contribution_type'', JStr (mp_contribution_type packet))])])"

definition succeeded :: "(uuid \<times> (string + metadata_packet)) list \<Rightarrow> nat" where
  "succeeded rs = length (filter (\<lambda>r. \<not> isl (snd r)) rs)"

definition analyze_stats :: "int \<Rightarrow> (uuid \<times> (string + metadata_packet)) list \<Rightarrow> string list \<Rightarrow> dict" where
  "analyze_stats top_n rs warns =
     [(''analyze_top_n'', JInt top_n), (''candidates'', JInt (int (length rs))), (''analyzed'', JInt (int (succeeded rs))),
      (''failed'', JInt (int (length rs - succeeded rs))), (''skill_warnings'', JStrs warns)]"

definition log_warnings :: "env \<Rightarrow> string \<Rightarrow> string list \<Rightarrow> discovery_session \<Rightarrow> discovery_session" where
  "log_warnings e step warns d =
     fold (\<lambda>w. discovery_append_step_log e step ''warning'' [(''warning'', JStr w)]) warns d"

definition warnings_of :: "skill_prompt_result list \<Rightarrow> string list" where
  "warnings_of ks = concat (map (\<lambda>k. case kp_warning k of Some (c # w) \<Rightarrow> [c # w] | _ \<Rightarrow> []) ks)"

definition persist_analysis ::
  "env \<Rightarrow> discovery_session \<Rightarrow> int \<Rightarrow> paper_card list \<Rightarrow> (uuid \<times> (string + metadata_packet)) list \<Rightarrow> string list \<Rightarrow> db
   \<Rightarrow> op_result \<times> db" where
  "persist_analysis e d top_n cs rs warns s =
    (let s1 = put_papers (map2 (\<lambda>c r. analyzed_card c (snd r)) cs rs) s;
         stats = analyze_stats top_n rs warns;
         d1 = discovery_merge_stats [(''analyze'', JObj stats)] (d\<lparr>dis_status := ''analyze_complete'', dis_error := None\<rparr>);
         d2 = discovery_append_step_log e ''analyze'' (if succeeded rs = length rs then ''ok'' else ''partial'') stats
                (log_warnings e ''analyze'' warns d1)
     in (OperatorResult\<lparr>or_events := concat (map (analyzed_event d) rs)\<rparr>,
         snd (hand_over e d2 ''discovery_finalize'' (put_discovery d2 s1))))"

text \<open>\<open>LIMIT n\<close>; the database refuses a negative one.\<close>

definition sql_limit :: "int \<Rightarrow> 'r list \<Rightarrow> 'r list res" where
  "sql_limit n rows = (if n < 0 then Inl (ExternalError ''LIMIT must not be negative'') else Inr (take (nat n) rows))"

definition analyze_body ::
  "discovery_ext \<Rightarrow> env \<Rightarrow> db \<Rightarrow> discovery_session \<Rightarrow> problem_profile \<Rightarrow> (op_result \<times> db) res" where
  "analyze_body x e s d p =
    (let budget = opt_dict (pp_budget p) in
     res_bind (py_int (dx_py x) (dget_or budget ''analyze_top_n'' (JInt 25))) (\<lambda>top_n.
     res_bind (load_skill_prompt s ''literature.title_abstract_triage'' ''discovery_analyze'') (\<lambda>triage.
     res_bind (load_skill_prompt s ''literature.escalation_rationale'' ''discovery_analyze'') (\<lambda>escalation.
     res_bind (sql_limit top_n (desc_nulls_last pc_final_score (session_papers s (dis_id d)))) (\<lambda>cs.
       let prompt = join_skill_prompts [kp_prompt triage, kp_prompt escalation]; warns = warnings_of [triage, escalation]
       in case (if cs = [] then Inr []
                else case py_int (dx_py x) (dget_or budget ''analyze_concurrency'' (JInt 4)) of
                       Inl err \<Rightarrow> Inl (search_error_text err)
                     | Inr n \<Rightarrow> analyze_many (dx_analyze x) (pp_query_text p) prompt n cs) of
            Inl err \<Rightarrow> Inr (op_fail (''discovery_analyze failed: '' @ err), s)
          | Inr rs \<Rightarrow> Inr (persist_analysis e d top_n cs rs warns s))))))"

definition discovery_analyze_operator :: "discovery_ext \<Rightarrow> env \<Rightarrow> operator" where
  "discovery_analyze_operator x e i s = with_discovery i s (analyze_body x e s)"

section \<open>Finalize\<close>

definition view_cards :: "paper_card list \<Rightarrow> string \<Rightarrow> int \<Rightarrow> int \<Rightarrow> real \<Rightarrow> paper_card list \<times> paper_card list" where
  "view_cards cs pref stable_k discovery_k lam =
     (if pref \<in> {''stable'', ''both''} then build_stable_view cs stable_k else [],
      if pref \<in> {''discovery'', ''both''} then build_discovery_view cs discovery_k lam else [])"

text \<open>Membership is written afresh; a card in a view that is still only discovered becomes shortlisted.\<close>

definition place_card :: "paper_card list \<times> paper_card list \<Rightarrow> paper_card \<Rightarrow> paper_card" where
  "place_card views c =
    (let membership = (if pc_id c \<in> pc_id ` set (fst views) then [''stable''] else []) @
                      (if pc_id c \<in> pc_id ` set (snd views) then [''discovery''] else [])
     in c\<lparr>pc_view_membership := (if membership = [] then None else Some membership),
          pc_triage_status := (if membership \<noteq> [] \<and> pc_triage_status c = ''discovered'' then ''shortlisted'' else pc_triage_status c)\<rparr>)"

definition finalize_stats :: "paper_card list \<Rightarrow> paper_card list \<times> paper_card list \<Rightarrow> dict" where
  "finalize_stats placed views =
     [(''total_cards'', JInt (int (length placed))), (''stable_view_size'', JInt (int (length (fst views)))),
      (''discovery_view_size'', JInt (int (length (snd views)))),
      (''shortlisted'', JInt (int (length (filter (\<lambda>c. pc_view_membership c \<noteq> None) placed))))]"

text \<open>The critique of the shortlist is advisory: a failure is one more warning.\<close>

definition run_critique ::
  "discovery_ext \<Rightarrow> problem_profile \<Rightarrow> paper_card list \<times> paper_card list \<Rightarrow> string option \<Rightarrow> dict \<times> string list" where
  "run_critique x p views prompt =
    (case prompt of
       None \<Rightarrow> ([], [])
     | Some t \<Rightarrow>
        (case dx_critique x (pp_query_text p) (fst views) (snd views) t of
           Inl err \<Rightarrow> ([], [''shortlist critique skill failed: '' @ err])
         | Inr packet \<Rightarrow> ([(''shortlist_critique'', JObj packet)], [])))"

definition warning_stats :: "string list \<Rightarrow> dict" where
  "warning_stats warns = (if warns = [] then [] else [(''finalize_skill_warnings'', JStrs warns)])"

definition report_file :: "discovery_ext \<Rightarrow> uuid \<Rightarrow> string" where
  "report_file x sid = dx_data_root x @ ''/artifacts/discovery/'' @ uuid_str sid @ ''/report.md''"

definition failed_report :: "env \<Rightarrow> discovery_session \<Rightarrow> dict \<Rightarrow> dict \<Rightarrow> string \<Rightarrow> db \<Rightarrow> op_result \<times> db" where
  "failed_report e d fin stats error s =
    (let d1 = discovery_merge_stats stats (snd (discovery_mark_failed e ''finalize'' error ((''report_path'', JNull) # fin) d))
     in (add_event (op_fail error) ''discovery.session_failed''
           [(''session_id'', JUuid (dis_id d)), (''operator'', JStr ''discovery_finalize''), (''error'', JStr error)],
         put_discovery d1 s))"

definition finalized ::
  "env \<Rightarrow> discovery_session \<Rightarrow> dict \<Rightarrow> dict \<Rightarrow> string list \<Rightarrow> string \<Rightarrow> paper_card list \<times> paper_card list \<Rightarrow> db \<Rightarrow> op_result \<times> db" where
  "finalized e d fin stats warns path views s =
    (let d1 = d\<lparr>dis_status := ''completed'', dis_completed_at := Some (now e), dis_report_path := Some path, dis_error := None\<rparr>;
         d2 = discovery_append_step_log e ''finalize'' ''ok'' ((''report_path'', JStr path) # fin)
                (log_warnings e ''finalize'' warns (discovery_merge_stats stats d1))
     in (add_event (add_event ((op_patch Cy_discovery_screened)\<lparr>or_artifacts := [path]\<rparr>) ''discovery.view_built''
           [(''session_id'', JUuid (dis_id d)), (''stable'', JInt (int (length (fst views)))),
            (''discovery'', JInt (int (length (snd views))))])
           ''discovery.session_finalized''
           [(''session_id'', JUuid (dis_id d)), (''report_path'', JStr path), (''stats'', JObj fin)],
         put_discovery d2 s))"

text \<open>
  The bundle is three files; its markdown is what the store keeps of it.  The document is rendered from the session
  as it was loaded and from the old statistics with the new ones merged in.
\<close>

definition write_report ::
  "discovery_ext \<Rightarrow> env \<Rightarrow> discovery_session \<Rightarrow> problem_profile \<Rightarrow> paper_card list \<times> paper_card list \<Rightarrow> dict \<Rightarrow> dict
   \<Rightarrow> string list \<Rightarrow> db \<Rightarrow> op_result \<times> db" where
  "write_report x e d p views fin stats warns s =
    (let path = report_file x (dis_id d);
         text = dx_markdown x d p (map (place_card views) (fst views)) (map (place_card views) (snd views))
                  (dupdate (opt_dict (dis_stats d)) stats)
     in case dx_write x path text of
          Some err \<Rightarrow> failed_report e d fin stats (''discovery_finalize report write failed: '' @ err) s
        | None \<Rightarrow> finalized e d fin stats warns path views (s\<lparr>disk := dset (disk s) path text\<rparr>))"

definition finalize_body ::
  "discovery_ext \<Rightarrow> env \<Rightarrow> db \<Rightarrow> discovery_session \<Rightarrow> problem_profile \<Rightarrow> (op_result \<times> db) res" where
  "finalize_body x e s d p =
    (let budget = opt_dict (pp_budget p); cs = desc_nulls_last pc_final_score (session_papers s (dis_id d)) in
     res_bind (py_int (dx_py x) (dget_or budget ''stable_top_k'' (JInt 25))) (\<lambda>stable_k.
     res_bind (py_int (dx_py x) (dget_or budget ''discovery_top_k'' (JInt 25))) (\<lambda>discovery_k.
     res_bind (py_float (dx_py x) (dget_or budget ''discovery_mmr_lambda'' (JFloat (7 / 10)))) (\<lambda>lam.
     res_bind (load_skill_prompt s ''literature.shortlist_critique'' ''discovery_finalize'') (\<lambda>shortlist.
     res_bind (load_skill_prompt s ''literature.escalation_rationale'' ''discovery_finalize'') (\<lambda>escalation.
       let pref = (if pp_view_preference p = [] then ''both'' else pp_view_preference p);
           views = view_cards cs pref stable_k discovery_k lam;
           placed = map (place_card views) cs;
           shown = (map (place_card views) (fst views), map (place_card views) (snd views));
           fin = finalize_stats placed views;
           critique = run_critique x p shown (join_skill_prompts [kp_prompt shortlist, kp_prompt escalation]);
           warns = warnings_of [shortlist, escalation] @ snd critique;
           stats = (''finalize'', JObj fin) # fst critique @ warning_stats warns
       in Inr (write_report x e d p views fin stats warns (put_papers placed s))))))))"

definition discovery_finalize_operator :: "discovery_ext \<Rightarrow> env \<Rightarrow> operator" where
  "discovery_finalize_operator x e i s = with_discovery i s (finalize_body x e s)"

section \<open>Stages of the pipeline\<close>

lemma load_by_id_Inr: "load_by_id key err rows k = Inr r \<Longrightarrow> key r = k \<and> r \<in> set rows"
proof -
  assume r: "load_by_id key err rows k = Inr r"
  then have "filter (\<lambda>r. key r = k) rows = [r]"
    by (cases "filter (\<lambda>r. key r = k) rows" rule: scalar_one_or_none.cases) (auto simp: load_by_id_def)
  then have "r \<in> set (filter (\<lambda>r. key r = k) rows)" by simp
  then show ?thesis by simp
qed

text \<open>Either nothing is kept and the result is no success, or the body ran on the rows the payload names.\<close>

lemma with_discovery_cases:
  assumes "with_discovery i s f = (res, s')"
  shows "(s' = s \<and> (\<forall>r. res = Inr r \<longrightarrow> \<not> or_success r)) \<or>
    (\<exists>d p r. UUID_of (dget (oi_payload i) ''session_id'') = Inr (dis_id d) \<and> d \<in> set (discoveries s) \<and>
       p \<in> set (profiles (lib s)) \<and> pp_id p = dis_profile_id d \<and> f d p = Inr (r, s') \<and> res = Inr r)"
proof (cases "session_id_from_payload i")
  case (Inl err)
  then show ?thesis using assms by (cases err) (auto simp: with_discovery_def OperatorResult_def)
next
  case (Inr sid)
  have sid: "UUID_of (dget (oi_payload i) ''session_id'') = Inr sid"
    using Inr by (auto simp: session_id_from_payload_def id_from_payload_def Let_def split: if_splits)
  show ?thesis
  proof (cases "res_bind (load_session s sid) (\<lambda>d. res_bind (load_profile s (dis_profile_id d)) (\<lambda>p. Inr (d, p)))")
    case (Inl err)
    then show ?thesis using assms Inr by (cases err) (auto simp: with_discovery_def OperatorResult_def)
  next
    case (Inr dp)
    obtain d p where dp: "load_session s sid = Inr d" "load_profile s (dis_profile_id d) = Inr p" "dp = (d, p)"
      using Inr by (auto simp: res_bind_Inr_iff)
    have rows: "dis_id d = sid" "d \<in> set (discoveries s)" "pp_id p = dis_profile_id d" "p \<in> set (profiles (lib s))"
      using load_by_id_Inr [OF dp(1) [unfolded load_session_def]] load_by_id_Inr [OF dp(2) [unfolded load_profile_def]]
      by simp_all
    have run: "with_discovery i s f = committed s (f d p)"
      using Inr dp \<open>session_id_from_payload i = Inr sid\<close> by (simp add: with_discovery_def)
    show ?thesis
    proof (cases "f d p")
      case (Inl err)
      then show ?thesis using assms run by (auto simp: committed_def)
    next
      case (Inr out)
      then obtain r s1 where "f d p = Inr (r, s1)" by (cases out) simp
      then have "res = Inr r" "f d p = Inr (r, s')" using assms run by (simp_all add: committed_def)
      then show ?thesis using rows sid by metis
    qed
  qed
qed

lemma jobs_put [simp]:
  "jobs (put_discovery d s) = jobs s" "jobs (put_profile p s) = jobs s" "jobs (put_paper c s) = jobs s"
  by (simp_all add: put_discovery_def put_profile_def put_paper_def)

lemma jobs_put_papers [simp]: "jobs (put_papers cs s) = jobs s"
  unfolding put_papers_def by (induction cs arbitrary: s) auto

lemma jobs_insert_papers: "insert_papers cs s = Inr s' \<Longrightarrow> jobs s' = jobs s"
  by (auto simp: insert_papers_def split: if_splits)

lemma jobs_fresh_rows [simp]: "jobs (snd (fresh_rows e mk xs s)) = jobs s"
  by (simp add: fresh_rows_store)

lemma jobs_inject_patterns:
  "inject_patterns e c cc ty pol emb op au s = Inr (ms, s') \<Longrightarrow> jobs s' = jobs s"
proof -
  have f: "jobs (fold (emit_applied e c cc op) ms s) = jobs s" for ms s
    by (induction ms arbitrary: s) (auto simp: emit_applied_def emit_event_sync_def tick_uuid_def Let_def)
  show "inject_patterns e c cc ty pol emb op au s = Inr (ms, s') \<Longrightarrow> jobs s' = jobs s"
    by (auto simp: inject_patterns_def res_bind_Inr_iff Let_def f split: if_splits)
qed

definition hands_over :: "discovery_session \<Rightarrow> string \<Rightarrow> db \<Rightarrow> db \<Rightarrow> bool" where
  "hands_over d ty s s' \<longleftrightarrow>
     (\<exists>j. jobs s' = jobs s @ [j] \<and> j_type j = ty \<and> j_status j = Js_pending \<and>
          j_payload j = Some [(''session_id'', JUuid (dis_id d))])"

lemma hand_over_hands: "jobs s1 = jobs s \<Longrightarrow> dis_id d1 = dis_id d \<Longrightarrow> hands_over d ty s (snd (hand_over e d1 ty s1))"
  by (simp add: hands_over_def hand_over_def discovery_enqueue_next_def create_job_def tick_uuid_def Let_def split: prod.split)

lemma dis_id_steps [simp]:
  "dis_id (discovery_append_step_log e st stt dt d) = dis_id d" "dis_id (discovery_merge_stats x d) = dis_id d"
  "dis_id (discovery_mark_started_if_needed e d) = dis_id d" "dis_id (snd (discovery_mark_failed e st m dt d)) = dis_id d"
  by (simp_all add: discovery_append_step_log_def discovery_merge_stats_def discovery_mark_started_if_needed_def
      discovery_mark_failed_def)

lemma dis_id_log_warnings [simp]: "dis_id (log_warnings e step warns d) = dis_id d"
  unfolding log_warnings_def by (induction warns arbitrary: d) auto

text \<open>A body that enqueues one job exactly when it succeeds makes a stage.\<close>

lemma stage_of_body:
  assumes op: "\<And>i s. op i s = with_discovery i s (body s)"
    and body: "\<And>s d p r s'. body s d p = Inr (r, s') \<Longrightarrow>
      (if or_success r then hands_over d ty s s' else jobs s' = jobs s)"
  shows "pipeline_stage op ''session_id'' ty"
proof unfold_locales
  fix i s r s'
  assume run: "op i s = (Inr r, s')" and ok: "or_success r"
  then obtain d p where "UUID_of (dget (oi_payload i) ''session_id'') = Inr (dis_id d)" "body s d p = Inr (r, s')"
    using with_discovery_cases [OF run [unfolded op]] by auto
  then show "\<exists>j. jobs s' = jobs s @ [j] \<and> handed_over ''session_id'' ty i j"
    using body [of s d p r s'] ok by (auto simp: hands_over_def handed_over_def)
next
  fix i s res s'
  assume run: "op i s = (res, s')" and no: "\<forall>r. res = Inr r \<longrightarrow> \<not> or_success r"
  from with_discovery_cases [OF run [unfolded op]] show "jobs s' = jobs s"
    using no body by (metis (no_types, lifting))
qed

lemma run_scoping_id: "run_scoping x e k d p = (d', p', j) \<Longrightarrow> dis_id d' = dis_id d"
  by (auto simp: run_scoping_def split: option.splits list.splits sum.splits)

lemma hand_over_hands_pair: "hand_over e d1 ty s1 = (k, s') \<Longrightarrow> jobs s1 = jobs s \<Longrightarrow> dis_id d1 = dis_id d \<Longrightarrow> hands_over d ty s s'"
  using hand_over_hands [of s1 s d1 d ty e] by simp

lemma intake_body_hands: "intake_body x e s d p = Inr (r, s') \<Longrightarrow> or_success r \<and> hands_over d ''discovery_search'' s s'"
  unfolding intake_body_def Let_def
  by (elim res_bind_InrE)
     (auto simp: intake_result_def add_event_def OperatorResult_def dest!: run_scoping_id
       split: prod.split_asm intro: hand_over_hands_pair)

lemma persist_search_hands:
  "persist_search x e d fl q cs ids out s = Inr (r, s') \<Longrightarrow> or_success r \<and> hands_over d ''discovery_rerank'' s s'"
  by (auto simp: persist_search_def res_bind_Inr_iff Let_def search_result_def add_event_def OperatorResult_def
      dest!: jobs_insert_papers fresh_rows_Pair split: prod.split_asm intro!: hand_over_hands)

lemma lib_inject_patterns:
  "inject_patterns e c cc ty pol emb op au s = Inr (ms, s') \<Longrightarrow> lib s' = lib s"
proof -
  have f: "lib (fold (emit_applied e c cc op) ms s) = lib s" for ms s
    by (induction ms arbitrary: s) (auto simp: emit_applied_def emit_event_sync_def tick_uuid_def Let_def)
  show "inject_patterns e c cc ty pol emb op au s = Inr (ms, s') \<Longrightarrow> lib s' = lib s"
    by (auto simp: inject_patterns_def res_bind_Inr_iff Let_def f split: if_splits)
qed

text \<open>A search either failed and kept nothing, or persisted what the sources answered.\<close>

lemma search_body_cases:
  assumes "search_body x e s d p = Inr (r, s')"
  shows "(\<not> or_success r \<and> s' = s) \<or>
    (\<exists>q cs ids out s1. run_search x q cs (scope_flags_of (pp_source_scope p)) (opt_dict (pp_budget p)) = Inr out \<and>
       jobs s1 = jobs s \<and> lib s1 = lib s \<and>
       persist_search x e d (scope_flags_of (pp_source_scope p)) q cs ids out s1 = Inr (r, s'))"
proof -
  note body = assms [unfolded search_body_def Let_def]
  obtain derived synonyms cats where h: "search_hints (dx_py x) (pp_source_scope p) = Inr (derived, synonyms, cats)"
    using body by (elim res_bind_InrE) auto
  note body = body [unfolded h res_bind.simps prod.case]
  obtain pol ms s1 where i: "inject_patterns e (dis_charter_id d) (Some (dis_cycle_id d)) [''retrieval_heuristic''] pol
      (dx_embed x (base_query p derived synonyms)) (Some ''discovery_search'') True s = Inr (ms, s1)"
    and rest: "res_bind (apply_pattern_hints (dx_py x) (base_query p derived synonyms) cats ms) (\<lambda>(query, cats', ids).
       case run_search x query cats' (scope_flags_of (pp_source_scope p)) (opt_dict (pp_budget p)) of
         Inl err \<Rightarrow> Inr (op_fail (''discovery_search failed: '' @ search_error_text err), s)
       | Inr out \<Rightarrow> persist_search x e d (scope_flags_of (pp_source_scope p)) query cats' ids out s1) = Inr (r, s')"
    using body by (elim res_bind_InrE) auto
  obtain q cs' ids where "apply_pattern_hints (dx_py x) (base_query p derived synonyms) cats ms = Inr (q, cs', ids)"
    using rest by (elim res_bind_InrE) auto
  note rest = rest [unfolded this res_bind.simps prod.case]
  show ?thesis
  proof (cases "run_search x q cs' (scope_flags_of (pp_source_scope p)) (opt_dict (pp_budget p))")
    case (Inl err)
    then show ?thesis using rest by (auto simp: OperatorResult_def)
  next
    case (Inr out)
    then have "persist_search x e d (scope_flags_of (pp_source_scope p)) q cs' ids out s1 = Inr (r, s')" using rest by simp
    then show ?thesis using Inr jobs_inject_patterns [OF i] lib_inject_patterns [OF i] by blast
  qed
qed

lemma search_body_hands:
  assumes "search_body x e s d p = Inr (r, s')"
  shows "if or_success r then hands_over d ''discovery_rerank'' s s' else jobs s' = jobs s"
  using search_body_cases [OF assms] by (auto simp: hands_over_def dest!: persist_search_hands)

lemma rerank_body_hands:
  assumes "rerank_body x e s d p = Inr (r, s')"
  shows "if or_success r then hands_over d ''discovery_analyze'' s s' else jobs s' = jobs s"
  using assms unfolding rerank_body_def Let_def
  by (elim res_bind_InrE)
     (auto simp: OperatorResult_def persist_rerank_def rerank_result_def add_event_def Let_def
       intro!: hand_over_hands split: sum.split_asm option.splits)

lemma analyze_body_hands:
  assumes "analyze_body x e s d p = Inr (r, s')"
  shows "if or_success r then hands_over d ''discovery_finalize'' s s' else jobs s' = jobs s"
  using assms unfolding analyze_body_def Let_def
  by (elim res_bind_InrE)
     (auto simp: OperatorResult_def persist_analysis_def Let_def intro!: hand_over_hands split: sum.split_asm)

lemma finalize_body_jobs: "finalize_body x e s d p = Inr (r, s') \<Longrightarrow> jobs s' = jobs s"
  unfolding finalize_body_def Let_def
  by (elim res_bind_InrE) (auto simp: write_report_def failed_report_def finalized_def Let_def split: option.split_asm)

interpretation intake: pipeline_stage "discovery_intake_operator x e" "''session_id''" "''discovery_search''" for x e
  by (rule stage_of_body [OF discovery_intake_operator_def]) (simp add: intake_body_hands)

interpretation search: pipeline_stage "discovery_search_operator x e" "''session_id''" "''discovery_rerank''" for x e
  by (rule stage_of_body [OF discovery_search_operator_def]) (rule search_body_hands)

interpretation rerank: pipeline_stage "discovery_rerank_operator x e" "''session_id''" "''discovery_analyze''" for x e
  by (rule stage_of_body [OF discovery_rerank_operator_def]) (rule rerank_body_hands)

interpretation analyze: pipeline_stage "discovery_analyze_operator x e" "''session_id''" "''discovery_finalize''" for x e
  by (rule stage_of_body [OF discovery_analyze_operator_def]) (rule analyze_body_hands)

lemma finalize_jobs: "jobs (snd (discovery_finalize_operator x e i s)) = jobs s"
  using with_discovery_cases [of i s "finalize_body x e s" "fst (discovery_finalize_operator x e i s)"
      "snd (discovery_finalize_operator x e i s)"] finalize_body_jobs
  by (auto simp: discovery_finalize_operator_def)

definition discovery_stages :: "discovery_ext \<Rightarrow> (string \<times> (env \<Rightarrow> operator)) list" where
  "discovery_stages x =
     [(''discovery_intake'', discovery_intake_operator x), (''discovery_search'', discovery_search_operator x),
      (''discovery_rerank'', discovery_rerank_operator x), (''discovery_analyze'', discovery_analyze_operator x),
      (''discovery_finalize'', discovery_finalize_operator x)]"

lemma discovery_staged: "staged ''session_id'' (discovery_stages x)"
  unfolding discovery_stages_def
  by (intro staged.intros finalize_jobs intake.pipeline_stage_axioms search.pipeline_stage_axioms
      rerank.pipeline_stage_axioms analyze.pipeline_stage_axioms)

end
