(* ===== verification/Analysis_Documents.thy ===== *)
theory Analysis_Documents
  imports Discovery_Pipeline
begin

text \<open>
  The first half of the analysis pipeline: fetching the full text of a paper (\<open>libs/analysis/ingestion.py\<close>), cutting it
  into chunks (\<open>libs/analysis/chunking.py\<close>) and the operators around them
  (\<open>libs/analysis/operators/ingest.py\<close>, \<open>chunk.py\<close>).  The two fetchers, the embedding service and SHA-256 are
  the fields of \<open>document_ext\<close>.  The text fields of the dumped ingestion schemas hold texts.
\<close>

section \<open>Surroundings\<close>

record ingestion_result =
  ir_content :: string
  ir_sections :: "dict list"
  ir_figures :: "dict list"
  ir_tables :: "dict list"
  ir_equations :: "dict list"
  ir_fetch_method :: string
  ir_source_url :: string
  ir_quality_score :: real
  ir_quality :: dict

record document_ext =
  ad_py :: pylib
  ad_sha256 :: "string \<Rightarrow> string"
  ad_html :: "string \<Rightarrow> string option \<Rightarrow> string + ingestion_result"
  ad_pdf :: "string \<Rightarrow> string option \<Rightarrow> string + ingestion_result"
  ad_embed :: "string list \<Rightarrow> string + real list list"

text \<open>Unlike the discovery operators these do not catch a missing id or session.\<close>

definition with_analysis :: "op_input \<Rightarrow> db \<Rightarrow> (analysis_session \<Rightarrow> (op_result \<times> db) res) \<Rightarrow> op_result res \<times> db" where
  "with_analysis i s f =
    (case res_bind (analysis_session_id_from_payload i) (load_analysis_session s) of
       Inl err \<Rightarrow> (Inl err, s)
     | Inr a \<Rightarrow> committed s (f a))"

definition put_analysis :: "analysis_session \<Rightarrow> db \<Rightarrow> db" where
  "put_analysis a s = s\<lparr>analyses := update_where (\<lambda>x. an_id x = an_id a) (\<lambda>_. a) (analyses s)\<rparr>"

text \<open>A failure branch commits the marked session with whatever the step had added before it failed.\<close>

definition fail_analysis :: "env \<Rightarrow> string \<Rightarrow> string \<Rightarrow> analysis_session \<Rightarrow> db \<Rightarrow> (op_result \<times> db) res" where
  "fail_analysis e step error a s = Inr (op_fail error, put_analysis (snd (analysis_mark_failed e step error [] a)) s)"

definition analysis_event :: "env \<Rightarrow> string \<Rightarrow> analysis_session \<Rightarrow> dict \<Rightarrow> db \<Rightarrow> db" where
  "analysis_event e et a payload s =
     emit_event_sync e et (Some (an_charter_id a)) (Some (an_cycle_id a))
       (Some ((''analysis_session_id'', JUuid (an_id a)) # payload)) Actor_system None s"

definition analysis_hand_over :: "env \<Rightarrow> analysis_session \<Rightarrow> string \<Rightarrow> db \<Rightarrow> db" where
  "analysis_hand_over e a next_type s = snd (analysis_enqueue_next e (an_cycle_id a) next_type (an_id a) s)"

text \<open>The end of a step that succeeds: log, statistics, event and the next job.\<close>

definition finish_step ::
  "env \<Rightarrow> string \<Rightarrow> string \<Rightarrow> dict \<Rightarrow> dict \<Rightarrow> string \<Rightarrow> dict \<Rightarrow> string \<Rightarrow> analysis_session \<Rightarrow> db \<Rightarrow> db" where
  "finish_step e step status detail stats et payload next_type a s =
    (let a1 = analysis_merge_stats stats (analysis_append_step_log e step ''ok'' detail (a\<lparr>an_status := status\<rparr>))
     in analysis_hand_over e a1 next_type (analysis_event e et a1 payload (put_analysis a1 s)))"

section \<open>Fetching\<close>

text \<open>HTML first; a failure or a low quality falls back to the PDF, in the last resort at the page's own address.\<close>

definition fetch_fulltext :: "document_ext \<Rightarrow> string \<Rightarrow> string option \<Rightarrow> real \<Rightarrow> string + ingestion_result" where
  "fetch_fulltext x paper_url pdf_url threshold =
    (let html = (case ad_html x paper_url pdf_url of
                   Inl _ \<Rightarrow> None
                 | Inr r \<Rightarrow> if ir_quality_score r \<ge> threshold then Some r else None);
         pdf = (case html of
                  Some r \<Rightarrow> Some r
                | None \<Rightarrow>
                    (case pdf_url of
                       Some (c # u) \<Rightarrow> (case ad_pdf x paper_url pdf_url of Inl _ \<Rightarrow> None | Inr r \<Rightarrow> Some r)
                     | _ \<Rightarrow> None))
     in case pdf of Some r \<Rightarrow> Inr r | None \<Rightarrow> ad_pdf x paper_url (Some paper_url))"

definition document_row :: "env \<Rightarrow> document_ext \<Rightarrow> analysis_session \<Rightarrow> uuid \<Rightarrow> ingestion_result \<Rightarrow> ingested_document" where
  "document_row e x a k r =
     \<lparr>dc_id = k, dc_session_id = an_id a, dc_paper_id = an_paper_card_id a, dc_fetch_method = ir_fetch_method r,
      dc_source_url = ir_source_url r, dc_raw_content = ir_content r, dc_sections = ir_sections r,
      dc_figures = ir_figures r, dc_tables = ir_tables r, dc_equations = ir_equations r, dc_quality = ir_quality r,
      dc_content_hash = ad_sha256 x (ir_content r), dc_created_at = now e\<rparr>"

text \<open>The unique constraint \<open>uq_ingested_documents_session\<close>: after a refused insert the session cannot commit either.\<close>

definition insert_document :: "ingested_document \<Rightarrow> db \<Rightarrow> db res" where
  "insert_document d s =
    (if \<exists>d'\<in>set (documents (lib s)). dc_session_id d' = dc_session_id d then Inl IntegrityError
     else Inr (upd_lib (\<lambda>l. l\<lparr>documents := documents l @ [d]\<rparr>) s))"

definition ingest_body :: "document_ext \<Rightarrow> env \<Rightarrow> db \<Rightarrow> analysis_session \<Rightarrow> (op_result \<times> db) res" where
  "ingest_body x e s a0 =
    (let a = (analysis_mark_started_if_needed e a0)\<lparr>an_status := ''ingesting''\<rparr> in
     res_bind (scalar_one_or_none (filter (\<lambda>c. pc_id c = an_paper_card_id a) (papers (lib s)))) (\<lambda>found.
       case found of
         None \<Rightarrow> fail_analysis e ''ingest'' ''paper card not found'' a s
       | Some paper \<Rightarrow>
          let paper_url = (case pc_source_url paper of None \<Rightarrow> [] | Some u \<Rightarrow> u);
              no_pdf = (case pc_pdf_url paper of Some (c # u) \<Rightarrow> False | _ \<Rightarrow> True)
          in if paper_url = [] \<and> no_pdf then fail_analysis e ''ingest'' ''no URL available for paper'' a s
             else case py_float (ad_py x) (dget_or (analysis_budget a) ''html_quality_threshold'' (JFloat (1 / 2))) of
               Inl err \<Rightarrow> fail_analysis e ''ingest'' (search_error_text err) a s
             | Inr threshold \<Rightarrow>
                (case fetch_fulltext x paper_url (pc_pdf_url paper) threshold of
                   Inl err \<Rightarrow> fail_analysis e ''ingest'' err a s
                 | Inr r \<Rightarrow>
                     let doc = document_row e x a (new_uuid e s) r; quality = dget (dc_quality doc) ''quality_score'' in
                     res_bind (insert_document doc (tick_uuid s)) (\<lambda>s1.
                       Inr (OperatorResult,
                         finish_step e ''ingest'' ''ingested''
                           [(''fetch_method'', JStr (dc_fetch_method doc)), (''content_hash'', JStr (dc_content_hash doc)),
                            (''quality_score'', quality)]
                           [(''fetch_method'', JStr (dc_fetch_method doc)), (''content_hash'', JStr (dc_content_hash doc))]
                           ''analysis.paper_ingested''
                           [(''paper_card_id'', JUuid (an_paper_card_id a)), (''fetch_method'', JStr (dc_fetch_method doc)),
                            (''quality_score'', quality)]
                           ''analysis_chunk'' a (put_paper (paper\<lparr>pc_analysis_status := ''analyzing''\<rparr>) s1))))))"

definition analysis_ingest_operator :: "document_ext \<Rightarrow> env \<Rightarrow> operator" where
  "analysis_ingest_operator x e i s = with_analysis i s (ingest_body x e s)"

section \<open>Chunking\<close>

text \<open>A text field of a dumped schema; absent and null count as the empty text.\<close>

definition field_text :: "dict \<Rightarrow> string \<Rightarrow> string" where
  "field_text d k = (case dget d k of JStr t \<Rightarrow> t | _ \<Rightarrow> [])"

record chunk_piece =
  pi_type :: string
  pi_section_path :: "string option"
  pi_content :: string
  pi_metadata :: dict

definition paragraphs_of :: "string \<Rightarrow> string list" where
  "paragraphs_of content = filter (\<lambda>p. p \<noteq> []) (map py_strip (split_char (CHR 10) content))"

text \<open>One section: itself if it has at most one paragraph, its paragraphs otherwise.\<close>

definition section_pieces :: "dict \<Rightarrow> chunk_piece list" where
  "section_pieces sec =
    (let heading = field_text sec ''heading''; content = field_text sec ''content''; level = dget_or sec ''level'' (JInt 1);
         paras = paragraphs_of content
     in if length paras \<le> 1
        then [\<lparr>pi_type = ''section'', pi_section_path = Some heading, pi_content = content, pi_metadata = [(''level'', level)]\<rparr>]
        else map (\<lambda>p. \<lparr>pi_type = ''paragraph'', pi_section_path = Some heading, pi_content = p,
                       pi_metadata = [(''level'', level), (''parent_section'', JStr heading)]\<rparr>) paras)"

text \<open>A blank section is skipped; the bound is only looked at after a whole section.\<close>

fun section_loop :: "int \<Rightarrow> chunk_piece list \<Rightarrow> dict list \<Rightarrow> chunk_piece list" where
  "section_loop max_chunks acc [] = acc"
| "section_loop max_chunks acc (sec # secs) =
    (if py_strip (field_text sec ''content'') = [] then section_loop max_chunks acc secs
     else let acc' = acc @ section_pieces sec
          in if max_chunks \<le> int (length acc') then acc' else section_loop max_chunks acc' secs)"

fun item_loop :: "int \<Rightarrow> (dict \<Rightarrow> chunk_piece) \<Rightarrow> chunk_piece list \<Rightarrow> dict list \<Rightarrow> chunk_piece list" where
  "item_loop max_chunks mk acc [] = acc"
| "item_loop max_chunks mk acc (x # xs) =
    (if max_chunks \<le> int (length acc) then acc else item_loop max_chunks mk (acc @ [mk x]) xs)"

definition captioned :: "string \<Rightarrow> dict \<Rightarrow> string" where
  "captioned name d =
    (let caption = field_text d ''caption''; desc = field_text d ''content_description''
     in name @ '' '' @ field_text d ''id'' @ '': '' @ caption @
        (if desc \<noteq> [] \<and> desc \<noteq> caption then CHR 10 # desc else []))"

definition figure_piece :: "dict \<Rightarrow> chunk_piece" where
  "figure_piece d = \<lparr>pi_type = ''figure'', pi_section_path = None, pi_content = captioned ''Figure'' d,
     pi_metadata = [(''figure_id'', dget d ''id''), (''page'', dget d ''page'')]\<rparr>"

definition table_piece :: "dict \<Rightarrow> chunk_piece" where
  "table_piece d = \<lparr>pi_type = ''table'', pi_section_path = None, pi_content = captioned ''Table'' d,
     pi_metadata = [(''table_id'', dget d ''id''), (''page'', dget d ''page'')]\<rparr>"

definition equation_piece :: "dict \<Rightarrow> chunk_piece" where
  "equation_piece d =
    (let ctx = field_text d ''context''
     in \<lparr>pi_type = ''equation'', pi_section_path = None,
         pi_content = ''Equation '' @ field_text d ''id'' @ '': '' @ field_text d ''latex'' @
           (if ctx \<noteq> [] then CHR 10 # ''Context: '' @ ctx else []),
         pi_metadata = [(''equation_id'', dget d ''id''), (''page'', dget d ''page'')]\<rparr>)"

definition chunk_pieces :: "int \<Rightarrow> ingested_document \<Rightarrow> chunk_piece list" where
  "chunk_pieces max_chunks d =
     item_loop max_chunks equation_piece
       (item_loop max_chunks table_piece
         (item_loop max_chunks figure_piece (section_loop max_chunks [] (dc_sections d)) (dc_figures d))
         (dc_tables d))
       (dc_equations d)"

definition chunk_row :: "env \<Rightarrow> document_ext \<Rightarrow> analysis_session \<Rightarrow> uuid \<Rightarrow> nat \<times> chunk_piece \<Rightarrow> paper_chunk" where
  "chunk_row e x a k p =
     \<lparr>ck_id = k, ck_session_id = an_id a, ck_paper_id = an_paper_card_id a, ck_type = pi_type (snd p),
      ck_section_path = pi_section_path (snd p), ck_ordinal = fst p, ck_content = pi_content (snd p),
      ck_content_hash = ad_sha256 x (pi_content (snd p)), ck_embedding = None, ck_metadata = pi_metadata (snd p),
      ck_created_at = now e\<rparr>"

definition chunk_document :: "env \<Rightarrow> document_ext \<Rightarrow> analysis_session \<Rightarrow> int \<Rightarrow> ingested_document \<Rightarrow> db \<Rightarrow> paper_chunk list \<times> db" where
  "chunk_document e x a max_chunks d s = fresh_rows e (chunk_row e x a) (enumerate 0 (chunk_pieces max_chunks d)) s"

text \<open>\<open>zip(chunks, embeddings, strict=False)\<close>: chunks without a vector keep none.\<close>

fun with_embeddings :: "paper_chunk list \<Rightarrow> real list list \<Rightarrow> paper_chunk list" where
  "with_embeddings (c # cs) (v # vs) = (if v = [] then c else c\<lparr>ck_embedding := Some v\<rparr>) # with_embeddings cs vs"
| "with_embeddings cs vs = cs"

definition embed_chunks :: "document_ext \<Rightarrow> paper_chunk list \<Rightarrow> string + paper_chunk list \<times> nat" where
  "embed_chunks x cs =
    (if cs = [] then Inr ([], 0)
     else case ad_embed x (map ck_content cs) of
       Inl err \<Rightarrow> Inl err
     | Inr vs \<Rightarrow> Inr (with_embeddings cs vs, length (filter (\<lambda>(c, v). v \<noteq> []) (zip cs vs))))"

definition count_by :: "('r \<Rightarrow> string) \<Rightarrow> 'r list \<Rightarrow> (string \<times> nat) list" where
  "count_by key rs = fold (\<lambda>r d. dset d (key r) (Suc (case map_of d (key r) of None \<Rightarrow> 0 | Some n \<Rightarrow> n))) rs []"

definition counts_json :: "(string \<times> nat) list \<Rightarrow> json" where
  "counts_json d = JObj (map (\<lambda>(k, n). (k, JInt (int n))) d)"

definition insert_chunks :: "paper_chunk list \<Rightarrow> db \<Rightarrow> db" where
  "insert_chunks cs = upd_lib (\<lambda>l. l\<lparr>chunks := chunks l @ cs\<rparr>)"

definition session_document :: "db \<Rightarrow> uuid \<Rightarrow> ingested_document option res" where
  "session_document s sid = scalar_one_or_none (filter (\<lambda>d. dc_session_id d = sid) (documents (lib s)))"

definition chunk_body :: "document_ext \<Rightarrow> env \<Rightarrow> db \<Rightarrow> analysis_session \<Rightarrow> (op_result \<times> db) res" where
  "chunk_body x e s a0 =
    (let a = a0\<lparr>an_status := ''chunking''\<rparr> in
     res_bind (session_document s (an_id a)) (\<lambda>found.
       case found of
         None \<Rightarrow> fail_analysis e ''chunk'' ''ingested document not found'' a s
       | Some doc \<Rightarrow>
          (case py_int (ad_py x) (dget_or (analysis_budget a) ''max_chunks'' (JInt 500)) of
             Inl err \<Rightarrow> fail_analysis e ''chunk'' (search_error_text err) a s
           | Inr max_chunks \<Rightarrow>
              (case chunk_document e x a max_chunks doc s of (cs, s1) \<Rightarrow>
                (case embed_chunks x cs of
                   Inl err \<Rightarrow> fail_analysis e ''chunk'' err a (insert_chunks cs s1)
                 | Inr (cs', embedded) \<Rightarrow>
                     let n = JInt (int (length cs')); types = counts_json (count_by ck_type cs') in
                     Inr (OperatorResult,
                       finish_step e ''chunk'' ''chunked'' [(''chunk_count'', n), (''type_counts'', types)]
                         [(''chunk_count'', n), (''chunk_type_counts'', types), (''embedded_count'', JInt (int embedded))]
                         ''analysis.paper_chunked'' [(''chunk_count'', n), (''type_counts'', types)]
                         ''analysis_graph_extract'' a (insert_chunks cs' s1)))))))"

definition analysis_chunk_operator :: "document_ext \<Rightarrow> env \<Rightarrow> operator" where
  "analysis_chunk_operator x e i s = with_analysis i s (chunk_body x e s)"

section \<open>Facts\<close>

lemma with_analysis_cases:
  assumes "with_analysis i s f = (res, s')"
  shows "(s' = s \<and> (\<exists>err. res = Inl err)) \<or>
    (\<exists>a r. UUID_of (dget (oi_payload i) ''analysis_session_id'') = Inr (an_id a) \<and> a \<in> set (analyses s) \<and>
       f a = Inr (r, s') \<and> res = Inr r)"
proof (cases "res_bind (analysis_session_id_from_payload i) (load_analysis_session s)")
  case (Inl err)
  then show ?thesis using assms by (auto simp: with_analysis_def)
next
  case load: (Inr a)
  obtain k where k: "analysis_session_id_from_payload i = Inr k" "load_analysis_session s k = Inr a"
    using load by (elim res_bind_InrE) auto
  have id: "UUID_of (dget (oi_payload i) ''analysis_session_id'') = Inr k"
    using k(1) by (auto simp: analysis_session_id_from_payload_def id_from_payload_def Let_def split: if_splits)
  have a: "an_id a = k" "a \<in> set (analyses s)" using load_by_id_Inr [OF k(2) [unfolded load_analysis_session_def]] by simp_all
  have run: "with_analysis i s f = committed s (f a)" using load by (simp add: with_analysis_def)
  show ?thesis
  proof (cases "f a")
    case (Inl err)
    then show ?thesis using assms run by (auto simp: committed_def)
  next
    case (Inr out)
    then obtain r s1 where "f a = Inr (r, s1)" by (cases out) simp
    then have "res = Inr r" "f a = Inr (r, s')" using assms run by (simp_all add: committed_def)
    then show ?thesis using a id by metis
  qed
qed

lemma fail_analysis_Inr:
  "fail_analysis e step error a s = Inr (r, s') \<Longrightarrow> \<not> or_success r \<and> jobs s' = jobs s \<and> lib s' = lib s"
  by (auto simp: fail_analysis_def OperatorResult_def put_analysis_def)

definition analysis_hands :: "analysis_session \<Rightarrow> string \<Rightarrow> db \<Rightarrow> db \<Rightarrow> bool" where
  "analysis_hands a ty s s' \<longleftrightarrow>
     (\<exists>j. jobs s' = jobs s @ [j] \<and> j_type j = ty \<and> j_status j = Js_pending \<and>
          j_payload j = Some [(''analysis_session_id'', JUuid (an_id a))])"

lemma an_id_steps [simp]:
  "an_id (analysis_append_step_log e st stt dt a) = an_id a" "an_id (analysis_merge_stats x a) = an_id a"
  "an_id (analysis_mark_started_if_needed e a) = an_id a" "an_id (snd (analysis_mark_failed e st m dt a)) = an_id a"
  by (simp_all add: analysis_append_step_log_def analysis_merge_stats_def analysis_mark_started_if_needed_def analysis_mark_failed_def)

lemma finish_step_hands:
  "jobs s1 = jobs s \<Longrightarrow> an_id a1 = an_id a \<Longrightarrow> analysis_hands a ty s (finish_step e step st detail stats et payload ty a1 s1)"
  by (simp add: analysis_hands_def finish_step_def analysis_hand_over_def analysis_enqueue_next_def create_job_def tick_uuid_def
      analysis_event_def emit_event_sync_def put_analysis_def Let_def split: prod.split)

lemma lib_finish_step [simp]: "lib (finish_step e step st detail stats et payload ty a s) = lib s"
  by (simp add: finish_step_def analysis_hand_over_def analysis_enqueue_next_def create_job_def tick_uuid_def
      analysis_event_def emit_event_sync_def put_analysis_def Let_def split: prod.split)

text \<open>A body that enqueues one job exactly when it succeeds makes a stage.\<close>

lemma analysis_stage_of_body:
  assumes op: "\<And>i s. op i s = with_analysis i s (body s)"
    and body: "\<And>s a r s'. body s a = Inr (r, s') \<Longrightarrow> (if or_success r then analysis_hands a ty s s' else jobs s' = jobs s)"
  shows "pipeline_stage op ''analysis_session_id'' ty"
proof unfold_locales
  fix i s r s'
  assume run: "op i s = (Inr r, s')" and ok: "or_success r"
  then obtain a where "UUID_of (dget (oi_payload i) ''analysis_session_id'') = Inr (an_id a)" "body s a = Inr (r, s')"
    using with_analysis_cases [OF run [unfolded op]] by auto
  then show "\<exists>j. jobs s' = jobs s @ [j] \<and> handed_over ''analysis_session_id'' ty i j"
    using body [of s a r s'] ok by (auto simp: analysis_hands_def handed_over_def)
next
  fix i s res s'
  assume run: "op i s = (res, s')" and no: "\<forall>r. res = Inr r \<longrightarrow> \<not> or_success r"
  from with_analysis_cases [OF run [unfolded op]] show "jobs s' = jobs s"
    using no body by (metis (no_types, lifting))
qed

lemma insert_document_Inr: "insert_document d s = Inr s' \<Longrightarrow>
    jobs s' = jobs s \<and> (\<forall>d'\<in>set (documents (lib s)). dc_session_id d' \<noteq> dc_session_id d) \<and> documents (lib s') = documents (lib s) @ [d]"
  by (auto simp: insert_document_def split: if_splits)

text \<open>An ingestion either failed and kept the library, or stored the session's first document.\<close>

lemma ingest_body_cases:
  assumes "ingest_body x e s a = Inr (r, s')"
  shows "(\<not> or_success r \<and> jobs s' = jobs s \<and> lib s' = lib s) \<or>
    (or_success r \<and> analysis_hands a ''analysis_chunk'' s s' \<and>
     (\<forall>d\<in>set (documents (lib s)). dc_session_id d \<noteq> an_id a) \<and>
     (\<exists>d. documents (lib s') = documents (lib s) @ [d] \<and> dc_session_id d = an_id a))"
proof -
  define a1 where "a1 = (analysis_mark_started_if_needed e a)\<lparr>an_status := ''ingesting''\<rparr>"
  have id: "an_id a1 = an_id a" by (simp add: a1_def)
  obtain found where found: "scalar_one_or_none (filter (\<lambda>c. pc_id c = an_paper_card_id a1) (papers (lib s))) = Inr found"
    using assms by (auto simp: ingest_body_def Let_def a1_def elim: res_bind_InrE)
  note body = assms [unfolded ingest_body_def Let_def, folded a1_def, unfolded found res_bind.simps]
  show ?thesis
  proof (cases found)
    case None
    then show ?thesis using body by (auto dest: fail_analysis_Inr)
  next
    case (Some p)
    note body = body [unfolded Some option.case(2)]
    define u where "u = (case pc_source_url p of None \<Rightarrow> [] | Some u \<Rightarrow> u)"
    note body = body [folded u_def]
    show ?thesis
    proof (cases "u = [] \<and> (case pc_pdf_url p of Some (c # u) \<Rightarrow> False | _ \<Rightarrow> True)")
      case True
      then show ?thesis using body unfolding if_P [OF True] by (auto dest: fail_analysis_Inr)
    next
      case False
      note body = body [unfolded if_not_P [OF False]]
      show ?thesis
      proof (cases "py_float (ad_py x) (dget_or (analysis_budget a1) ''html_quality_threshold'' (JFloat (1 / 2)))")
        case (Inl err)
        then show ?thesis using body by (auto dest: fail_analysis_Inr)
      next
        case th: (Inr th)
        note body = body [unfolded th sum.case(2)]
        show ?thesis
        proof (cases "fetch_fulltext x u (pc_pdf_url p) th")
          case (Inl err)
          then show ?thesis using body by (auto dest: fail_analysis_Inr)
        next
          case (Inr f)
          note body = body [unfolded Inr sum.case(2)]
          obtain s1 where ins: "insert_document (document_row e x a1 (new_uuid e s) f) (tick_uuid s) = Inr s1"
            using body by (auto elim: res_bind_InrE)
          have d: "dc_session_id (document_row e x a1 (new_uuid e s) f) = an_id a" by (simp add: document_row_def id)
          have "or_success r \<and> analysis_hands a ''analysis_chunk'' s s' \<and> documents (lib s') = documents (lib s1)"
            using body [unfolded ins res_bind.simps] insert_document_Inr [OF ins] id
            by (auto simp: OperatorResult_def put_paper_def tick_uuid_def intro!: finish_step_hands)
          then show ?thesis using insert_document_Inr [OF ins] d by (auto simp: tick_uuid_def)
        qed
      qed
    qed
  qed
qed

interpretation ingest: pipeline_stage "analysis_ingest_operator x e" "''analysis_session_id''" "''analysis_chunk''" for x e
  by (rule analysis_stage_of_body [OF analysis_ingest_operator_def]) (auto dest!: ingest_body_cases)

section \<open>Ingestion is done once\<close>

text \<open>
  A session is ingested at most once: an ingestion succeeds only while the session has no document, and adds exactly
  one; the job that is executed again after its success was lost cannot succeed any more.
\<close>

theorem ingest_succeeds_once:
  assumes "analysis_ingest_operator x e i s = (Inr r, s1)" and "or_success r"
    and "fst (analysis_ingest_operator x' e' i s2) = Inr r2" and "set (documents (lib s1)) \<subseteq> set (documents (lib s2))"
  shows "\<not> or_success r2"
proof
  assume ok: "or_success r2"
  obtain s3 where run: "analysis_ingest_operator x' e' i s2 = (Inr r2, s3)" using assms(3) by (cases "analysis_ingest_operator x' e' i s2") auto
  obtain a where a: "UUID_of (dget (oi_payload i) ''analysis_session_id'') = Inr (an_id a)" "ingest_body x e s a = Inr (r, s1)"
    using with_analysis_cases [OF assms(1) [unfolded analysis_ingest_operator_def]] by auto
  obtain b where b: "UUID_of (dget (oi_payload i) ''analysis_session_id'') = Inr (an_id b)" "ingest_body x' e' s2 b = Inr (r2, s3)"
    using with_analysis_cases [OF run [unfolded analysis_ingest_operator_def]] by auto
  have "\<exists>d\<in>set (documents (lib s1)). dc_session_id d = an_id a"
    using ingest_body_cases [OF a(2)] assms(2) by auto
  moreover have "\<forall>d\<in>set (documents (lib s2)). dc_session_id d \<noteq> an_id b"
    using ingest_body_cases [OF b(2)] ok by auto
  ultimately show False using a(1) b(1) assms(4) by auto
qed

section \<open>Chunks\<close>

lemma length_item_loop: "int (length (item_loop m mk acc xs)) \<le> max (int (length acc)) m"
  by (induction m mk acc xs rule: item_loop.induct) auto

lemma length_section_loop:
  "1 \<le> m \<Longrightarrow> int (length acc) \<le> m - 1 \<Longrightarrow> \<forall>sec\<in>set secs. length (section_pieces sec) \<le> k \<Longrightarrow>
   int (length (section_loop m acc secs)) \<le> m - 1 + int k"
proof (induction m acc secs rule: section_loop.induct)
  case (2 m acc sec secs)
  show ?case
  proof (cases "py_strip (field_text sec ''content'') = []")
    case True
    then show ?thesis using 2 by simp
  next
    case False
    then show ?thesis using 2(2) [OF False refl] 2(3-5) by (auto simp: Let_def)
  qed
qed simp

text \<open>
  C23: The chunk bound is exceeded by less than one section: sections are split whole, so with at most k pieces per section
  a document gives fewer than max_chunks + k chunks, and figures, tables and equations stop at the bound.
\<close>

theorem chunk_count_bounded:
  assumes "1 \<le> max_chunks" and "1 \<le> k" and "\<forall>sec\<in>set (dc_sections d). length (section_pieces sec) \<le> k"
  shows "int (length (chunk_pieces max_chunks d)) \<le> max_chunks - 1 + int k"
proof -
  define s0 where "s0 = section_loop max_chunks [] (dc_sections d)"
  define s1 where "s1 = item_loop max_chunks figure_piece s0 (dc_figures d)"
  define s2 where "s2 = item_loop max_chunks table_piece s1 (dc_tables d)"
  have "int (length s0) \<le> max_chunks - 1 + int k" unfolding s0_def using length_section_loop [of max_chunks "[]"] assms by auto
  moreover have "int (length s1) \<le> max (int (length s0)) max_chunks" unfolding s1_def by (rule length_item_loop)
  moreover have "int (length s2) \<le> max (int (length s1)) max_chunks" unfolding s2_def by (rule length_item_loop)
  moreover have "int (length (chunk_pieces max_chunks d)) \<le> max (int (length s2)) max_chunks"
    unfolding chunk_pieces_def s0_def [symmetric] s1_def [symmetric] s2_def [symmetric] by (rule length_item_loop)
  ultimately show ?thesis using assms(2) by linarith
qed

lemma map_enumerate: "map (\<lambda>(i, x). f i x) (enumerate n xs) = map (\<lambda>j. f (n + j) (xs ! j)) [0..<length xs]"
  by (rule nth_equalityI) (simp_all add: nth_enumerate_eq)

text \<open>The rows of one run: consecutive ordinals from 0, all of the session.\<close>

definition chunk_run :: "uuid \<Rightarrow> paper_chunk list \<Rightarrow> bool" where
  "chunk_run sid cs \<longleftrightarrow> map ck_ordinal cs = [0..<length cs] \<and> (\<forall>c\<in>set cs. ck_session_id c = sid)"

lemma chunk_document_run:
  assumes "chunk_document e x a m d s = (cs, s1)"
  shows "chunk_run (an_id a) cs \<and> length cs = length (chunk_pieces m d) \<and> jobs s1 = jobs s \<and> lib s1 = lib s"
proof -
  note rows = assms [unfolded chunk_document_def]
  have cs: "cs = map (\<lambda>(i, p). chunk_row e x a (uuid7 e i) p) (enumerate (uuid_calls s) (enumerate 0 (chunk_pieces m d)))"
    using fresh_rows_list [of e "chunk_row e x a" "enumerate 0 (chunk_pieces m d)" s] rows by simp
  then have cs': "cs = map (\<lambda>j. chunk_row e x a (uuid7 e (uuid_calls s + j)) (j, chunk_pieces m d ! j)) [0..<length (chunk_pieces m d)]"
    by (simp add: map_enumerate nth_enumerate_eq)
  show ?thesis using fresh_rows_Pair [OF rows] by (simp add: cs' chunk_run_def comp_def chunk_row_def)
qed

lemma length_with_embeddings [simp]: "length (with_embeddings cs vs) = length cs"
  by (induction cs vs rule: with_embeddings.induct) auto

lemma with_embeddings_run: "map ck_ordinal (with_embeddings cs vs) = map ck_ordinal cs \<and>
    map ck_session_id (with_embeddings cs vs) = map ck_session_id cs"
  by (induction cs vs rule: with_embeddings.induct) auto

lemma chunk_run_embedded: "chunk_run sid (with_embeddings cs vs) = chunk_run sid cs"
proof -
  have "set (map ck_session_id (with_embeddings cs vs)) = set (map ck_session_id cs)" using with_embeddings_run by metis
  then have "(\<forall>c\<in>set (with_embeddings cs vs). ck_session_id c = sid) = (\<forall>c\<in>set cs. ck_session_id c = sid)" by auto
  then show ?thesis using with_embeddings_run [of cs vs] by (simp add: chunk_run_def)
qed

lemma embed_chunks_run: "embed_chunks x cs = Inr (cs', n) \<Longrightarrow> chunk_run sid cs \<Longrightarrow> chunk_run sid cs' \<and> length cs' = length cs"
  by (auto simp: embed_chunks_def chunk_run_embedded split: if_splits sum.split_asm)

text \<open>Whatever a run of the chunker answers, it adds one numbered set of chunks, which may be empty.\<close>

lemma chunk_body_cases:
  assumes "chunk_body x e s a = Inr (r, s')"
  shows "\<exists>new. chunks (lib s') = chunks (lib s) @ new \<and> chunk_run (an_id a) new \<and>
     (if or_success r then analysis_hands a ''analysis_graph_extract'' s s' else jobs s' = jobs s)"
proof -
  define a1 where "a1 = a\<lparr>an_status := ''chunking''\<rparr>"
  have id: "an_id a1 = an_id a" by (simp add: a1_def)
  have nil: "chunk_run (an_id a) []" by (simp add: chunk_run_def)
  obtain found where found: "session_document s (an_id a1) = Inr found"
    using assms by (auto simp: chunk_body_def Let_def a1_def elim: res_bind_InrE)
  note body = assms [unfolded chunk_body_def Let_def, folded a1_def, unfolded found res_bind.simps]
  show ?thesis
  proof (cases found)
    case None
    then show ?thesis using body nil by (auto dest!: fail_analysis_Inr)
  next
    case (Some d)
    note body = body [unfolded Some option.case(2)]
    show ?thesis
    proof (cases "py_int (ad_py x) (dget_or (analysis_budget a1) ''max_chunks'' (JInt 500))")
      case (Inl err)
      then show ?thesis using body nil by (auto dest!: fail_analysis_Inr)
    next
      case m: (Inr m)
      obtain cs s1 where cs: "chunk_document e x a1 m d s = (cs, s1)" by fastforce
      note body = body [unfolded m sum.case(2) cs prod.case]
      have run: "chunk_run (an_id a) cs" "jobs s1 = jobs s" "lib s1 = lib s" using chunk_document_run [OF cs] id by simp_all
      show ?thesis
      proof (cases "embed_chunks x cs")
        case (Inl err)
        then show ?thesis using body run by (auto simp: insert_chunks_def dest!: fail_analysis_Inr)
      next
        case (Inr out)
        obtain cs' n where out: "embed_chunks x cs = Inr (cs', n)" using Inr by (cases out) simp
        have "r = OperatorResult" "chunks (lib s') = chunks (lib s) @ cs'" "analysis_hands a ''analysis_graph_extract'' s s'"
          using body [unfolded out sum.case(2) prod.case] run id by (auto simp: insert_chunks_def intro!: finish_step_hands)
        then show ?thesis using embed_chunks_run [OF out run(1)] by (auto simp: OperatorResult_def)
      qed
    qed
  qed
qed

interpretation chunk: pipeline_stage "analysis_chunk_operator x e" "''analysis_session_id''" "''analysis_graph_extract''" for x e
  by (rule analysis_stage_of_body [OF analysis_chunk_operator_def]) (auto dest!: chunk_body_cases)

definition session_chunks :: "db \<Rightarrow> uuid \<Rightarrow> paper_chunk list" where
  "session_chunks s sid = filter (\<lambda>c. ck_session_id c = sid) (chunks (lib s))"

lemma chunk_operator_adds:
  assumes "analysis_chunk_operator x e i s = (res, s')"
    and "UUID_of (dget (oi_payload i) ''analysis_session_id'') = Inr sid"
  shows "\<exists>new. session_chunks s' sid = session_chunks s sid @ new \<and> map ck_ordinal new = [0..<length new]"
  using with_analysis_cases [OF assms(1) [unfolded analysis_chunk_operator_def]]
proof (elim disjE exE conjE)
  assume "s' = s"
  then show ?thesis by simp
next
  fix a r
  assume a: "UUID_of (dget (oi_payload i) ''analysis_session_id'') = Inr (an_id a)" and body: "chunk_body x e s a = Inr (r, s')"
  obtain new where new: "chunks (lib s') = chunks (lib s) @ new" "chunk_run (an_id a) new" using chunk_body_cases [OF body] by blast
  have "filter (\<lambda>c. ck_session_id c = sid) new = new" using new(2) a assms(2) by (auto simp: chunk_run_def intro!: filter_True)
  then show ?thesis using new by (auto simp: session_chunks_def chunk_run_def)
qed

text \<open>
  Chunks accumulate: each run of the chunker on a session adds a numbered set of its own, also a run that failed
  when the chunks were embedded (its failure is committed with the rows).  A retry therefore numbers the paper twice,
  and the later steps read both sets.
\<close>

theorem chunk_runs_accumulate:
  assumes "UUID_of (dget (oi_payload i) ''analysis_session_id'') = Inr sid"
    and "analysis_chunk_operator x e i s = (res, s1)" and "analysis_chunk_operator x' e' i s1 = (res', s2)"
  shows "\<exists>first second. session_chunks s2 sid = session_chunks s sid @ first @ second \<and>
     map ck_ordinal first = [0..<length first] \<and> map ck_ordinal second = [0..<length second] \<and>
     session_chunks s1 sid = session_chunks s sid @ first"
  using chunk_operator_adds [OF assms(2,1)] chunk_operator_adds [OF assms(3,1)] by auto

section \<open>Witnesses\<close>

definition demo_analysis_row :: analysis_session where
  "demo_analysis_row = \<lparr>an_id = 10, an_cycle_id = 4, an_charter_id = 3, an_paper_card_id = 1, an_status = ''created'', an_error = None,
     an_step_log = None, an_stats = None, an_budget = None, an_report_path = None, an_created_at = 0, an_started_at = None,
     an_completed_at = None\<rparr>"

definition demo_section :: dict where
  "demo_section = [(''heading'', JStr ''h''), (''content'', JStr [CHR ''a'', CHR 10, CHR ''b'', CHR 10, CHR ''c''])]"

definition demo_document :: ingested_document where
  "demo_document = \<lparr>dc_id = 11, dc_session_id = 10, dc_paper_id = 1, dc_fetch_method = ''html'', dc_source_url = [], dc_raw_content = [],
     dc_sections = [demo_section], dc_figures = [], dc_tables = [], dc_equations = [], dc_quality = [], dc_content_hash = [],
     dc_created_at = 0\<rparr>"

definition demo_ingestion :: ingestion_result where
  "demo_ingestion = \<lparr>ir_content = [], ir_sections = [demo_section], ir_figures = [], ir_tables = [], ir_equations = [],
     ir_fetch_method = ''html'', ir_source_url = [], ir_quality_score = 1, ir_quality = []\<rparr>"

text \<open>One service that answers, one whose embedding is down.\<close>

definition demo_ad :: document_ext where
  "demo_ad = \<lparr>ad_py = demo_py, ad_sha256 = (\<lambda>t. t), ad_html = (\<lambda>_ _. Inr demo_ingestion), ad_pdf = (\<lambda>_ _. Inl []),
     ad_embed = (\<lambda>ts. Inr (map (\<lambda>_. [1]) ts))\<rparr>"

definition broken_ad :: document_ext where
  "broken_ad = demo_ad\<lparr>ad_embed := (\<lambda>_. Inl ''down'')\<rparr>"

definition demo_analysis_input :: op_input where
  "demo_analysis_input = \<lparr>oi_cycle_id = 4, oi_charter_id = 3, oi_job_id = 9, oi_job_type = ''analysis_chunk'',
     oi_payload = [(''analysis_session_id'', JUuid 10)]\<rparr>"

definition demo_analysis_world :: db where
  "demo_analysis_world = empty_db\<lparr>analyses := [demo_analysis_row],
     lib := empty_library\<lparr>papers := [(demo_paper 1 9 ''a'')\<lparr>pc_source_url := Some ''u''\<rparr>]\<rparr>\<rparr>"

lemma demo_section_pieces: "length (section_pieces demo_section) = 3"
  by (simp add: section_pieces_def demo_section_def field_text_def dget_def dget_or_def paragraphs_of_def py_strip_def is_space_def Let_def)

theorem chunk_count_bounded_witness:
  "int (length (chunk_pieces 1 demo_document)) \<le> 3 \<and> \<not> int (length (chunk_pieces 1 demo_document)) \<le> 1"
proof -
  have "length (chunk_pieces 1 demo_document) = 3"
    using demo_section_pieces
    by (simp add: chunk_pieces_def demo_document_def Let_def, simp add: demo_section_def field_text_def dget_def py_strip_def is_space_def)
  then show ?thesis using chunk_count_bounded [of 1 3 demo_document] demo_section_pieces by (simp add: demo_document_def)
qed

lemma demo_analysis_with:
  "analyses s = [demo_analysis_row] \<Longrightarrow> with_analysis demo_analysis_input s f = committed s (f demo_analysis_row)"
  by (simp add: with_analysis_def demo_analysis_input_def analysis_session_id_from_payload_def id_from_payload_def dget_def
      load_analysis_session_def load_by_id_def demo_analysis_row_def)

lemma demo_ingest_runs:
  "\<exists>r s1. analysis_ingest_operator demo_ad demo_env demo_analysis_input demo_analysis_world = (Inr r, s1) \<and> or_success r"
proof -
  have w: "analyses demo_analysis_world = [demo_analysis_row]" by (simp add: demo_analysis_world_def)
  have f: "fetch_fulltext demo_ad ''u'' None (1 / 2) = Inr demo_ingestion"
    by (simp add: fetch_fulltext_def demo_ad_def demo_ingestion_def)
  have "\<exists>s1. ingest_body demo_ad demo_env demo_analysis_world demo_analysis_row = Inr (OperatorResult, s1)"
    by (simp add: ingest_body_def Let_def demo_analysis_row_def analysis_mark_started_if_needed_def analysis_budget_def opt_dict_def
        dget_or_def demo_analysis_world_def demo_paper_def f insert_document_def empty_library_def tick_uuid_def)
  then show ?thesis by (auto simp: analysis_ingest_operator_def demo_analysis_with [OF w] committed_def OperatorResult_def)
qed

theorem ingest_succeeds_once_witness:
  "\<exists>r s1. analysis_ingest_operator demo_ad demo_env demo_analysis_input demo_analysis_world = (Inr r, s1) \<and> or_success r \<and>
     (\<forall>r2. fst (analysis_ingest_operator demo_ad demo_env demo_analysis_input s1) = Inr r2 \<longrightarrow> \<not> or_success r2)"
proof -
  obtain r s1 where run: "analysis_ingest_operator demo_ad demo_env demo_analysis_input demo_analysis_world = (Inr r, s1)" "or_success r"
    using demo_ingest_runs by blast
  show ?thesis using run ingest_succeeds_once [OF run] by blast
qed

definition demo_document_world :: db where
  "demo_document_world = empty_db\<lparr>analyses := [demo_analysis_row], lib := empty_library\<lparr>documents := [demo_document]\<rparr>\<rparr>"

theorem chunk_runs_accumulate_witness:
  "\<exists>s1 s2 first second. snd (analysis_chunk_operator broken_ad demo_env demo_analysis_input demo_document_world) = s1 \<and>
     snd (analysis_chunk_operator demo_ad demo_env demo_analysis_input s1) = s2 \<and>
     session_chunks s2 10 = first @ second \<and> map ck_ordinal first = [0..<length first] \<and> map ck_ordinal second = [0..<length second] \<and>
     first \<noteq> []"
proof -
  obtain res s1 where one: "analysis_chunk_operator broken_ad demo_env demo_analysis_input demo_document_world = (res, s1)" by fastforce
  obtain res' s2 where two: "analysis_chunk_operator demo_ad demo_env demo_analysis_input s1 = (res', s2)" by fastforce
  have id: "UUID_of (dget (oi_payload demo_analysis_input) ''analysis_session_id'') = Inr 10" by (simp add: demo_analysis_input_def dget_def)
  have w: "analyses demo_document_world = [demo_analysis_row]" by (simp add: demo_document_world_def)
  have doc: "session_document demo_document_world 10 = Inr (Some demo_document)"
    by (simp add: session_document_def demo_document_world_def demo_document_def)
  obtain cs t where cs: "chunk_document demo_env broken_ad (demo_analysis_row\<lparr>an_status := ''chunking''\<rparr>) 500 demo_document demo_document_world = (cs, t)"
    by fastforce
  have "length (chunk_pieces 500 demo_document) = 3"
    using demo_section_pieces
    by (simp add: chunk_pieces_def demo_document_def Let_def, simp add: demo_section_def field_text_def dget_def py_strip_def is_space_def)
  then have ne: "cs \<noteq> []" "lib t = lib demo_document_world" "\<forall>c\<in>set cs. ck_session_id c = 10"
    using chunk_document_run [OF cs] by (auto simp: chunk_run_def demo_analysis_row_def)
  have em: "embed_chunks broken_ad cs = Inl ''down''" using ne(1) by (simp add: embed_chunks_def broken_ad_def)
  have row: "an_id (demo_analysis_row\<lparr>an_status := ''chunking''\<rparr>) = 10"
    "analysis_budget (demo_analysis_row\<lparr>an_status := ''chunking''\<rparr>) = []"
    by (simp_all add: demo_analysis_row_def analysis_budget_def opt_dict_def)
  have "chunk_body broken_ad demo_env demo_document_world demo_analysis_row =
      fail_analysis demo_env ''chunk'' ''down'' (demo_analysis_row\<lparr>an_status := ''chunking''\<rparr>) (insert_chunks cs t)"
    by (simp add: chunk_body_def Let_def row doc dget_or_def cs em)
  moreover have "chunks (lib demo_document_world) = []" by (simp add: demo_document_world_def empty_library_def)
  ultimately have "chunks (lib s1) = cs"
    using one ne(2) by (auto simp: analysis_chunk_operator_def demo_analysis_with [OF w] committed_def fail_analysis_def
        insert_chunks_def put_analysis_def)
  then have "session_chunks s1 10 = cs" using ne(3) by (auto simp: session_chunks_def intro!: filter_True)
  moreover have "session_chunks demo_document_world 10 = []" by (simp add: session_chunks_def demo_document_world_def empty_library_def)
  ultimately show ?thesis using chunk_runs_accumulate [OF id one two] one two ne(1) by auto
qed

end
