(* ===== verification/Analysis_Graph.thy ===== *)
theory Analysis_Graph
  imports Analysis_Documents
begin

text \<open>
  The typed graph of a paper (\<open>libs/analysis/graph_extraction.py\<close>), its coverage diagnostic
  (\<open>libs/analysis/coverage_check.py\<close>) and the operators around them (\<open>libs/analysis/operators/graph_extract.py\<close>,
  \<open>coverage.py\<close>).  The extraction model and the graph database are the fields of \<open>graph_ext\<close>; the order in which the
  concurrent extractions end is one of them.  With a concurrency of 0 the extractions would wait for each other for
  ever; the schema of the budgets refuses that value, and the model does not distinguish it.
\<close>

section \<open>Extraction\<close>

record extracted_node =
  en_node_type :: string
  en_label :: string
  en_description :: "string option"
  en_properties :: dict

record extracted_edge =
  ee_source_label :: string
  ee_target_label :: string
  ee_edge_type :: string
  ee_properties :: dict
  ee_confidence :: real

record chunk_extraction =
  ex_nodes :: "extracted_node list"
  ex_edges :: "extracted_edge list"

record graph_ext =
  gx_py :: pylib
  gx_extract :: "paper_chunk \<Rightarrow> chunk_extraction option"
  gx_finish :: "paper_chunk list \<Rightarrow> paper_chunk list"
  gx_adapter_error :: "string option"
  gx_create :: "string \<Rightarrow> bool"
  gx_add_node :: "string \<Rightarrow> graph_node \<Rightarrow> string option"
  gx_add_edge :: "string \<Rightarrow> string \<Rightarrow> string \<Rightarrow> graph_edge \<Rightarrow> string option"

text \<open>The chunks whose extraction succeeded, in the order the extractions ended.\<close>

definition extractions :: "graph_ext \<Rightarrow> paper_chunk list \<Rightarrow> (paper_chunk \<times> chunk_extraction) list" where
  "extractions x cs = concat (map (\<lambda>c. case gx_extract x c of None \<Rightarrow> [] | Some r \<Rightarrow> [(c, r)]) (gx_finish x cs))"

definition node_key :: "string \<Rightarrow> string \<Rightarrow> string" where
  "node_key ty label = ty @ ''::'' @ label"

definition node_row :: "env \<Rightarrow> analysis_session \<Rightarrow> uuid \<Rightarrow> uuid \<Rightarrow> extracted_node \<Rightarrow> graph_node" where
  "node_row e a chunk_id k en =
     \<lparr>gn_id = k, gn_session_id = an_id a, gn_paper_id = an_paper_card_id a, gn_type = en_node_type en, gn_label = en_label en,
      gn_description = en_description en, gn_properties = en_properties en, gn_chunk_ids = [chunk_id], gn_age_id = None,
      gn_created_at = now e\<rparr>"

type_synonym nodes_by_label = "(string \<times> graph_node) list"

text \<open>A new key makes a node; a known one only gains the chunk as a further source.\<close>

definition add_node :: "env \<Rightarrow> analysis_session \<Rightarrow> paper_chunk \<times> extracted_node \<Rightarrow> nodes_by_label \<times> db \<Rightarrow> nodes_by_label \<times> db" where
  "add_node e a p acc =
    (case (p, acc) of ((c, en), (by_label, s)) \<Rightarrow>
      let key = node_key (en_node_type en) (en_label en) in
      case map_of by_label key of
        None \<Rightarrow> (dset by_label key (node_row e a (ck_id c) (new_uuid e s) en), tick_uuid s)
      | Some n \<Rightarrow> (dset by_label key (n\<lparr>gn_chunk_ids := gn_chunk_ids n @ [ck_id c]\<rparr>), s))"

definition extracted_nodes :: "(paper_chunk \<times> chunk_extraction) list \<Rightarrow> (paper_chunk \<times> extracted_node) list" where
  "extracted_nodes rs = concat (map (\<lambda>(c, r). map (\<lambda>en. (c, en)) (ex_nodes r)) rs)"

definition EDGE_NODE_TYPES :: "string list" where
  "EDGE_NODE_TYPES = [''concept'', ''method'', ''experiment'', ''dataset'', ''figure'', ''table'', ''equation'', ''section'', ''paper'']"

text \<open>The first node type under which the label is known.\<close>

fun find_node :: "string list \<Rightarrow> nodes_by_label \<Rightarrow> string \<Rightarrow> graph_node option" where
  "find_node [] by_label label = None"
| "find_node (ty # tys) by_label label =
    (case map_of by_label (node_key ty label) of Some n \<Rightarrow> Some n | None \<Rightarrow> find_node tys by_label label)"

definition edge_ends :: "nodes_by_label \<Rightarrow> extracted_edge \<Rightarrow> (graph_node \<times> graph_node \<times> extracted_edge) list" where
  "edge_ends by_label ee =
    (case (find_node EDGE_NODE_TYPES by_label (ee_source_label ee), find_node EDGE_NODE_TYPES by_label (ee_target_label ee)) of
       (Some a, Some b) \<Rightarrow> [(a, b, ee)]
     | _ \<Rightarrow> [])"

definition edge_row :: "env \<Rightarrow> analysis_session \<Rightarrow> uuid \<Rightarrow> graph_node \<times> graph_node \<times> extracted_edge \<Rightarrow> graph_edge" where
  "edge_row e a k t =
    (case t of (src, tgt, ee) \<Rightarrow>
      \<lparr>ge_id = k, ge_session_id = an_id a, ge_source_id = gn_id src, ge_target_id = gn_id tgt, ge_type = ee_edge_type ee,
       ge_properties = ee_properties ee, ge_confidence = ee_confidence ee, ge_age_id = None, ge_created_at = now e\<rparr>)"

definition extract_graph ::
  "graph_ext \<Rightarrow> env \<Rightarrow> analysis_session \<Rightarrow> paper_chunk list \<Rightarrow> db \<Rightarrow> (graph_node list \<times> graph_edge list) \<times> db" where
  "extract_graph x e a cs s =
    (let rs = extractions x cs in
     case fold (add_node e a) (extracted_nodes rs) ([], s) of (by_label, s1) \<Rightarrow>
       (case fresh_rows e (edge_row e a) (concat (map (edge_ends by_label) (concat (map (ex_edges \<circ> snd) rs)))) s1 of
          (new_edges, s2) \<Rightarrow> ((map snd by_label, new_edges), s2)))"

section \<open>Projection into the graph database\<close>

text \<open>An element the graph database refuses keeps no graph identifier; an edge needs both of its ends there.\<close>

definition project_node :: "graph_ext \<Rightarrow> string \<Rightarrow> graph_node \<Rightarrow> graph_node" where
  "project_node x graph_name n = (case gx_add_node x graph_name n of None \<Rightarrow> n | Some k \<Rightarrow> n\<lparr>gn_age_id := Some k\<rparr>)"

definition age_id :: "graph_node list \<Rightarrow> uuid \<Rightarrow> string" where
  "age_id ns k = (case find (\<lambda>n. gn_id n = k) ns of None \<Rightarrow> [] | Some n \<Rightarrow> (case gn_age_id n of None \<Rightarrow> [] | Some t \<Rightarrow> t))"

definition project_edge :: "graph_ext \<Rightarrow> string \<Rightarrow> graph_node list \<Rightarrow> graph_edge \<Rightarrow> graph_edge" where
  "project_edge x graph_name ns ed =
    (let src = age_id ns (ge_source_id ed); tgt = age_id ns (ge_target_id ed)
     in if src = [] \<or> tgt = [] then ed
        else case gx_add_edge x graph_name src tgt ed of None \<Rightarrow> ed | Some k \<Rightarrow> ed\<lparr>ge_age_id := Some k\<rparr>)"

definition project_to_graph_adapter ::
  "graph_ext \<Rightarrow> string \<Rightarrow> graph_node list \<times> graph_edge list \<Rightarrow> string + graph_node list \<times> graph_edge list" where
  "project_to_graph_adapter x graph_name g =
    (case gx_adapter_error x of
       Some err \<Rightarrow> Inl err
     | None \<Rightarrow>
        if gx_create x graph_name
        then let ns = map (project_node x graph_name) (fst g) in Inr (ns, map (project_edge x graph_name ns) (snd g))
        else Inr g)"

section \<open>The extraction operator\<close>

definition insert_graph :: "graph_node list \<times> graph_edge list \<Rightarrow> db \<Rightarrow> db" where
  "insert_graph g = upd_lib (\<lambda>l. l\<lparr>gnodes := gnodes l @ fst g, gedges := gedges l @ snd g\<rparr>)"

definition ordered_chunks :: "db \<Rightarrow> uuid \<Rightarrow> paper_chunk list" where
  "ordered_chunks s sid = sort_key ck_ordinal (session_chunks s sid)"

definition graph_stats :: "graph_node list \<times> graph_edge list \<Rightarrow> dict" where
  "graph_stats g =
     [(''node_count'', JInt (int (length (fst g)))), (''edge_count'', JInt (int (length (snd g)))),
      (''node_types'', counts_json (count_by gn_type (fst g))), (''edge_types'', counts_json (count_by ge_type (snd g)))]"

definition graph_body :: "graph_ext \<Rightarrow> env \<Rightarrow> db \<Rightarrow> analysis_session \<Rightarrow> (op_result \<times> db) res" where
  "graph_body x e s a0 =
    (let a = a0\<lparr>an_status := ''extracting''\<rparr>; cs = ordered_chunks s (an_id a) in
     if cs = [] then fail_analysis e ''graph_extract'' ''no chunks found'' a s
     else case py_int (gx_py x) (dget_or (analysis_budget a) ''graph_extraction_concurrency'' (JInt 4)) of
       Inl err \<Rightarrow> fail_analysis e ''graph_extract'' (search_error_text err) a s
     | Inr concurrency \<Rightarrow>
        if concurrency < 0 then fail_analysis e ''graph_extract'' ''Semaphore initial value must be >= 0'' a s
        else case extract_graph x e a cs s of (g, s1) \<Rightarrow>
          (case project_to_graph_adapter x (''paper_'' @ take 8 (uuid_str (an_paper_card_id a))) g of
             Inl err \<Rightarrow> fail_analysis e ''graph_extract'' err a (insert_graph g s1)
           | Inr g' \<Rightarrow> Inr (OperatorResult,
               finish_step e ''graph_extract'' ''graph_extracted'' (graph_stats g') (graph_stats g') ''analysis.graph_extracted''
                 (graph_stats g') ''analysis_coverage'' a (insert_graph g' s1))))"

definition analysis_graph_extract_operator :: "graph_ext \<Rightarrow> env \<Rightarrow> operator" where
  "analysis_graph_extract_operator x e i s = with_analysis i s (graph_body x e s)"

section \<open>Coverage\<close>

definition named :: "dict list \<Rightarrow> string \<Rightarrow> string set" where
  "named ds k = {t \<in> set (map (\<lambda>d. field_text d k) ds). t \<noteq> []}"

definition coverage_of :: "string set \<Rightarrow> string set \<Rightarrow> coverage_part" where
  "coverage_of ids covered =
     \<lparr>pt_total = card ids, pt_covered = card (ids \<inter> covered), pt_missing = sorted_list_of_set (ids - covered)\<rparr>"

text \<open>A section is covered by a section node of its heading.\<close>

definition section_coverage :: "ingested_document \<Rightarrow> graph_node list \<Rightarrow> coverage_part" where
  "section_coverage d ns =
     coverage_of (named (dc_sections d) ''heading'') (gn_label ` set (filter (\<lambda>n. gn_type n = ''section'') ns))"

text \<open>A figure, table or equation is covered when its id occurs in the label of a node of its type.\<close>

definition mentioned :: "string \<Rightarrow> graph_node list \<Rightarrow> string set \<Rightarrow> string set" where
  "mentioned ty ns ids = {i \<in> ids. \<exists>n\<in>set ns. gn_type n = ty \<and> has_text i (gn_label n)}"

definition item_coverage :: "string \<Rightarrow> dict list \<Rightarrow> graph_node list \<Rightarrow> coverage_part" where
  "item_coverage ty ds ns = coverage_of (named ds ''id'') (mentioned ty ns (named ds ''id''))"

text \<open>\<open>_find_unlinked_chunks\<close>: the set of linked nodes it collects from the edges is never used.\<close>

definition find_unlinked_chunks :: "paper_chunk list \<Rightarrow> uuid list" where
  "find_unlinked_chunks cs =
    (let content = ck_id ` set (filter (\<lambda>c. ck_type c \<in> {''section'', ''paragraph''}) cs)
     in take 50 (map ck_id (filter (\<lambda>c. ck_type c \<in> {''section'', ''paragraph''} \<and> ck_id c \<notin> content) cs)))"

definition coverage_warnings :: "coverage_part \<Rightarrow> coverage_part \<Rightarrow> coverage_part \<Rightarrow> uuid list \<Rightarrow> string list" where
  "coverage_warnings secs figs tbls unlinked =
     (if pt_total secs > 0 \<and> real (pt_covered secs) / real (pt_total secs) < 1 / 2
      then [''Low section coverage: '' @ nat_digits (pt_covered secs) @ ''/'' @ nat_digits (pt_total secs) @ '' sections linked''] else []) @
     (if pt_total figs > 0 \<and> pt_covered figs = 0 then [''No figures were linked to graph nodes''] else []) @
     (if pt_total tbls > 0 \<and> pt_covered tbls = 0 then [''No tables were linked to graph nodes''] else []) @
     (if length unlinked > 10 then [nat_digits (length unlinked) @ '' content chunks have no graph connections''] else [])"

definition ratios :: "coverage_part list \<Rightarrow> real list" where
  "ratios ps = map (\<lambda>p. real (pt_covered p) / real (pt_total p)) (filter (\<lambda>p. pt_total p > 0) ps)"

definition overall_score :: "coverage_part list \<Rightarrow> real" where
  "overall_score ps = (if ratios ps = [] then 0 else sum_list (ratios ps) / real (length (ratios ps)))"

definition compute_coverage ::
  "env \<Rightarrow> uuid \<Rightarrow> uuid \<Rightarrow> ingested_document \<Rightarrow> paper_chunk list \<Rightarrow> graph_node list \<Rightarrow> coverage_diagnostic" where
  "compute_coverage e k sid d cs ns =
    (let secs = section_coverage d ns; figs = item_coverage ''figure'' (dc_figures d) ns;
         tbls = item_coverage ''table'' (dc_tables d) ns; eqs = item_coverage ''equation'' (dc_equations d) ns;
         unlinked = find_unlinked_chunks cs
     in \<lparr>cv_id = k, cv_session_id = sid, cv_sections = secs, cv_figures = figs, cv_tables = tbls, cv_equations = eqs,
         cv_unlinked = unlinked, cv_warnings = coverage_warnings secs figs tbls unlinked,
         cv_overall_score = py_round 3 (overall_score [secs, figs, tbls, eqs]), cv_created_at = now e\<rparr>)"

definition session_nodes :: "db \<Rightarrow> uuid \<Rightarrow> graph_node list" where
  "session_nodes s sid = filter (\<lambda>n. gn_session_id n = sid) (gnodes (lib s))"

definition session_edges :: "db \<Rightarrow> uuid \<Rightarrow> graph_edge list" where
  "session_edges s sid = filter (\<lambda>ed. ge_session_id ed = sid) (gedges (lib s))"

text \<open>The unique constraint \<open>uq_coverage_diagnostics_session\<close>.\<close>

definition insert_coverage :: "coverage_diagnostic \<Rightarrow> db \<Rightarrow> db res" where
  "insert_coverage c s =
    (if \<exists>c'\<in>set (coverages (lib s)). cv_session_id c' = cv_session_id c then Inl IntegrityError
     else Inr (upd_lib (\<lambda>l. l\<lparr>coverages := coverages l @ [c]\<rparr>) s))"

definition coverage_body :: "env \<Rightarrow> db \<Rightarrow> analysis_session \<Rightarrow> (op_result \<times> db) res" where
  "coverage_body e s a0 =
    (let a = a0\<lparr>an_status := ''verifying''\<rparr> in
     res_bind (session_document s (an_id a)) (\<lambda>found.
       case found of
         None \<Rightarrow> fail_analysis e ''coverage'' ''ingested document not found'' a s
       | Some d \<Rightarrow>
          let c = compute_coverage e (new_uuid e s) (an_id a) d (session_chunks s (an_id a)) (session_nodes s (an_id a));
              score = JFloat (cv_overall_score c); warns = JInt (int (length (cv_warnings c)))
          in res_bind (insert_coverage c (tick_uuid s)) (\<lambda>s1.
               Inr (OperatorResult,
                 finish_step e ''coverage'' ''coverage_verified'' [(''overall_score'', score), (''warning_count'', warns)]
                   [(''coverage_score'', score), (''coverage_warning_count'', warns)] ''analysis.coverage_computed''
                   [(''overall_score'', score), (''warning_count'', warns)] ''analysis_review'' a s1))))"

definition analysis_coverage_operator :: "env \<Rightarrow> operator" where
  "analysis_coverage_operator e i s = with_analysis i s (coverage_body e s)"

section \<open>The extracted graph\<close>

definition graph_key :: "graph_node \<Rightarrow> string" where
  "graph_key n = node_key (gn_type n) (gn_label n)"

definition extracted_key :: "paper_chunk \<times> extracted_node \<Rightarrow> string" where
  "extracted_key p = node_key (en_node_type (snd p)) (en_label (snd p))"

definition sources :: "nodes_by_label \<Rightarrow> string \<Rightarrow> uuid list" where
  "sources by_label k = (case map_of by_label k of None \<Rightarrow> [] | Some n \<Rightarrow> gn_chunk_ids n)"

text \<open>The index of the nodes: one entry per key, filed under the node's own key, with a source.\<close>

definition indexed :: "nodes_by_label \<Rightarrow> bool" where
  "indexed by_label \<longleftrightarrow> distinct (map fst by_label) \<and> (\<forall>(k, n)\<in>set by_label. k = graph_key n \<and> gn_chunk_ids n \<noteq> [])"

lemma set_dset_subset: "set (dset d k v) \<subseteq> insert (k, v) (set d)"
  by (induction d k v rule: dset.induct) auto

lemma add_node_step:
  assumes "indexed by_label" and "add_node e a p (by_label, s) = (by_label', s')"
  shows "indexed by_label'"
    and "sources by_label' k = sources by_label k @ (if extracted_key p = k then [ck_id (fst p)] else [])"
    and "fst ` set by_label' = insert (extracted_key p) (fst ` set by_label)"
    and "lib s' = lib s \<and> jobs s' = jobs s"
proof -
  obtain c en where p: "p = (c, en)" by (cases p)
  define key where "key = node_key (en_node_type en) (en_label en)"
  note step = assms(2) [unfolded p add_node_def prod.case Let_def, folded key_def]
  have inv: "indexed (dset by_label key n)" if "graph_key n = key" "gn_chunk_ids n \<noteq> []" for n
    using assms(1) that set_dset_subset [of by_label key n] distinct_keys_dset [of by_label key n] by (fastforce simp: indexed_def)
  have "indexed by_label' \<and> sources by_label' k = sources by_label k @ (if key = k then [ck_id c] else []) \<and>
      fst ` set by_label' = insert key (fst ` set by_label) \<and> lib s' = lib s \<and> jobs s' = jobs s"
  proof (cases "map_of by_label key")
    case None
    then have "by_label' = dset by_label key (node_row e a (ck_id c) (new_uuid e s) en)" "s' = tick_uuid s" using step by simp_all
    then show ?thesis using None inv [of "node_row e a (ck_id c) (new_uuid e s) en"]
      by (auto simp: graph_key_def node_row_def key_def sources_def keys_dset map_of_dset tick_uuid_def)
  next
    case (Some n)
    then have n: "(key, n) \<in> set by_label" by (rule map_of_SomeD)
    then have "graph_key n = key" using assms(1) by (auto simp: indexed_def)
    moreover have "by_label' = dset by_label key (n\<lparr>gn_chunk_ids := gn_chunk_ids n @ [ck_id c]\<rparr>)" "s' = s" using step Some by simp_all
    ultimately show ?thesis using Some inv [of "n\<lparr>gn_chunk_ids := gn_chunk_ids n @ [ck_id c]\<rparr>"]
      by (auto simp: graph_key_def sources_def keys_dset map_of_dset)
  qed
  then show "indexed by_label'"
    "sources by_label' k = sources by_label k @ (if extracted_key p = k then [ck_id (fst p)] else [])"
    "fst ` set by_label' = insert (extracted_key p) (fst ` set by_label)" "lib s' = lib s \<and> jobs s' = jobs s"
    by (simp_all add: extracted_key_def p key_def)
qed

lemma fold_add_node:
  assumes "fold (add_node e a) ps (by_label, s) = (by_label', s')" and "indexed by_label"
  shows "indexed by_label' \<and>
    sources by_label' k = sources by_label k @ map (ck_id \<circ> fst) (filter (\<lambda>p. extracted_key p = k) ps) \<and>
    fst ` set by_label' = extracted_key ` set ps \<union> fst ` set by_label \<and> lib s' = lib s \<and> jobs s' = jobs s"
  using assms
proof (induction ps arbitrary: by_label s)
  case (Cons p ps)
  obtain b1 s1 where one: "add_node e a p (by_label, s) = (b1, s1)" by fastforce
  note step = add_node_step [OF Cons.prems(2) one]
  have "fold (add_node e a) ps (b1, s1) = (by_label', s')" using Cons.prems(1) one by simp
  from Cons.IH [OF this step(1)] show ?case using step(2) [of k] step(3,4) by auto
qed simp

lemma find_node_known: "find_node tys by_label label = Some n \<Longrightarrow> n \<in> snd ` set by_label"
proof (induction tys by_label label rule: find_node.induct)
  case (2 ty tys by_label label)
  show ?case
  proof (cases "map_of by_label (node_key ty label)")
    case (Some m)
    then have "m \<in> snd ` set by_label" using map_of_SomeD [OF Some] by force
    then show ?thesis using 2(2) Some by simp
  qed (use 2 in simp)
qed simp

lemma extract_graph_store: "extract_graph x e a cs s = (g, s1) \<Longrightarrow> lib s1 = lib s \<and> jobs s1 = jobs s"
proof -
  assume run: "extract_graph x e a cs s = (g, s1)"
  obtain b t where f: "fold (add_node e a) (extracted_nodes (extractions x cs)) ([], s) = (b, t)" by fastforce
  show ?thesis using run fold_add_node [OF f] by (auto simp: extract_graph_def Let_def f indexed_def dest!: fresh_rows_Pair split: prod.split_asm)
qed

text \<open>
  C17: The graph of a paper is free of duplicates and closed: the nodes carry pairwise different type-label keys, exactly the
  keys the model named; the sources of a node are the chunks it was named in, in the order their extractions ended;
  and both ends of every edge are nodes of the same graph.
\<close>

theorem extracted_graph_is_closed:
  assumes "extract_graph x e a cs s = ((ns, es), s1)" and "ps = extracted_nodes (extractions x cs)"
  shows "distinct (map graph_key ns) \<and> graph_key ` set ns = extracted_key ` set ps \<and>
    (\<forall>n\<in>set ns. gn_chunk_ids n = map (ck_id \<circ> fst) (filter (\<lambda>p. extracted_key p = graph_key n) ps)) \<and>
    (\<forall>ed\<in>set es. ge_source_id ed \<in> gn_id ` set ns \<and> ge_target_id ed \<in> gn_id ` set ns)"
proof -
  obtain b t where f: "fold (add_node e a) ps ([], s) = (b, t)" by fastforce
  define ends where "ends = concat (map (edge_ends b) (concat (map (ex_edges \<circ> snd) (extractions x cs))))"
  have out: "ns = map snd b" "es = fst (fresh_rows e (edge_row e a) ends t)"
    using assms(1) unfolding extract_graph_def Let_def assms(2) [symmetric] f prod.case ends_def [symmetric]
    by (auto split: prod.split_asm)
  have b: "indexed b" "fst ` set b = extracted_key ` set ps"
    "\<And>k. sources b k = map (ck_id \<circ> fst) (filter (\<lambda>p. extracted_key p = k) ps)"
    using fold_add_node [OF f] by (simp_all add: indexed_def sources_def)
  have key: "fst q = graph_key (snd q)" if "q \<in> set b" for q using b(1) that by (auto simp: indexed_def)
  then have keys: "map graph_key ns = map fst b" using out(1) by simp
  have src: "gn_chunk_ids n = sources b (graph_key n)" if "n \<in> set ns" for n
  proof -
    obtain k where "(k, n) \<in> set b" using \<open>n \<in> set ns\<close> out(1) by auto
    then have "map_of b (graph_key n) = Some n" using b(1) key by (fastforce simp: indexed_def)
    then show ?thesis by (simp add: sources_def)
  qed
  have ends: "fst q \<in> set ns \<and> fst (snd q) \<in> set ns" if "q \<in> set ends" for q
  proof -
    obtain ee where "q \<in> set (edge_ends b ee)" using \<open>q \<in> set ends\<close> by (auto simp: ends_def)
    then have "find_node EDGE_NODE_TYPES b (ee_source_label ee) = Some (fst q)"
      "find_node EDGE_NODE_TYPES b (ee_target_label ee) = Some (fst (snd q))"
      by (auto simp: edge_ends_def split: option.split_asm)
    then show ?thesis using find_node_known out(1) by auto
  qed
  have "ge_source_id ed \<in> gn_id ` set ns \<and> ge_target_id ed \<in> gn_id ` set ns" if "ed \<in> set es" for ed
  proof -
    obtain i q where q: "(i, q) \<in> set (enumerate (uuid_calls t) ends)" "ed = edge_row e a (uuid7 e i) q"
      using \<open>ed \<in> set es\<close> unfolding out(2) fresh_rows_list by auto
    then have "q \<in> set ends" by (auto simp: enumerate_eq_zip dest: set_zip_rightD)
    moreover obtain src tgt ee where "q = (src, tgt, ee)" by (rule prod_cases3)
    ultimately show ?thesis using ends [of q] q(2) by (simp add: edge_row_def)
  qed
  moreover have "distinct (map graph_key ns)" using keys b(1) by (simp add: indexed_def)
  moreover have "graph_key ` set ns = extracted_key ` set ps" using arg_cong [OF keys, of set] b(2) by simp
  ultimately show ?thesis using src b(3) by auto
qed

section \<open>The stages\<close>

lemma insert_graph_store [simp]: "jobs (insert_graph g s) = jobs s" by (simp add: insert_graph_def)

lemma graph_body_cases:
  assumes "graph_body x e s a = Inr (r, s')"
  shows "if or_success r then analysis_hands a ''analysis_coverage'' s s' else jobs s' = jobs s"
proof -
  define a1 where "a1 = a\<lparr>an_status := ''extracting''\<rparr>"
  have id: "an_id a1 = an_id a" by (simp add: a1_def)
  note body = assms [unfolded graph_body_def Let_def, folded a1_def]
  show ?thesis
  proof (cases "ordered_chunks s (an_id a1) = []")
    case True
    then show ?thesis using body unfolding if_P [OF True] by (auto dest: fail_analysis_Inr)
  next
    case False
    note body = body [unfolded if_not_P [OF False]]
    show ?thesis
    proof (cases "py_int (gx_py x) (dget_or (analysis_budget a1) ''graph_extraction_concurrency'' (JInt 4))")
      case (Inl err)
      then show ?thesis using body by (auto dest: fail_analysis_Inr)
    next
      case n: (Inr n)
      note body = body [unfolded n sum.case(2)]
      show ?thesis
      proof (cases "n < 0")
        case True
        then show ?thesis using body unfolding if_P [OF True] by (auto dest: fail_analysis_Inr)
      next
        case False
        obtain g s1 where g: "extract_graph x e a1 (ordered_chunks s (an_id a1)) s = (g, s1)" by fastforce
        note body = body [unfolded if_not_P [OF False] g prod.case]
        have j: "jobs s1 = jobs s" using extract_graph_store [OF g] by simp
        show ?thesis
        proof (cases "project_to_graph_adapter x (''paper_'' @ take 8 (uuid_str (an_paper_card_id a1))) g")
          case (Inl err)
          then show ?thesis using body j by (auto dest: fail_analysis_Inr)
        next
          case (Inr g')
          then show ?thesis using body j id by (auto simp: OperatorResult_def intro!: finish_step_hands)
        qed
      qed
    qed
  qed
qed

interpretation graph_extract: pipeline_stage "analysis_graph_extract_operator x e" "''analysis_session_id''" "''analysis_coverage''" for x e
  by (rule analysis_stage_of_body [OF analysis_graph_extract_operator_def]) (rule graph_body_cases)

lemma insert_coverage_Inr: "insert_coverage c s = Inr s' \<Longrightarrow>
    jobs s' = jobs s \<and> coverages (lib s') = coverages (lib s) @ [c] \<and> (\<forall>c'\<in>set (coverages (lib s)). cv_session_id c' \<noteq> cv_session_id c)"
  by (auto simp: insert_coverage_def split: if_splits)

text \<open>A successful run stored the diagnostic computed from the session's document, chunks and nodes.\<close>

lemma coverage_body_cases:
  assumes "coverage_body e s a = Inr (r, s')"
  shows "(\<not> or_success r \<and> jobs s' = jobs s \<and> lib s' = lib s) \<or>
    (or_success r \<and> analysis_hands a ''analysis_review'' s s' \<and>
     (\<exists>d k. session_document s (an_id a) = Inr (Some d) \<and> coverages (lib s') = coverages (lib s) @
        [compute_coverage e k (an_id a) d (session_chunks s (an_id a)) (session_nodes s (an_id a))]))"
proof -
  define a1 where "a1 = a\<lparr>an_status := ''verifying''\<rparr>"
  have id: "an_id a1 = an_id a" by (simp add: a1_def)
  obtain found where found: "session_document s (an_id a1) = Inr found"
    using assms by (auto simp: coverage_body_def Let_def a1_def elim: res_bind_InrE)
  note body = assms [unfolded coverage_body_def Let_def, folded a1_def, unfolded found res_bind.simps]
  show ?thesis
  proof (cases found)
    case None
    then show ?thesis using body by (auto dest: fail_analysis_Inr)
  next
    case (Some d)
    note body = body [unfolded Some option.case(2)]
    define c where "c = compute_coverage e (new_uuid e s) (an_id a1) d (session_chunks s (an_id a1)) (session_nodes s (an_id a1))"
    obtain s1 where ins: "insert_coverage c (tick_uuid s) = Inr s1" using body by (auto simp: c_def elim: res_bind_InrE)
    have "or_success r" "analysis_hands a ''analysis_review'' s s'" "coverages (lib s') = coverages (lib s1)"
      using body [folded c_def, unfolded ins res_bind.simps] insert_coverage_Inr [OF ins] id
      by (auto simp: OperatorResult_def tick_uuid_def intro!: finish_step_hands)
    then show ?thesis using insert_coverage_Inr [OF ins] found Some id unfolding c_def tick_uuid_def
      by (intro disjI2 conjI exI [of _ d] exI [of _ "new_uuid e s"]) simp_all
  qed
qed

interpretation coverage: pipeline_stage "analysis_coverage_operator e" "''analysis_session_id''" "''analysis_review''" for e
  by (rule analysis_stage_of_body [OF analysis_coverage_operator_def]) (auto dest!: coverage_body_cases)

section \<open>The diagnostic\<close>

lemma finite_named [simp]: "finite (named ds k)"
  by (rule finite_subset [of _ "set (map (\<lambda>d. field_text d k) ds)"]) (auto simp: named_def)

text \<open>A part is a partition of its elements into the covered and the missing ones.\<close>

definition part_sound :: "string set \<Rightarrow> coverage_part \<Rightarrow> bool" where
  "part_sound ids p \<longleftrightarrow> pt_total p = card ids \<and> pt_covered p + length (pt_missing p) = pt_total p \<and>
     set (pt_missing p) \<subseteq> ids \<and> sorted (pt_missing p) \<and> distinct (pt_missing p)"

lemma coverage_of_sound: "finite ids \<Longrightarrow> part_sound ids (coverage_of ids covered)"
proof -
  assume f: "finite ids"
  have "card ids = card (ids \<inter> covered \<union> (ids - covered))" by (simp add: Int_Diff_Un)
  also have "\<dots> = card (ids \<inter> covered) + card (ids - covered)" using f by (intro card_Un_disjoint) auto
  finally have "card ids = card (ids \<inter> covered) + card (ids - covered)" .
  then show ?thesis using f by (auto simp: part_sound_def coverage_of_def)
qed

lemma ratios_bounded: "\<forall>p\<in>set ps. pt_covered p \<le> pt_total p \<Longrightarrow> \<forall>q\<in>set (ratios ps). 0 \<le> q \<and> q \<le> 1"
  by (auto simp: ratios_def divide_le_eq_1)

lemma sum_list_unit: "\<forall>q\<in>set qs. 0 \<le> q \<and> q \<le> (1::real) \<Longrightarrow> 0 \<le> sum_list qs \<and> sum_list qs \<le> real (length qs)"
  by (induction qs) auto

lemma py_round_of_int [simp]: "py_round n 0 = 0" "py_round n 1 = 1"
  using round_even_of_int [of "10 ^ n"] round_even_of_int [of 0] by (simp_all add: py_round_round_even)

lemma overall_score_unit:
  assumes "\<forall>p\<in>set ps. pt_covered p \<le> pt_total p"
  shows "0 \<le> overall_score ps \<and> overall_score ps \<le> 1"
  using sum_list_unit [OF ratios_bounded [OF assms]] by (auto simp: overall_score_def divide_le_eq_1)

text \<open>
  C22: What a coverage step stores is a consistent diagnostic of the session's document: each of the four parts splits its
  headings or ids into covered and missing ones, and the score is in the unit interval.
\<close>

theorem stored_coverage_is_consistent:
  assumes "analysis_coverage_operator e i s = (Inr r, s')" and "or_success r"
  shows "\<exists>c d. coverages (lib s') = coverages (lib s) @ [c] \<and> d \<in> set (documents (lib s)) \<and> dc_session_id d = cv_session_id c \<and>
    part_sound (named (dc_sections d) ''heading'') (cv_sections c) \<and> part_sound (named (dc_figures d) ''id'') (cv_figures c) \<and>
    part_sound (named (dc_tables d) ''id'') (cv_tables c) \<and> part_sound (named (dc_equations d) ''id'') (cv_equations c) \<and>
    0 \<le> cv_overall_score c \<and> cv_overall_score c \<le> 1 \<and> cv_unlinked c = []"
proof -
  obtain a where "coverage_body e s a = Inr (r, s')"
    using with_analysis_cases [OF assms(1) [unfolded analysis_coverage_operator_def]] by auto
  from coverage_body_cases [OF this] obtain d k where
    d: "session_document s (an_id a) = Inr (Some d)" and
    c: "coverages (lib s') = coverages (lib s) @ [compute_coverage e k (an_id a) d (session_chunks s (an_id a)) (session_nodes s (an_id a))]"
      (is "_ = _ @ [?c]") using assms(2) by auto
  have doc: "d \<in> set (documents (lib s)) \<and> dc_session_id d = an_id a"
    using d by (auto simp: session_document_def scalar_one_or_none_Some_iff filter_eq_Cons_iff)
  have sound: "part_sound (named (dc_sections d) ''heading'') (cv_sections ?c)" "part_sound (named (dc_figures d) ''id'') (cv_figures ?c)"
    "part_sound (named (dc_tables d) ''id'') (cv_tables ?c)" "part_sound (named (dc_equations d) ''id'') (cv_equations ?c)"
    by (simp_all add: compute_coverage_def Let_def section_coverage_def item_coverage_def coverage_of_sound)
  have part: "pt_covered p \<le> pt_total p" if "part_sound ids p" for ids p using that by (auto simp: part_sound_def)
  define ps where "ps = [cv_sections ?c, cv_figures ?c, cv_tables ?c, cv_equations ?c]"
  have "\<forall>p\<in>set ps. pt_covered p \<le> pt_total p" using sound part by (simp add: ps_def)
  then have "0 \<le> overall_score ps \<and> overall_score ps \<le> 1" by (rule overall_score_unit)
  then have "py_round 3 0 \<le> py_round 3 (overall_score ps) \<and> py_round 3 (overall_score ps) \<le> py_round 3 1" using py_round_mono by blast
  moreover have "cv_overall_score ?c = py_round 3 (overall_score ps)" by (simp add: compute_coverage_def Let_def ps_def)
  moreover have "cv_unlinked ?c = []" by (auto simp: compute_coverage_def Let_def find_unlinked_chunks_def filter_empty_conv)
  moreover have "cv_session_id ?c = an_id a" by (simp add: compute_coverage_def Let_def)
  ultimately show ?thesis using c doc sound by (intro exI [of _ ?c] exI [of _ d]) simp
qed

section \<open>Witnesses\<close>

definition demo_named :: "string \<Rightarrow> string \<Rightarrow> extracted_node" where
  "demo_named ty label = \<lparr>en_node_type = ty, en_label = label, en_description = None, en_properties = []\<rparr>"

definition demo_chunk :: "uuid \<Rightarrow> paper_chunk" where
  "demo_chunk k = \<lparr>ck_id = k, ck_session_id = 10, ck_paper_id = 1, ck_type = ''section'', ck_section_path = None, ck_ordinal = 0,
     ck_content = [], ck_content_hash = [], ck_embedding = None, ck_metadata = [], ck_created_at = 0\<rparr>"

text \<open>Each chunk names the same method; the first also a dataset the method uses and one unknown end.\<close>

definition demo_gx :: graph_ext where
  "demo_gx = \<lparr>gx_py = demo_py,
     gx_extract = (\<lambda>c. Some
       (if ck_id c = 31
        then \<lparr>ex_nodes = [demo_named ''method'' ''m'', demo_named ''dataset'' ''d''],
              ex_edges = [\<lparr>ee_source_label = ''m'', ee_target_label = ''d'', ee_edge_type = ''uses'', ee_properties = [], ee_confidence = 1\<rparr>,
                          \<lparr>ee_source_label = ''m'', ee_target_label = ''x'', ee_edge_type = ''uses'', ee_properties = [], ee_confidence = 1\<rparr>]\<rparr>
        else \<lparr>ex_nodes = [demo_named ''method'' ''m''], ex_edges = []\<rparr>)),
     gx_finish = rev, gx_adapter_error = None, gx_create = (\<lambda>_. True), gx_add_node = (\<lambda>_ _. Some ''n''), gx_add_edge = (\<lambda>_ _ _ _. None)\<rparr>"

theorem extracted_graph_is_closed_witness:
  "\<exists>ns es. fst (extract_graph demo_gx demo_env demo_analysis_row [demo_chunk 31, demo_chunk 32] empty_db) = (ns, es) \<and>
     map gn_chunk_ids ns = [[32, 31], [31]] \<and> length es = 1 \<and> distinct (map graph_key ns) \<and> ge_source_id (hd es) \<in> gn_id ` set ns"
proof -
  obtain ns es s1 where run: "extract_graph demo_gx demo_env demo_analysis_row [demo_chunk 31, demo_chunk 32] empty_db = ((ns, es), s1)"
    by (metis prod.collapse)
  have "map gn_chunk_ids ns = [[32, 31], [31]] \<and> length es = 1"
    using run by (auto simp: extract_graph_def Let_def extractions_def demo_gx_def extracted_nodes_def demo_named_def add_node_def
        node_key_def edge_ends_def EDGE_NODE_TYPES_def node_row_def demo_chunk_def tick_uuid_def)
  then show ?thesis using extracted_graph_is_closed [OF run refl] run by (auto simp: length_Suc_conv)
qed

theorem stored_coverage_is_consistent_witness:
  "\<exists>r s'. analysis_coverage_operator demo_env demo_analysis_input demo_document_world = (Inr r, s') \<and> or_success r \<and>
     (\<exists>c. coverages (lib s') = [c] \<and> 0 \<le> cv_overall_score c \<and> cv_overall_score c \<le> 1)"
proof -
  have w: "analyses demo_document_world = [demo_analysis_row]" by (simp add: demo_document_world_def)
  have "\<exists>s1. coverage_body demo_env demo_document_world demo_analysis_row = Inr (OperatorResult, s1)"
    by (simp add: coverage_body_def Let_def demo_analysis_row_def session_document_def demo_document_world_def demo_document_def
        insert_coverage_def empty_library_def tick_uuid_def)
  then obtain s' where run: "analysis_coverage_operator demo_env demo_analysis_input demo_document_world = (Inr OperatorResult, s')"
    by (auto simp: analysis_coverage_operator_def demo_analysis_with [OF w] committed_def)
  have ok: "or_success OperatorResult" by (simp add: OperatorResult_def)
  have "coverages (lib demo_document_world) = []" by (simp add: demo_document_world_def empty_library_def)
  then show ?thesis using run ok stored_coverage_is_consistent [OF run ok] by auto
qed

end
