(* ===== verification/Analysis_Review.thy ===== *)
theory Analysis_Review
  imports Analysis_Graph
begin

text \<open>
  The packet of a paper, its advisory review (\<open>libs/analysis/paper_review.py\<close>), the report
  (\<open>libs/analysis/reports.py\<close>) and the operator that makes them (\<open>libs/analysis/operators/review.py\<close>).  The two
  model calls, the file system's refusals and \<open>format(x, '.2f')\<close> are the fields of \<open>review_ext\<close>.
\<close>

section \<open>Surroundings\<close>

record review_output =
  ro_strengths :: "string list"
  ro_weaknesses :: "string list"
  ro_open_questions :: "string list"
  ro_critique :: string
  ro_scores :: "(string \<times> real) list"
  ro_reading_priority :: string

record review_ext =
  vx_py :: pylib
  vx_fixed2 :: "real \<Rightarrow> string"
  vx_complete :: "string \<Rightarrow> string + string"
  vx_review :: "string \<Rightarrow> string + review_output"
  vx_data_root :: string
  vx_write :: "string \<Rightarrow> string \<Rightarrow> string option"

section \<open>The packet\<close>

abbreviation nl :: string where "nl \<equiv> [CHR 10]"

definition chunk_header :: "paper_chunk \<Rightarrow> string" where
  "chunk_header c = (case ck_section_path c of Some (x # p) \<Rightarrow> x # p | _ \<Rightarrow> ck_type c)"

definition chunk_line :: "paper_chunk \<Rightarrow> string" where
  "chunk_line c = ''['' @ chunk_header c @ ''] '' @ take 300 (ck_content c)"

definition node_line :: "graph_node \<Rightarrow> string" where
  "node_line n = ''- ['' @ gn_type n @ ''] '' @ gn_label n @ '': '' @ (case gn_description n of None \<Rightarrow> [] | Some t \<Rightarrow> t)"

definition summary_prompt :: "paper_chunk list \<Rightarrow> graph_node list \<Rightarrow> string" where
  "summary_prompt cs ns =
     ''Chunks:'' @ nl @ join_with nl (map chunk_line (take 15 cs)) @ nl @ nl @
     ''Entities:'' @ nl @ join_with nl (map node_line (take 20 ns))"

definition described :: "string \<Rightarrow> graph_node list \<Rightarrow> (string \<times> string option) list" where
  "described ty ns = take 10 (map (\<lambda>n. (gn_label n, gn_description n)) (filter (\<lambda>n. gn_type n = ty) ns))"

definition packet_row ::
  "env \<Rightarrow> analysis_session \<Rightarrow> uuid \<Rightarrow> string \<Rightarrow> paper_chunk list \<Rightarrow> graph_node list \<Rightarrow> graph_edge list \<Rightarrow> coverage_diagnostic option
   \<Rightarrow> analysis_packet" where
  "packet_row e a k summary cs ns es cov =
     \<lparr>ap_id = k, ap_session_id = an_id a, ap_paper_id = an_paper_card_id a, ap_charter_id = an_charter_id a, ap_summary = summary,
      ap_contributions = take 10 (map gn_label (filter (\<lambda>n. gn_type n \<in> {''method'', ''concept''}) ns)),
      ap_methods = described ''method'' ns, ap_datasets = described ''dataset'' ns, ap_node_counts = count_by gn_type ns,
      ap_edge_counts = count_by ge_type es, ap_coverage = cov, ap_chunk_count = length cs, ap_node_count = length ns,
      ap_edge_count = length es, ap_created_at = now e\<rparr>"

text \<open>The unique constraint \<open>uq_paper_analysis_packets_session\<close>.\<close>

definition insert_packet :: "analysis_packet \<Rightarrow> db \<Rightarrow> db res" where
  "insert_packet p s =
    (if \<exists>p'\<in>set (packets (lib s)). ap_session_id p' = ap_session_id p then Inl IntegrityError
     else Inr (upd_lib (\<lambda>l. l\<lparr>packets := packets l @ [p]\<rparr>) s))"

section \<open>The review\<close>

definition described_json :: "string \<times> string option \<Rightarrow> json" where
  "described_json d = JObj [(''name'', JStr (fst d)), (''description'', opt_text (snd d))]"

definition format_list :: "string list \<Rightarrow> string" where
  "format_list xs = (if xs = [] then ''(none)'' else join_with nl (map (\<lambda>x. ''- '' @ x) xs))"

definition described_texts :: "review_ext \<Rightarrow> (string \<times> string option) list \<Rightarrow> string list" where
  "described_texts x = map (\<lambda>d. py_str (float_repr (vx_py x)) (described_json d))"

definition build_review_context :: "review_ext \<Rightarrow> analysis_packet \<Rightarrow> coverage_diagnostic option \<Rightarrow> string" where
  "build_review_context x p cov =
     join_with (nl @ nl)
       ([''## Paper Summary'' @ nl @ ap_summary p,
         ''## Key Contributions'' @ nl @ format_list (ap_contributions p),
         ''## Methods Used'' @ nl @ format_list (described_texts x (ap_methods p)),
         ''## Datasets Referenced'' @ nl @ format_list (described_texts x (ap_datasets p))] @
        (case cov of
           None \<Rightarrow> []
         | Some c \<Rightarrow> (''## Coverage Score'' @ nl @ vx_fixed2 x (cv_overall_score c)) #
             (if cv_warnings c = [] then [] else [''## Coverage Warnings'' @ nl @ join_with nl (cv_warnings c)])))"

definition review_row :: "env \<Rightarrow> uuid \<Rightarrow> analysis_packet \<Rightarrow> review_output \<Rightarrow> review_artifact" where
  "review_row e k p r =
     \<lparr>rw_id = k, rw_packet_id = ap_id p, rw_paper_id = ap_paper_id p, rw_strengths = ro_strengths r, rw_weaknesses = ro_weaknesses r,
      rw_open_questions = ro_open_questions r, rw_critique = ro_critique r, rw_scores = ro_scores r,
      rw_reading_priority = ro_reading_priority r, rw_created_at = now e\<rparr>"

definition generate_review ::
  "review_ext \<Rightarrow> env \<Rightarrow> analysis_packet \<Rightarrow> coverage_diagnostic option \<Rightarrow> db \<Rightarrow> string + (review_artifact \<times> db)" where
  "generate_review x e p cov s =
    (case vx_review x (build_review_context x p cov) of
       Inl err \<Rightarrow> Inl err
     | Inr out \<Rightarrow>
        let r = review_row e (new_uuid e s) p out
        in Inr (r, upd_lib (\<lambda>l. l\<lparr>reviews := reviews l @ [r]\<rparr>) (tick_uuid s)))"

section \<open>The report\<close>

definition report_dir :: "string \<Rightarrow> uuid \<Rightarrow> string" where
  "report_dir data_root sid = data_root @ ''/artifacts/analysis/'' @ uuid_str sid"

definition bullets :: "string list \<Rightarrow> string list" where
  "bullets = map (\<lambda>t. ''- '' @ t)"

definition titled :: "string \<Rightarrow> string list \<Rightarrow> string list" where
  "titled title items = (if items = [] then [] else title # bullets items @ [[]])"

definition rstrip_by :: "(char \<Rightarrow> bool) \<Rightarrow> string \<Rightarrow> string" where
  "rstrip_by P t = rev (dropWhile P (rev t))"

definition method_line :: "string \<times> string option \<Rightarrow> string" where
  "method_line d =
     rstrip_by (\<lambda>c. c \<in> {CHR '':'', CHR '' ''})
       (''- '' @ (if fst d = [] then ''(unnamed)'' else fst d) @ '': '' @ (case snd d of None \<Rightarrow> [] | Some t \<Rightarrow> t))"

text \<open>An instant that is not set is shown as a dash, here as its three UTF-8 bytes.\<close>

definition time_text :: "review_ext \<Rightarrow> time option \<Rightarrow> string" where
  "time_text x t = (case t of None \<Rightarrow> [CHR 0xE2, CHR 0x80, CHR 0x94] | Some i \<Rightarrow> isoformat (vx_py x) i)"

definition coverage_lines :: "review_ext \<Rightarrow> coverage_diagnostic option \<Rightarrow> string list" where
  "coverage_lines x cov =
    (case cov of
       None \<Rightarrow> []
     | Some c \<Rightarrow> [''## Coverage'', [], ''- **Overall score:** '' @ vx_fixed2 x (cv_overall_score c)] @
         (if cv_warnings c = [] then [] else ''- **Warnings:**'' # map (\<lambda>w. ''  - '' @ w) (cv_warnings c)) @ [[]])"

definition review_lines :: "review_ext \<Rightarrow> review_artifact \<Rightarrow> string list" where
  "review_lines x r =
     [''## Review'', []] @ titled ''**Strengths**'' (rw_strengths r) @ titled ''**Weaknesses**'' (rw_weaknesses r) @
     titled ''**Open questions**'' (rw_open_questions r) @
     (if rw_critique r = [] then [] else [''**Critique**'', [], rw_critique r, []]) @
     (if rw_scores r = [] then []
      else [''**Scores**'', []] @ map (\<lambda>(k, v). ''- '' @ k @ '': '' @ vx_fixed2 x v) (rw_scores r) @ [[]])"

definition quoted :: "string \<Rightarrow> string" where
  "quoted t = CHR 96 # t @ [CHR 96]"

definition render_markdown ::
  "review_ext \<Rightarrow> analysis_session \<Rightarrow> analysis_packet \<Rightarrow> review_artifact \<Rightarrow> coverage_diagnostic option \<Rightarrow> string" where
  "render_markdown x a p r cov =
     rstrip_by is_space (join_with nl
       ([''# Analysis report -- session '' @ quoted (uuid_str (an_id a)), [],
         ''- **Paper:** '' @ quoted (uuid_str (an_paper_card_id a)),
         ''- **Cycle:** '' @ quoted (uuid_str (an_cycle_id a)),
         ''- **Charter:** '' @ quoted (uuid_str (an_charter_id a)),
         ''- **Started:** '' @ time_text x (an_started_at a),
         ''- **Completed:** '' @ time_text x (an_completed_at a),
         ''- **Status:** '' @ an_status a, [], ''## Summary'', [], ap_summary p, []] @
        (if ap_contributions p = [] then [] else [''## Key contributions'', []] @ bullets (ap_contributions p) @ [[]]) @
        (if ap_methods p = [] then [] else [''## Methods'', []] @ map method_line (ap_methods p) @ [[]]) @
        coverage_lines x cov @ review_lines x r)) @ nl"

definition texts_json :: "string list \<Rightarrow> json" where
  "texts_json ts = JList (map JStr ts)"

definition part_json :: "coverage_part \<Rightarrow> json" where
  "part_json p = JObj [(''total'', JInt (int (pt_total p))), (''covered'', JInt (int (pt_covered p))), (''missing'', texts_json (pt_missing p))]"

definition snapshot_json :: "coverage_diagnostic option \<Rightarrow> json" where
  "snapshot_json cov =
    (case cov of
       None \<Rightarrow> JNull
     | Some c \<Rightarrow> JObj [(''overall_score'', JFloat (cv_overall_score c)), (''section_coverage'', part_json (cv_sections c)),
         (''figure_coverage'', part_json (cv_figures c)), (''table_coverage'', part_json (cv_tables c)),
         (''warnings'', texts_json (cv_warnings c))])"

definition iso_json :: "review_ext \<Rightarrow> time option \<Rightarrow> json" where
  "iso_json x t = (case t of None \<Rightarrow> JNull | Some i \<Rightarrow> JStr (isoformat (vx_py x) i))"

definition session_json :: "review_ext \<Rightarrow> analysis_session \<Rightarrow> json" where
  "session_json x a =
     JObj [(''id'', JUuid (an_id a)), (''paper_card_id'', JUuid (an_paper_card_id a)), (''cycle_id'', JUuid (an_cycle_id a)),
       (''charter_id'', JUuid (an_charter_id a)), (''status'', JStr (an_status a)),
       (''budget'', case an_budget a of None \<Rightarrow> JNull | Some b \<Rightarrow> JObj b),
       (''started_at'', iso_json x (an_started_at a)), (''completed_at'', iso_json x (an_completed_at a))]"

definition packet_json :: "analysis_packet \<Rightarrow> json" where
  "packet_json p =
     JObj [(''id'', JUuid (ap_id p)), (''summary'', JStr (ap_summary p)), (''key_contributions'', texts_json (ap_contributions p)),
       (''methods_used'', JList (map described_json (ap_methods p))),
       (''datasets_referenced'', JList (map described_json (ap_datasets p))), (''reproducibility_notes'', JNull),
       (''graph_summary'', JObj [(''node_counts'', counts_json (ap_node_counts p)), (''edge_counts'', counts_json (ap_edge_counts p))]),
       (''coverage_snapshot'', snapshot_json (ap_coverage p)), (''chunk_count'', JInt (int (ap_chunk_count p))),
       (''node_count'', JInt (int (ap_node_count p))), (''edge_count'', JInt (int (ap_edge_count p)))]"

definition review_json :: "review_artifact \<Rightarrow> json" where
  "review_json r =
     JObj [(''id'', JUuid (rw_id r)), (''strengths'', texts_json (rw_strengths r)), (''weaknesses'', texts_json (rw_weaknesses r)),
       (''open_questions'', texts_json (rw_open_questions r)), (''critique'', JStr (rw_critique r)),
       (''scores'', JObj (map (\<lambda>(k, v). (k, JFloat v)) (rw_scores r))), (''reading_priority'', JStr (rw_reading_priority r))]"

definition coverage_json :: "coverage_diagnostic option \<Rightarrow> json" where
  "coverage_json cov =
    (case cov of
       None \<Rightarrow> JNull
     | Some c \<Rightarrow> JObj [(''overall_score'', JFloat (cv_overall_score c)), (''section_coverage'', part_json (cv_sections c)),
         (''figure_coverage'', part_json (cv_figures c)), (''table_coverage'', part_json (cv_tables c)),
         (''equation_coverage'', part_json (cv_equations c)), (''warnings'', texts_json (cv_warnings c))])"

definition render_json ::
  "review_ext \<Rightarrow> env \<Rightarrow> analysis_session \<Rightarrow> analysis_packet \<Rightarrow> review_artifact \<Rightarrow> coverage_diagnostic option \<Rightarrow> json" where
  "render_json x e a p r cov =
     JObj [(''session'', session_json x a), (''packet'', packet_json p), (''review'', review_json r),
       (''coverage'', coverage_json cov), (''evidence_cards'', JList []),
       (''generated_at'', JStr (isoformat (vx_py x) (now e) @ ''Z''))]"

text \<open>The markdown is written before the JSON, so a refused second file leaves the first.\<close>

definition write_file :: "review_ext \<Rightarrow> string \<Rightarrow> string \<Rightarrow> db \<Rightarrow> string option \<times> db" where
  "write_file x path content s =
    (case vx_write x path content of Some err \<Rightarrow> (Some err, s) | None \<Rightarrow> (None, s\<lparr>disk := dset (disk s) path content\<rparr>))"

definition write_report_bundle :: "review_ext \<Rightarrow> string \<Rightarrow> string \<Rightarrow> json \<Rightarrow> db \<Rightarrow> string option \<times> db" where
  "write_report_bundle x dir markdown payload s =
    (case write_file x (dir @ ''/report.md'') markdown s of
       (Some err, s1) \<Rightarrow> (Some err, s1)
     | (None, s1) \<Rightarrow> write_file x (dir @ ''/report.json'') (json_text (vx_py x) payload) s1)"

section \<open>The operator\<close>

definition session_coverage :: "db \<Rightarrow> uuid \<Rightarrow> coverage_diagnostic option res" where
  "session_coverage s sid = scalar_one_or_none (filter (\<lambda>c. cv_session_id c = sid) (coverages (lib s)))"

definition reviewed ::
  "env \<Rightarrow> analysis_session \<Rightarrow> analysis_packet \<Rightarrow> review_artifact \<Rightarrow> string \<Rightarrow> db \<Rightarrow> op_result \<times> db" where
  "reviewed e a p r path s =
    (let detail = [(''packet_id'', JUuid (ap_id p)), (''review_id'', JUuid (rw_id r)), (''report_path'', JStr path)]
     in (OperatorResult\<lparr>or_artifacts := [path]\<rparr>,
         finish_step e ''review'' ''reviewed'' detail detail ''analysis.review_generated'' detail ''analysis_evidence''
           (a\<lparr>an_report_path := Some path\<rparr>) s))"

text \<open>From the stored packet on: review, report and the end of the step.\<close>

definition review_packet ::
  "review_ext \<Rightarrow> env \<Rightarrow> analysis_session \<Rightarrow> analysis_packet \<Rightarrow> coverage_diagnostic option \<Rightarrow> db \<Rightarrow> (op_result \<times> db) res" where
  "review_packet x e a p cov s =
    (case generate_review x e p cov s of
       Inl err \<Rightarrow> fail_analysis e ''review'' err a s
     | Inr (r, s1) \<Rightarrow>
        let dir = report_dir (vx_data_root x) (an_id a) in
        (case write_report_bundle x dir (render_markdown x a p r cov) (render_json x e a p r cov) s1 of
           (Some err, s2) \<Rightarrow> fail_analysis e ''review'' err a s2
         | (None, s2) \<Rightarrow> Inr (reviewed e a p r (dir @ ''/report.md'') s2)))"

definition review_body :: "review_ext \<Rightarrow> env \<Rightarrow> db \<Rightarrow> analysis_session \<Rightarrow> (op_result \<times> db) res" where
  "review_body x e s a0 =
    (let a = a0\<lparr>an_status := ''reviewing''\<rparr>; cs = ordered_chunks s (an_id a); ns = session_nodes s (an_id a);
         es = session_edges s (an_id a) in
     res_bind (session_coverage s (an_id a)) (\<lambda>cov.
       case vx_complete x (summary_prompt cs ns) of
         Inl err \<Rightarrow> fail_analysis e ''review'' err a s
       | Inr summary \<Rightarrow>
          let p = packet_row e a (new_uuid e s) summary cs ns es cov
          in res_bind (insert_packet p (tick_uuid s)) (review_packet x e a p cov)))"

definition analysis_review_operator :: "review_ext \<Rightarrow> env \<Rightarrow> operator" where
  "analysis_review_operator x e i s = with_analysis i s (review_body x e s)"

section \<open>Facts\<close>

lemma jobs_write_file [simp]: "write_file x path t s = (err, s') \<Longrightarrow> jobs s' = jobs s \<and> lib s' = lib s"
  by (auto simp: write_file_def split: option.split_asm)

lemma write_report_bundle_store: "write_report_bundle x dir m j s = (err, s') \<Longrightarrow> jobs s' = jobs s \<and> lib s' = lib s"
  by (auto simp: write_report_bundle_def write_file_def split: prod.split_asm option.split_asm)

lemma generate_review_store: "generate_review x e p cov s = Inr (r, s') \<Longrightarrow> jobs s' = jobs s \<and> packets (lib s') = packets (lib s)"
  by (auto simp: generate_review_def Let_def tick_uuid_def split: sum.split_asm)

text \<open>Whatever follows, the stored packet stays; the next job comes exactly with success.\<close>

lemma review_packet_cases:
  assumes "review_packet x e a p cov s = Inr (r, s')"
  shows "packets (lib s') = packets (lib s) \<and> (if or_success r then analysis_hands a ''analysis_evidence'' s s' else jobs s' = jobs s)"
proof (cases "generate_review x e p cov s")
  case (Inl err)
  then show ?thesis using assms by (auto simp: review_packet_def dest: fail_analysis_Inr)
next
  case (Inr out)
  obtain rw s1 where rw: "generate_review x e p cov s = Inr (rw, s1)" using Inr by (cases out) simp
  define dir where "dir = report_dir (vx_data_root x) (an_id a)"
  obtain err s2 where w: "write_report_bundle x dir (render_markdown x a p rw cov) (render_json x e a p rw cov) s1 = (err, s2)" by fastforce
  note body = assms [unfolded review_packet_def rw sum.case(2) prod.case Let_def, folded dir_def, unfolded w prod.case]
  have s: "jobs s2 = jobs s" "packets (lib s2) = packets (lib s)"
    using write_report_bundle_store [OF w] generate_review_store [OF rw] by simp_all
  show ?thesis
  proof (cases err)
    case (Some t)
    then show ?thesis using body s by (auto dest: fail_analysis_Inr)
  next
    case None
    then have "or_success r" "s' = snd (reviewed e a p rw (dir @ ''/report.md'') s2)" using body by (auto simp: reviewed_def OperatorResult_def Let_def)
    then show ?thesis using s by (auto simp: reviewed_def Let_def intro!: finish_step_hands)
  qed
qed

text \<open>A run kept the packets because the summary failed, or stored the session's first packet.\<close>

lemma review_body_cases:
  assumes "review_body x e s a = Inr (r, s')"
  shows "if or_success r then analysis_hands a ''analysis_evidence'' s s' else jobs s' = jobs s"
    and "(\<not> or_success r \<and> packets (lib s') = packets (lib s) \<and>
        (\<exists>err. vx_complete x (summary_prompt (ordered_chunks s (an_id a)) (session_nodes s (an_id a))) = Inl err)) \<or>
      ((\<forall>p\<in>set (packets (lib s)). ap_session_id p \<noteq> an_id a) \<and>
       (\<exists>summary cov k. packets (lib s') = packets (lib s) @
          [packet_row e a k summary (ordered_chunks s (an_id a)) (session_nodes s (an_id a)) (session_edges s (an_id a)) cov]))"
proof -
  define a1 where "a1 = a\<lparr>an_status := ''reviewing''\<rparr>"
  have id: "an_id a1 = an_id a" by (simp add: a1_def)
  have row: "packet_row e a1 = packet_row e a" by (simp add: a1_def packet_row_def fun_eq_iff)
  define cs ns es where defs: "cs = ordered_chunks s (an_id a)" "ns = session_nodes s (an_id a)" "es = session_edges s (an_id a)"
  obtain cov where cov: "session_coverage s (an_id a1) = Inr cov"
    using assms by (auto simp: review_body_def Let_def a1_def elim: res_bind_InrE)
  note body = assms [unfolded review_body_def Let_def, folded a1_def, unfolded cov res_bind.simps, unfolded id, folded defs]
  have "(if or_success r then analysis_hands a ''analysis_evidence'' s s' else jobs s' = jobs s) \<and>
    ((\<not> or_success r \<and> packets (lib s') = packets (lib s) \<and> (\<exists>err. vx_complete x (summary_prompt cs ns) = Inl err)) \<or>
      ((\<forall>p\<in>set (packets (lib s)). ap_session_id p \<noteq> an_id a) \<and>
       (\<exists>summary cov k. packets (lib s') = packets (lib s) @ [packet_row e a k summary cs ns es cov])))"
  proof (cases "vx_complete x (summary_prompt cs ns)")
    case (Inl err)
    then show ?thesis using body by (auto dest: fail_analysis_Inr)
  next
    case (Inr summary)
    define p where "p = packet_row e a1 (new_uuid e s) summary cs ns es cov"
    obtain s1 where ins: "insert_packet p (tick_uuid s) = Inr s1" and rest: "review_packet x e a1 p cov s1 = Inr (r, s')"
      using body [unfolded Inr sum.case(2), folded p_def] by (elim res_bind_InrE) auto
    have s1: "jobs s1 = jobs s" "packets (lib s1) = packets (lib s) @ [p]" "\<forall>p'\<in>set (packets (lib s)). ap_session_id p' \<noteq> an_id a"
      using ins by (auto simp: insert_packet_def p_def packet_row_def id tick_uuid_def split: if_splits)
    then show ?thesis using review_packet_cases [OF rest] id unfolding p_def row by (auto simp: analysis_hands_def)
  qed
  then show "if or_success r then analysis_hands a ''analysis_evidence'' s s' else jobs s' = jobs s"
    and "(\<not> or_success r \<and> packets (lib s') = packets (lib s) \<and>
        (\<exists>err. vx_complete x (summary_prompt (ordered_chunks s (an_id a)) (session_nodes s (an_id a))) = Inl err)) \<or>
      ((\<forall>p\<in>set (packets (lib s)). ap_session_id p \<noteq> an_id a) \<and>
       (\<exists>summary cov k. packets (lib s') = packets (lib s) @
          [packet_row e a k summary (ordered_chunks s (an_id a)) (session_nodes s (an_id a)) (session_edges s (an_id a)) cov]))"
    unfolding defs by blast+
qed

interpretation review: pipeline_stage "analysis_review_operator x e" "''analysis_session_id''" "''analysis_evidence''" for x e
  by (rule analysis_stage_of_body [OF analysis_review_operator_def]) (rule review_body_cases(1))

section \<open>One review per session\<close>

lemma count_by_sum: "sum_list (map snd (count_by key rs)) = length rs"
proof -
  have step: "sum_list (map snd (dset d k (Suc (case map_of d k of None \<Rightarrow> 0 | Some n \<Rightarrow> n)))) = Suc (sum_list (map snd d))"
    for d :: "(string \<times> nat) list" and k by (induction d) auto
  have "sum_list (map snd (fold (\<lambda>r d. dset d (key r) (Suc (case map_of d (key r) of None \<Rightarrow> 0 | Some n \<Rightarrow> n))) rs d)) =
      sum_list (map snd d) + length rs" for d :: "(string \<times> nat) list"
    by (induction rs arbitrary: d) (simp_all add: step)
  from this [of "[]"] show ?thesis by (simp add: count_by_def)
qed

text \<open>
  The packet of a session is an exact summary of its rows: a review that answered left at most one packet more, that
  packet counts the session's chunks, nodes and edges, and its per-type counts add up to these numbers; the contributions
  and methods are labels of the session's own nodes, at most ten each.
\<close>

theorem packet_summarises_session:
  assumes "analysis_review_operator x e i s = (Inr r, s')" and "UUID_of (dget (oi_payload i) ''analysis_session_id'') = Inr sid"
    and "p \<in> set (packets (lib s'))" and "p \<notin> set (packets (lib s))"
  shows "packets (lib s') = packets (lib s) @ [p] \<and> ap_session_id p = sid \<and>
    ap_chunk_count p = length (session_chunks s sid) \<and> ap_node_count p = length (session_nodes s sid) \<and>
    ap_edge_count p = length (session_edges s sid) \<and>
    sum_list (map snd (ap_node_counts p)) = ap_node_count p \<and> sum_list (map snd (ap_edge_counts p)) = ap_edge_count p \<and>
    length (ap_contributions p) \<le> 10 \<and> set (ap_contributions p) \<subseteq> gn_label ` set (session_nodes s sid) \<and>
    length (ap_methods p) \<le> 10 \<and> fst ` set (ap_methods p) \<subseteq> gn_label ` set (session_nodes s sid)"
proof -
  obtain a where a: "UUID_of (dget (oi_payload i) ''analysis_session_id'') = Inr (an_id a)" "review_body x e s a = Inr (r, s')"
    using with_analysis_cases [OF assms(1) [unfolded analysis_review_operator_def]] by auto
  have sid: "an_id a = sid" using a(1) assms(2) by simp
  obtain summary cov k where
    new: "packets (lib s') = packets (lib s) @ [packet_row e a k summary (ordered_chunks s sid) (session_nodes s sid) (session_edges s sid) cov]"
    using review_body_cases(2) [OF a(2)] assms(3,4) unfolding sid by auto
  have p: "p = packet_row e a k summary (ordered_chunks s sid) (session_nodes s sid) (session_edges s sid) cov"
    using new assms(3,4) by auto
  show ?thesis using new
    by (auto simp: p packet_row_def sid count_by_sum ordered_chunks_def described_def dest!: in_set_takeD)
qed


section \<open>Witnesses\<close>

definition demo_vx :: review_ext where
  "demo_vx = \<lparr>vx_py = demo_py, vx_fixed2 = (\<lambda>_. ''1.00''), vx_complete = (\<lambda>_. Inr ''ok''), vx_review = (\<lambda>_. Inl ''no review''),
     vx_data_root = ''/data'', vx_write = (\<lambda>_ _. None)\<rparr>"

definition demo_graph_world :: db where
  "demo_graph_world = empty_db\<lparr>analyses := [demo_analysis_row],
     lib := empty_library\<lparr>chunks := [demo_chunk 31],
       gnodes := [node_row demo_env demo_analysis_row 31 41 (demo_named ''method'' ''m''),
                  node_row demo_env demo_analysis_row 31 42 (demo_named ''dataset'' ''d'')]\<rparr>\<rparr>"

text \<open>The packet is stored and the reviewer refuses.\<close>

lemma demo_review_fails:
  "\<exists>r s1. analysis_review_operator demo_vx demo_env demo_analysis_input demo_graph_world = (Inr r, s1) \<and> \<not> or_success r \<and>
     length (packets (lib s1)) = 1"
proof -
  have w: "analyses demo_graph_world = [demo_analysis_row]" by (simp add: demo_graph_world_def)
  have "\<exists>s1. review_body demo_vx demo_env demo_graph_world demo_analysis_row = Inr (op_fail ''no review'', s1) \<and> length (packets (lib s1)) = 1"
    by (simp add: review_body_def Let_def session_coverage_def demo_graph_world_def empty_library_def demo_vx_def insert_packet_def
        tick_uuid_def review_packet_def generate_review_def fail_analysis_def put_analysis_def)
  then show ?thesis by (auto simp: analysis_review_operator_def demo_analysis_with [OF w] committed_def OperatorResult_def)
qed

theorem packet_summarises_session_witness:
  "\<exists>s1 p. snd (analysis_review_operator demo_vx demo_env demo_analysis_input demo_graph_world) = s1 \<and> packets (lib s1) = [p] \<and>
     ap_node_count p = 2 \<and> sum_list (map snd (ap_node_counts p)) = 2 \<and> ap_chunk_count p = 1"
proof -
  obtain r s1 where run: "analysis_review_operator demo_vx demo_env demo_analysis_input demo_graph_world = (Inr r, s1)"
    and one: "length (packets (lib s1)) = 1" using demo_review_fails by blast
  obtain p where p: "packets (lib s1) = [p]" using one by (auto simp: length_Suc_conv)
  have none: "packets (lib demo_graph_world) = []" by (simp add: demo_graph_world_def empty_library_def)
  have id: "UUID_of (dget (oi_payload demo_analysis_input) ''analysis_session_id'') = Inr 10" by (simp add: demo_analysis_input_def dget_def)
  have n: "length (session_nodes demo_graph_world 10) = 2" "length (session_chunks demo_graph_world 10) = 1"
    by (simp_all add: session_nodes_def session_chunks_def demo_graph_world_def node_row_def demo_analysis_row_def demo_chunk_def)
  show ?thesis using packet_summarises_session [OF run id, of p] p none n run by auto
qed


end
