(* ===== verification/Analysis_Evidence.thy ===== *)
theory Analysis_Evidence
  imports Analysis_Review "HOL-Library.Multiset"
begin

text \<open>
  Evidence cards (\<open>libs/analysis/evidence_extraction.py\<close>), the last operator of the analysis pipeline
  (\<open>libs/analysis/operators/evidence.py\<close>) and the pipeline as a whole.  The models, pgvector's cosine distance, the order
  of an unordered query and the order in which concurrent comparisons end are the fields of \<open>evidence_ext\<close>.
\<close>

section \<open>Extraction\<close>

record extracted_evidence =
  ev_type :: string
  ev_claim :: string
  ev_supporting_text :: "string option"
  ev_confidence :: real

record contradiction_result =
  cr_relationship :: string
  cr_reason :: string
  cr_model_confidence :: real

record evidence_ext =
  ix_py :: pylib
  ix_extract :: "string \<Rightarrow> string + extracted_evidence list"
  ix_embed :: "string list \<Rightarrow> string + real list list"
  ix_distance :: "real list \<Rightarrow> real list \<Rightarrow> real"
  ix_rows :: "evidence_card list \<Rightarrow> evidence_card list"
  ix_finish :: "evidence_card list \<Rightarrow> evidence_card list"
  ix_classify :: "string \<Rightarrow> string \<Rightarrow> contradiction_result option"

definition build_extraction_context :: "evidence_ext \<Rightarrow> analysis_packet \<Rightarrow> paper_chunk list \<Rightarrow> graph_node list \<Rightarrow> string" where
  "build_extraction_context x p cs ns =
     join_with (nl @ nl)
       ([''## Paper Summary'' @ nl @ ap_summary p] @
        (if ap_contributions p = [] then [] else [''## Key Contributions'' @ nl @ join_with nl (bullets (ap_contributions p))]) @
        (if ap_methods p = [] then []
         else [''## Methods'' @ nl @ join_with nl (bullets (map (\<lambda>d. py_str (float_repr (ix_py x)) (described_json d)) (ap_methods p)))]) @
        (if cs = [] then [] else [''## Key Passages'' @ nl @ join_with (nl @ nl) (map chunk_line (take 10 cs))]) @
        (if ns = [] then [] else [''## Extracted Entities'' @ nl @ join_with nl (map node_line (take 15 ns))]))"

definition evidence_row ::
  "env \<Rightarrow> analysis_session \<Rightarrow> analysis_packet \<Rightarrow> uuid list \<Rightarrow> uuid list \<Rightarrow> uuid \<Rightarrow> extracted_evidence \<Rightarrow> evidence_card" where
  "evidence_row e a p chunk_ids node_ids k ev =
     \<lparr>ec_id = k, ec_charter_id = an_charter_id a, ec_cycle_id = an_cycle_id a, ec_paper_id = ap_paper_id p, ec_packet_id = Some (ap_id p),
      ec_type = ev_type ev, ec_claim = ev_claim ev, ec_supporting_text = ev_supporting_text ev, ec_chunk_ids = chunk_ids,
      ec_node_ids = node_ids, ec_confidence = ev_confidence ev, ec_contradicts = [], ec_redundancy_group = None,
      ec_embedding = None, ec_created_at = now e\<rparr>"

text \<open>\<open>zip(new, embeddings, strict=False)\<close>; a card without a vector is not compared.\<close>

fun embedded_cards :: "evidence_card list \<Rightarrow> real list list \<Rightarrow> evidence_card list" where
  "embedded_cards (c # cs) (v # vs) = (if v = [] then c else c\<lparr>ec_embedding := Some v\<rparr>) # embedded_cards cs vs"
| "embedded_cards cs vs = cs"

definition embed_evidence :: "evidence_ext \<Rightarrow> evidence_card list \<Rightarrow> string + evidence_card list" where
  "embed_evidence x cs =
    (if cs = [] then Inr [] else case ix_embed x (map ec_claim cs) of Inl err \<Rightarrow> Inl err | Inr vs \<Rightarrow> Inr (embedded_cards cs vs))"

section \<open>Contradictions\<close>

text \<open>Stored evidence of the cycle whose cosine similarity exceeds 0.7; at most ten rows, in no particular order.\<close>

definition near_evidence :: "evidence_ext \<Rightarrow> db \<Rightarrow> uuid \<Rightarrow> real list \<Rightarrow> evidence_card list" where
  "near_evidence x s cycle_id v =
     take 10 (ix_rows x (filter (\<lambda>c. ec_cycle_id c = cycle_id \<and>
        (case ec_embedding c of None \<Rightarrow> False | Some w \<Rightarrow> ix_distance x w v < 1 - 7 / 10)) (evidence (lib s))))"

definition redundancy_of :: "evidence_card \<Rightarrow> string" where
  "redundancy_of c = (case ec_redundancy_group c of Some (h # g) \<Rightarrow> h # g | _ \<Rightarrow> uuid_str (ec_id c))"

text \<open>One comparison; a failed one counts as independent.\<close>

definition classify :: "evidence_ext \<Rightarrow> evidence_card \<Rightarrow> evidence_card \<Rightarrow> evidence_card" where
  "classify x stored c =
    (case ix_classify x (ec_claim c) (ec_claim stored) of
       None \<Rightarrow> c
     | Some r \<Rightarrow>
        if cr_relationship r = ''contradictory''
        then c\<lparr>ec_contradicts := ec_contradicts c @ [(ec_id stored, cr_reason r, cr_model_confidence r)]\<rparr>
        else if cr_relationship r = ''redundant'' then c\<lparr>ec_redundancy_group := Some (redundancy_of stored)\<rparr> else c)"

definition compare_evidence :: "evidence_ext \<Rightarrow> db \<Rightarrow> uuid \<Rightarrow> evidence_card \<Rightarrow> evidence_card" where
  "compare_evidence x s cycle_id c =
    (case ec_embedding c of
       None \<Rightarrow> c
     | Some v \<Rightarrow> fold (classify x) (ix_finish x (near_evidence x s cycle_id v)) c)"

text \<open>
  \<open>extract_evidence\<close>: the new cards are compared with what is stored, never with each other.  As in the graph step a
  concurrency of 0, which the schema of the budgets refuses, would wait for ever and is not distinguished.
\<close>

definition extract_evidence ::
  "evidence_ext \<Rightarrow> env \<Rightarrow> analysis_session \<Rightarrow> analysis_packet \<Rightarrow> paper_chunk list \<Rightarrow> graph_node list \<Rightarrow> int \<Rightarrow> db
   \<Rightarrow> string + (evidence_card list \<times> db)" where
  "extract_evidence x e a p cs ns concurrency s =
    (case ix_extract x (build_extraction_context x p cs ns) of
       Inl err \<Rightarrow> Inl err
     | Inr found \<Rightarrow>
        if found = [] then Inr ([], s)
        else case fresh_rows e (evidence_row e a p (map ck_id (take 10 cs)) (map gn_id (take 10 ns))) found s of (new, s1) \<Rightarrow>
          (case embed_evidence x new of
             Inl err \<Rightarrow> Inl err
           | Inr embedded \<Rightarrow>
              if concurrency < 0 then Inl ''Semaphore initial value must be >= 0''
              else let judged = map (compare_evidence x s (an_cycle_id a)) embedded
                   in Inr (judged, upd_lib (\<lambda>l. l\<lparr>evidence := evidence l @ judged\<rparr>) s1)))"

section \<open>The operator\<close>

definition mark_analyzed :: "uuid \<Rightarrow> db \<Rightarrow> db" where
  "mark_analyzed k = upd_lib (\<lambda>l. l\<lparr>papers := update_where (\<lambda>c. pc_id c = k) (\<lambda>c. c\<lparr>pc_analysis_status := ''analyzed''\<rparr>) (papers l)\<rparr>)"

definition completed_evidence :: "env \<Rightarrow> analysis_session \<Rightarrow> evidence_card list \<Rightarrow> db \<Rightarrow> db" where
  "completed_evidence e a new s =
    (let n = JInt (int (length new));
         contradictions = JInt (int (length (filter (\<lambda>c. ec_contradicts c \<noteq> []) new)));
         redundancies = JInt (int (length (filter (\<lambda>c. ec_redundancy_group c \<notin> {None, Some []}) new)));
         counts = [(''contradiction_count'', contradictions), (''redundancy_count'', redundancies)];
         a1 = analysis_merge_stats ((''evidence_card_count'', n) # counts)
                (analysis_append_step_log e ''evidence'' ''ok'' ((''card_count'', n) # counts)
                  (a\<lparr>an_status := ''completed'', an_completed_at := Some (now e)\<rparr>))
     in analysis_event e ''analysis.session_completed'' a1 [(''paper_card_id'', JUuid (an_paper_card_id a))]
          (analysis_event e ''analysis.evidence_extracted'' a1 ((''card_count'', n) # counts)
            (put_analysis a1 (mark_analyzed (an_paper_card_id a) s))))"

definition session_packet :: "db \<Rightarrow> uuid \<Rightarrow> analysis_packet option res" where
  "session_packet s sid = scalar_one_or_none (filter (\<lambda>p. ap_session_id p = sid) (packets (lib s)))"

definition evidence_body :: "evidence_ext \<Rightarrow> env \<Rightarrow> db \<Rightarrow> analysis_session \<Rightarrow> (op_result \<times> db) res" where
  "evidence_body x e s a0 =
    (let a = a0\<lparr>an_status := ''evidence_extracting''\<rparr> in
     res_bind (session_packet s (an_id a)) (\<lambda>found.
       case found of
         None \<Rightarrow> fail_analysis e ''evidence'' ''analysis packet not found'' a s
       | Some p \<Rightarrow>
          (case py_int (ix_py x) (dget_or (analysis_budget a) ''evidence_extraction_concurrency'' (JInt 4)) of
             Inl err \<Rightarrow> fail_analysis e ''evidence'' (search_error_text err) a s
           | Inr concurrency \<Rightarrow>
              (case extract_evidence x e a p (ordered_chunks s (an_id a)) (session_nodes s (an_id a)) concurrency s of
                 Inl err \<Rightarrow> fail_analysis e ''evidence'' err a s
               | Inr (new, s1) \<Rightarrow> Inr (OperatorResult, completed_evidence e a new s1)))))"

definition analysis_evidence_operator :: "evidence_ext \<Rightarrow> env \<Rightarrow> operator" where
  "analysis_evidence_operator x e i s = with_analysis i s (evidence_body x e s)"

section \<open>Evidence\<close>

lemma completed_evidence_store [simp]:
  "jobs (completed_evidence e a new s) = jobs s" "evidence (lib (completed_evidence e a new s)) = evidence (lib s)"
  by (simp_all add: completed_evidence_def Let_def analysis_event_def emit_event_sync_def put_analysis_def mark_analyzed_def)

lemma extract_evidence_Inr:
  assumes "extract_evidence x e a p cs ns n s = Inr (new, s1)"
  shows "jobs s1 = jobs s \<and> evidence (lib s1) = evidence (lib s) @ new \<and>
    (new = [] \<or> (\<exists>raw. new = map (compare_evidence x s (an_cycle_id a)) raw \<and>
       (\<forall>c\<in>set raw. ec_contradicts c = [] \<and> ec_redundancy_group c = None \<and> ec_cycle_id c = an_cycle_id a)))"
proof (cases "ix_extract x (build_extraction_context x p cs ns)")
  case (Inr found)
  define mk where "mk = evidence_row e a p (map ck_id (take 10 cs)) (map gn_id (take 10 ns))"
  obtain rows t where rows: "fresh_rows e mk found s = (rows, t)" by fastforce
  have embedded: "set (map (\<lambda>c. (ec_contradicts c, ec_redundancy_group c, ec_cycle_id c)) (embedded_cards rs vs)) =
      set (map (\<lambda>c. (ec_contradicts c, ec_redundancy_group c, ec_cycle_id c)) rs)" for rs vs
    by (induction rs vs rule: embedded_cards.induct) auto
  have raw: "\<forall>c\<in>set rows. ec_contradicts c = [] \<and> ec_redundancy_group c = None \<and> ec_cycle_id c = an_cycle_id a"
    using fresh_rows_list [of e mk found s] unfolding rows fst_conv by (auto simp: mk_def evidence_row_def)
  have "\<forall>c\<in>set (embedded_cards rows vs). ec_contradicts c = [] \<and> ec_redundancy_group c = None \<and> ec_cycle_id c = an_cycle_id a" for vs
  proof
    fix c
    assume "c \<in> set (embedded_cards rows vs)"
    then have "(ec_contradicts c, ec_redundancy_group c, ec_cycle_id c) \<in> set (map (\<lambda>c. (ec_contradicts c, ec_redundancy_group c, ec_cycle_id c)) rows)"
      unfolding embedded [of rows vs, symmetric] by simp
    then show "ec_contradicts c = [] \<and> ec_redundancy_group c = None \<and> ec_cycle_id c = an_cycle_id a" using raw by auto
  qed
  then show ?thesis
    using assms fresh_rows_Pair [OF rows] raw unfolding extract_evidence_def Inr sum.case(2) mk_def [symmetric] rows prod.case
    by (auto simp: Let_def embed_evidence_def split: if_splits sum.split_asm)
qed (use assms in \<open>simp add: extract_evidence_def\<close>)

lemma evidence_body_cases:
  assumes "evidence_body x e s a = Inr (r, s')"
  shows "jobs s' = jobs s \<and> (\<exists>new. evidence (lib s') = evidence (lib s) @ new \<and> (\<not> or_success r \<longrightarrow> new = []) \<and>
    (new = [] \<or> (\<exists>raw. new = map (compare_evidence x s (an_cycle_id a)) raw \<and>
       (\<forall>c\<in>set raw. ec_contradicts c = [] \<and> ec_redundancy_group c = None \<and> ec_cycle_id c = an_cycle_id a))))"
proof -
  define a1 where "a1 = a\<lparr>an_status := ''evidence_extracting''\<rparr>"
  have cy: "an_cycle_id a1 = an_cycle_id a" by (simp add: a1_def)
  obtain found where found: "session_packet s (an_id a1) = Inr found"
    using assms by (auto simp: evidence_body_def Let_def a1_def elim: res_bind_InrE)
  note body = assms [unfolded evidence_body_def Let_def, folded a1_def, unfolded found res_bind.simps]
  show ?thesis
  proof (cases found)
    case None
    then show ?thesis using body by (auto dest: fail_analysis_Inr)
  next
    case (Some p)
    note body = body [unfolded Some option.case(2)]
    show ?thesis
    proof (cases "py_int (ix_py x) (dget_or (analysis_budget a1) ''evidence_extraction_concurrency'' (JInt 4))")
      case (Inl err)
      then show ?thesis using body by (auto dest: fail_analysis_Inr)
    next
      case n: (Inr n)
      note body = body [unfolded n sum.case(2)]
      show ?thesis
      proof (cases "extract_evidence x e a1 p (ordered_chunks s (an_id a1)) (session_nodes s (an_id a1)) n s")
        case (Inl err)
        then show ?thesis using body by (auto dest: fail_analysis_Inr)
      next
        case (Inr out)
        obtain new s1 where out: "out = (new, s1)" by fastforce
        have "s' = completed_evidence e a1 new s1" "r = OperatorResult" using body unfolding Inr out by auto
        then show ?thesis using extract_evidence_Inr [OF Inr [unfolded out]] by (simp add: cy OperatorResult_def)
      qed
    qed
  qed
qed

lemma analysis_evidence_jobs: "jobs (snd (analysis_evidence_operator x e i s)) = jobs s"
proof -
  obtain res s' where run: "analysis_evidence_operator x e i s = (res, s')" by fastforce
  from with_analysis_cases [OF run [unfolded analysis_evidence_operator_def]] show ?thesis using run evidence_body_cases by fastforce
qed

section \<open>What a card is compared with\<close>

lemma classify_frame:
  "ec_embedding (classify x d c) = ec_embedding c" "ec_cycle_id (classify x d c) = ec_cycle_id c"
  "ec_claim (classify x d c) = ec_claim c"
  by (simp_all add: classify_def split: option.split)

lemma fold_classify:
  "ec_embedding (fold (classify x) ds c) = ec_embedding c \<and> ec_cycle_id (fold (classify x) ds c) = ec_cycle_id c \<and>
   fst ` set (ec_contradicts (fold (classify x) ds c)) \<subseteq> fst ` set (ec_contradicts c) \<union> ec_id ` set ds \<and>
   length (ec_contradicts (fold (classify x) ds c)) \<le> length (ec_contradicts c) + length ds"
proof (induction ds arbitrary: c)
  case (Cons d ds)
  have "fst ` set (ec_contradicts (classify x d c)) \<subseteq> fst ` set (ec_contradicts c) \<union> {ec_id d}"
    "length (ec_contradicts (classify x d c)) \<le> Suc (length (ec_contradicts c))"
    by (auto simp: classify_def split: option.split)
  moreover note ih = Cons.IH [of "classify x d c"]
  ultimately have "fst ` set (ec_contradicts (fold (classify x) (d # ds) c)) \<subseteq> fst ` set (ec_contradicts c) \<union> ec_id ` set (d # ds)"
    by (simp only: fold_simps set_simps image_insert) blast
  then show ?case using ih \<open>length (ec_contradicts (classify x d c)) \<le> Suc (length (ec_contradicts c))\<close> by (simp add: classify_frame)
qed simp

text \<open>A stored card of the same cycle within the similarity bound of the new one.\<close>

definition near :: "evidence_ext \<Rightarrow> evidence_card \<Rightarrow> evidence_card \<Rightarrow> bool" where
  "near x c d \<longleftrightarrow> ec_cycle_id d = ec_cycle_id c \<and>
     (\<exists>v w. ec_embedding c = Some v \<and> ec_embedding d = Some w \<and> ix_distance x w v < 3 / 10)"

lemma near_evidence_mem:
  assumes "\<And>ds. set (ix_rows x ds) \<subseteq> set ds" and "d \<in> set (near_evidence x s cy v)"
  shows "d \<in> set (evidence (lib s)) \<and> ec_cycle_id d = cy \<and> (\<exists>w. ec_embedding d = Some w \<and> ix_distance x w v < 3 / 10)"
proof -
  define P :: "evidence_card \<Rightarrow> bool" where
    "P = (\<lambda>c. ec_cycle_id c = cy \<and> (case ec_embedding c of None \<Rightarrow> False | Some w \<Rightarrow> ix_distance x w v < 1 - 7 / 10))"
  have "d \<in> set (ix_rows x (filter P (evidence (lib s))))" using assms(2) unfolding near_evidence_def P_def by (rule in_set_takeD)
  then have "d \<in> set (evidence (lib s))" "P d" using assms(1) [of "filter P (evidence (lib s))"] by auto
  then show ?thesis by (auto simp: P_def split: option.split_asm)
qed

lemma compare_evidence_near:
  assumes "ec_contradicts c = []" and "ec_cycle_id c = cy" and "\<And>ds. set (ix_rows x ds) \<subseteq> set ds" and "\<And>ds. mset (ix_finish x ds) = mset ds"
  shows "length (ec_contradicts (compare_evidence x s cy c)) \<le> 10 \<and>
    (\<forall>k\<in>fst ` set (ec_contradicts (compare_evidence x s cy c)). \<exists>d\<in>set (evidence (lib s)). ec_id d = k \<and> near x (compare_evidence x s cy c) d)"
proof (cases "ec_embedding c")
  case None
  then show ?thesis using assms(1) by (simp add: compare_evidence_def)
next
  case (Some v)
  define ds where "ds = ix_finish x (near_evidence x s cy v)"
  have ds: "set ds = set (near_evidence x s cy v)" "length ds \<le> 10"
    using mset_eq_setD [OF assms(4)] mset_eq_length [OF assms(4) [of "near_evidence x s cy v"]] by (simp_all add: ds_def near_evidence_def)
  have sub: "d \<in> set (evidence (lib s)) \<and> near x (fold (classify x) ds c) d" if "d \<in> set ds" for d
  proof -
    have "d \<in> set (near_evidence x s cy v)" using that ds(1) by simp
    from near_evidence_mem [OF assms(3) this] show ?thesis using fold_classify [of x ds c] by (auto simp: near_def assms(2) Some)
  qed
  define res where "res = fold (classify x) ds c"
  have "\<exists>d\<in>set (evidence (lib s)). ec_id d = k \<and> near x res d" if "k \<in> fst ` set (ec_contradicts res)" for k
  proof -
    have "k \<in> ec_id ` set ds" using that fold_classify [of x ds c] assms(1) by (auto simp: res_def)
    then obtain d where "d \<in> set ds" "ec_id d = k" by blast
    then show ?thesis using sub [of d] by (auto simp: res_def)
  qed
  moreover have "length (ec_contradicts res) \<le> 10" using fold_classify [of x ds c] assms(1) ds(2) by (simp add: res_def)
  moreover have "compare_evidence x s cy c = res" by (simp add: compare_evidence_def Some ds_def res_def)
  ultimately show ?thesis by simp
qed

text \<open>
  C19: Contradictions only point backwards: every contradiction of a card that a run adds names evidence that was stored
  before the run, of the same cycle and within the similarity bound; a card has at most ten of them, and cards of the
  same run are never compared with each other.
\<close>

theorem contradictions_point_backwards:
  assumes "analysis_evidence_operator x e i s = (Inr r, s')"
    and "\<And>ds. set (ix_rows x ds) \<subseteq> set ds" and "\<And>ds. mset (ix_finish x ds) = mset ds"
  shows "\<exists>new. evidence (lib s') = evidence (lib s) @ new \<and>
    (\<forall>c\<in>set new. length (ec_contradicts c) \<le> 10 \<and>
       (\<forall>k\<in>fst ` set (ec_contradicts c). \<exists>d\<in>set (evidence (lib s)). ec_id d = k \<and> near x c d))"
proof -
  obtain a where "evidence_body x e s a = Inr (r, s')"
    using with_analysis_cases [OF assms(1) [unfolded analysis_evidence_operator_def]] by auto
  from evidence_body_cases [OF this] obtain new where new: "evidence (lib s') = evidence (lib s) @ new"
    and from_raw: "new = [] \<or> (\<exists>raw. new = map (compare_evidence x s (an_cycle_id a)) raw \<and>
       (\<forall>c\<in>set raw. ec_contradicts c = [] \<and> ec_redundancy_group c = None \<and> ec_cycle_id c = an_cycle_id a))" by blast
  have "length (ec_contradicts c) \<le> 10 \<and> (\<forall>k\<in>fst ` set (ec_contradicts c). \<exists>d\<in>set (evidence (lib s)). ec_id d = k \<and> near x c d)"
    if c: "c \<in> set new" for c
  proof -
    obtain b where "c = compare_evidence x s (an_cycle_id a) b" "ec_contradicts b = []" "ec_cycle_id b = an_cycle_id a"
      using from_raw c by auto
    then show ?thesis using compare_evidence_near [where x = x, OF _ _ assms(2,3), of b "an_cycle_id a" s] by blast
  qed
  then show ?thesis using new by blast
qed

section \<open>The pipeline\<close>

definition analysis_stages :: "document_ext \<Rightarrow> graph_ext \<Rightarrow> review_ext \<Rightarrow> evidence_ext \<Rightarrow> (string \<times> (env \<Rightarrow> operator)) list" where
  "analysis_stages x g v w =
     [(''analysis_ingest'', analysis_ingest_operator x), (''analysis_chunk'', analysis_chunk_operator x),
      (''analysis_graph_extract'', analysis_graph_extract_operator g), (''analysis_coverage'', analysis_coverage_operator),
      (''analysis_review'', analysis_review_operator v), (''analysis_evidence'', analysis_evidence_operator w)]"

lemma analysis_staged: "staged ''analysis_session_id'' (analysis_stages x g v w)"
  unfolding analysis_stages_def
  by (intro staged.more staged.last ingest.pipeline_stage_axioms chunk.pipeline_stage_axioms graph_extract.pipeline_stage_axioms
      coverage.pipeline_stage_axioms review.pipeline_stage_axioms analysis_evidence_jobs)

text \<open>
  The analysis operators form one chain: every stage that succeeds leaves exactly one pending job, of the next stage and
  for the same session, wherever the run stops and whatever the fetchers, models and databases answer.
\<close>

theorem analysis_pipeline_order:
  assumes "run_stages clock (analysis_stages x g v w) i s = (n, s')"
  shows "\<exists>new. jobs s' = jobs s @ new \<and>
     list_all2 (\<lambda>j ty. handed_over ''analysis_session_id'' ty i j) new
       (take n [''analysis_chunk'', ''analysis_graph_extract'', ''analysis_coverage'', ''analysis_review'', ''analysis_evidence''])"
  using run_stages_hand_over [OF analysis_staged assms] by (simp add: analysis_stages_def)

section \<open>The cycle stays where it is\<close>

definition leaves_cycle :: "db \<Rightarrow> op_result \<times> db \<Rightarrow> bool" where
  "leaves_cycle s out \<longleftrightarrow> cycles (snd out) = cycles s \<and> or_state_patch (fst out) = []"

lemma leaves_cycle_fail: "fail_analysis e step error a t = Inr out \<Longrightarrow> cycles t = cycles s \<Longrightarrow> leaves_cycle s out"
  by (auto simp: fail_analysis_def leaves_cycle_def put_analysis_def OperatorResult_def)

lemma cycles_steps [simp]:
  "cycles (finish_step e step st detail stats et payload ty a s) = cycles s" "cycles (put_analysis a s) = cycles s"
  "cycles (analysis_event e et a payload s) = cycles s" "cycles (put_paper c s) = cycles s" "cycles (insert_chunks cs s) = cycles s"
  "cycles (insert_graph g s) = cycles s" "cycles (mark_analyzed k s) = cycles s" "cycles (tick_uuid s) = cycles s"
  by (simp_all add: finish_step_def analysis_hand_over_def analysis_enqueue_next_def create_job_def tick_uuid_def insert_chunks_def
      analysis_event_def emit_event_sync_def put_analysis_def put_paper_def insert_graph_def mark_analyzed_def Let_def split: prod.split)

lemma leaves_cycle_done [simp]: "leaves_cycle s (OperatorResult, t) \<longleftrightarrow> cycles t = cycles s"
  by (simp add: leaves_cycle_def OperatorResult_def)

lemma with_analysis_leaves_cycle:
  assumes "with_analysis i s f = (Inr r, s')" and "\<And>a out. f a = Inr out \<Longrightarrow> leaves_cycle s out"
  shows "cycles s' = cycles s \<and> or_state_patch r = []"
proof -
  obtain a where "f a = Inr (r, s')" using with_analysis_cases [OF assms(1)] by auto
  then show ?thesis using assms(2) by (force simp: leaves_cycle_def)
qed

lemma cycles_fresh_rows: "fresh_rows e mk xs s = (ys, s') \<Longrightarrow> cycles s' = cycles s"
  by (drule fresh_rows_Pair) simp

lemma ingest_leaves_cycle: "ingest_body x e s a = Inr out \<Longrightarrow> leaves_cycle s out"
  unfolding ingest_body_def Let_def
  by (auto elim!: res_bind_InrE simp: insert_document_def dest: leaves_cycle_fail split: option.split_asm if_splits sum.split_asm)

lemma chunk_leaves_cycle: "chunk_body x e s a = Inr out \<Longrightarrow> leaves_cycle s out"
  unfolding chunk_body_def Let_def chunk_document_def
  by (auto elim!: res_bind_InrE leaves_cycle_fail dest!: cycles_fresh_rows split: option.split_asm sum.split_asm prod.split_asm)

lemma cycles_extract_graph: "extract_graph x e a cs s = (g, s1) \<Longrightarrow> cycles s1 = cycles s"
proof -
  have one: "cycles (snd (add_node e a p acc)) = cycles (snd acc)" for p acc
    by (cases p; cases acc) (simp add: add_node_def Let_def split: option.split)
  have "cycles (snd (fold (add_node e a) ps acc)) = cycles (snd acc)" for ps acc
    by (induction ps arbitrary: acc) (simp_all add: one)
  from this [of "extracted_nodes (extractions x cs)" "([], s)"] show "extract_graph x e a cs s = (g, s1) \<Longrightarrow> cycles s1 = cycles s"
    by (auto simp: extract_graph_def Let_def dest!: cycles_fresh_rows split: prod.split_asm)
qed

lemma graph_leaves_cycle: "graph_body x e s a = Inr out \<Longrightarrow> leaves_cycle s out"
  unfolding graph_body_def Let_def
  by (auto dest!: cycles_extract_graph dest: leaves_cycle_fail split: if_splits sum.split_asm prod.split_asm)

lemma coverage_leaves_cycle: "coverage_body e s a = Inr out \<Longrightarrow> leaves_cycle s out"
  unfolding coverage_body_def Let_def
  by (auto elim!: res_bind_InrE simp: insert_coverage_def dest: leaves_cycle_fail split: option.split_asm if_splits)

lemma review_packet_leaves_cycle: "review_packet x e a p cov t = Inr out \<Longrightarrow> cycles t = cycles s \<Longrightarrow> leaves_cycle s out"
  unfolding review_packet_def generate_review_def write_report_bundle_def write_file_def reviewed_def Let_def
  by (auto simp: leaves_cycle_def OperatorResult_def fail_analysis_def split: sum.split_asm prod.split_asm option.split_asm)

lemma review_leaves_cycle: "review_body x e s a = Inr out \<Longrightarrow> leaves_cycle s out"
  unfolding review_body_def Let_def
  by (auto elim!: res_bind_InrE review_packet_leaves_cycle simp: insert_packet_def dest: leaves_cycle_fail split: sum.split_asm if_splits)

lemma evidence_leaves_cycle: "evidence_body x e s a = Inr out \<Longrightarrow> leaves_cycle s out"
  unfolding evidence_body_def extract_evidence_def completed_evidence_def Let_def
  by (auto elim!: res_bind_InrE dest!: cycles_fresh_rows dest: leaves_cycle_fail
      split: option.split_asm sum.split_asm prod.split_asm if_splits)

text \<open>
  C20: Analysis never moves the cycle: no stage changes a cycle row, and none asks the worker to by a state patch, not even
  the last one.  The step from analysis_ready to evidence_ready that ideation waits for is left to a request of its own.
\<close>

theorem analysis_leaves_cycle:
  assumes "(ty, f) \<in> set (analysis_stages x g v w)" and "f e i s = (Inr r, s')"
  shows "cycles s' = cycles s \<and> or_state_patch r = []"
proof -
  consider "f = analysis_ingest_operator x" | "f = analysis_chunk_operator x" | "f = analysis_graph_extract_operator g"
    | "f = analysis_coverage_operator" | "f = analysis_review_operator v" | "f = analysis_evidence_operator w"
    using assms(1) by (auto simp: analysis_stages_def)
  then show ?thesis
  proof cases
    case 1
    show ?thesis by (rule with_analysis_leaves_cycle [OF assms(2) [unfolded 1 analysis_ingest_operator_def]]) (rule ingest_leaves_cycle)
  next
    case 2
    show ?thesis by (rule with_analysis_leaves_cycle [OF assms(2) [unfolded 2 analysis_chunk_operator_def]]) (rule chunk_leaves_cycle)
  next
    case 3
    show ?thesis by (rule with_analysis_leaves_cycle [OF assms(2) [unfolded 3 analysis_graph_extract_operator_def]]) (rule graph_leaves_cycle)
  next
    case 4
    show ?thesis by (rule with_analysis_leaves_cycle [OF assms(2) [unfolded 4 analysis_coverage_operator_def]]) (rule coverage_leaves_cycle)
  next
    case 5
    show ?thesis by (rule with_analysis_leaves_cycle [OF assms(2) [unfolded 5 analysis_review_operator_def]]) (rule review_leaves_cycle)
  next
    case 6
    show ?thesis by (rule with_analysis_leaves_cycle [OF assms(2) [unfolded 6 analysis_evidence_operator_def]]) (rule evidence_leaves_cycle)
  qed
qed

section \<open>Witnesses\<close>

definition demo_stored_evidence :: evidence_card where
  "demo_stored_evidence = \<lparr>ec_id = 50, ec_charter_id = 3, ec_cycle_id = 4, ec_paper_id = 2, ec_packet_id = None, ec_type = ''finding'',
     ec_claim = ''it fails'', ec_supporting_text = None, ec_chunk_ids = [], ec_node_ids = [], ec_confidence = 1, ec_contradicts = [],
     ec_redundancy_group = None, ec_embedding = Some [1], ec_created_at = 0\<rparr>"

definition demo_packet :: analysis_packet where
  "demo_packet = packet_row demo_env demo_analysis_row 45 ''ok'' [] [] [] None"

text \<open>One claim, near to the stored one and judged to contradict it.\<close>

definition demo_ix :: evidence_ext where
  "demo_ix = \<lparr>ix_py = demo_py,
     ix_extract = (\<lambda>_. Inr [\<lparr>ev_type = ''finding'', ev_claim = ''it works'', ev_supporting_text = None, ev_confidence = 1\<rparr>]),
     ix_embed = (\<lambda>ts. Inr (map (\<lambda>_. [1]) ts)), ix_distance = (\<lambda>_ _. 0), ix_rows = (\<lambda>cs. cs), ix_finish = rev,
     ix_classify = (\<lambda>_ _. Some \<lparr>cr_relationship = ''contradictory'', cr_reason = [], cr_model_confidence = 1\<rparr>)\<rparr>"

definition demo_evidence_world :: db where
  "demo_evidence_world = empty_db\<lparr>analyses := [demo_analysis_row],
     lib := empty_library\<lparr>packets := [demo_packet], evidence := [demo_stored_evidence]\<rparr>\<rparr>"

lemma demo_evidence_runs:
  "\<exists>r s' c. analysis_evidence_operator demo_ix demo_env demo_analysis_input demo_evidence_world = (Inr r, s') \<and>
     evidence (lib s') = [demo_stored_evidence, c] \<and> map fst (ec_contradicts c) = [50]"
proof -
  have w: "analyses demo_evidence_world = [demo_analysis_row]" by (simp add: demo_evidence_world_def)
  define a where "a = demo_analysis_row\<lparr>an_status := ''evidence_extracting''\<rparr>"
  have a: "an_id a = 10" "an_cycle_id a = 4" "analysis_budget a = []"
    by (simp_all add: a_def demo_analysis_row_def analysis_budget_def opt_dict_def)
  have p: "session_packet demo_evidence_world 10 = Inr (Some demo_packet)"
    by (simp add: session_packet_def demo_evidence_world_def demo_packet_def packet_row_def demo_analysis_row_def)
  obtain new s1 where new: "extract_evidence demo_ix demo_env a demo_packet (ordered_chunks demo_evidence_world 10)
      (session_nodes demo_evidence_world 10) 4 demo_evidence_world = Inr (new, s1)"
    and c: "map (\<lambda>c. map fst (ec_contradicts c)) new = [[50]]"
    by (simp add: extract_evidence_def demo_ix_def embed_evidence_def Let_def compare_evidence_def near_evidence_def a evidence_row_def
        demo_evidence_world_def demo_stored_evidence_def classify_def)
  have "evidence_body demo_ix demo_env demo_evidence_world demo_analysis_row = Inr (OperatorResult, completed_evidence demo_env a new s1)"
    by (simp add: evidence_body_def Let_def a_def [symmetric] a p dget_or_def new)
  then have "analysis_evidence_operator demo_ix demo_env demo_analysis_input demo_evidence_world =
      (Inr OperatorResult, completed_evidence demo_env a new s1)"
    by (simp add: analysis_evidence_operator_def demo_analysis_with [OF w] committed_def)
  moreover have "evidence (lib s1) = demo_stored_evidence # new" using extract_evidence_Inr [OF new] by (simp add: demo_evidence_world_def)
  ultimately show ?thesis using c by (auto simp: map_eq_Cons_conv)
qed

theorem contradictions_point_backwards_witness:
  "\<exists>r s' c. analysis_evidence_operator demo_ix demo_env demo_analysis_input demo_evidence_world = (Inr r, s') \<and>
     evidence (lib s') = [demo_stored_evidence, c] \<and> map fst (ec_contradicts c) = [50] \<and> near demo_ix c demo_stored_evidence"
proof -
  obtain r s' c where run: "analysis_evidence_operator demo_ix demo_env demo_analysis_input demo_evidence_world = (Inr r, s')"
    and c: "evidence (lib s') = [demo_stored_evidence, c]" "map fst (ec_contradicts c) = [50]" using demo_evidence_runs by (elim exE conjE) (rule that)
  have ext: "set (ix_rows demo_ix ds) \<subseteq> set ds" "mset (ix_finish demo_ix ds) = mset ds" for ds by (simp_all add: demo_ix_def)
  have "evidence (lib demo_evidence_world) = [demo_stored_evidence]" by (simp add: demo_evidence_world_def)
  moreover have "50 \<in> fst ` set (ec_contradicts c)" using c(2) by (metis list.set_intros(1) list.set_map)
  ultimately have "near demo_ix c demo_stored_evidence" using contradictions_point_backwards [OF run ext] c(1) by auto
  then show ?thesis using run c by (intro exI [of _ r] exI [of _ s'] exI [of _ c] conjI)
qed

lemma with_analysis_any_type [simp]: "with_analysis (i\<lparr>oi_job_type := ty\<rparr>) s f = with_analysis i s f"
  by (simp add: with_analysis_def analysis_session_id_from_payload_def id_from_payload_def)

theorem analysis_pipeline_order_witness:
  "\<exists>n s1 j js. run_stages (\<lambda>_. demo_env) (analysis_stages demo_ad demo_gx demo_vx demo_ix) demo_analysis_input demo_analysis_world = (n, s1) \<and>
     0 < n \<and> jobs s1 = jobs demo_analysis_world @ j # js \<and> j_type j = ''analysis_chunk''"
proof -
  obtain n s1 where run: "run_stages (\<lambda>_. demo_env) (analysis_stages demo_ad demo_gx demo_vx demo_ix) demo_analysis_input demo_analysis_world = (n, s1)"
    by fastforce
  have ty: "analysis_ingest_operator demo_ad demo_env (demo_analysis_input\<lparr>oi_job_type := ''analysis_ingest''\<rparr>) demo_analysis_world =
      analysis_ingest_operator demo_ad demo_env demo_analysis_input demo_analysis_world" by (simp add: analysis_ingest_operator_def)
  have "0 < n"
    using run demo_ingest_runs by (auto simp: analysis_stages_def ty simp del: run_stages.simps(2) simp: run_stages.simps(2)
        [of _ "''analysis_ingest''"] split: prod.split_asm)
  then obtain m where m: "n = Suc m" by (cases n) auto
  show ?thesis using run m analysis_pipeline_order [OF run] by (auto simp: m list_all2_Cons2 handed_over_def)
qed

theorem analysis_leaves_cycle_witness:
  "\<exists>r s1. analysis_ingest_operator demo_ad demo_env demo_analysis_input demo_analysis_world = (Inr r, s1) \<and> or_success r \<and>
     cycles s1 = cycles demo_analysis_world \<and> or_state_patch r = []"
proof -
  obtain r s1 where run: "analysis_ingest_operator demo_ad demo_env demo_analysis_input demo_analysis_world = (Inr r, s1)" "or_success r"
    using demo_ingest_runs by blast
  have "(''analysis_ingest'', analysis_ingest_operator demo_ad) \<in> set (analysis_stages demo_ad demo_gx demo_vx demo_ix)"
    by (simp add: analysis_stages_def)
  from analysis_leaves_cycle [OF this run(1)] show ?thesis using run by blast
qed

end
