(* ===== verification/Discovery_Service.thy ===== *)
theory Discovery_Service
  imports Discovery_Pipeline
begin

text \<open>
  The discovery service (\<open>libs/core/services/discovery_service.py\<close>) with its request schemas
  (\<open>libs/schemas/discovery.py\<close>) and endpoints (\<open>apps/api/routers/discovery.py\<close>), and the properties of the
  discovery pipeline.  The \<open>view\<close> and \<open>updated_at\<close> columns and the notes of an evaluation are only shown.
\<close>

section \<open>Requests\<close>

record rerank_policy =
  rp_enabled :: bool
  rp_top_n :: int
  rp_budget_seconds :: real
  rp_model :: "string option"

record discovery_budget =
  db_max_internal_results :: int
  db_max_external_results :: int
  db_analyze_top_n :: int

record problem_profile_create =
  pf_query_text :: string
  pf_notes :: string
  pf_source_scope :: "dict option"
  pf_view_preference :: string
  pf_rerank_policy :: rerank_policy
  pf_budget :: discovery_budget

definition rerank_policy_valid :: "rerank_policy \<Rightarrow> bool" where
  "rerank_policy_valid r \<longleftrightarrow> 1 \<le> rp_top_n r \<and> rp_top_n r \<le> 1000 \<and> 0 \<le> rp_budget_seconds r"

definition rerank_policy_dump :: "rerank_policy \<Rightarrow> dict" where
  "rerank_policy_dump r =
     [(''enabled'', JBool (rp_enabled r)), (''top_n'', JInt (rp_top_n r)), (''budget_seconds'', JFloat (rp_budget_seconds r)),
      (''model'', opt_text (rp_model r))]"

definition discovery_budget_valid :: "discovery_budget \<Rightarrow> bool" where
  "discovery_budget_valid b \<longleftrightarrow>
     1 \<le> db_max_internal_results b \<and> db_max_internal_results b \<le> 2000 \<and>
     0 \<le> db_max_external_results b \<and> db_max_external_results b \<le> 1000 \<and>
     0 \<le> db_analyze_top_n b \<and> db_analyze_top_n b \<le> 500"

definition discovery_budget_dump :: "discovery_budget \<Rightarrow> dict" where
  "discovery_budget_dump b =
     [(''max_internal_results'', JInt (db_max_internal_results b)), (''max_external_results'', JInt (db_max_external_results b)),
      (''analyze_top_n'', JInt (db_analyze_top_n b))]"

definition profile_valid :: "problem_profile_create \<Rightarrow> bool" where
  "profile_valid b \<longleftrightarrow>
     1 \<le> length (pf_query_text b) \<and> length (pf_query_text b) \<le> 4000 \<and>
     pf_view_preference b \<in> {''stable'', ''discovery'', ''both''} \<and>
     rerank_policy_valid (pf_rerank_policy b) \<and> discovery_budget_valid (pf_budget b)"

section \<open>Starting a session\<close>

definition reusable_cycle :: "cycle \<Rightarrow> bool" where
  "reusable_cycle c \<longleftrightarrow> cy_status c \<in> {Cy_created, Cy_discovery_ready}"

definition resolve_or_create_active_cycle :: "env \<Rightarrow> uuid \<Rightarrow> db \<Rightarrow> cycle \<times> db" where
  "resolve_or_create_active_cycle e charter_id s =
    (case find reusable_cycle (order_desc cy_created_at (filter (\<lambda>c. cy_charter_id c = charter_id) (cycles s))) of
       Some c \<Rightarrow> (c, s)
     | None \<Rightarrow>
        let c = \<lparr>cy_id = new_uuid e s, cy_charter_id = charter_id, cy_status = Cy_created, cy_config = None,
                 cy_created_at = now e, cy_updated_at = now e, cy_started_at = None, cy_completed_at = None\<rparr>
        in (c, (tick_uuid s)\<lparr>cycles := cycles s @ [c]\<rparr>))"

definition new_profile :: "env \<Rightarrow> uuid \<Rightarrow> cycle \<Rightarrow> problem_profile_create \<Rightarrow> problem_profile" where
  "new_profile e k c b =
     \<lparr>pp_id = k, pp_cycle_id = cy_id c, pp_query_text = pf_query_text b, pp_notes = pf_notes b,
      pp_source_scope = pf_source_scope b, pp_view_preference = pf_view_preference b,
      pp_rerank_policy = Some (rerank_policy_dump (pf_rerank_policy b)),
      pp_budget = Some (discovery_budget_dump (pf_budget b)), pp_created_at = now e\<rparr>"

definition new_discovery :: "env \<Rightarrow> uuid \<Rightarrow> uuid \<Rightarrow> cycle \<Rightarrow> uuid \<Rightarrow> discovery_session" where
  "new_discovery e k charter_id c profile_id =
     \<lparr>dis_id = k, dis_cycle_id = cy_id c, dis_charter_id = charter_id, dis_profile_id = profile_id, dis_status = ''created'',
      dis_report_path = None, dis_error = None, dis_step_log = Some [], dis_stats = Some [], dis_created_at = now e,
      dis_started_at = None, dis_completed_at = None\<rparr>"

type_synonym started_discovery = "discovery_session \<times> problem_profile \<times> uuid"

definition start_discovery_session_on_cycle ::
  "env \<Rightarrow> uuid \<Rightarrow> cycle \<Rightarrow> problem_profile_create \<Rightarrow> actor_type \<Rightarrow> string option \<Rightarrow> db \<Rightarrow> (started_discovery \<times> db) res" where
  "start_discovery_session_on_cycle e charter_id c body atype aid s =
     res_bind (scalar_one_or_none (filter (\<lambda>p. pp_cycle_id p = cy_id c) (profiles (lib s)))) (\<lambda>existing.
       if existing \<noteq> None then Inl (DiscoveryServiceError ''cycle already has a problem profile'')
       else
         let p = new_profile e (new_uuid e s) c body;
             s1 = upd_lib (\<lambda>l. l\<lparr>profiles := profiles l @ [p]\<rparr>) (tick_uuid s);
             d = new_discovery e (new_uuid e s1) charter_id c (pp_id p);
             s2 = (tick_uuid s1)\<lparr>discoveries := discoveries s1 @ [d]\<rparr>
         in case create_job e (Some (cy_id c)) ''discovery_intake'' (Some [(''session_id'', JUuid (dis_id d))]) 10 s2 of
              (j, s3) \<Rightarrow> Inr ((d, p, j_id j),
                emit_event e ''discovery_session_created'' (Some charter_id) (Some (cy_id c))
                  (Some [(''session_id'', JUuid (dis_id d)), (''profile_id'', JUuid (pp_id p))]) atype aid s3))"

definition start_discovery_session ::
  "env \<Rightarrow> uuid \<Rightarrow> problem_profile_create \<Rightarrow> actor_type \<Rightarrow> string option \<Rightarrow> db \<Rightarrow> (started_discovery \<times> db) res" where
  "start_discovery_session e charter_id body atype aid s =
    (case get_charter s charter_id of
       None \<Rightarrow> Inl (DiscoveryServiceError ''charter not found'')
     | Some _ \<Rightarrow>
        (case resolve_or_create_active_cycle e charter_id s of
           (c, s') \<Rightarrow> start_discovery_session_on_cycle e charter_id c body atype aid s'))"

definition start_discovery_session_for_cycle ::
  "env \<Rightarrow> uuid \<Rightarrow> uuid \<Rightarrow> problem_profile_create \<Rightarrow> actor_type \<Rightarrow> string option \<Rightarrow> db \<Rightarrow> (started_discovery \<times> db) res" where
  "start_discovery_session_for_cycle e charter_id cycle_id body atype aid s =
    (case get_charter s charter_id of
       None \<Rightarrow> Inl (DiscoveryServiceError ''charter not found'')
     | Some _ \<Rightarrow>
        (case get_cycle s cycle_id of
           None \<Rightarrow> Inl (DiscoveryServiceError ''cycle not found for charter'')
         | Some c \<Rightarrow>
            if cy_charter_id c \<noteq> charter_id then Inl (DiscoveryServiceError ''cycle not found for charter'')
            else start_discovery_session_on_cycle e charter_id c body atype aid s))"

section \<open>Reading\<close>

definition get_discovery_session :: "db \<Rightarrow> uuid \<Rightarrow> discovery_session option" where
  "get_discovery_session s k = table_get dis_id (discoveries s) k"

definition list_discovery_sessions :: "db \<Rightarrow> uuid option \<Rightarrow> nat \<Rightarrow> nat \<Rightarrow> discovery_session list \<times> nat" where
  "list_discovery_sessions s charter_id =
     listing (\<lambda>d. opt_match charter_id (dis_charter_id d)) (order_desc dis_created_at) (discoveries s)"

text \<open>The filters of a paper listing; a comparison with NULL selects nothing.\<close>

definition paper_matches :: "uuid \<Rightarrow> string option \<Rightarrow> string option \<Rightarrow> real option \<Rightarrow> paper_card \<Rightarrow> bool" where
  "paper_matches sid view triage min_score c \<longleftrightarrow>
     pc_session_id c = sid \<and> opt_match triage (pc_triage_status c) \<and>
     (case min_score of None \<Rightarrow> True | Some m \<Rightarrow> (case pc_final_score c of None \<Rightarrow> False | Some x \<Rightarrow> m \<le> x)) \<and>
     (case view of None \<Rightarrow> True | Some v \<Rightarrow> v \<in> set (opt_list (pc_view_membership c)))"

definition list_paper_cards ::
  "db \<Rightarrow> uuid \<Rightarrow> string option \<Rightarrow> string option \<Rightarrow> real option \<Rightarrow> nat \<Rightarrow> nat \<Rightarrow> paper_card list \<times> nat" where
  "list_paper_cards s sid view triage min_score =
     listing (paper_matches sid view triage min_score) (desc_nulls_last pc_final_score) (papers (lib s))"

definition get_paper_card :: "db \<Rightarrow> uuid \<Rightarrow> uuid \<Rightarrow> paper_card option res" where
  "get_paper_card s sid k = scalar_one_or_none (filter (\<lambda>c. pc_id c = k \<and> pc_session_id c = sid) (papers (lib s)))"

definition get_profile_for_session :: "db \<Rightarrow> uuid \<Rightarrow> problem_profile option" where
  "get_profile_for_session s sid =
    (case get_discovery_session s sid of
       None \<Rightarrow> None
     | Some d \<Rightarrow> table_get pp_id (profiles (lib s)) (dis_profile_id d))"

section \<open>Triage and evaluation\<close>

definition triage_paper_card ::
  "env \<Rightarrow> uuid \<Rightarrow> uuid \<Rightarrow> string \<Rightarrow> string option \<Rightarrow> actor_type \<Rightarrow> string option \<Rightarrow> db \<Rightarrow> (paper_card option \<times> db) res" where
  "triage_paper_card e sid k status reason atype aid s =
    (case get_discovery_session s sid of
       None \<Rightarrow> Inr (None, s)
     | Some d \<Rightarrow>
        res_bind (get_paper_card s sid k) (\<lambda>found.
          case found of
            None \<Rightarrow> Inr (None, s)
          | Some c \<Rightarrow>
             let c' = c\<lparr>pc_triage_status := status, pc_triage_reason := reason, pc_updated_at := now e\<rparr>
             in Inr (Some c', emit_event e ''discovery.triage_overridden'' (Some (paper_card.pc_charter_id c)) (Some (dis_cycle_id d))
                  (Some [(''session_id'', JUuid sid), (''paper_id'', JUuid (pc_id c)), (''cycle_id'', JUuid (dis_cycle_id d)),
                         (''triage_status'', JStr status), (''triage_reason'', opt_text reason)]) atype aid (put_paper c' s))))"

text \<open>The metrics in the order they are added: recall and precision at each k, then the reciprocal rank.\<close>

definition evaluation_metrics :: "paper_card list \<Rightarrow> string set \<Rightarrow> int list \<Rightarrow> (string \<times> int option \<times> real) list" where
  "evaluation_metrics ranked relevant ks =
     concat (map (\<lambda>k. [(''recall_at_k'', Some k, recall_at_k ranked relevant k),
                       (''precision_at_k'', Some k, precision_at_k ranked relevant k)]) ks) @
     [(''mrr'', None, mrr ranked relevant)]"

definition evaluation_row :: "env \<Rightarrow> uuid \<Rightarrow> uuid \<Rightarrow> string \<times> int option \<times> real \<Rightarrow> discovery_evaluation" where
  "evaluation_row e sid i m =
     \<lparr>de_id = i, de_session_id = sid, de_metric = fst m, de_k = fst (snd m), de_value = snd (snd m),
      de_source = ''user_supplied'', de_created_at = now e\<rparr>"

definition metric_json :: "discovery_evaluation \<Rightarrow> json" where
  "metric_json r = JObj [(''metric'', JStr (de_metric r)), (''k'', case de_k r of None \<Rightarrow> JNull | Some k \<Rightarrow> JInt k),
     (''value'', JFloat (de_value r))]"

definition submit_evaluation ::
  "env \<Rightarrow> uuid \<Rightarrow> string list \<Rightarrow> int list \<Rightarrow> actor_type \<Rightarrow> string option \<Rightarrow> db \<Rightarrow> (discovery_evaluation list \<times> db) res" where
  "submit_evaluation e sid relevant_ids ks atype aid s =
    (case get_discovery_session s sid of
       None \<Rightarrow> Inl (DiscoveryServiceError ''session not found'')
     | Some d \<Rightarrow>
        let ranked = desc_nulls_last pc_final_score (session_papers s sid) in
        (case fresh_rows e (evaluation_row e sid) (evaluation_metrics ranked (set relevant_ids) ks) s of
           (rows, s1) \<Rightarrow> Inr (rows, emit_event e ''discovery.evaluation_recorded'' (Some (dis_charter_id d)) (Some (dis_cycle_id d))
             (Some [(''session_id'', JUuid sid), (''metrics'', JList (map metric_json rows))]) atype aid
             (upd_lib (\<lambda>l. l\<lparr>evaluations := evaluations l @ rows\<rparr>) s1))))"

definition list_evaluations :: "db \<Rightarrow> uuid \<Rightarrow> discovery_evaluation list" where
  "list_evaluations s sid = order_desc de_created_at (filter (\<lambda>r. de_session_id r = sid) (evaluations (lib s)))"

text \<open>
  The report of a session: the markdown file the path names and the \<open>report.json\<close> beside it, which
  \<open>parse\<close> decodes or finds invalid.
\<close>

definition with_name :: "string \<Rightarrow> string \<Rightarrow> string" where
  "with_name path name = rev (dropWhile (\<lambda>c. c \<noteq> CHR ''/'') (rev path)) @ name"

definition read_discovery_report :: "(string \<Rightarrow> json option) \<Rightarrow> db \<Rightarrow> uuid \<Rightarrow> (discovery_session \<times> string option \<times> json option) res" where
  "read_discovery_report parse s sid =
    (case get_discovery_session s sid of
       None \<Rightarrow> Inl (DiscoveryServiceError ''session not found'')
     | Some d \<Rightarrow>
        (case dis_report_path d of
           Some (c # path) \<Rightarrow> Inr (d, map_of (disk s) (c # path),
             (case map_of (disk s) (with_name (c # path) ''report.json'') of None \<Rightarrow> None | Some t \<Rightarrow> parse t))
         | _ \<Rightarrow> Inr (d, None, None)))"

section \<open>Endpoints\<close>

definition discovery_http :: "int \<Rightarrow> 'a res \<Rightarrow> 'a res" where
  "discovery_http code m = (case m of Inl (DiscoveryServiceError _) \<Rightarrow> Inl (HTTPException code) | _ \<Rightarrow> m)"

definition start_discovery_endpoint :: "env \<Rightarrow> uuid \<Rightarrow> problem_profile_create \<Rightarrow> db \<Rightarrow> (started_discovery \<times> db) res" where
  "start_discovery_endpoint e charter_id body s =
     validated (profile_valid body) (discovery_http 400 (start_discovery_session e charter_id body Actor_user None s))"

definition get_discovery_session_endpoint :: "db \<Rightarrow> uuid \<Rightarrow> discovery_session res" where
  "get_discovery_session_endpoint s k = or_404 (get_discovery_session s k)"

definition get_session_profile_endpoint :: "db \<Rightarrow> uuid \<Rightarrow> problem_profile res" where
  "get_session_profile_endpoint s k = or_404 (get_profile_for_session s k)"

definition list_session_papers_endpoint ::
  "db \<Rightarrow> uuid \<Rightarrow> string option \<Rightarrow> string option \<Rightarrow> real option \<Rightarrow> nat \<Rightarrow> nat \<Rightarrow> (paper_card list \<times> nat) res" where
  "list_session_papers_endpoint s sid view triage min_score offset limit =
     validated (case view of None \<Rightarrow> True | Some v \<Rightarrow> v \<in> {''stable'', ''discovery''})
       (Inr (list_paper_cards s sid view triage min_score offset limit))"

definition get_session_paper_endpoint :: "db \<Rightarrow> uuid \<Rightarrow> uuid \<Rightarrow> paper_card res" where
  "get_session_paper_endpoint s sid k = res_bind (get_paper_card s sid k) or_404"

definition triage_paper_endpoint :: "env \<Rightarrow> uuid \<Rightarrow> uuid \<Rightarrow> string \<Rightarrow> string option \<Rightarrow> db \<Rightarrow> (paper_card \<times> db) res" where
  "triage_paper_endpoint e sid k status reason s =
     validated (status \<in> {''discovered'', ''shortlisted'', ''dropped'', ''escalated''})
       (res_bind (triage_paper_card e sid k status reason Actor_user None s) (\<lambda>(c, s').
          res_bind (or_404 c) (\<lambda>c. Inr (c, s'))))"

definition get_session_report_endpoint :: "(string \<Rightarrow> json option) \<Rightarrow> db \<Rightarrow> uuid \<Rightarrow> (string option \<times> json option) res" where
  "get_session_report_endpoint parse s sid =
     res_bind (discovery_http 404 (read_discovery_report parse s sid)) (\<lambda>(_, markdown, payload).
       if markdown = None \<and> payload = None then Inl (HTTPException 404) else Inr (markdown, payload))"

definition submit_evaluation_endpoint ::
  "env \<Rightarrow> uuid \<Rightarrow> string list \<Rightarrow> int list \<Rightarrow> db \<Rightarrow> (discovery_evaluation list \<times> db) res" where
  "submit_evaluation_endpoint e sid relevant_ids ks s =
     validated (relevant_ids \<noteq> []) (discovery_http 404 (submit_evaluation e sid relevant_ids ks Actor_user None s))"

interpretation discovery_page: paged_query "list_discovery_sessions s charter_id"
  "order_desc dis_created_at (filter (\<lambda>d. opt_match charter_id (dis_charter_id d)) (discoveries s))" for s charter_id
  unfolding list_discovery_sessions_def by (rule paged_listing) simp

interpretation papers_page: paged_query "list_paper_cards s sid view triage min_score"
  "desc_nulls_last pc_final_score (filter (paper_matches sid view triage min_score) (papers (lib s)))"
  for s sid view triage min_score
  unfolding list_paper_cards_def by (rule paged_listing) (simp add: desc_nulls_last_def)

section \<open>Restarting\<close>

lemma map_sort_key: "map f (sort_key (\<lambda>x. k (f x)) xs) = sort_key k (map f xs)"
proof -
  have i: "map f (insort_key (\<lambda>x. k (f x)) x xs) = insort_key k (f x) (map f xs)" for x xs by (induction xs) auto
  show ?thesis by (induction xs) (simp_all add: i)
qed

lemma map_option_find: "map_option f (find (\<lambda>x. P (f x)) xs) = find P (map f xs)"
  by (induction xs) auto

lemma find_SomeD: "find P xs = Some x \<Longrightarrow> P x \<and> x \<in> set xs"
  by (induction xs) (auto split: if_splits)

text \<open>What the choice of a cycle depends on.\<close>

definition cycle_view :: "cycle \<Rightarrow> uuid \<times> uuid \<times> time \<times> bool" where
  "cycle_view c = (cy_id c, cy_charter_id c, cy_created_at c, reusable_cycle c)"

definition reusable_of :: "uuid \<Rightarrow> cycle list \<Rightarrow> cycle option" where
  "reusable_of charter_id cs = find reusable_cycle (order_desc cy_created_at (filter (\<lambda>c. cy_charter_id c = charter_id) cs))"

lemma reusable_of_view:
  "map_option cycle_view (reusable_of k cs) =
     find (\<lambda>v. snd (snd (snd v))) (sort_key (\<lambda>v. - fst (snd (snd v))) (filter (\<lambda>v. fst (snd v) = k) (map cycle_view cs)))"
proof -
  have "reusable_of k cs = find (\<lambda>c. snd (snd (snd (cycle_view c))))
      (sort_key (\<lambda>c. - fst (snd (snd (cycle_view c)))) (filter (\<lambda>c. fst (snd (cycle_view c)) = k) cs))"
    by (simp add: reusable_of_def cycle_view_def order_desc_def)
  then show ?thesis
    by (simp only: map_option_find [of cycle_view "\<lambda>v. snd (snd (snd v))"] map_sort_key [of cycle_view "\<lambda>v. - fst (snd (snd v))"]
        filter_map comp_def)
qed

lemma reusable_of_same:
  assumes "map cycle_view cs' = map cycle_view cs" and "reusable_of k cs = Some c"
  shows "\<exists>c'. reusable_of k cs' = Some c' \<and> cy_id c' = cy_id c"
proof -
  have "map_option cycle_view (reusable_of k cs') = Some (cycle_view c)"
    using assms reusable_of_view [of k cs'] reusable_of_view [of k cs] by simp
  then show ?thesis by (auto simp: cycle_view_def)
qed

lemma reusable_of_fresh:
  assumes "reusable_of k cs = None" "cy_charter_id c = k" "reusable_cycle c"
  shows "reusable_of k (cs @ [c]) = Some c"
proof -
  have none: "\<not> reusable_cycle x" if "x \<in> set cs" "cy_charter_id x = k" for x
    using assms(1) that by (auto simp: reusable_of_def find_None_iff order_desc_def)
  have mem: "set (order_desc cy_created_at (filter (\<lambda>c. cy_charter_id c = k) (cs @ [c]))) = {x \<in> set (cs @ [c]). cy_charter_id x = k}"
    by (auto simp: order_desc_def)
  show ?thesis
  proof (cases "reusable_of k (cs @ [c])")
    case None
    then show ?thesis using assms mem by (auto simp: reusable_of_def find_None_iff)
  next
    case (Some x)
    then have "x \<in> {x \<in> set (cs @ [c]). cy_charter_id x = k}" "reusable_cycle x"
      using find_SomeD [of reusable_cycle _ x] unfolding reusable_of_def mem [symmetric] by blast+
    then show ?thesis using none Some by auto
  qed
qed

text \<open>What a start leaves: the cycle the next start would choose carries a profile.\<close>

lemma start_discovery_claims:
  assumes "start_discovery_session e k body atype aid s = Inr (out, s1)"
  shows "\<exists>c p. reusable_of k (cycles s1) = Some c \<and> filter (\<lambda>p. pp_cycle_id p = cy_id c) (profiles (lib s1)) = [p]"
proof -
  obtain c s0 where r: "resolve_or_create_active_cycle e k s = (c, s0)" by fastforce
  have pick: "reusable_of k (cycles s0) = Some c"
    using r reusable_of_fresh [of k "cycles s"]
    by (auto simp: resolve_or_create_active_cycle_def reusable_of_def [symmetric] reusable_cycle_def Let_def tick_uuid_def
        split: option.splits)
  have body: "start_discovery_session_on_cycle e k c body atype aid s0 = Inr (out, s1)"
    using assms r by (auto simp: start_discovery_session_def split: option.splits)
  then obtain ex where ex: "scalar_one_or_none (filter (\<lambda>p. pp_cycle_id p = cy_id c) (profiles (lib s0))) = Inr ex"
    and rest: "ex = None"
    by (auto simp: start_discovery_session_on_cycle_def res_bind_Inr_iff split: if_splits)
  then have none: "filter (\<lambda>p. pp_cycle_id p = cy_id c) (profiles (lib s0)) = []"
    by (cases "filter (\<lambda>p. pp_cycle_id p = cy_id c) (profiles (lib s0))" rule: scalar_one_or_none.cases) auto
  have "cycles s1 = cycles s0" "profiles (lib s1) = profiles (lib s0) @ [new_profile e (new_uuid e s0) c body]"
    using body ex rest
    by (auto simp: start_discovery_session_on_cycle_def create_job_def emit_event_def tick_uuid_def Let_def upd_lib_def)
  then show ?thesis using pick none by (auto simp: new_profile_def)
qed

lemma filter_length_map:
  assumes "map f xs = map f ys"
  shows "length (filter (\<lambda>x. P (f x)) xs) = length (filter (\<lambda>x. P (f x)) ys)"
  using arg_cong [OF assms, of "\<lambda>zs. length (filter P zs)"] by (simp add: filter_map comp_def)


section \<open>The chain of stages\<close>

text \<open>
  C13: The discovery operators form one chain: started on a session, every stage that succeeds leaves exactly one pending
  job, of the next stage and for the same session, and the run leaves no other job, whatever the sources, the models,
  the reranker and the disk answer and wherever it stops.
\<close>

theorem discovery_pipeline_order:
  assumes "run_stages clock (discovery_stages x) i s = (n, s')"
  shows "\<exists>new. jobs s' = jobs s @ new \<and>
     list_all2 (\<lambda>j ty. handed_over ''session_id'' ty i j) new
       (take n [''discovery_search'', ''discovery_rerank'', ''discovery_analyze'', ''discovery_finalize''])"
  using run_stages_hand_over [OF discovery_staged assms] by (simp add: discovery_stages_def)

section \<open>The reranker's fallback\<close>

lemma map_of_distinct_map:
  "distinct (map f xs) \<Longrightarrow> x \<in> set xs \<Longrightarrow> map_of (map (\<lambda>y. (f y, g y)) xs) (f x) = Some (g x)"
  by (induction xs) (auto simp: rev_image_eqI)

text \<open>
  Without a reranker the ranking is the first stage's: when the policy disables it, or it is unavailable, late or broken,
  every paper of the pool ends with its first-stage score as final score (0 if it has none).
\<close>

theorem rerank_fallback_is_first_stage:
  assumes "run_rerank rerank model query (map rerank_doc_of pool) enabled top_k seconds = Inr out"
    and "ro_fallback_reason out \<noteq> None" and "distinct (map pc_id pool)" and "int (length pool) \<le> top_k" and "c \<in> set pool"
  shows "pc_final_score (apply_rerank (ro_results out) c) =
     Some (case pc_first_stage_score c of None \<Rightarrow> 0 | Some v \<Rightarrow> v)"
proof -
  define docs where "docs = rev (sort_key (\<lambda>d. - doc_score d) (map rerank_doc_of pool))"
  have "ro_results out = no_op_rerank top_k (map rerank_doc_of pool)"
    using assms(1,2) by (auto simp: run_rerank_def fallback_def split: if_splits rerank_answer.splits)
  then have r: "rev (ro_results out) = map (\<lambda>d. (rd_id d, doc_score d)) docs"
    using assms(4) by (simp add: no_op_rerank_def py_take_def docs_def rev_map)
  have "distinct (map rerank_doc_of pool)" "inj_on rd_id (set (map rerank_doc_of pool))"
    using assms(3) by (auto simp: distinct_map inj_on_def rerank_doc_of_def)
  then have d: "distinct (map rd_id docs)" by (simp add: docs_def distinct_map)
  have "rerank_doc_of c \<in> set docs" using assms(5) by (simp add: docs_def)
  then have "map_of (rev (ro_results out)) (rd_id (rerank_doc_of c)) = Some (doc_score (rerank_doc_of c))"
    unfolding r by (rule map_of_distinct_map [OF d])
  then show ?thesis by (simp add: apply_rerank_def rerank_doc_of_def doc_score_def)
qed

section \<open>What a search stores\<close>

lemma normalized_range:
  assumes "(d, v) \<in> set (normalize_scores f)"
  shows "0 \<le> v \<and> v \<le> 1"
proof (cases "map snd f")
  case Nil
  then show ?thesis using assms by (simp add: normalize_scores_def)
next
  case (Cons a vs)
  let ?lo = "fold min vs a" and ?hi = "fold max vs a"
  show ?thesis
  proof (cases "?hi - ?lo < 1 / 10 ^ 12")
    case True
    then show ?thesis using assms by (auto simp: normalize_scores_def Cons Let_def)
  next
    case False
    moreover have "(0::real) < 1 / 10 ^ 12" by simp
    ultimately have pos: "0 < ?hi - ?lo" by linarith
    obtain y where y: "(d, y) \<in> set f" "v = (y - ?lo) / (?hi - ?lo)"
      using assms False by (auto simp: normalize_scores_def Cons Let_def)
    have "y \<in> set (map snd f)" using y(1) by force
    then have "?lo \<le> y" "y \<le> ?hi" unfolding Cons using fold_min_le [of vs a] le_fold_max [of a vs] by auto
    then show ?thesis using pos by (simp add: y(2))
  qed
qed

lemma found_score:
  assumes "run_search x q cs fl budget = Inr out" and "h \<in> set (so_hits out)"
  shows "\<exists>v. sh_first_stage_score h = Some v \<and> 0 \<le> v \<and> v \<le> 1"
proof -
  obtain k hs hs' where "out = fuse_sources x fl k hs hs'"
    using assms(1) by (auto simp: run_search_def res_bind_Inr_iff)
  then obtain fused h0 where "h = scored (dx_sha1 x) (normalize_scores fused) h0"
    using assms(2) by (auto simp: fuse_sources_def Let_def split: prod.split_asm)
  then show ?thesis
    by (auto simp: scored_def split: option.split dest!: map_of_SomeD normalized_range)
qed

lemma fresh_rows_mem:
  "fresh_rows e mk xs s = (ys, s') \<Longrightarrow> y \<in> set ys \<Longrightarrow> \<exists>i a. a \<in> set xs \<and> y = mk i a"
  using fresh_rows_list [of e mk xs s] by (fastforce simp: enumerate_eq_zip dest: set_zip_rightD)

lemma papers_hand_over [simp]: "lib (snd (hand_over e d ty s)) = lib s"
  by (simp add: hand_over_def discovery_enqueue_next_def create_job_def tick_uuid_def Let_def split: prod.split)


section \<open>What finalizing does\<close>

lemma same_id: "distinct (map pc_id cs) \<Longrightarrow> a \<in> set cs \<Longrightarrow> c \<in> set cs \<Longrightarrow> pc_id a = pc_id c \<longleftrightarrow> a = c"
  by (auto simp: distinct_map inj_on_def)

lemma put_papers_map:
  assumes "distinct (map pc_id (papers (lib s)))" "set cs \<subseteq> set (papers (lib s))" "distinct cs" "\<And>c. pc_id (f c) = pc_id c"
  shows "papers (lib (put_papers (map f cs) s)) = map (\<lambda>c. if c \<in> set cs then f c else c) (papers (lib s))"
  using assms(2,3)
proof (induction cs rule: rev_induct)
  case Nil
  then show ?case by (simp add: put_papers_def)
next
  case (snoc a cs)
  let ?s1 = "put_papers (map f cs) s"
  have ih: "papers (lib ?s1) = map (\<lambda>c. if c \<in> set cs then f c else c) (papers (lib s))" using snoc by auto
  have "papers (lib (put_papers (map f (cs @ [a])) s)) = update_where (\<lambda>x. pc_id x = pc_id a) (\<lambda>_. f a) (papers (lib ?s1))"
    by (simp add: put_papers_def put_paper_def assms(4))
  also have "\<dots> = map (\<lambda>c. if pc_id c = pc_id a then f a else if c \<in> set cs then f c else c) (papers (lib s))"
    by (auto simp: ih update_where_def assms(4))
  also have "\<dots> = map (\<lambda>c. if c \<in> set (cs @ [a]) then f c else c) (papers (lib s))"
    using snoc.prems same_id [OF assms(1)] by (intro map_cong) auto
  finally show ?case .
qed

lemma set_mmr_loop: "set (mmr_loop lam k selected pool) \<subseteq> set selected \<union> set pool"
proof (induction lam k selected pool rule: mmr_loop.induct)
  case (1 lam k selected pool)
  have b: "b \<in> set pool" if "mmr_best f pool = Some b" for f b
  proof (cases pool)
    case Nil
    then show ?thesis using that by (simp add: mmr_best_def)
  next
    case (Cons a rest)
    then show ?thesis using that mmr_best_from [of f rest a] by (auto simp: mmr_best_def mmr_better_def)
  qed
  show ?case
  proof (cases "pool = [] \<or> \<not> length selected < k")
    case True
    then show ?thesis by (subst mmr_loop.simps) auto
  next
    case stop: False
    show ?thesis
    proof (cases "mmr_best (mmr_score lam selected) pool")
      case None
      then show ?thesis by (subst mmr_loop.simps) simp
    next
      case (Some c)
      have "mmr_loop lam k selected pool = mmr_loop lam k (selected @ [c]) (remove1 c pool)"
        using stop Some by (subst mmr_loop.simps) simp
      then show ?thesis using 1 [OF stop Some] b [OF Some] set_remove1_subset [of c pool] by auto
    qed
  qed
qed

lemma view_cards_subset:
  "set (fst (view_cards cs pref k k' lam)) \<subseteq> set cs \<and> set (snd (view_cards cs pref k k' lam)) \<subseteq> set cs"
  using set_mmr_loop [of lam "nat k'" "[]" "sort_key (\<lambda>c. - score_of c) cs"]
  by (auto simp: view_cards_def build_stable_view_def build_discovery_view_def py_take_def dest: in_set_takeD)

lemma place_card_id [simp]: "pc_id (place_card views c) = pc_id c"
  by (simp add: place_card_def Let_def)

lemma place_card_triage:
  "pc_triage_status (place_card views c) =
     (if pc_triage_status c = ''discovered'' \<and> pc_view_membership (place_card views c) \<noteq> None then ''shortlisted''
      else pc_triage_status c)"
  by (simp add: place_card_def Let_def)

lemma log_warnings_frame:
  "dis_status (log_warnings e step warns d) = dis_status d" "dis_report_path (log_warnings e step warns d) = dis_report_path d"
  unfolding log_warnings_def by (induction warns arbitrary: d) (auto simp: discovery_append_step_log_def)

lemma discoveries_put_papers [simp]: "discoveries (put_papers ps s) = discoveries s"
  unfolding put_papers_def by (induction ps arbitrary: s) (auto simp: put_paper_def)

lemma finalized_session:
  assumes "finalized e d fin stats warns path views s = (r, s')"
  shows "\<exists>d2. discoveries s' = update_where (\<lambda>x. dis_id x = dis_id d) (\<lambda>_. d2) (discoveries s) \<and>
     dis_id d2 = dis_id d \<and> dis_status d2 = ''completed'' \<and> dis_report_path d2 = Some path"
  using assms by (auto simp: finalized_def Let_def put_discovery_def discovery_append_step_log_def log_warnings_frame
      discovery_merge_stats_def)

text \<open>
  Finalizing completes the session: its report is on disk, its cards are placed in the views and nothing else of
  the library changes, the cycle is to become discovery_screened, and no job follows.  Only a card still discovered is
  shortlisted, so a triage decision made by hand is kept.
\<close>

theorem finalize_places_cards:
  assumes "discovery_finalize_operator x e i s = (Inr r, s')" and "or_success r" and "distinct (map pc_id (papers (lib s)))"
  shows "\<exists>sid views. UUID_of (dget (oi_payload i) ''session_id'') = Inr sid \<and>
     set (fst views) \<union> set (snd views) \<subseteq> set (session_papers s sid) \<and>
     papers (lib s') = map (\<lambda>c. if pc_session_id c = sid then place_card views c else c) (papers (lib s)) \<and>
     jobs s' = jobs s \<and> or_state_patch r = [(''cycle_status'', JStr ''discovery_screened'')] \<and>
     map_of (disk s') (report_file x sid) \<noteq> None \<and>
     (\<exists>f\<in>set (discoveries s'). dis_id f = sid \<and> dis_status f = ''completed'' \<and> dis_report_path f = Some (report_file x sid))"
proof -
  obtain d p where sid: "UUID_of (dget (oi_payload i) ''session_id'') = Inr (dis_id d)" and mem: "d \<in> set (discoveries s)"
    and body: "finalize_body x e s d p = Inr (r, s')"
    using with_discovery_cases [OF assms(1) [unfolded discovery_finalize_operator_def]] assms(2) by auto
  define cs where "cs = desc_nulls_last pc_final_score (session_papers s (dis_id d))"
  obtain pref k k' lam fin stats warns where
    run: "write_report x e d p (view_cards cs pref k k' lam) fin stats warns
        (put_papers (map (place_card (view_cards cs pref k k' lam)) cs) s) = (r, s')"
    using body unfolding finalize_body_def Let_def cs_def [symmetric]
    by (elim res_bind_InrE) (unfold sum.inject, blast)
  define views where "views = view_cards cs pref k k' lam"
  have views: "set (fst views) \<subseteq> set cs" "set (snd views) \<subseteq> set cs"
    using view_cards_subset [of cs pref k k' lam] by (simp_all add: views_def)
  obtain t where
    fin: "finalized e d fin stats warns (report_file x (dis_id d)) views
        ((put_papers (map (place_card views) cs) s)\<lparr>disk := dset (disk (put_papers (map (place_card views) cs) s)) (report_file x (dis_id d)) t\<rparr>) = (r, s')"
    using run assms(2) unfolding views_def [symmetric]
    by (auto simp: write_report_def failed_report_def add_event_def Let_def split: option.split_asm)
  have cs: "set cs = set (session_papers s (dis_id d))" by (simp add: cs_def)
  have d: "distinct cs"
    using assms(3) by (auto simp: cs_def desc_nulls_last_def session_papers_def distinct_map)
  have "papers (lib (put_papers (map (place_card views) cs) s)) =
      map (\<lambda>c. if pc_session_id c = dis_id d then place_card views c else c) (papers (lib s))"
    using put_papers_map [OF assms(3), of cs "place_card views"] cs d by (auto simp: session_papers_def)
  moreover have "or_state_patch r = [(''cycle_status'', JStr ''discovery_screened'')]"
    "lib s' = lib (put_papers (map (place_card views) cs) s)" "jobs s' = jobs s"
    "map_of (disk s') (report_file x (dis_id d)) = Some t"
    using fin by (auto simp: finalized_def Let_def add_event_def put_discovery_def)
  moreover obtain d2 where d2: "discoveries s' = update_where (\<lambda>x. dis_id x = dis_id d) (\<lambda>_. d2) (discoveries s)"
    "dis_id d2 = dis_id d" "dis_status d2 = ''completed''" "dis_report_path d2 = Some (report_file x (dis_id d))"
    using finalized_session [OF fin] by auto
  moreover have "d2 \<in> set (discoveries s')" using mem d2(1) by (force simp: update_where_def)
  ultimately show ?thesis using sid views unfolding cs by (intro exI [of _ "dis_id d"] exI [of _ views]) auto
qed

section \<open>Witnesses\<close>

definition demo_profile_create :: problem_profile_create where
  "demo_profile_create = \<lparr>pf_query_text = ''q'', pf_notes = [], pf_source_scope = None, pf_view_preference = ''both'',
     pf_rerank_policy = \<lparr>rp_enabled = True, rp_top_n = 100, rp_budget_seconds = 30, rp_model = None\<rparr>,
     pf_budget = \<lparr>db_max_internal_results = 200, db_max_external_results = 0, db_analyze_top_n = 25\<rparr>\<rparr>"

definition demo_charter_row :: charter where
  "demo_charter_row = \<lparr>ch_id = 3, ch_title = [], ch_description = [], ch_problem_statement = [], ch_source_scope = JNull,
     ch_status = Ch_active, ch_created_at = 0, ch_updated_at = 0\<rparr>"

definition demo_discovery_row :: discovery_session where
  "demo_discovery_row = \<lparr>dis_id = 20, dis_cycle_id = 4, dis_charter_id = 3, dis_profile_id = 21, dis_status = ''created'',
     dis_report_path = None, dis_error = None, dis_step_log = None, dis_stats = None, dis_created_at = 0,
     dis_started_at = None, dis_completed_at = None\<rparr>"

definition demo_profile_row :: problem_profile where
  "demo_profile_row = \<lparr>pp_id = 21, pp_cycle_id = 4, pp_query_text = ''q'', pp_notes = [], pp_source_scope = None,
     pp_view_preference = ''stable'', pp_rerank_policy = None, pp_budget = None, pp_created_at = 0\<rparr>"

definition demo_library_world :: db where
  "demo_library_world = empty_db\<lparr>charters := [demo_charter_row], discoveries := [demo_discovery_row],
     lib := empty_library\<lparr>profiles := [demo_profile_row]\<rparr>\<rparr>"

definition demo_dx :: discovery_ext where
  "demo_dx = \<lparr>dx_py = demo_py, dx_sha1 = (\<lambda>t. t), dx_scope = (\<lambda>_ _ _. Inl []), dx_embed = (\<lambda>_. None),
     dx_internal = (\<lambda>_. Inr [demo_hit (Some ''10.1'')]), dx_external = (\<lambda>_. Inr []), dx_rerank = (\<lambda>_ _ _ _ _. RerankerUnavailable []),
     dx_analyze = (\<lambda>_ _ _. Inl []), dx_critique = (\<lambda>_ _ _ _. Inl []), dx_data_root = ''/data'',
     dx_markdown = (\<lambda>_ _ _ _ _. ''report''), dx_write = (\<lambda>_ _. None)\<rparr>"

definition demo_discovery_input :: op_input where
  "demo_discovery_input = \<lparr>oi_cycle_id = 4, oi_charter_id = 3, oi_job_id = 9, oi_job_type = ''discovery_intake'',
     oi_payload = [(''session_id'', JUuid 20)]\<rparr>"

lemmas demo_discovery_defs = demo_library_world_def demo_discovery_row_def demo_profile_row_def demo_charter_row_def
  demo_discovery_input_def empty_library_def empty_db_def

lemma demo_start:
  "\<exists>out s1. start_discovery_session demo_env 3 demo_profile_create Actor_user None demo_library_world = Inr (out, s1)"
  by (simp add: start_discovery_session_def get_charter_def table_get_def demo_discovery_defs resolve_or_create_active_cycle_def
      order_desc_def start_discovery_session_on_cycle_def Let_def new_profile_def new_discovery_def create_job_def tick_uuid_def
      emit_event_def new_uuid_def demo_env_def)


lemma demo_loads:
  "session_id_from_payload demo_discovery_input = Inr 20" "load_session demo_library_world 20 = Inr demo_discovery_row"
  "load_profile demo_library_world 21 = Inr demo_profile_row"
  by (simp_all add: demo_discovery_defs session_id_from_payload_def id_from_payload_def dget_def load_session_def load_by_id_def
      load_profile_def)

lemma demo_with: "with_discovery demo_discovery_input demo_library_world f = committed demo_library_world (f demo_discovery_row demo_profile_row)"
proof -
  have "dis_profile_id demo_discovery_row = 21" by (simp add: demo_discovery_row_def)
  then show ?thesis by (simp add: with_discovery_def demo_loads)
qed

lemma demo_no_skill: "load_skill_prompt demo_library_world k op = Inr (no_prompt k '' not found in registry'')"
  by (simp add: load_skill_prompt_def find_skill_def demo_discovery_defs)

lemma demo_intake_runs:
  "\<exists>r s1. discovery_intake_operator demo_dx demo_env demo_discovery_input demo_library_world = (Inr r, s1) \<and> or_success r"
  by (simp add: discovery_intake_operator_def demo_with intake_body_def demo_no_skill committed_def Let_def intake_result_def
      add_event_def OperatorResult_def split: prod.split)

lemma demo_hints: "search_hints demo_py None = Inr (None, [], [])"
  by (simp add: search_hints_def as_dict_res_def or_dict_def opt_dict_def dget_def stripped_items_def or_list_def)

lemma demo_policy: "\<exists>pol. from_cycle_config demo_py None = Inr pol \<and> 0 \<le> ip_limit pol"
  by (simp add: from_cycle_config_def opt_dict_def dget_or_def demo_py_def Let_def)

lemma demo_inject:
  "0 \<le> ip_limit pol \<Longrightarrow> inject_patterns demo_env 3 (Some 4) types pol emb op au demo_library_world = Inr ([], demo_library_world)"
  by (simp add: inject_patterns_def find_relevant_patterns_def demo_discovery_defs Let_def)

lemma demo_found:
  "\<exists>out. run_search demo_dx ''q'' [] (scope_flags_of None) [] = Inr out \<and> length (so_hits out) = 1"
  by (simp add: run_search_def scope_flags_of_def scope_flag_def opt_dict_def dget_or_def ask_def source_query_of_def demo_dx_def fuse_sources_def Let_def dedupe_hits_def dedupe_step_def)

lemma demo_search_runs:
  "\<exists>r s1. discovery_search_operator demo_dx demo_env demo_discovery_input demo_library_world = (Inr r, s1) \<and> or_success r"
proof -
  obtain pol where pol: "from_cycle_config demo_py None = Inr pol" "0 \<le> ip_limit pol" using demo_policy by blast
  obtain out where out: "run_search demo_dx ''q'' [] (scope_flags_of None) [] = Inr out" "length (so_hits out) = 1"
    using demo_found by blast
  obtain new s2 where new: "fresh_rows demo_env (hit_to_card demo_env (dx_sha1 demo_dx) demo_discovery_row) (so_hits out)
      demo_library_world = (new, s2)" by fastforce
  have "length new = 1" "lib s2 = lib demo_library_world"
    using fresh_rows_list [of demo_env "hit_to_card demo_env (dx_sha1 demo_dx) demo_discovery_row" "so_hits out" demo_library_world]
      fresh_rows_Pair [OF new] new out(2) by simp_all
  then obtain s3 where ins: "insert_papers new s2 = Inr s3"
    by (cases new) (auto simp: insert_papers_def dedupe_constraint_def demo_library_world_def empty_library_def)
  have row: "pp_source_scope demo_profile_row = None" "pp_budget demo_profile_row = None" "dis_cycle_id demo_discovery_row = 4"
    "dis_charter_id demo_discovery_row = 3" "get_cycle demo_library_world 4 = None" "dx_py demo_dx = demo_py"
    "base_query demo_profile_row None [] = ''q''" "opt_dict None = []"
    by (simp_all add: demo_discovery_defs demo_dx_def get_cycle_def table_get_def base_query_def opt_dict_def)
  have "apply_pattern_hints demo_py ''q'' [] [] = Inr (''q'', [], [])" by (simp add: apply_pattern_hints_def)
  then have "search_body demo_dx demo_env demo_library_world demo_discovery_row demo_profile_row =
      persist_search demo_dx demo_env demo_discovery_row (scope_flags_of None) ''q'' [] [] out demo_library_world"
    by (simp add: search_body_def row demo_hints pol demo_inject out(1))
  moreover have "\<exists>r s1. persist_search demo_dx demo_env demo_discovery_row (scope_flags_of None) ''q'' [] [] out
      demo_library_world = Inr (r, s1) \<and> or_success r"
    by (simp add: persist_search_def new ins Let_def search_result_def add_event_def OperatorResult_def)
  ultimately show ?thesis
    by (auto simp: discovery_search_operator_def demo_with committed_def)
qed


theorem discovery_pipeline_order_witness:
  "\<exists>n s1 j js. run_stages (\<lambda>_. demo_env) (discovery_stages demo_dx) demo_discovery_input demo_library_world = (n, s1) \<and>
     0 < n \<and> jobs s1 = jobs demo_library_world @ j # js \<and> j_type j = ''discovery_search''"
proof -
  obtain n s1 where run: "run_stages (\<lambda>_. demo_env) (discovery_stages demo_dx) demo_discovery_input demo_library_world = (n, s1)"
    by fastforce
  have i: "demo_discovery_input\<lparr>oi_job_type := ''discovery_intake''\<rparr> = demo_discovery_input"
    by (simp add: demo_discovery_input_def)
  have "0 < n"
    using run demo_intake_runs by (auto simp: discovery_stages_def i simp del: run_stages.simps(2) simp: run_stages.simps(2)
        [of _ "''discovery_intake''"] split: prod.split_asm)
  then obtain m where m: "n = Suc m" by (cases n) auto
  show ?thesis using run m discovery_pipeline_order [OF run]
    by (auto simp: m list_all2_Cons2 handed_over_def)
qed

lemma demo_finalize_runs:
  "\<exists>r s1. discovery_finalize_operator demo_dx demo_env demo_discovery_input demo_library_world = (Inr r, s1) \<and> or_success r"
  by (simp add: discovery_finalize_operator_def demo_with finalize_body_def demo_no_skill committed_def Let_def opt_dict_def
      dget_or_def demo_profile_row_def write_report_def demo_dx_def finalized_def add_event_def OperatorResult_def)

theorem finalize_places_cards_witness:
  "\<exists>r s1 sid. discovery_finalize_operator demo_dx demo_env demo_discovery_input demo_library_world = (Inr r, s1) \<and>
     or_success r \<and> (\<exists>f\<in>set (discoveries s1). dis_id f = sid \<and> dis_status f = ''completed'')"
proof -
  obtain r s1 where run: "discovery_finalize_operator demo_dx demo_env demo_discovery_input demo_library_world = (Inr r, s1)" "or_success r"
    using demo_finalize_runs by blast
  have "distinct (map pc_id (papers (lib demo_library_world)))" by (simp add: demo_library_world_def empty_library_def)
  then show ?thesis using finalize_places_cards [OF run] run by blast
qed

theorem rerank_fallback_is_first_stage_witness:
  "pc_final_score (apply_rerank (ro_results (fallback 5 (map rerank_doc_of [demo_paper 1 9 ''a'', demo_paper 2 8 ''b'']) ''policy_disabled''))
     (demo_paper 2 8 ''b'')) = Some 0"
proof -
  have "distinct (map pc_id [demo_paper 1 9 ''a'', demo_paper 2 8 ''b''])" "pc_first_stage_score (demo_paper 2 8 ''b'') = None"
    by (simp_all add: demo_paper_def)
  then show ?thesis
    using rerank_fallback_is_first_stage [of "\<lambda>_ _ _ _ _. RerankCrash []" JNull "[]" "[demo_paper 1 9 ''a'', demo_paper 2 8 ''b'']"
        False 5 0 "fallback 5 (map rerank_doc_of [demo_paper 1 9 ''a'', demo_paper 2 8 ''b'']) ''policy_disabled''" "demo_paper 2 8 ''b''"]
    by (simp add: run_rerank_def fallback_def)
qed

end
