(* ===== verification/Analysis_Service.thy ===== *)
theory Analysis_Service
  imports Analysis_Evidence Discovery_Service
begin

text \<open>
  The analysis service (\<open>libs/core/services/analysis_service.py\<close>), question answering and locating
  (\<open>libs/analysis/graph_qa.py\<close>), the request schemas (\<open>libs/schemas/analysis.py\<close>) and the endpoints
  (\<open>apps/api/routers/analysis.py\<close>).  A read schema copies its row, so the rows are returned.
\<close>

section \<open>Requests\<close>

record analysis_budget_body =
  bg_max_chunks :: int
  bg_graph_concurrency :: int
  bg_evidence_concurrency :: int
  bg_html_threshold :: real

definition default_analysis_budget :: analysis_budget_body where
  "default_analysis_budget =
     \<lparr>bg_max_chunks = 500, bg_graph_concurrency = 4, bg_evidence_concurrency = 4, bg_html_threshold = 1 / 2\<rparr>"

definition analysis_budget_valid :: "analysis_budget_body \<Rightarrow> bool" where
  "analysis_budget_valid b \<longleftrightarrow>
     1 \<le> bg_max_chunks b \<and> bg_max_chunks b \<le> 5000 \<and> 1 \<le> bg_graph_concurrency b \<and> bg_graph_concurrency b \<le> 16 \<and>
     1 \<le> bg_evidence_concurrency b \<and> bg_evidence_concurrency b \<le> 16 \<and> 0 \<le> bg_html_threshold b \<and> bg_html_threshold b \<le> 1"

definition analysis_budget_dump :: "analysis_budget_body \<Rightarrow> dict" where
  "analysis_budget_dump b =
     [(''max_chunks'', JInt (bg_max_chunks b)), (''graph_extraction_concurrency'', JInt (bg_graph_concurrency b)),
      (''evidence_extraction_concurrency'', JInt (bg_evidence_concurrency b)),
      (''html_quality_threshold'', JFloat (bg_html_threshold b))]"

section \<open>Starting an analysis\<close>

definition new_analysis :: "env \<Rightarrow> uuid \<Rightarrow> uuid \<Rightarrow> uuid \<Rightarrow> uuid \<Rightarrow> analysis_budget_body \<Rightarrow> analysis_session" where
  "new_analysis e k paper_id charter_id cycle_id b =
     \<lparr>an_id = k, an_cycle_id = cycle_id, an_charter_id = charter_id, an_paper_card_id = paper_id, an_status = ''created'',
      an_error = None, an_step_log = Some [], an_stats = Some [], an_budget = Some (analysis_budget_dump b), an_report_path = None,
      an_created_at = now e, an_started_at = None, an_completed_at = None\<rparr>"

text \<open>A screened cycle becomes ready for analysis without the state machine; every other status is left as it is.\<close>

definition analysis_cycle :: "env \<Rightarrow> cycle \<Rightarrow> cycle" where
  "analysis_cycle e c =
    (if cy_status c \<in> {Cy_discovery_screened, Cy_analysis_ready} then c\<lparr>cy_status := Cy_analysis_ready, cy_updated_at := now e\<rparr> else c)"

text \<open>The last check is the foreign key of the session's charter.\<close>

definition start_analysis ::
  "env \<Rightarrow> uuid \<Rightarrow> uuid \<Rightarrow> uuid \<Rightarrow> analysis_budget_body option \<Rightarrow> actor_type \<Rightarrow> string option \<Rightarrow> db
   \<Rightarrow> ((analysis_session \<times> uuid) \<times> db) res" where
  "start_analysis e paper_id charter_id cycle_id budget atype aid s =
    (case table_get pc_id (papers (lib s)) paper_id of
       None \<Rightarrow> Inl (AnalysisServiceError ''paper card not found'')
     | Some paper \<Rightarrow>
        if pc_triage_status paper \<notin> {''shortlisted'', ''escalated''}
        then Inl (AnalysisServiceError ''only shortlisted or escalated papers can be analyzed'')
        else case get_cycle s cycle_id of
          None \<Rightarrow> Inl (AnalysisServiceError ''cycle not found'')
        | Some c \<Rightarrow>
           if get_charter s charter_id = None then Inl IntegrityError
           else
             let b = (case budget of None \<Rightarrow> default_analysis_budget | Some b \<Rightarrow> b);
                 a = new_analysis e (new_uuid e s) paper_id charter_id cycle_id b;
                 s1 = (tick_uuid s)\<lparr>analyses := analyses s @ [a],
                        cycles := update_where (\<lambda>c. cy_id c = cycle_id) (analysis_cycle e) (cycles s)\<rparr>
             in case create_job e (Some cycle_id) ''analysis_ingest'' (Some [(''analysis_session_id'', JUuid (an_id a))]) 10 s1 of
                  (j, s2) \<Rightarrow> Inr ((a, j_id j),
                    emit_event e ''analysis.session_started'' (Some charter_id) (Some cycle_id)
                      (Some [(''analysis_session_id'', JUuid (an_id a)), (''paper_card_id'', JUuid paper_id)]) atype aid s2))"

section \<open>Reading\<close>

definition get_analysis_session :: "db \<Rightarrow> uuid \<Rightarrow> analysis_session option" where
  "get_analysis_session s k = table_get an_id (analyses s) k"

definition analysis_matches :: "uuid option \<Rightarrow> uuid option \<Rightarrow> string option \<Rightarrow> analysis_session \<Rightarrow> bool" where
  "analysis_matches charter_id cycle_id status a \<longleftrightarrow>
     opt_match charter_id (an_charter_id a) \<and> opt_match cycle_id (an_cycle_id a) \<and> opt_match status (an_status a)"

definition list_analysis_sessions ::
  "db \<Rightarrow> uuid option \<Rightarrow> uuid option \<Rightarrow> string option \<Rightarrow> nat \<Rightarrow> nat \<Rightarrow> analysis_session list \<times> nat" where
  "list_analysis_sessions s charter_id cycle_id status =
     listing (analysis_matches charter_id cycle_id status) (order_desc an_created_at) (analyses s)"

definition get_ingested_document :: "db \<Rightarrow> uuid \<Rightarrow> ingested_document option res" where
  "get_ingested_document = session_document"

definition list_chunks :: "db \<Rightarrow> uuid \<Rightarrow> string option \<Rightarrow> nat \<Rightarrow> nat \<Rightarrow> paper_chunk list \<times> nat" where
  "list_chunks s sid ty = listing (\<lambda>c. ck_session_id c = sid \<and> opt_match ty (ck_type c)) (sort_key ck_ordinal) (chunks (lib s))"

definition list_graph_nodes :: "db \<Rightarrow> uuid \<Rightarrow> string option \<Rightarrow> nat \<Rightarrow> nat \<Rightarrow> graph_node list \<times> nat" where
  "list_graph_nodes s sid ty =
     listing (\<lambda>n. gn_session_id n = sid \<and> opt_match ty (gn_type n)) (sort_key gn_created_at) (gnodes (lib s))"

definition list_graph_edges :: "db \<Rightarrow> uuid \<Rightarrow> string option \<Rightarrow> nat \<Rightarrow> nat \<Rightarrow> graph_edge list \<times> nat" where
  "list_graph_edges s sid ty =
     listing (\<lambda>ed. ge_session_id ed = sid \<and> opt_match ty (ge_type ed)) (sort_key ge_created_at) (gedges (lib s))"

definition get_coverage :: "db \<Rightarrow> uuid \<Rightarrow> coverage_diagnostic option res" where
  "get_coverage = session_coverage"

text \<open>The completed session of a paper that ended last; PostgreSQL sorts NULL first in a descending order.\<close>

definition completion_key :: "analysis_session \<Rightarrow> nat \<times> int" where
  "completion_key a = (case an_completed_at a of None \<Rightarrow> (0, 0) | Some t \<Rightarrow> (1, - t))"

definition completed_sessions :: "db \<Rightarrow> uuid \<Rightarrow> analysis_session list" where
  "completed_sessions s paper_id = filter (\<lambda>a. an_paper_card_id a = paper_id \<and> an_status a = ''completed'') (analyses s)"

definition latest_completed_session :: "db \<Rightarrow> uuid \<Rightarrow> analysis_session option" where
  "latest_completed_session s paper_id = first_row (sort_key completion_key (completed_sessions s paper_id))"

definition get_analysis_packet :: "db \<Rightarrow> uuid \<Rightarrow> analysis_packet option res" where
  "get_analysis_packet s paper_id =
    (case latest_completed_session s paper_id of None \<Rightarrow> Inr None | Some a \<Rightarrow> session_packet s (an_id a))"

definition get_review_artifact :: "db \<Rightarrow> uuid \<Rightarrow> review_artifact option res" where
  "get_review_artifact s paper_id =
    (case latest_completed_session s paper_id of
       None \<Rightarrow> Inr None
     | Some a \<Rightarrow> scalar_one_or_none
         (filter (\<lambda>r. \<exists>p\<in>set (packets (lib s)). ap_id p = rw_packet_id r \<and> ap_session_id p = an_id a) (reviews (lib s))))"

definition read_report_file :: "(string \<Rightarrow> json option) \<Rightarrow> db \<Rightarrow> uuid \<Rightarrow> (string option \<times> json option) res" where
  "read_report_file parse s sid =
    (case get_analysis_session s sid of
       None \<Rightarrow> Inl (AnalysisServiceError ''analysis session not found'')
     | Some a \<Rightarrow>
        (case an_report_path a of
           Some (c # path) \<Rightarrow> Inr (map_of (disk s) (c # path),
             (case map_of (disk s) (with_name (c # path) ''report.json'') of None \<Rightarrow> None | Some t \<Rightarrow> parse t))
         | _ \<Rightarrow> Inr (None, None)))"

definition evidence_matches :: "uuid option \<Rightarrow> uuid option \<Rightarrow> string option \<Rightarrow> real option \<Rightarrow> evidence_card \<Rightarrow> bool" where
  "evidence_matches charter_id cycle_id ty min_confidence c \<longleftrightarrow>
     opt_match charter_id (ec_charter_id c) \<and> opt_match cycle_id (ec_cycle_id c) \<and> opt_match ty (ec_type c) \<and>
     (case min_confidence of None \<Rightarrow> True | Some m \<Rightarrow> m \<le> ec_confidence c)"

definition list_evidence_cards ::
  "db \<Rightarrow> uuid option \<Rightarrow> uuid option \<Rightarrow> string option \<Rightarrow> real option \<Rightarrow> nat \<Rightarrow> nat \<Rightarrow> evidence_card list \<times> nat" where
  "list_evidence_cards s charter_id cycle_id ty min_confidence =
     listing (evidence_matches charter_id cycle_id ty min_confidence) (order_desc ec_created_at) (evidence (lib s))"

definition get_evidence_card :: "db \<Rightarrow> uuid \<Rightarrow> evidence_card option" where
  "get_evidence_card s k = table_get ec_id (evidence (lib s)) k"

section \<open>Questions\<close>

record chunk_ref =
  cf_chunk_id :: uuid
  cf_section_path :: "string option"
  cf_ordinal :: nat
  cf_snippet :: string

record node_ref =
  nf_node_id :: uuid
  nf_type :: string
  nf_label :: string

record qa_response =
  qr_answer :: string
  qr_chunks :: "chunk_ref list"
  qr_nodes :: "node_ref list"
  qr_confidence :: real

text \<open>The surroundings of a question; \<open>qx_nodes\<close> and \<open>qx_chunks\<close> are the orders of two unordered queries.\<close>

record qa_ext =
  qx_embed :: "string list \<Rightarrow> string + real list list"
  qx_distance :: "real list \<Rightarrow> real list \<Rightarrow> real"
  qx_complete :: "string \<Rightarrow> string + string"
  qx_nodes :: "graph_node list \<Rightarrow> graph_node list"
  qx_chunks :: "paper_chunk list \<Rightarrow> paper_chunk list"

definition chunk_ref_of :: "paper_chunk \<Rightarrow> chunk_ref" where
  "chunk_ref_of c = \<lparr>cf_chunk_id = ck_id c, cf_section_path = ck_section_path c, cf_ordinal = ck_ordinal c, cf_snippet = take 200 (ck_content c)\<rparr>"

definition node_ref_of :: "graph_node \<Rightarrow> node_ref" where
  "node_ref_of n = \<lparr>nf_node_id = gn_id n, nf_type = gn_type n, nf_label = gn_label n\<rparr>"

definition qa_distance :: "qa_ext \<Rightarrow> real list \<Rightarrow> paper_chunk \<Rightarrow> real" where
  "qa_distance x q c = (case ck_embedding c of None \<Rightarrow> 0 | Some v \<Rightarrow> qx_distance x v q)"

definition relevant_chunks :: "qa_ext \<Rightarrow> db \<Rightarrow> uuid \<Rightarrow> uuid \<Rightarrow> real list \<Rightarrow> nat \<Rightarrow> paper_chunk list" where
  "relevant_chunks x s paper_id sid q max_chunks =
     take max_chunks (sort_key (qa_distance x q)
       (filter (\<lambda>c. ck_paper_id c = paper_id \<and> ck_session_id c = sid \<and> ck_embedding c \<noteq> None) (chunks (lib s))))"

text \<open>Only the first thirty nodes of the session are looked at.\<close>

definition expand_graph_context :: "qa_ext \<Rightarrow> db \<Rightarrow> paper_chunk list \<Rightarrow> node_ref list" where
  "expand_graph_context x s cs =
    (case cs of
       [] \<Rightarrow> []
     | c # _ \<Rightarrow> map node_ref_of (take 15 (filter (\<lambda>n. \<exists>k\<in>set (gn_chunk_ids n). k \<in> ck_id ` set cs)
                  (take 30 (qx_nodes x (session_nodes s (ck_session_id c)))))))"

definition build_qa_context :: "paper_chunk list \<Rightarrow> node_ref list \<Rightarrow> string" where
  "build_qa_context cs ns =
     join_with (nl @ nl)
       (map (\<lambda>c. ''['' @ chunk_header c @ ''] '' @ take 500 (ck_content c)) cs @
        (if ns = [] then []
         else [nl @ ''Related entities:'' @ nl @ join_with nl (map (\<lambda>n. ''- ['' @ nf_type n @ ''] '' @ nf_label n) ns)]))"

definition answer_question :: "qa_ext \<Rightarrow> db \<Rightarrow> uuid \<Rightarrow> string \<Rightarrow> nat \<Rightarrow> bool \<Rightarrow> qa_response res" where
  "answer_question x s paper_id question max_chunks expand =
    (case latest_completed_session s paper_id of
       None \<Rightarrow> Inl (ValueError ''no completed analysis session for paper'')
     | Some a \<Rightarrow>
        (case qx_embed x [question] of
           Inl err \<Rightarrow> Inl (ExternalError err)
         | Inr [] \<Rightarrow> Inl IndexError
         | Inr (q # qs) \<Rightarrow>
            let cs = relevant_chunks x s paper_id (an_id a) q max_chunks;
                ns = (if expand then expand_graph_context x s cs else [])
            in (case qx_complete x (''Question: '' @ question @ nl @ nl @ ''Context:'' @ nl @ build_qa_context cs ns) of
                  Inl err \<Rightarrow> Inl (ExternalError err)
                | Inr answer \<Rightarrow> Inr \<lparr>qr_answer = answer, qr_chunks = map chunk_ref_of cs, qr_nodes = ns, qr_confidence = 7 / 10\<rparr>)))"

text \<open>SQL \<open>ILIKE\<close>: \<open>%\<close> stands for any text, \<open>_\<close> for one character, a backslash takes the next one literally.\<close>

fun sql_like :: "string \<Rightarrow> string \<Rightarrow> bool" where
  "sql_like [] t = (t = [])"
| "sql_like (p # ps) t =
    (if p = CHR ''%'' then sql_like ps t \<or> (case t of [] \<Rightarrow> False | c # ts \<Rightarrow> sql_like (p # ps) ts)
     else if p = CHR 92 then
       (case ps of [] \<Rightarrow> False | q # qs \<Rightarrow> (case t of [] \<Rightarrow> False | c # ts \<Rightarrow> c = q \<and> sql_like qs ts))
     else (case t of [] \<Rightarrow> False | c # ts \<Rightarrow> (p = CHR ''_'' \<or> c = p) \<and> sql_like ps ts))"

definition ilike :: "string \<Rightarrow> string \<Rightarrow> bool" where
  "ilike pattern t = sql_like (map char_lower pattern) (map char_lower t)"

definition linked_chunks :: "qa_ext \<Rightarrow> db \<Rightarrow> graph_node \<Rightarrow> paper_chunk list" where
  "linked_chunks x s n = qx_chunks x (filter (\<lambda>c. ck_id c \<in> set (take 5 (gn_chunk_ids n))) (chunks (lib s)))"

definition locate_entity :: "qa_ext \<Rightarrow> db \<Rightarrow> uuid \<Rightarrow> string \<Rightarrow> string \<Rightarrow> (node_ref \<times> chunk_ref list) list" where
  "locate_entity x s paper_id entity_type query =
    (case latest_completed_session s paper_id of
       None \<Rightarrow> []
     | Some a \<Rightarrow>
        map (\<lambda>n. (node_ref_of n, map chunk_ref_of (linked_chunks x s n)))
          (take 10 (qx_nodes x (filter (\<lambda>n. gn_paper_id n = paper_id \<and> gn_session_id n = an_id a \<and> gn_type n = entity_type \<and>
             ilike (''%'' @ query @ ''%'') (gn_label n)) (gnodes (lib s))))))"

text \<open>
  \<open>asyncio.run\<close> refuses to start in a thread whose event loop is running.  \<open>AsyncSession.run_sync\<close> calls its function
  in a greenlet of the same thread, inside the loop that serves the request.
\<close>

definition asyncio_run :: "bool \<Rightarrow> 'a res \<Rightarrow> 'a res" where
  "asyncio_run loop_running m =
    (if loop_running then Inl (ExternalError ''asyncio.run() cannot be called from a running event loop'') else m)"

definition run_qa :: "qa_ext \<Rightarrow> bool \<Rightarrow> db \<Rightarrow> uuid \<Rightarrow> string \<Rightarrow> nat \<Rightarrow> bool \<Rightarrow> qa_response res" where
  "run_qa x loop_running s paper_id question max_chunks expand =
    (case asyncio_run loop_running (answer_question x s paper_id question max_chunks expand) of
       Inl (ValueError t) \<Rightarrow> Inl (AnalysisServiceError t)
     | r \<Rightarrow> r)"

definition run_locate :: "qa_ext \<Rightarrow> bool \<Rightarrow> db \<Rightarrow> uuid \<Rightarrow> string \<Rightarrow> string \<Rightarrow> (node_ref \<times> chunk_ref list) list res" where
  "run_locate x loop_running s paper_id entity_type query = asyncio_run loop_running (Inr (locate_entity x s paper_id entity_type query))"

section \<open>Endpoints\<close>

definition analysis_http :: "int \<Rightarrow> 'a res \<Rightarrow> 'a res" where
  "analysis_http code m = (case m of Inl (AnalysisServiceError _) \<Rightarrow> Inl (HTTPException code) | _ \<Rightarrow> m)"

definition start_analysis_endpoint ::
  "env \<Rightarrow> uuid \<Rightarrow> uuid \<Rightarrow> uuid \<Rightarrow> analysis_budget_body option \<Rightarrow> db \<Rightarrow> ((analysis_session \<times> uuid) \<times> db) res" where
  "start_analysis_endpoint e paper_id charter_id cycle_id body s =
    (let b = (case body of None \<Rightarrow> default_analysis_budget | Some b \<Rightarrow> b) in
     validated (analysis_budget_valid b)
       (analysis_http 400 (start_analysis e paper_id charter_id cycle_id (Some b) Actor_user None s)))"

definition get_analysis_session_endpoint :: "db \<Rightarrow> uuid \<Rightarrow> analysis_session res" where
  "get_analysis_session_endpoint s k = or_404 (get_analysis_session s k)"

definition get_document_endpoint :: "db \<Rightarrow> uuid \<Rightarrow> ingested_document res" where
  "get_document_endpoint s sid = res_bind (get_ingested_document s sid) or_404"

definition get_coverage_endpoint :: "db \<Rightarrow> uuid \<Rightarrow> coverage_diagnostic res" where
  "get_coverage_endpoint s sid = res_bind (get_coverage s sid) or_404"

definition get_packet_endpoint :: "db \<Rightarrow> uuid \<Rightarrow> analysis_packet res" where
  "get_packet_endpoint s paper_id = res_bind (get_analysis_packet s paper_id) or_404"

definition get_review_endpoint :: "db \<Rightarrow> uuid \<Rightarrow> review_artifact res" where
  "get_review_endpoint s paper_id = res_bind (get_review_artifact s paper_id) or_404"

definition qa_endpoint :: "qa_ext \<Rightarrow> db \<Rightarrow> uuid \<Rightarrow> string \<Rightarrow> nat \<Rightarrow> bool \<Rightarrow> qa_response res" where
  "qa_endpoint x s paper_id question max_chunks expand =
     validated (1 \<le> length question \<and> length question \<le> 2000 \<and> 1 \<le> max_chunks \<and> max_chunks \<le> 50)
       (analysis_http 404 (run_qa x True s paper_id question max_chunks expand))"

definition locate_endpoint :: "qa_ext \<Rightarrow> db \<Rightarrow> uuid \<Rightarrow> string \<Rightarrow> string \<Rightarrow> (node_ref \<times> chunk_ref list) list res" where
  "locate_endpoint x s paper_id entity_type query =
     validated (entity_type \<in> {''concept'', ''method'', ''figure'', ''table'', ''equation'', ''dataset''} \<and>
         1 \<le> length query \<and> length query \<le> 500)
       (run_locate x True s paper_id entity_type query)"

definition get_report_endpoint :: "(string \<Rightarrow> json option) \<Rightarrow> db \<Rightarrow> uuid \<Rightarrow> (string option \<times> json option) res" where
  "get_report_endpoint parse s sid =
     res_bind (analysis_http 404 (read_report_file parse s sid)) (\<lambda>(markdown, payload).
       if markdown = None \<and> payload = None then Inl (HTTPException 404) else Inr (markdown, payload))"

definition get_evidence_endpoint :: "db \<Rightarrow> uuid \<Rightarrow> evidence_card res" where
  "get_evidence_endpoint s k = or_404 (get_evidence_card s k)"

interpretation analysis_page: paged_query "list_analysis_sessions s charter_id cycle_id status"
  "order_desc an_created_at (filter (analysis_matches charter_id cycle_id status) (analyses s))" for s charter_id cycle_id status
  unfolding list_analysis_sessions_def by (rule paged_listing) simp

interpretation chunks_page: paged_query "list_chunks s sid ty"
  "sort_key ck_ordinal (filter (\<lambda>c. ck_session_id c = sid \<and> opt_match ty (ck_type c)) (chunks (lib s)))" for s sid ty
  unfolding list_chunks_def by (rule paged_listing) simp

interpretation nodes_page: paged_query "list_graph_nodes s sid ty"
  "sort_key gn_created_at (filter (\<lambda>n. gn_session_id n = sid \<and> opt_match ty (gn_type n)) (gnodes (lib s)))" for s sid ty
  unfolding list_graph_nodes_def by (rule paged_listing) simp

interpretation edges_page: paged_query "list_graph_edges s sid ty"
  "sort_key ge_created_at (filter (\<lambda>ed. ge_session_id ed = sid \<and> opt_match ty (ge_type ed)) (gedges (lib s)))" for s sid ty
  unfolding list_graph_edges_def by (rule paged_listing) simp

interpretation evidence_page: paged_query "list_evidence_cards s charter_id cycle_id ty min_confidence"
  "order_desc ec_created_at (filter (evidence_matches charter_id cycle_id ty min_confidence) (evidence (lib s)))"
  for s charter_id cycle_id ty min_confidence
  unfolding list_evidence_cards_def by (rule paged_listing) simp

section \<open>Admission\<close>

text \<open>
  An analysis starts exactly for a shortlisted or escalated paper with an existing cycle and charter; neither the
  status of the cycle nor which charter the paper and the cycle belong to is looked at, so a closed cycle or the cycle
  of another charter is accepted as well.
\<close>

theorem start_analysis_succeeds_iff:
  "(\<exists>out. start_analysis e paper_id charter_id cycle_id budget atype aid s = Inr out) \<longleftrightarrow>
     (\<exists>paper. table_get pc_id (papers (lib s)) paper_id = Some paper \<and> pc_triage_status paper \<in> {''shortlisted'', ''escalated''}) \<and>
     (\<exists>c. get_cycle s cycle_id = Some c) \<and> (\<exists>ch. get_charter s charter_id = Some ch)"
  unfolding start_analysis_def
  by (cases "table_get pc_id (papers (lib s)) paper_id"; cases "get_cycle s cycle_id"; cases "get_charter s charter_id")
    (auto simp: Let_def split: prod.split)

text \<open>
  Starting an analysis writes the status of a cycle without the state machine, but only takes steps the machine allows:
  every cycle keeps its identity and either its status or moves along an allowed transition; and the one new job is the
  ingestion of the one new session.
\<close>

theorem start_analysis_respects_machine:
  assumes "start_analysis e paper_id charter_id cycle_id budget atype aid s = Inr ((a, job_id), s')"
  shows "map cy_id (cycles s') = map cy_id (cycles s) \<and>
    (\<forall>n<length (cycles s). cy_status (cycles s' ! n) = cy_status (cycles s ! n) \<or>
       cy_status (cycles s' ! n) \<in> set (ALLOWED_TRANSITIONS (cy_status (cycles s ! n)))) \<and>
    analyses s' = analyses s @ [a] \<and> an_paper_card_id a = paper_id \<and>
    (\<exists>j. jobs s' = jobs s @ [j] \<and> j_id j = job_id \<and> j_type j = ''analysis_ingest'' \<and> j_status j = Js_pending \<and>
         j_payload j = Some [(''analysis_session_id'', JUuid (an_id a))])"
proof -
  have out: "cycles s' = update_where (\<lambda>c. cy_id c = cycle_id) (analysis_cycle e) (cycles s)" "analyses s' = analyses s @ [a]"
    "an_paper_card_id a = paper_id" "\<exists>j. jobs s' = jobs s @ [j] \<and> j_id j = job_id \<and> j_type j = ''analysis_ingest'' \<and>
      j_status j = Js_pending \<and> j_payload j = Some [(''analysis_session_id'', JUuid (an_id a))]"
    using assms unfolding start_analysis_def
    by (auto simp: Let_def create_job_def emit_event_def new_analysis_def tick_uuid_def split: option.split_asm if_splits)
  have "cy_id (analysis_cycle e c) = cy_id c" "cy_status (analysis_cycle e c) = cy_status c \<or>
      cy_status (analysis_cycle e c) \<in> set (ALLOWED_TRANSITIONS (cy_status c))" for c
    by (auto simp: analysis_cycle_def)
  then show ?thesis using out by (auto simp: update_where_def comp_def)
qed

section \<open>The latest analysis\<close>

lemma first_row_sort_key:
  assumes "first_row (sort_key f xs) = Some x"
  shows "x \<in> set xs \<and> (\<forall>y\<in>set xs. f x \<le> f y)"
proof -
  obtain t where t: "sort_key f xs = x # t" using assms by (auto simp: first_row_def split: list.split_asm)
  have "sorted (map f (x # t))" using sorted_sort_key [of f xs] t by simp
  moreover have "set xs = set (x # t)" using t by (metis set_sort)
  ultimately show ?thesis by auto
qed

text \<open>
  What a paper's endpoints show is the latest analysis: the packet belongs to a completed session of the paper, and no
  completed session of the paper ended after it.
\<close>

theorem shown_packet_is_latest:
  assumes "get_analysis_packet s paper_id = Inr (Some p)"
    and "\<forall>a\<in>set (analyses s). an_status a = ''completed'' \<longrightarrow> an_completed_at a \<noteq> None"
  shows "\<exists>a\<in>set (analyses s). ap_session_id p = an_id a \<and> an_paper_card_id a = paper_id \<and> an_status a = ''completed'' \<and>
    (\<forall>b\<in>set (analyses s). an_paper_card_id b = paper_id \<and> an_status b = ''completed'' \<longrightarrow>
       the (an_completed_at b) \<le> the (an_completed_at a))"
proof -
  obtain a where a: "latest_completed_session s paper_id = Some a" "session_packet s (an_id a) = Inr (Some p)"
    using assms(1) by (auto simp: get_analysis_packet_def split: option.split_asm)
  have p: "ap_session_id p = an_id a"
    using a(2) by (auto simp: session_packet_def scalar_one_or_none_Some_iff filter_eq_Cons_iff)
  have mem: "a \<in> set (completed_sessions s paper_id)" and
    min: "\<And>b. b \<in> set (completed_sessions s paper_id) \<Longrightarrow> completion_key a \<le> completion_key b"
    using first_row_sort_key [OF a(1) [unfolded latest_completed_session_def]] by auto
  have "the (an_completed_at b) \<le> the (an_completed_at a)"
    if "b \<in> set (analyses s)" "an_paper_card_id b = paper_id" "an_status b = ''completed''" for b
  proof -
    have "b \<in> set (completed_sessions s paper_id)" using that by (simp add: completed_sessions_def)
    then have "completion_key a \<le> completion_key b" by (rule min)
    moreover have "an_completed_at b \<noteq> None" "an_completed_at a \<noteq> None" using assms(2) that mem by (auto simp: completed_sessions_def)
    ultimately show ?thesis by (auto simp: completion_key_def)
  qed
  then show ?thesis using mem p by (auto simp: completed_sessions_def intro!: bexI [of _ a])
qed

section \<open>Locating\<close>

definition plain_char :: "char \<Rightarrow> bool" where
  "plain_char c \<longleftrightarrow> c \<notin> {CHR ''%'', CHR ''_'', CHR 92}"

lemma plain_lower: "plain_char c \<Longrightarrow> plain_char (char_lower c)"
proof -
  assume c: "plain_char c"
  show ?thesis
  proof (cases "char_lower c = c")
    case False
    define n where "n = (of_char c :: nat)"
    have n: "65 \<le> n \<and> n \<le> 90 \<or> 192 \<le> n \<and> n \<le> 222" "char_lower c = char_of (n + 32)"
      using False by (auto simp: char_lower_def Let_def n_def split: if_splits)
    have "(of_char (char_lower c) :: nat) = n + 32" using n by auto
    moreover have "(of_char (CHR ''%'') :: nat) = 37" "(of_char (CHR ''_'') :: nat) = 95" "(of_char (CHR 92) :: nat) = 92"
      by simp_all
    ultimately show ?thesis using n(1) by (auto simp: plain_char_def)
  qed (use c in simp)
qed

lemma like_prefix: "\<forall>c\<in>set q. plain_char c \<Longrightarrow> sql_like (q @ ''%'') t \<longleftrightarrow> take (length q) t = q"
proof (induction q arbitrary: t)
  case Nil
  have "sql_like ''%'' t" by (induction t) auto
  then show ?case by simp
next
  case (Cons c q)
  then show ?case by (cases t) (auto simp: plain_char_def)
qed

lemma like_substring: "\<forall>c\<in>set q. plain_char c \<Longrightarrow> sql_like (''%'' @ q @ ''%'') t \<longleftrightarrow> has_text q t"
proof (induction t)
  case Nil
  then show ?case using like_prefix [of q "[]"] by auto
next
  case (Cons c t)
  then show ?case using like_prefix [of q "c # t"] by simp
qed

text \<open>
  Locating is substring search: for a query without the wildcards of SQL every match is a node of the asked type, of
  the paper's latest completed session, whose label contains the query but for case; and the chunks shown are sources
  of that node.  At most ten matches are shown.
\<close>

theorem locate_is_substring_search:
  assumes "\<forall>c\<in>set query. plain_char c" and "\<And>ns. set (qx_nodes x ns) \<subseteq> set ns" and "\<And>cs. set (qx_chunks x cs) \<subseteq> set cs"
  shows "length (locate_entity x s paper_id ty query) \<le> 10 \<and>
    (\<forall>(m, shown)\<in>set (locate_entity x s paper_id ty query). \<exists>a n. latest_completed_session s paper_id = Some a \<and>
       n \<in> set (gnodes (lib s)) \<and> gn_session_id n = an_id a \<and> m = node_ref_of n \<and> gn_type n = ty \<and>
       has_text (map char_lower query) (map char_lower (gn_label n)) \<and> cf_chunk_id ` set shown \<subseteq> set (gn_chunk_ids n))"
proof (cases "latest_completed_session s paper_id")
  case None
  then show ?thesis by (simp add: locate_entity_def)
next
  case (Some a)
  define P :: "graph_node \<Rightarrow> bool" where "P = (\<lambda>n. gn_paper_id n = paper_id \<and> gn_session_id n = an_id a \<and> gn_type n = ty \<and> ilike (''%'' @ query @ ''%'') (gn_label n))"
  define found where "found = take 10 (qx_nodes x (filter P (gnodes (lib s))))"
  have all: "locate_entity x s paper_id ty query = map (\<lambda>n. (node_ref_of n, map chunk_ref_of (linked_chunks x s n))) found"
    by (simp add: locate_entity_def Some found_def P_def)
  have plain: "\<forall>c\<in>set (map char_lower query). plain_char c" using assms(1) plain_lower by auto
  have like: "has_text (map char_lower query) (map char_lower t)" if "ilike (''%'' @ query @ ''%'') t" for t
  proof -
    have "char_lower (CHR ''%'') = CHR ''%''" by (simp add: char_lower_def Let_def)
    then show ?thesis using \<open>ilike _ t\<close> like_substring [OF plain, of "map char_lower t"] by (simp add: ilike_def)
  qed
  have node: "n \<in> set (gnodes (lib s)) \<and> P n" if "n \<in> set found" for n
    using that assms(2) [of "filter P (gnodes (lib s))"] by (auto simp: found_def dest!: in_set_takeD)
  have chunk: "cf_chunk_id ` set (map chunk_ref_of (linked_chunks x s n)) \<subseteq> set (gn_chunk_ids n)" for n
    using assms(3) [of "filter (\<lambda>c. ck_id c \<in> set (take 5 (gn_chunk_ids n))) (chunks (lib s))"]
    by (auto simp: linked_chunks_def chunk_ref_of_def dest!: subsetD in_set_takeD)
  have "length found \<le> 10" by (simp add: found_def)
  then show ?thesis unfolding all using node chunk like Some by (fastforce simp: P_def)
qed

text \<open>The question endpoint always runs inside the event loop, so it never answers.\<close>

lemma qa_endpoint_never_answers:
  "qa_endpoint x s paper_id question max_chunks expand \<noteq> Inr answer" "locate_endpoint x s paper_id ty query \<noteq> Inr found"
  by (simp_all add: qa_endpoint_def locate_endpoint_def validated_def run_qa_def run_locate_def asyncio_run_def analysis_http_def)

section \<open>The report comes back\<close>

lemma with_name_sibling: "\<forall>c\<in>set name'. c \<noteq> CHR ''/'' \<Longrightarrow> with_name (dir @ CHR ''/'' # name') name = dir @ CHR ''/'' # name"
proof -
  assume n: "\<forall>c\<in>set name'. c \<noteq> CHR ''/''"
  have "dropWhile (\<lambda>c. c \<noteq> CHR ''/'') (rev name' @ CHR ''/'' # rev dir) = CHR ''/'' # rev dir"
    using n by (subst dropWhile_append2) auto
  then show ?thesis by (simp add: with_name_def)
qed

lemma finish_step_rows [simp]:
  "disk (finish_step e step st detail stats et payload ty a s) = disk s"
  "analyses (finish_step e step st detail stats et payload ty a s) =
     update_where (\<lambda>x. an_id x = an_id a)
       (\<lambda>_. analysis_merge_stats stats (analysis_append_step_log e step ''ok'' detail (a\<lparr>an_status := st\<rparr>))) (analyses s)"
  by (simp_all add: finish_step_def analysis_hand_over_def analysis_enqueue_next_def create_job_def tick_uuid_def
      analysis_event_def emit_event_sync_def put_analysis_def Let_def split: prod.split)

lemma write_report_bundle_disk:
  assumes "write_report_bundle x dir markdown payload s = (None, s')"
  shows "map_of (disk s') (dir @ ''/report.md'') = Some markdown"
    and "map_of (disk s') (dir @ ''/report.json'') = Some (json_text (vx_py x) payload)" and "lib s' = lib s" and "analyses s' = analyses s"
  using assms by (auto simp: write_report_bundle_def write_file_def map_of_dset split: prod.split_asm option.split_asm)

lemma review_success_writes:
  assumes "review_packet x e a p cov s = Inr (r, s')" and "or_success r"
  shows "\<exists>rw s1. rw \<in> set (reviews (lib s1)) \<and> packets (lib s1) = packets (lib s) \<and> analyses s1 = analyses s \<and>
     map_of (disk s1) (report_dir (vx_data_root x) (an_id a) @ ''/report.md'') = Some (render_markdown x a p rw cov) \<and>
     map_of (disk s1) (report_dir (vx_data_root x) (an_id a) @ ''/report.json'') = Some (json_text (vx_py x) (render_json x e a p rw cov)) \<and>
     s' = snd (reviewed e a p rw (report_dir (vx_data_root x) (an_id a) @ ''/report.md'') s1)"
proof -
  define dir where "dir = report_dir (vx_data_root x) (an_id a)"
  obtain rw t where rw: "generate_review x e p cov s = Inr (rw, t)"
    using assms by (cases "generate_review x e p cov s") (auto simp: review_packet_def dest: fail_analysis_Inr)
  obtain err s1 where w: "write_report_bundle x dir (render_markdown x a p rw cov) (render_json x e a p rw cov) t = (err, s1)" by fastforce
  note body = assms(1) [unfolded review_packet_def rw sum.case(2) prod.case Let_def, folded dir_def, unfolded w prod.case]
  have none: "err = None" using body assms(2) by (cases err) (auto dest: fail_analysis_Inr)
  have t: "rw \<in> set (reviews (lib t))" "packets (lib t) = packets (lib s)" "analyses t = analyses s"
    using rw by (auto simp: generate_review_def Let_def tick_uuid_def upd_lib_def split: sum.split_asm)
  show ?thesis using write_report_bundle_disk [OF w [unfolded none]] t body none unfolding dir_def [symmetric]
    by (intro exI [of _ rw] exI [of _ s1]) auto
qed


section \<open>Witnesses\<close>

definition demo_review :: review_output where
  "demo_review = \<lparr>ro_strengths = [], ro_weaknesses = [], ro_open_questions = [], ro_critique = [], ro_scores = [], ro_reading_priority = []\<rparr>"


definition demo_screened_cycle :: cycle where
  "demo_screened_cycle = \<lparr>cy_id = 4, cy_charter_id = 3, cy_status = Cy_discovery_screened, cy_config = None, cy_created_at = 1,
     cy_updated_at = 1, cy_started_at = None, cy_completed_at = None\<rparr>"

definition demo_served_world :: db where
  "demo_served_world = demo_document_world\<lparr>charters := [demo_charter_row], cycles := [demo_screened_cycle],
     analyses := [demo_analysis_row\<lparr>an_status := ''completed'', an_completed_at := Some 5\<rparr>,
                  demo_analysis_row\<lparr>an_id := 11, an_status := ''completed'', an_completed_at := Some 9\<rparr>],
     lib := empty_library\<lparr>papers := [(demo_paper 1 9 ''a'')\<lparr>pc_triage_status := ''shortlisted''\<rparr>],
       chunks := [demo_chunk 31], packets := [demo_packet, demo_packet\<lparr>ap_id := 46, ap_session_id := 11\<rparr>],
       gnodes := [(node_row demo_env demo_analysis_row 31 41 (demo_named ''method'' ''Beam search''))\<lparr>gn_session_id := 11\<rparr>]\<rparr>\<rparr>"

theorem start_analysis_respects_machine_witness:
  "\<exists>a k s'. start_analysis demo_env 1 3 4 None Actor_user None demo_served_world = Inr ((a, k), s') \<and>
     map cy_status (cycles s') = [Cy_analysis_ready] \<and> map cy_id (cycles s') = [4] \<and>
     Cy_analysis_ready \<in> set (ALLOWED_TRANSITIONS Cy_discovery_screened)"
proof -
  obtain a k s' where run: "start_analysis demo_env 1 3 4 None Actor_user None demo_served_world = Inr ((a, k), s')"
    and st: "map cy_status (cycles s') = [Cy_analysis_ready]"
    by (auto simp: start_analysis_def demo_served_world_def empty_library_def demo_paper_def get_cycle_def get_charter_def demo_charter_row_def
        demo_screened_cycle_def Let_def create_job_def emit_event_def tick_uuid_def analysis_cycle_def)
  have "map cy_id (cycles demo_served_world) = [4]" by (simp add: demo_served_world_def demo_screened_cycle_def)
  then show ?thesis using start_analysis_respects_machine [OF run] run st by auto
qed

theorem shown_packet_is_latest_witness:
  "\<exists>p. get_analysis_packet demo_served_world 1 = Inr (Some p) \<and> ap_id p = 46 \<and>
     (\<exists>a\<in>set (analyses demo_served_world). ap_session_id p = an_id a \<and> an_completed_at a = Some 9)"
proof -
  have p: "get_analysis_packet demo_served_world 1 = Inr (Some (demo_packet\<lparr>ap_id := 46, ap_session_id := 11\<rparr>))"
    by (simp add: get_analysis_packet_def latest_completed_session_def completed_sessions_def demo_served_world_def demo_analysis_row_def
        completion_key_def first_row_def session_packet_def demo_packet_def packet_row_def)
  have "\<forall>a\<in>set (analyses demo_served_world). an_status a = ''completed'' \<longrightarrow> an_completed_at a \<noteq> None"
    by (simp add: demo_served_world_def)
  from shown_packet_is_latest [OF p this] show ?thesis using p by (auto simp: demo_served_world_def)
qed

definition demo_qx :: qa_ext where
  "demo_qx = \<lparr>qx_embed = (\<lambda>ts. Inr (map (\<lambda>_. [1]) ts)), qx_distance = (\<lambda>_ _. 0), qx_complete = (\<lambda>_. Inr []), qx_nodes = (\<lambda>ns. ns), qx_chunks = rev\<rparr>"

theorem locate_is_substring_search_witness:
  "\<exists>m shown. locate_entity demo_qx demo_served_world 1 ''method'' ''SEARCH'' = [(m, shown)] \<and> nf_label m = ''Beam search'' \<and>
     cf_chunk_id ` set shown \<subseteq> {31}"
proof -
  have latest: "latest_completed_session demo_served_world 1 = Some (demo_analysis_row\<lparr>an_id := 11, an_status := ''completed'', an_completed_at := Some 9\<rparr>)"
    by (simp add: latest_completed_session_def completed_sessions_def demo_served_world_def demo_analysis_row_def completion_key_def first_row_def)
  define n where "n = (node_row demo_env demo_analysis_row 31 41 (demo_named ''method'' ''Beam search''))\<lparr>gn_session_id := 11\<rparr>"
  have n: "gn_paper_id n = 1" "gn_session_id n = 11" "gn_type n = ''method''" "gn_label n = ''Beam search''" "gn_chunk_ids n = [31]"
    by (simp_all add: n_def node_row_def demo_named_def demo_analysis_row_def)
  have g: "gnodes (lib demo_served_world) = [n]" by (simp add: demo_served_world_def n_def)
  have qx: "qx_nodes demo_qx ns = ns" for ns by (simp add: demo_qx_def)
  have "map char_lower (''%'' @ ''SEARCH'' @ ''%'') = ''%'' @ ''search'' @ ''%''" "map char_lower ''Beam search'' = ''beam search''"
    by (simp_all add: char_lower_def Let_def char_of_def bit_0)
  moreover have "sql_like (''%'' @ ''search'' @ ''%'') ''beam search''"
    using like_substring [of "''search''" "''beam search''"] by (simp only: list.set) (simp add: plain_char_def)
  ultimately have "ilike (''%'' @ ''SEARCH'' @ ''%'') ''Beam search''" by (simp only: ilike_def)
  then have run: "locate_entity demo_qx demo_served_world 1 ''method'' ''SEARCH'' =
      [(node_ref_of n, map chunk_ref_of (linked_chunks demo_qx demo_served_world n))]"
    unfolding locate_entity_def latest option.case(2) g by (simp add: n qx)
  have ext: "set (qx_nodes demo_qx ns) \<subseteq> set ns" "set (qx_chunks demo_qx cs) \<subseteq> set cs" for ns cs by (simp_all add: demo_qx_def)
  have "\<forall>c\<in>set ''SEARCH''. plain_char c" by (simp add: plain_char_def)
  from locate_is_substring_search [OF this ext, of demo_served_world 1 "''method''"] show ?thesis
    unfolding run g using n by (auto simp: node_ref_of_def)
qed

end
