(* ===== verification/Loop_Decide.thy ===== *)
theory Loop_Decide
  imports Patterns Execution_Common
begin

text \<open>
  The decision point of the autonomous loop, \<open>libs/autonomy/operators/loop_decide.py\<close>: from a
  run's recommendation it decides to rerun, vary, pivot, pause at a gate or stop.

  \<open>loop_ext\<close> collects what the operator calls outside the modelled sources: pydantic's
  validation of the policy, the embedding service, SHA-256, the summary generator (an LLM call
  whose result is written to a file: only the path comes back), and the reader of such a
  file.  The text \<open>reasoning\<close> of a decision is not stored.  A return without commit leaves the store
  as it was.
\<close>

record loop_ext =
  lx_py :: pylib
  lx_model_validate :: "json \<Rightarrow> autonomy_policy res"
  lx_embed_text :: "string \<Rightarrow> real list option"
  lx_sha256 :: "json \<Rightarrow> string"
  lx_summary :: "db \<Rightarrow> uuid \<Rightarrow> uuid \<Rightarrow> nat \<Rightarrow> string res"
  lx_read_summary :: "string \<Rightarrow> dict option"

text \<open>What the operator has loaded when it acts.\<close>

record loop_ctx =
  lc_job_id :: uuid
  lc_run :: run_record
  lc_rec :: run_recommendation
  lc_spec :: "experiment_spec option"
  lc_policy :: autonomy_policy
  lc_budget :: autonomy_budget
  lc_iteration :: nat
  lc_card_id :: "uuid option"
  lc_summary_path :: "string option"

abbreviation lc_emit :: "env \<Rightarrow> loop_ctx \<Rightarrow> string \<Rightarrow> dict \<Rightarrow> db \<Rightarrow> db" where
  "lc_emit e c et payload \<equiv> emit_sys e et (rn_charter_id (lc_run c)) (rn_cycle_id (lc_run c)) payload"

abbreviation opt_uuid :: "uuid option \<Rightarrow> json" where
  "opt_uuid x \<equiv> (case x of None \<Rightarrow> JNull | Some u \<Rightarrow> JUuid u)"

section \<open>Persisting decisions\<close>

definition decision_row ::
  "env \<Rightarrow> loop_ctx \<Rightarrow> string \<Rightarrow> string option \<Rightarrow> uuid option \<Rightarrow> string option \<Rightarrow> uuid \<Rightarrow> loop_decision" where
  "decision_row e c decision gate next_card next_action i =
    (let b = lc_budget c in
     \<lparr>ld_id = i, ld_cycle_id = rn_cycle_id (lc_run c),
      ld_charter_id = rn_charter_id (lc_run c), ld_run_id = rn_id (lc_run c),
      ld_recommendation_id = rr_id (lc_rec c), ld_iteration_number = lc_iteration c,
      ld_decision = decision, ld_gate_triggered = gate,
      ld_budget_snapshot = \<lparr>bs_total_runs = ab_total_runs b,
         bs_wall_clock_elapsed_s = ab_wall_clock_elapsed_s b,
         bs_runs_per_hypothesis = ab_runs_per_hypothesis b\<rparr>,
      ld_card_id = lc_card_id c, ld_next_card_id = next_card, ld_next_action = next_action,
      ld_context_summary_path = lc_summary_path c, ld_created_at = now e\<rparr>)"

definition persist_decision ::
  "env \<Rightarrow> loop_ctx \<Rightarrow> string \<Rightarrow> string option \<Rightarrow> uuid option \<Rightarrow> string option \<Rightarrow> db \<Rightarrow> db" where
  "persist_decision e c decision gate next_card next_action s =
    (tick_uuid s)\<lparr>decisions := decisions s @
       [decision_row e c decision gate next_card next_action (new_uuid e s)]\<rparr>"

definition stop :: "env \<Rightarrow> loop_ctx \<Rightarrow> string \<Rightarrow> string \<Rightarrow> db \<Rightarrow> op_result \<times> db" where
  "stop e c decision reasoning s =
    (let b = lc_budget c;
         s1 = (if decision = ''stop_budget''
               then lc_emit e c ''autonomy.budget_exceeded''
                      [(''run_record_id'', JUuid (rn_id (lc_run c))), (''reason'', JStr reasoning),
                       (''total_runs'', JInt (int (ab_total_runs b))),
                       (''wall_clock_elapsed_s'', JFloat (ab_wall_clock_elapsed_s b))] s
               else s);
         s2 = persist_decision e c decision None None None s1;
         s3 = snd (create_job e (Some (rn_cycle_id (lc_run c))) ''loop_report''
                     (Some [(''cycle_id'', JUuid (rn_cycle_id (lc_run c)))]) 5 s2);
         s4 = lc_emit e c ''autonomy.loop_completed''
                [(''iteration'', JInt (int (lc_iteration c))), (''decision'', JStr decision),
                 (''reasoning'', JStr reasoning)] s3
     in (op_patch Cy_reporting, s4))"

definition pause_for_gate :: "env \<Rightarrow> loop_ctx \<Rightarrow> string \<Rightarrow> db \<Rightarrow> op_result \<times> db" where
  "pause_for_gate e c gate_name s =
    (let s1 = update_job (lc_job_id c) (\<lambda>j. j\<lparr>j_status := Js_paused\<rparr>) s;
         s2 = persist_decision e c ''stop_gate'' (Some gate_name) None None s1;
         s3 = lc_emit e c ''autonomy.gate_triggered''
                [(''iteration'', JInt (int (lc_iteration c))), (''gate_name'', JStr gate_name)] s2
     in (OperatorResult, s3))"

section \<open>Acting on a decision\<close>

definition start_rerun :: "env \<Rightarrow> loop_ctx \<Rightarrow> uuid \<Rightarrow> db \<Rightarrow> uuid \<times> db" where
  "start_rerun e c spec_id s =
    (let i = new_uuid e s;
         r = pending_run e i spec_id (rn_charter_id (lc_run c)) (rn_cycle_id (lc_run c)) None
               (max_run_number s spec_id + 1);
         s1 = add_run r s
     in (i, snd (enqueue_next e (rn_cycle_id (lc_run c)) ''execution_setup'' i [] s1)))"

definition continue_current :: "env \<Rightarrow> loop_ctx \<Rightarrow> experiment_spec \<Rightarrow> db \<Rightarrow> op_result \<times> db" where
  "continue_current e c sp s =
    (case start_rerun e c (sp_id sp) s of (i, s1) \<Rightarrow>
      let s2 = persist_decision e c ''continue_current'' None None (Some ''rerun_spec'') s1;
          s3 = lc_emit e c ''autonomy.loop_decision_made''
                 [(''iteration'', JInt (int (lc_iteration c))), (''decision'', JStr ''continue_current''),
                  (''next_run_id'', JUuid i)] s2
      in (op_patch Cy_running, s3))"

definition loop_context :: "loop_ctx \<Rightarrow> json" where
  "loop_context c =
    JObj [(''run_record_id'', JUuid (rn_id (lc_run c))), (''recommendation_id'', JUuid (rr_id (lc_rec c))),
          (''hypothesis_card_id'', opt_uuid (lc_card_id c)),
          (''context_summary_path'', opt_str (lc_summary_path c)),
          (''current_hardware_profile'',
             case lc_spec c of None \<Rightarrow> JNull | Some sp \<Rightarrow> sp_hardware_profile sp)]"

definition cycle_session :: "db \<Rightarrow> uuid \<Rightarrow> hypothesis_session option" where
  "cycle_session s cycle_id = first_row (filter (\<lambda>h. hs_cycle_id h = cycle_id) (sessions s))"

definition variation_count :: "db \<Rightarrow> loop_ctx \<Rightarrow> nat" where
  "variation_count s c =
    (case lc_card_id c of
       None \<Rightarrow> 0
     | Some h \<Rightarrow> length (filter (\<lambda>sp. sp_card_id sp = h \<and> sp_cycle_id sp = rn_cycle_id (lc_run c)) (specs s)))"

definition variation_context ::
  "loop_ext \<Rightarrow> loop_ctx \<Rightarrow> experiment_spec \<Rightarrow> string option \<Rightarrow> metric_frontier option \<Rightarrow> nat \<Rightarrow> dict" where
  "variation_context x c sp signal frontier count =
    (let base = [(''prior_spec_id'', JUuid (sp_id sp)), (''prior_metrics'', rn_metrics_output (lc_run c)),
                 (''signal'', opt_str signal),
                 (''frontier_best'', case frontier of None \<Rightarrow> JNull | Some f \<Rightarrow> JFloat (mf_best_value f)),
                 (''recommendation_action'', JStr (rr_action (lc_rec c))),
                 (''variation_number'', JInt (int count + 1))]
     in case lc_summary_path c of
          None \<Rightarrow> base
        | Some path \<Rightarrow>
            (if path = [] then base
             else case lx_read_summary x path of
                None \<Rightarrow> base
              | Some d \<Rightarrow> base @ [(''context_summary'',
                  JObj [(''key_findings'', dget_or d ''key_findings'' (JStr [])),
                        (''repeated_approaches'', dget_or d ''repeated_approaches'' (JList [])),
                        (''frontier_progression'', dget_or d ''frontier_progression'' (JList []))])]))"

text \<open>Inside: None is the uncommitted failure "no hypothesis session found for cycle".\<close>

definition vary_parameters ::
  "loop_ext \<Rightarrow> env \<Rightarrow> loop_ctx \<Rightarrow> experiment_spec \<Rightarrow> string option \<Rightarrow> metric_frontier option \<Rightarrow> db
   \<Rightarrow> (op_result \<times> db) option" where
  "vary_parameters x e c sp signal frontier s =
    (case cycle_session s (rn_cycle_id (lc_run c)) of
       None \<Rightarrow> None
     | Some hs \<Rightarrow>
        let n = variation_count s c;
            payload = [(''hypothesis_session_id'', JUuid (hs_id hs)),
                       (''hypothesis_card_ids'', JList [case lc_card_id c of None \<Rightarrow> JStr ''None'' | Some h \<Rightarrow> JUuid h]),
                       (''variation_context'', JObj (variation_context x c sp signal frontier n)),
                       (''from_loop'', JBool True), (''loop_context'', loop_context c)] @
                      (if truthy (sp_hardware_profile sp) then [(''hardware_profile'', sp_hardware_profile sp)] else []) @
                      (case sp_base_image sp of None \<Rightarrow> [] | Some im \<Rightarrow> if im = [] then [] else [(''base_image'', JStr im)]);
            s1 = snd (create_job e (Some (rn_cycle_id (lc_run c))) ''protocol_compile'' (Some payload) 10 s);
            s2 = persist_decision e c ''vary_parameters'' None None (Some ''recompile_spec'') s1;
            s3 = lc_emit e c ''autonomy.loop_decision_made''
                   [(''iteration'', JInt (int (lc_iteration c))), (''decision'', JStr ''vary_parameters''),
                    (''variation_number'', JInt (int n + 1))] s2
        in Some (op_patch Cy_running, s3))"

text \<open>\<open>ORDER BY rank ASC NULLS LAST\<close>.\<close>

definition rank_key :: "hypothesis_card \<Rightarrow> int \<times> int" where
  "rank_key h = (case hc_rank h of None \<Rightarrow> (1, 0) | Some r \<Rightarrow> (0, r))"

definition next_viable_card :: "db \<Rightarrow> uuid \<Rightarrow> hypothesis_card option" where
  "next_viable_card s cycle_id =
    first_row (sort_key rank_key (filter (\<lambda>h. hc_cycle_id h = cycle_id \<and>
      hc_status h \<in> {''candidate'', ''compiled'', ''deferred''}) (cards s)))"

definition deprioritize_current :: "env \<Rightarrow> loop_ctx \<Rightarrow> db \<Rightarrow> db" where
  "deprioritize_current e c s =
    (case lc_card_id c of
       None \<Rightarrow> s
     | Some h \<Rightarrow>
        (case table_get hc_id (cards s) h of
           None \<Rightarrow> s
         | Some crd \<Rightarrow> (if hc_status crd \<in> {''deprioritized'', ''rejected''} then s
                       else put_card (crd\<lparr>hc_status := ''deprioritized'', hc_updated_at := now e\<rparr>) s)))"

definition preview_gate ::
  "loop_ext \<Rightarrow> loop_ctx \<Rightarrow> experiment_spec \<Rightarrow> gate_result res" where
  "preview_gate x c sp =
    res_bind (preview_next_spec (float_repr (lx_py x)) (Some sp)) (\<lambda>preview.
    res_bind (evaluate_gates (lc_policy c) (lc_budget c)
      \<lparr>runs_since_last_gate = 0, gc_wall_clock_elapsed_s = ab_wall_clock_elapsed_s (lc_budget c),
       next_hardware_profile = preview_hardware_profile preview,
       current_hardware_profile = (case lc_spec c of None \<Rightarrow> JNull | Some cur \<Rightarrow> sp_hardware_profile cur),
       is_result_promotion = False, has_network_access = preview_network_access preview\<rparr>) (\<lambda>g.
      Inr (if g \<in> {Some ''before_hardware_escalation'', Some ''before_network_execution''} then g else None)))"

definition pivot_existing ::
  "loop_ext \<Rightarrow> env \<Rightarrow> loop_ctx \<Rightarrow> hypothesis_card \<Rightarrow> experiment_spec \<Rightarrow> db \<Rightarrow> (op_result \<times> db) res" where
  "pivot_existing x e c nc sp s =
    res_bind (preview_gate x c sp) (\<lambda>gate.
      case gate of
        Some g \<Rightarrow> Inr (pause_for_gate e c g s)
      | None \<Rightarrow>
          Inr (case start_rerun e c (sp_id sp) s of (i, s1) \<Rightarrow>
            let s2 = persist_decision e c ''pivot_hypothesis'' None (Some (hc_id nc)) (Some ''rerun_spec'') s1;
                s3 = lc_emit e c ''autonomy.loop_decision_made''
                       [(''iteration'', JInt (int (lc_iteration c))), (''decision'', JStr ''pivot_hypothesis''),
                        (''next_card_id'', JUuid (hc_id nc))] s2
            in (op_patch Cy_running, s3)))"

definition pivot_compile :: "env \<Rightarrow> loop_ctx \<Rightarrow> hypothesis_card \<Rightarrow> db \<Rightarrow> op_result \<times> db" where
  "pivot_compile e c nc s =
    (case cycle_session s (rn_cycle_id (lc_run c)) of
       None \<Rightarrow> stop e c ''stop_exhausted'' ''No hypothesis session found for compilation.'' s
     | Some hs \<Rightarrow>
        let payload = [(''hypothesis_session_id'', JUuid (hs_id hs)),
                       (''hypothesis_card_ids'', JList [JUuid (hc_id nc)]), (''from_loop'', JBool True),
                       (''loop_context'', loop_context c)];
            s1 = snd (create_job e (Some (rn_cycle_id (lc_run c))) ''protocol_compile'' (Some payload) 10 s);
            s2 = persist_decision e c ''pivot_hypothesis'' None (Some (hc_id nc)) (Some ''compile_new_hypothesis'') s1;
            s3 = lc_emit e c ''autonomy.loop_decision_made''
                   [(''iteration'', JInt (int (lc_iteration c))), (''decision'', JStr ''pivot_hypothesis''),
                    (''next_card_id'', JUuid (hc_id nc)), (''needs_compile'', JBool True)] s2
        in (op_patch Cy_running, s3))"

definition pivot_hypothesis :: "loop_ext \<Rightarrow> env \<Rightarrow> loop_ctx \<Rightarrow> db \<Rightarrow> (op_result \<times> db) res" where
  "pivot_hypothesis x e c s =
    (let s1 = deprioritize_current e c s in
     case next_viable_card s1 (rn_cycle_id (lc_run c)) of
       None \<Rightarrow> Inr (stop e c ''stop_exhausted'' ''No remaining viable hypotheses for pivot.'' s1)
     | Some nc \<Rightarrow>
        let s2 = lc_emit e c ''autonomy.hypothesis_selected''
                   [(''card_id'', JUuid (hc_id nc)), (''title'', JStr (hc_title nc)), (''reason'', JStr ''pivot'')] s1;
            existing = (if hc_status nc = ''compiled''
              then first_row (order_desc sp_created_at (filter (\<lambda>sp. sp_card_id sp = hc_id nc \<and>
                     sp_status sp = ''validated'') (specs s2)))
              else None)
        in case existing of
             Some sp \<Rightarrow> pivot_existing x e c nc sp s2
           | None \<Rightarrow> Inr (pivot_compile e c nc s2))"

section \<open>Step 8: the recommendation\<close>

text \<open>None: the uncommitted failure of \<open>vary_parameters\<close>.\<close>

definition act_with_spec ::
  "loop_ext \<Rightarrow> env \<Rightarrow> loop_ctx \<Rightarrow> experiment_spec \<Rightarrow> string \<Rightarrow> string option \<Rightarrow> metric_frontier option \<Rightarrow> db
   \<Rightarrow> (op_result \<times> db) option res" where
  "act_with_spec x e c sp rt signal frontier s =
    (if rt = ''continue_current'' then
       res_bind (preview_gate x c sp) (\<lambda>gate.
         case gate of
           Some g \<Rightarrow> Inr (Some (pause_for_gate e c g s))
         | None \<Rightarrow> Inr (Some (continue_current e c sp s)))
     else if rt = ''hypothesis_pivot'' then res_bind (pivot_hypothesis x e c s) (\<lambda>r. Inr (Some r))
     else Inr (vary_parameters x e c sp signal frontier s))"

definition act_on_recommendation ::
  "loop_ext \<Rightarrow> env \<Rightarrow> loop_ctx \<Rightarrow> string option \<Rightarrow> metric_frontier option \<Rightarrow> db \<Rightarrow> (op_result \<times> db) option res" where
  "act_on_recommendation x e c signal frontier s =
    (let rt = rr_type (lc_rec c) in
     if rt = ''halt'' then Inr (Some (stop e c ''stop_halt'' (rr_reasoning (lc_rec c)) s))
     else case lc_spec c of
       None \<Rightarrow>
         (if rt = ''hypothesis_pivot'' then res_bind (pivot_hypothesis x e c s) (\<lambda>r. Inr (Some r))
          else Inr (Some (stop e c ''stop_halt'' ''No viable spec or recommendation path.'' s)))
     | Some sp \<Rightarrow>
         (if rt = ''continue_current''
          then res_bind (detect_repetition (lx_sha256 x) s (rn_cycle_id (lc_run c)) sp) (\<lambda>rep.
            if is_duplicate rep
            then act_with_spec x e c sp ''parameter_variation'' signal frontier
                   (lc_emit e c ''autonomy.repetition_detected''
                      [(''spec_id'', JUuid (sp_id sp)), (''match_type'', JStr ''exact'')] s)
            else act_with_spec x e c sp rt signal frontier s)
          else act_with_spec x e c sp rt signal frontier s))"

section \<open>Steps 1 to 7\<close>

definition load_signal :: "db \<Rightarrow> uuid \<Rightarrow> directional_signal option res" where
  "load_signal s run_id = scalar_one_or_none (filter (\<lambda>d. ds_run_id d = run_id) (signals s))"

definition load_frontier :: "db \<Rightarrow> uuid \<Rightarrow> uuid option \<Rightarrow> metric_frontier option res" where
  "load_frontier s charter_id card_id =
    (case card_id of None \<Rightarrow> Inr None
     | Some h \<Rightarrow> scalar_one_or_none (filter (\<lambda>f. mf_charter_id f = charter_id \<and> mf_card_id f = h) (frontiers s)))"

definition load_card :: "db \<Rightarrow> uuid option \<Rightarrow> hypothesis_card option" where
  "load_card s card_id = (case card_id of None \<Rightarrow> None | Some h \<Rightarrow> table_get hc_id (cards s) h)"

definition runs_since_gate :: "db \<Rightarrow> loop_ctx \<Rightarrow> nat" where
  "runs_since_gate s c =
    (let gates = filter (\<lambda>d. ld_cycle_id d = rn_cycle_id (lc_run c) \<and> ld_decision d = ''stop_gate'') (decisions s);
         last_total = (case first_row (order_desc ld_created_at gates) of
                         None \<Rightarrow> 0 | Some d \<Rightarrow> bs_total_runs (ld_budget_snapshot d))
     in ab_total_runs (lc_budget c) - last_total)"

text \<open>Step 5, the checkpoint gates of a run that was not paused before: the gate that fires.\<close>

definition checkpoint_gate :: "loop_ctx \<Rightarrow> db \<Rightarrow> gate_result res" where
  "checkpoint_gate c s =
    res_bind (load_signal s (rn_id (lc_run c))) (\<lambda>sig.
    res_bind (load_frontier s (rn_charter_id (lc_run c)) (lc_card_id c)) (\<lambda>fr.
    res_bind (case (load_card s (lc_card_id c), lc_spec c) of
                (Some crd, Some sp) \<Rightarrow>
                  res_bind (compute_lifecycle_status (hc_status crd) (map_option ds_signal sig) fr
                              (rr_type (lc_rec c)) (Some sp)) (\<lambda>st. Inr (st = Some ''validated''))
              | _ \<Rightarrow> Inr False) (\<lambda>promotion.
      let hw = (case lc_spec c of None \<Rightarrow> JNull | Some sp \<Rightarrow> sp_hardware_profile sp)
      in evaluate_gates (lc_policy c) (lc_budget c)
           \<lparr>runs_since_last_gate = runs_since_gate s c,
            gc_wall_clock_elapsed_s = ab_wall_clock_elapsed_s (lc_budget c),
            next_hardware_profile = hw, current_hardware_profile = hw,
            is_result_promotion = promotion, has_network_access = False\<rparr>)))"

definition should_generate_summary :: "nat \<Rightarrow> int \<Rightarrow> bool" where
  "should_generate_summary total_runs interval \<longleftrightarrow>
     \<not> interval \<le> 0 \<and> total_runs > 0 \<and> int total_runs mod interval = 0"

definition summarize_context :: "loop_ext \<Rightarrow> env \<Rightarrow> loop_ctx \<Rightarrow> db \<Rightarrow> (loop_ctx \<times> db) res" where
  "summarize_context x e c s =
    (if lc_summary_path c = None \<and>
        should_generate_summary (ab_total_runs (lc_budget c)) (summary_interval (lc_policy c))
     then res_bind (lx_summary x s (rn_cycle_id (lc_run c)) (rn_charter_id (lc_run c)) (lc_iteration c)) (\<lambda>path.
       Inr (c\<lparr>lc_summary_path := Some path\<rparr>,
            lc_emit e c ''autonomy.context_summarized''
              [(''iteration'', JInt (int (lc_iteration c))), (''path'', JStr path)] s))
     else Inr (c, s))"

text \<open>Steps 6 to 8.\<close>

definition decide_and_act :: "loop_ext \<Rightarrow> env \<Rightarrow> loop_ctx \<Rightarrow> db \<Rightarrow> (op_result \<times> db) option res" where
  "decide_and_act x e c0 s =
    res_bind (summarize_context x e c0 s) (\<lambda>(c, s1).
    res_bind (load_signal s1 (rn_id (lc_run c))) (\<lambda>sig.
    res_bind (load_frontier s1 (rn_charter_id (lc_run c)) (lc_card_id c)) (\<lambda>fr.
    res_bind (case load_card s1 (lc_card_id c) of
                None \<Rightarrow> Inr s1
              | Some crd \<Rightarrow>
                  res_bind (update_hypothesis_status e crd (map_option ds_signal sig) fr (rr_type (lc_rec c))
                              (lc_spec c) s1) (\<lambda>(crd', s2).
                    Inr (if hc_status crd' \<noteq> hc_status crd
                         then lc_emit e c ''autonomy.hypothesis_status_changed''
                                [(''card_id'', JUuid (hc_id crd)), (''from_status'', JStr (hc_status crd)),
                                 (''to_status'', JStr (hc_status crd'))] s2
                         else s2)))
      (act_on_recommendation x e c (map_option ds_signal sig) fr))))"

definition finish :: "db \<Rightarrow> string \<Rightarrow> (op_result \<times> db) option res \<Rightarrow> op_result res \<times> db" where
  "finish s msg r =
    (case r of Inl err \<Rightarrow> (Inl err, s) | Inr None \<Rightarrow> (Inr (op_fail msg), s) | Inr (Some (res, s')) \<Rightarrow> (Inr res, s'))"

text \<open>The context of an iteration: a resumed gate keeps its iteration number and summary.\<close>

definition iteration_ctx ::
  "uuid \<Rightarrow> run_record \<Rightarrow> run_recommendation \<Rightarrow> experiment_spec option \<Rightarrow> autonomy_policy \<Rightarrow> autonomy_budget
   \<Rightarrow> loop_decision option \<Rightarrow> nat \<Rightarrow> loop_ctx" where
  "iteration_ctx job_id run rec sp policy b existing_gate existing =
     \<lparr>lc_job_id = job_id, lc_run = run, lc_rec = rec, lc_spec = sp, lc_policy = policy, lc_budget = b,
      lc_iteration = (case existing_gate of None \<Rightarrow> existing + 1 | Some d \<Rightarrow> ld_iteration_number d),
      lc_card_id = map_option sp_card_id sp,
      lc_summary_path = (case existing_gate of None \<Rightarrow> None | Some d \<Rightarrow> ld_context_summary_path d)\<rparr>"

definition charge_budget :: "env \<Rightarrow> loop_ctx \<Rightarrow> db \<Rightarrow> loop_ctx \<times> db" where
  "charge_budget e c s =
    (case lc_card_id c of
       None \<Rightarrow> (c, s)
     | Some h \<Rightarrow>
        (case increment_budget e (lc_budget c) h s of (b, s1) \<Rightarrow>
          (c\<lparr>lc_budget := b\<rparr>,
           lc_emit e c ''autonomy.budget_updated''
             [(''run_record_id'', JUuid (rn_id (lc_run c))), (''total_runs'', JInt (int (ab_total_runs b))),
              (''wall_clock_elapsed_s'', JFloat (ab_wall_clock_elapsed_s b)),
              (''hypothesis_card_id'', JUuid h)] s1)))"

definition exceeded_limit :: "loop_ctx \<Rightarrow> budget_check_result" where
  "exceeded_limit c =
    (case check_budget (lc_policy c) (lc_budget c) of
       Some detail \<Rightarrow> Some detail
     | None \<Rightarrow> (case lc_card_id c of None \<Rightarrow> None
               | Some h \<Rightarrow> check_per_hypothesis_budget (lc_policy c) (lc_budget c) h))"

text \<open>Steps 4 and 5 of a run that was not paused before, then the rest.\<close>

definition fresh_iteration :: "loop_ext \<Rightarrow> env \<Rightarrow> loop_ctx \<Rightarrow> db \<Rightarrow> (op_result \<times> db) option res" where
  "fresh_iteration x e c s =
    (case exceeded_limit c of
       Some detail \<Rightarrow> Inr (Some (stop e c ''stop_budget'' detail s))
     | None \<Rightarrow>
        res_bind (checkpoint_gate c s) (\<lambda>gate.
          case gate of
            Some g \<Rightarrow> Inr (Some (pause_for_gate e c g s))
          | None \<Rightarrow> decide_and_act x e c s))"

definition gate_rows :: "db \<Rightarrow> uuid \<Rightarrow> loop_decision list" where
  "gate_rows s run_id = filter (\<lambda>d. ld_run_id d = run_id \<and> ld_decision d = ''stop_gate'') (decisions s)"

definition loop_iteration ::
  "loop_ext \<Rightarrow> env \<Rightarrow> uuid \<Rightarrow> run_record \<Rightarrow> run_recommendation \<Rightarrow> experiment_spec option \<Rightarrow> autonomy_policy \<Rightarrow> db
   \<Rightarrow> (op_result \<times> db) option res" where
  "loop_iteration x e job_id run rec sp policy s0 =
    res_bind (load_or_create_budget e (rn_cycle_id run) s0) (\<lambda>(b, s1).
    res_bind (scalar_one_or_none (gate_rows s1 (rn_id run))) (\<lambda>existing_gate.
      let existing = length (filter (\<lambda>d. ld_cycle_id d = rn_cycle_id run) (decisions s1));
          c = iteration_ctx job_id run rec sp policy b existing_gate existing
      in case existing_gate of
           Some d \<Rightarrow>
             decide_and_act x e c
               (lc_emit e c ''autonomy.gate_resumed''
                  [(''run_record_id'', JUuid (rn_id run)), (''iteration'', JInt (int (lc_iteration c)))] s1)
         | None \<Rightarrow> (case charge_budget e c s1 of (c1, s2) \<Rightarrow> fresh_iteration x e c1 s2)))"

definition loop_patterns ::
  "loop_ext \<Rightarrow> env \<Rightarrow> run_record \<Rightarrow> run_recommendation \<Rightarrow> experiment_spec option \<Rightarrow> cycle \<Rightarrow> db
   \<Rightarrow> (pattern_match list \<times> db) res" where
  "loop_patterns x e run rec sp cyc s =
    res_bind (from_cycle_config (lx_py x) (cy_config cyc)) (\<lambda>pol.
      inject_patterns e (rn_charter_id run) (Some (rn_cycle_id run)) [''signal_trajectory'', ''retrieval_heuristic''] pol
        (lx_embed_text x (join_with [CHR 10]
           [case sp of None \<Rightarrow> [] | Some p \<Rightarrow> sp_title p, case sp of None \<Rightarrow> [] | Some p \<Rightarrow> sp_description p,
            rr_type rec, rr_reasoning rec]))
        (Some ''loop_decide'') True s)"

definition loop_prepared :: "env \<Rightarrow> json \<Rightarrow> db \<Rightarrow> op_result res \<times> db" where
  "loop_prepared e raw s =
    (case UUID_of raw of
       Inl err \<Rightarrow> (Inl err, s)
     | Inr k \<Rightarrow>
        (case table_get rn_id (runs s) k of
           None \<Rightarrow> (Inr (op_fail ''prepared run record not found''), s)
         | Some r \<Rightarrow> (Inr (op_patch Cy_running),
                     snd (enqueue_next e (rn_cycle_id r) ''execution_setup'' (rn_id r) [] s))))"

definition loop_decide_operator :: "loop_ext \<Rightarrow> env \<Rightarrow> operator" where
  "loop_decide_operator x e i s =
    (if dget (oi_payload i) ''prepared_run_record_id'' \<noteq> JNull
     then loop_prepared e (dget (oi_payload i) ''prepared_run_record_id'') s
     else if dget (oi_payload i) ''recommendation_id'' = JNull \<or> dget (oi_payload i) ''run_record_id'' = JNull
     then (Inr (op_fail ''loop_decide payload missing recommendation_id or run_record_id''), s)
     else finish s ''no hypothesis session found for cycle''
      (res_bind (UUID_of (dget (oi_payload i) ''recommendation_id'')) (\<lambda>rec_id.
       res_bind (UUID_of (dget (oi_payload i) ''run_record_id'')) (\<lambda>run_id.
       res_bind (scalar_one_or_none (filter (\<lambda>r. rr_id r = rec_id) (recommendations s))) (\<lambda>orec.
         case orec of
           None \<Rightarrow> Inr (Some (op_fail ''recommendation not found'', s))
         | Some rec \<Rightarrow>
       res_bind (scalar_one_or_none (filter (\<lambda>r. rn_id r = run_id) (runs s))) (\<lambda>orun.
         case orun of
           None \<Rightarrow> Inr (Some (op_fail ''run record not found'', s))
         | Some run \<Rightarrow>
       res_bind (scalar_one_or_none (filter (\<lambda>p. sp_id p = rn_spec_id run) (specs s))) (\<lambda>sp.
         case table_get cy_id (cycles s) (rn_cycle_id run) of
           None \<Rightarrow> Inr (Some (op_fail ''cycle not found'', s))
         | Some cyc \<Rightarrow>
       res_bind (lx_model_validate x (dget_or (opt_dict (cy_config cyc)) ''autonomy'' (JObj []))) (\<lambda>policy.
       res_bind (loop_patterns x e run rec sp cyc s) (\<lambda>(_, s1).
         loop_iteration x e (oi_job_id i) run rec sp policy s1)))))))))"

section \<open>What every decision does\<close>

definition halting_decisions :: "string set" where
  "halting_decisions = {''stop_budget'', ''stop_halt'', ''stop_exhausted''}"

definition work_decisions :: "string set" where
  "work_decisions = {''continue_current'', ''vary_parameters'', ''pivot_hypothesis''}"

text \<open>
  The contract of one committed iteration: it records one decision about the run, and then either
  ends the loop with one report job, pauses its own job at a gate, or schedules one next job.
\<close>

definition loop_outcome :: "loop_ctx \<Rightarrow> db \<Rightarrow> op_result \<Rightarrow> db \<Rightarrow> bool" where
  "loop_outcome c s r s' \<longleftrightarrow>
    (\<exists>d. decisions s' = decisions s @ [d] \<and> ld_run_id d = rn_id (lc_run c) \<and>
       ld_cycle_id d = rn_cycle_id (lc_run c) \<and> ld_iteration_number d = lc_iteration c \<and> or_success r \<and>
       (ld_decision d \<in> halting_decisions \<and>
          or_state_patch r = [(''cycle_status'', JStr ''reporting'')] \<and>
          (\<exists>j. jobs s' = jobs s @ [j] \<and> j_type j = ''loop_report'' \<and> j_status j = Js_pending)
        \<or> ld_decision d = ''stop_gate'' \<and> ld_gate_triggered d \<noteq> None \<and> or_state_patch r = [] \<and>
          jobs s' = jobs (update_job (lc_job_id c) (\<lambda>j. j\<lparr>j_status := Js_paused\<rparr>) s)
        \<or> ld_decision d \<in> work_decisions \<and>
          or_state_patch r = [(''cycle_status'', JStr ''running'')] \<and>
          (\<exists>j. jobs s' = jobs s @ [j] \<and> j_type j \<in> {''execution_setup'', ''protocol_compile''} \<and>
             j_status j = Js_pending \<and> j_cycle_id j = Some (rn_cycle_id (lc_run c)))))"

lemma persist_decision_frame [simp]:
  "jobs (persist_decision e c d g n a s) = jobs s" "budgets (persist_decision e c d g n a s) = budgets s"
  "runs (persist_decision e c d g n a s) = runs s" "cards (persist_decision e c d g n a s) = cards s"
  "events (persist_decision e c d g n a s) = events s" "specs (persist_decision e c d g n a s) = specs s"
  by (simp_all add: persist_decision_def Let_def)

lemma persist_decision_decisions [simp]:
  "decisions (persist_decision e c d g n a s) = decisions s @ [decision_row e c d g n a (new_uuid e s)]"
  by (simp add: persist_decision_def)

lemma decision_row_simps [simp]:
  "ld_decision (decision_row e c d g n a i) = d" "ld_gate_triggered (decision_row e c d g n a i) = g"
  "ld_run_id (decision_row e c d g n a i) = rn_id (lc_run c)"
  "ld_cycle_id (decision_row e c d g n a i) = rn_cycle_id (lc_run c)"
  "ld_iteration_number (decision_row e c d g n a i) = lc_iteration c"
  by (simp_all add: decision_row_def Let_def)

lemma update_job_frame [simp]:
  "decisions (update_job k f s) = decisions s" "budgets (update_job k f s) = budgets s"
  "runs (update_job k f s) = runs s" "cards (update_job k f s) = cards s" "events (update_job k f s) = events s"
  by (simp_all add: update_job_def)

lemma OperatorResult_simps [simp]:
  "or_success OperatorResult" "or_state_patch OperatorResult = []" "or_error OperatorResult = None"
  by (simp_all add: OperatorResult_def)

lemma stop_outcome:
  assumes "d \<in> halting_decisions" and "stop e c d why s = (r, s')"
    and "decisions s = decisions s0" "jobs s = jobs s0"
  shows "loop_outcome c s0 r s' \<and> budgets s' = budgets s"
  using assms by (auto simp: stop_def loop_outcome_def Let_def create_job_jobs split: if_splits)

lemma pause_outcome:
  assumes "pause_for_gate e c g s = (r, s')" and "decisions s = decisions s0" "jobs s = jobs s0"
  shows "loop_outcome c s0 r s' \<and> budgets s' = budgets s \<and> ld_decision (last (decisions s')) = ''stop_gate''"
  using assms by (auto simp: pause_for_gate_def loop_outcome_def Let_def update_job_def)

text \<open>A work decision: one scheduled job, then the decision row, then an event.\<close>

lemma work_outcome:
  assumes "d \<in> work_decisions" "decisions s1 = decisions s0" "jobs s1 = jobs s0 @ [j]"
    "j_type j \<in> {''execution_setup'', ''protocol_compile''}" "j_status j = Js_pending"
    "j_cycle_id j = Some (rn_cycle_id (lc_run c))"
  shows "loop_outcome c s0 (op_patch Cy_running) (lc_emit e c ev pl (persist_decision e c d None n a s1))"
  using assms by (auto simp: loop_outcome_def)

lemma start_rerun_frame:
  assumes "start_rerun e c k s = (i, s1)"
  shows "decisions s1 = decisions s" "budgets s1 = budgets s" "cards s1 = cards s"
    "\<exists>j. jobs s1 = jobs s @ [j] \<and> j_type j = ''execution_setup'' \<and> j_status j = Js_pending \<and>
       j_cycle_id j = Some (rn_cycle_id (lc_run c)) \<and> j_payload j = Some [(''run_record_id'', JUuid i)]"
    "\<exists>r. runs s1 = runs s @ [r] \<and> rn_id r = i \<and> rn_spec_id r = k \<and> rn_status r = ''pending'' \<and>
       rn_run_number r = max_run_number s k + 1"
  using assms by (auto simp: start_rerun_def Let_def enqueue_next_snd create_job_jobs pending_run_def)

lemma continue_outcome:
  assumes "continue_current e c sp s = (r, s')" "decisions s = decisions s0" "jobs s = jobs s0"
  shows "loop_outcome c s0 r s' \<and> budgets s' = budgets s"
proof -
  obtain i s1 where s1: "start_rerun e c (sp_id sp) s = (i, s1)" by (cases "start_rerun e c (sp_id sp) s")
  note f = start_rerun_frame [OF s1]
  obtain j where j: "jobs s1 = jobs s0 @ [j]" "j_type j = ''execution_setup''" "j_status j = Js_pending"
    "j_cycle_id j = Some (rn_cycle_id (lc_run c))" using f(4) assms(3) by auto
  have r: "r = op_patch Cy_running" and s': "s' = lc_emit e c ''autonomy.loop_decision_made''
        [(''iteration'', JInt (int (lc_iteration c))), (''decision'', JStr ''continue_current''), (''next_run_id'', JUuid i)]
        (persist_decision e c ''continue_current'' None None (Some ''rerun_spec'') s1)"
    using assms(1) s1 by (auto simp: continue_current_def Let_def)
  have "loop_outcome c s0 r s'" unfolding r s'
    by (rule work_outcome [OF _ _ j(1)]) (use assms j f in \<open>auto simp: work_decisions_def\<close>)
  then show ?thesis using f by (simp add: s')
qed

lemma vary_outcome:
  assumes "vary_parameters x e c sp sg fr s = Some (r, s')" "decisions s = decisions s0" "jobs s = jobs s0"
  shows "loop_outcome c s0 r s' \<and> budgets s' = budgets s"
proof -
  obtain hs where hs: "cycle_session s (rn_cycle_id (lc_run c)) = Some hs"
    using assms(1) by (auto simp: vary_parameters_def split: option.splits)
  obtain pl ev where r: "r = op_patch Cy_running" and
    s': "s' = lc_emit e c ''autonomy.loop_decision_made'' ev (persist_decision e c ''vary_parameters'' None None
      (Some ''recompile_spec'') (snd (create_job e (Some (rn_cycle_id (lc_run c))) ''protocol_compile'' (Some pl) 10 s)))"
    using assms(1) hs by (auto simp: vary_parameters_def Let_def)
  have "loop_outcome c s0 r s'" unfolding r s'
    by (rule work_outcome) (use assms in \<open>auto simp: work_decisions_def create_job_jobs\<close>)
  then show ?thesis by (simp add: s')
qed

lemma deprioritize_frame [simp]:
  "decisions (deprioritize_current e c s) = decisions s" "jobs (deprioritize_current e c s) = jobs s"
  "budgets (deprioritize_current e c s) = budgets s" "specs (deprioritize_current e c s) = specs s"
  by (auto simp: deprioritize_current_def put_card_def split: option.splits)

lemma pivot_compile_outcome:
  assumes "pivot_compile e c nc s = (r, s')" "decisions s = decisions s0" "jobs s = jobs s0"
  shows "loop_outcome c s0 r s' \<and> budgets s' = budgets s"
proof (cases "cycle_session s (rn_cycle_id (lc_run c))")
  case None
  then show ?thesis
    using assms stop_outcome [of "''stop_exhausted''" e c _ s r s' s0]
    by (auto simp: pivot_compile_def halting_decisions_def)
next
  case (Some hs)
  obtain pl ev where r: "r = op_patch Cy_running" and
    s': "s' = lc_emit e c ''autonomy.loop_decision_made'' ev (persist_decision e c ''pivot_hypothesis'' None
      (Some (hc_id nc)) (Some ''compile_new_hypothesis'')
      (snd (create_job e (Some (rn_cycle_id (lc_run c))) ''protocol_compile'' (Some pl) 10 s)))"
    using assms(1) Some by (auto simp: pivot_compile_def Let_def)
  have "loop_outcome c s0 r s'" unfolding r s'
    by (rule work_outcome) (use assms in \<open>auto simp: work_decisions_def create_job_jobs\<close>)
  then show ?thesis by (simp add: s')
qed

lemma pivot_existing_outcome:
  assumes "pivot_existing x e c nc sp s = Inr (r, s')" "decisions s = decisions s0" "jobs s = jobs s0"
  shows "loop_outcome c s0 r s' \<and> budgets s' = budgets s"
proof -
  obtain gate where gate: "preview_gate x c sp = Inr gate"
    using assms(1) by (auto simp: pivot_existing_def res_bind_Inr_iff)
  show ?thesis
  proof (cases gate)
    case (Some g)
    then have "pause_for_gate e c g s = (r, s')" using assms(1) gate by (simp add: pivot_existing_def)
    from pause_outcome [OF this assms(2,3)] show ?thesis by blast
  next
    case None
    obtain i s1 where s1: "start_rerun e c (sp_id sp) s = (i, s1)" by (cases "start_rerun e c (sp_id sp) s")
    note f = start_rerun_frame [OF s1]
    obtain j where j: "jobs s1 = jobs s0 @ [j]" "j_type j = ''execution_setup''" "j_status j = Js_pending"
      "j_cycle_id j = Some (rn_cycle_id (lc_run c))" using f(4) assms(3) by auto
    obtain ev where r: "r = op_patch Cy_running" and s': "s' = lc_emit e c ''autonomy.loop_decision_made'' ev
        (persist_decision e c ''pivot_hypothesis'' None (Some (hc_id nc)) (Some ''rerun_spec'') s1)"
      using assms(1) gate None s1 by (auto simp: pivot_existing_def Let_def)
    have "loop_outcome c s0 r s'" unfolding r s'
      by (rule work_outcome [OF _ _ j(1)]) (use assms j f in \<open>auto simp: work_decisions_def\<close>)
    then show ?thesis using f by (simp add: s')
  qed
qed

lemma pivot_outcome:
  assumes "pivot_hypothesis x e c s = Inr (r, s')" "decisions s = decisions s0" "jobs s = jobs s0"
  shows "loop_outcome c s0 r s' \<and> budgets s' = budgets s"
proof (cases "next_viable_card (deprioritize_current e c s) (rn_cycle_id (lc_run c))")
  case None
  then have "stop e c ''stop_exhausted'' ''No remaining viable hypotheses for pivot.'' (deprioritize_current e c s) = (r, s')"
    using assms(1) by (simp add: pivot_hypothesis_def)
  from stop_outcome [OF _ this, of s0] show ?thesis using assms by (simp add: halting_decisions_def)
next
  case (Some nc)
  let ?s2 = "lc_emit e c ''autonomy.hypothesis_selected''
      [(''card_id'', JUuid (hc_id nc)), (''title'', JStr (hc_title nc)), (''reason'', JStr ''pivot'')]
      (deprioritize_current e c s)"
  have "(\<exists>sp. pivot_existing x e c nc sp ?s2 = Inr (r, s')) \<or> pivot_compile e c nc ?s2 = (r, s')"
    using assms(1) Some by (auto simp: pivot_hypothesis_def Let_def split: option.splits if_splits)
  then show ?thesis
    using pivot_existing_outcome [of x e c nc _ ?s2 r s' s0] pivot_compile_outcome [of e c nc ?s2 r s' s0] assms
    by auto
qed

lemma act_with_spec_outcome:
  assumes "act_with_spec x e c sp rt sg fr s = Inr (Some (r, s'))" "decisions s = decisions s0" "jobs s = jobs s0"
  shows "loop_outcome c s0 r s' \<and> budgets s' = budgets s"
proof -
  have "(\<exists>g. pause_for_gate e c g s = (r, s')) \<or> continue_current e c sp s = (r, s') \<or>
      pivot_hypothesis x e c s = Inr (r, s') \<or> vary_parameters x e c sp sg fr s = Some (r, s')"
    using assms(1) by (auto simp: act_with_spec_def res_bind_Inr_iff split: if_splits option.splits)
  then show ?thesis
    by (elim disjE exE)
       (simp_all only: pause_outcome [OF _ assms(2,3)] continue_outcome [OF _ assms(2,3)]
         pivot_outcome [OF _ assms(2,3)] vary_outcome [OF _ assms(2,3)] simp_thms)
qed

lemma act_outcome:
  assumes "act_on_recommendation x e c sg fr s = Inr (Some (r, s'))" "decisions s = decisions s0" "jobs s = jobs s0"
  shows "loop_outcome c s0 r s' \<and> budgets s' = budgets s"
proof (cases "rr_type (lc_rec c) = ''halt''")
  case True
  then have "stop e c ''stop_halt'' (rr_reasoning (lc_rec c)) s = (r, s')"
    using assms(1) by (simp add: act_on_recommendation_def)
  from stop_outcome [OF _ this assms(2,3)] show ?thesis by (simp add: halting_decisions_def)
next
  case nohalt: False
  show ?thesis
  proof (cases "lc_spec c")
    case None
    show ?thesis
    proof (cases "rr_type (lc_rec c) = ''hypothesis_pivot''")
      case True
      then have "pivot_hypothesis x e c s = Inr (r, s')"
        using assms(1) None by (auto simp: act_on_recommendation_def res_bind_Inr_iff)
      from pivot_outcome [OF this assms(2,3)] show ?thesis .
    next
      case False
      then have "stop e c ''stop_halt'' ''No viable spec or recommendation path.'' s = (r, s')"
        using assms(1) None nohalt by (simp add: act_on_recommendation_def)
      from stop_outcome [OF _ this assms(2,3)] show ?thesis by (simp add: halting_decisions_def)
    qed
  next
    case (Some sp)
    obtain rt s1 where "act_with_spec x e c sp rt sg fr s1 = Inr (Some (r, s'))"
      "decisions s1 = decisions s0" "jobs s1 = jobs s0" "budgets s1 = budgets s"
    proof (cases "rr_type (lc_rec c) = ''continue_current''")
      case True
      then obtain rep where "detect_repetition (lx_sha256 x) s (rn_cycle_id (lc_run c)) sp = Inr rep"
        using assms(1) Some nohalt by (auto simp: act_on_recommendation_def Let_def res_bind_Inr_iff)
      then show ?thesis
        using that assms Some True by (cases "is_duplicate rep") (simp_all add: act_on_recommendation_def)
    next
      case False
      then show ?thesis using that assms Some nohalt by (simp add: act_on_recommendation_def)
    qed
    then show ?thesis using act_with_spec_outcome by metis
  qed
qed

lemma loop_outcome_ctx [simp]:
  "loop_outcome (c\<lparr>lc_summary_path := p\<rparr>) = loop_outcome c" "loop_outcome (c\<lparr>lc_budget := b\<rparr>) = loop_outcome c"
  by (intro ext; simp add: loop_outcome_def)+

lemma put_card_frame [simp]:
  "decisions (put_card c s) = decisions s" "jobs (put_card c s) = jobs s" "budgets (put_card c s) = budgets s"
  by (simp_all add: put_card_def)

lemma decide_outcome:
  assumes "decide_and_act x e c s = Inr (Some (r, s'))" "decisions s = decisions s0" "jobs s = jobs s0"
  shows "loop_outcome c s0 r s' \<and> budgets s' = budgets s"
proof -
  from assms(1) obtain c1 s1 where sm: "summarize_context x e c s = Inr (c1, s1)"
    by (auto simp: decide_and_act_def res_bind_Inr_iff)
  then have c1: "loop_outcome c1 = loop_outcome c" "decisions s1 = decisions s" "jobs s1 = jobs s" "budgets s1 = budgets s"
    by (auto simp: summarize_context_def res_bind_Inr_iff split: if_splits)
  from assms(1) sm obtain sg fr s2 where act: "act_on_recommendation x e c1 sg fr s2 = Inr (Some (r, s'))"
    and s2: "decisions s2 = decisions s1" "jobs s2 = jobs s1" "budgets s2 = budgets s1"
    by (auto simp: decide_and_act_def res_bind_Inr_iff split: option.splits dest!: update_hypothesis_status_Inr)
  show ?thesis using act_outcome [OF act, of s0] c1 s2 assms(2,3) by simp
qed

section \<open>The iteration\<close>

lemma load_or_create_budget_Inr:
  assumes "load_or_create_budget e k s = Inr (b, s1)"
  shows "decisions s1 = decisions s \<and> jobs s1 = jobs s \<and> b \<in> set (budgets s1) \<and> ab_cycle_id b = k \<and>
    filter (\<lambda>r. ab_cycle_id r = k) (budgets s1) = [b] \<and>
    (b \<in> set (budgets s) \<and> s1 = s \<or> ab_total_runs b = 0 \<and> filter (\<lambda>r. ab_cycle_id r = k) (budgets s) = [])"
proof (cases "scalar_one_or_none (filter (\<lambda>b. ab_cycle_id b = k) (budgets s))")
  case (Inl x)
  then show ?thesis using assms by (simp add: load_or_create_budget_def)
next
  case (Inr ob)
  show ?thesis
  proof (cases ob)
    case None
    then have "filter (\<lambda>b. ab_cycle_id b = k) (budgets s) = []" using Inr by simp
    then show ?thesis using assms Inr None by (auto simp: load_or_create_budget_def Let_def)
  next
    case (Some b')
    then have one: "filter (\<lambda>b. ab_cycle_id b = k) (budgets s) = [b']" using Inr by (simp add: scalar_one_or_none_Some_iff)
    then have "b' \<in> set (filter (\<lambda>b. ab_cycle_id b = k) (budgets s))" by simp
    then have mem: "b' \<in> set (budgets s)" "ab_cycle_id b' = k" by simp_all
    have "b = b'" "s1 = s" using assms Inr Some by (simp_all add: load_or_create_budget_def)
    then show ?thesis using mem one by simp
  qed
qed

lemma charge_budget_frame:
  assumes "charge_budget e c s = (c1, s1)"
  shows "decisions s1 = decisions s" "jobs s1 = jobs s" "loop_outcome c1 = loop_outcome c"
    "lc_run c1 = lc_run c" "lc_policy c1 = lc_policy c" "lc_card_id c1 = lc_card_id c" "lc_job_id c1 = lc_job_id c"
    "lc_iteration c1 = lc_iteration c"
    "lc_budget c1 = (case lc_card_id c of None \<Rightarrow> lc_budget c | Some h \<Rightarrow> incremented e h (lc_budget c))"
    "budgets s1 = (case lc_card_id c of None \<Rightarrow> budgets s
       | Some h \<Rightarrow> update_where (\<lambda>r. ab_id r = ab_id (lc_budget c)) (\<lambda>_. lc_budget c1) (budgets s))"
  using assms by (auto simp: charge_budget_def increment_budget_def Let_def split: option.splits)

lemma fresh_outcome:
  assumes "fresh_iteration x e c s = Inr (Some (r, s'))" "decisions s = decisions s0" "jobs s = jobs s0"
  shows "loop_outcome c s0 r s' \<and> budgets s' = budgets s"
proof (cases "exceeded_limit c")
  case (Some why)
  then have "stop e c ''stop_budget'' why s = (r, s')" using assms(1) by (simp add: fresh_iteration_def)
  from stop_outcome [OF _ this assms(2,3)] show ?thesis by (simp add: halting_decisions_def)
next
  case None
  then obtain gate where gate: "checkpoint_gate c s = Inr gate"
    using assms(1) by (auto simp: fresh_iteration_def res_bind_Inr_iff)
  show ?thesis
  proof (cases gate)
    case (Some g)
    then have "pause_for_gate e c g s = (r, s')" using assms(1) None gate by (simp add: fresh_iteration_def)
    from pause_outcome [OF this assms(2,3)] show ?thesis by blast
  next
    case ng: None
    then have "decide_and_act x e c s = Inr (Some (r, s'))" using assms(1) None gate by (simp add: fresh_iteration_def)
    from decide_outcome [OF this assms(2,3)] show ?thesis .
  qed
qed

text \<open>The two ways into an iteration, with everything a client needs to know of its context.\<close>

lemma loop_iteration_cases:
  assumes "loop_iteration x e jid run rec sp pol s = Inr (Some (r, s'))"
  obtains (resumed) b s1 d s2 where "load_or_create_budget e (rn_cycle_id run) s = Inr (b, s1)"
      "gate_rows s (rn_id run) = [d]"
      "decide_and_act x e (iteration_ctx jid run rec sp pol b (Some d) 0) s2 = Inr (Some (r, s'))"
      "decisions s2 = decisions s1" "jobs s2 = jobs s1" "budgets s2 = budgets s1" "cycles s2 = cycles s1"
  | (fresh) b s1 n c1 s2 where "load_or_create_budget e (rn_cycle_id run) s = Inr (b, s1)"
      "gate_rows s (rn_id run) = []"
      "n = length (filter (\<lambda>d. ld_cycle_id d = rn_cycle_id run) (decisions s))"
      "charge_budget e (iteration_ctx jid run rec sp pol b None n) s1 = (c1, s2)"
      "fresh_iteration x e c1 s2 = Inr (Some (r, s'))"
proof -
  obtain b s1 where b: "load_or_create_budget e (rn_cycle_id run) s = Inr (b, s1)"
    using assms by (auto simp: loop_iteration_def res_bind_Inr_iff)
  have d1: "decisions s1 = decisions s" using load_or_create_budget_Inr [OF b] by simp
  then have g1: "gate_rows s1 = gate_rows s" by (simp add: gate_rows_def fun_eq_iff)
  show ?thesis
  proof (cases "scalar_one_or_none (gate_rows s (rn_id run))")
    case (Inl err)
    then show ?thesis using assms b g1 by (simp add: loop_iteration_def)
  next
    case (Inr eg)
    show ?thesis
    proof (cases eg)
      case (Some d)
      let ?c = "iteration_ctx jid run rec sp pol b (Some d) 0"
      have same: "iteration_ctx jid run rec sp pol b (Some d)
          (length (filter (\<lambda>d. ld_cycle_id d = rn_cycle_id run) (decisions s1))) = ?c" by (simp add: iteration_ctx_def)
      have g: "gate_rows s (rn_id run) = [d]" using Inr Some by (simp add: scalar_one_or_none_Some_iff)
      have "decide_and_act x e ?c (lc_emit e ?c ''autonomy.gate_resumed''
          [(''run_record_id'', JUuid (rn_id run)), (''iteration'', JInt (int (lc_iteration ?c)))] s1) = Inr (Some (r, s'))"
        using assms b g1 Inr Some by (simp add: loop_iteration_def same Let_def)
      then show ?thesis by (rule resumed [OF b g]) simp_all
    next
      case None
      have g: "gate_rows s (rn_id run) = []" using Inr None by simp
      let ?n = "length (filter (\<lambda>d. ld_cycle_id d = rn_cycle_id run) (decisions s))"
      obtain c1 s2 where c: "charge_budget e (iteration_ctx jid run rec sp pol b None ?n) s1 = (c1, s2)"
        by (cases "charge_budget e (iteration_ctx jid run rec sp pol b None ?n) s1")
      have "fresh_iteration x e c1 s2 = Inr (Some (r, s'))"
        using assms b g1 Inr None c d1 by (simp add: loop_iteration_def Let_def)
      then show ?thesis by (rule fresh [OF b g refl c])
    qed
  qed
qed

lemma iteration_ctx_simps [simp]:
  "lc_run (iteration_ctx jid run rec sp pol b eg n) = run"
  "lc_job_id (iteration_ctx jid run rec sp pol b eg n) = jid"
  "lc_policy (iteration_ctx jid run rec sp pol b eg n) = pol"
  "lc_budget (iteration_ctx jid run rec sp pol b eg n) = b"
  "lc_card_id (iteration_ctx jid run rec sp pol b eg n) = map_option sp_card_id sp"
  by (simp_all add: iteration_ctx_def)

lemma iteration_outcome:
  assumes "loop_iteration x e jid run rec sp pol s = Inr (Some (r, s'))"
  shows "\<exists>c. lc_run c = run \<and> lc_job_id c = jid \<and> loop_outcome c s r s'"
  using assms
proof (cases rule: loop_iteration_cases)
  case (resumed b s1 d s2)
  have "decisions s2 = decisions s" "jobs s2 = jobs s"
    using resumed load_or_create_budget_Inr [OF resumed(1)] by simp_all
  from decide_outcome [OF resumed(3) this] show ?thesis
    by (intro exI [of _ "iteration_ctx jid run rec sp pol b (Some d) 0"]) simp
next
  case (fresh b s1 n c1 s2)
  note f = charge_budget_frame [OF fresh(4)]
  have "decisions s2 = decisions s" "jobs s2 = jobs s"
    using f load_or_create_budget_Inr [OF fresh(1)] by simp_all
  from fresh_outcome [OF fresh(5) this] show ?thesis using f by (intro exI [of _ c1]) simp
qed

lemma fold_emit_applied_frame [simp]:
  "decisions (fold (emit_applied e ch k op) ms s) = decisions s" "jobs (fold (emit_applied e ch k op) ms s) = jobs s"
  "budgets (fold (emit_applied e ch k op) ms s) = budgets s" "cycles (fold (emit_applied e ch k op) ms s) = cycles s"
  by (induction ms arbitrary: s) (simp_all add: emit_applied_def)

lemma loop_patterns_frame:
  assumes "loop_patterns x e run rec sp cyc s = Inr (ms, s1)"
  shows "decisions s1 = decisions s" "jobs s1 = jobs s" "budgets s1 = budgets s" "cycles s1 = cycles s"
  using assms by (auto simp: loop_patterns_def inject_patterns_def res_bind_Inr_iff Let_def)

lemma loop_outcome_cong:
  "decisions s1 = decisions s \<Longrightarrow> jobs s1 = jobs s \<Longrightarrow> loop_outcome c s1 r s' = loop_outcome c s r s'"
  by (simp add: loop_outcome_def update_job_def)

lemma loop_outcome_decision:
  assumes "loop_outcome c s r s'"
  shows "\<exists>d. decisions s' = decisions s @ [d] \<and>
    ld_decision d \<in> halting_decisions \<union> work_decisions \<union> {''stop_gate''}"
  using assms unfolding loop_outcome_def by blast

lemma operator_iteration:
  assumes op: "loop_decide_operator x e i s = (Inr r, s')" and ok: "or_success r"
    and np: "dget (oi_payload i) ''prepared_run_record_id'' = JNull"
  obtains run rec sp pol s1 where "run \<in> set (runs s)" "decisions s1 = decisions s" "jobs s1 = jobs s"
    "budgets s1 = budgets s" "cycles s1 = cycles s"
    "loop_iteration x e (oi_job_id i) run rec sp pol s1 = Inr (Some (r, s'))"
proof -
  let ?p = "oi_payload i"
  have ids: "dget ?p ''recommendation_id'' \<noteq> JNull" "dget ?p ''run_record_id'' \<noteq> JNull"
    using op ok np by (auto simp: loop_decide_operator_def split: if_splits)
  obtain rec_id where rec_id: "UUID_of (dget ?p ''recommendation_id'') = Inr rec_id"
    using op np ids by (cases "UUID_of (dget ?p ''recommendation_id'')") (auto simp: loop_decide_operator_def finish_def)
  obtain run_id where run_id: "UUID_of (dget ?p ''run_record_id'') = Inr run_id"
    using op np ids rec_id by (cases "UUID_of (dget ?p ''run_record_id'')") (auto simp: loop_decide_operator_def finish_def)
  obtain rec where rec: "scalar_one_or_none (filter (\<lambda>r. rr_id r = rec_id) (recommendations s)) = Inr (Some rec)"
    using op ok np ids rec_id run_id
    by (cases "scalar_one_or_none (filter (\<lambda>r. rr_id r = rec_id) (recommendations s))")
       (auto simp: loop_decide_operator_def finish_def split: option.splits)
  obtain run where run: "scalar_one_or_none (filter (\<lambda>r. rn_id r = run_id) (runs s)) = Inr (Some run)"
    using op ok np ids rec_id run_id rec
    by (cases "scalar_one_or_none (filter (\<lambda>r. rn_id r = run_id) (runs s))")
       (auto simp: loop_decide_operator_def finish_def split: option.splits)
  obtain sp where sp: "scalar_one_or_none (filter (\<lambda>p. sp_id p = rn_spec_id run) (specs s)) = Inr sp"
    using op ok np ids rec_id run_id rec run
    by (cases "scalar_one_or_none (filter (\<lambda>p. sp_id p = rn_spec_id run) (specs s))")
       (auto simp: loop_decide_operator_def finish_def)
  obtain cyc where cyc: "table_get cy_id (cycles s) (rn_cycle_id run) = Some cyc"
    using op ok np ids rec_id run_id rec run sp
    by (cases "table_get cy_id (cycles s) (rn_cycle_id run)") (auto simp: loop_decide_operator_def finish_def)
  obtain pol where pol: "lx_model_validate x (dget_or (opt_dict (cy_config cyc)) ''autonomy'' (JObj [])) = Inr pol"
    using op np ids rec_id run_id rec run sp cyc
    by (cases "lx_model_validate x (dget_or (opt_dict (cy_config cyc)) ''autonomy'' (JObj []))")
       (auto simp: loop_decide_operator_def finish_def)
  obtain ms s1 where lp: "loop_patterns x e run rec sp cyc s = Inr (ms, s1)"
    using op np ids rec_id run_id rec run sp cyc pol
    by (cases "loop_patterns x e run rec sp cyc s") (auto simp: loop_decide_operator_def finish_def)
  have "loop_iteration x e (oi_job_id i) run rec sp pol s1 = Inr (Some (r, s'))"
    using op ok np ids rec_id run_id rec run sp cyc pol lp
    by (auto simp: loop_decide_operator_def finish_def split: sum.splits option.splits)
  moreover have "run \<in> set (filter (\<lambda>r. rn_id r = run_id) (runs s))"
    using run by (simp add: scalar_one_or_none_Some_iff)
  ultimately show ?thesis using that [of run s1 rec sp pol] loop_patterns_frame [OF lp] by simp
qed

lemma finish_unchanged:
  assumes "finish s msg m = (q, s')" and "\<And>r s2. m = Inr (Some (r, s2)) \<Longrightarrow> or_success r \<or> s2 = s"
    and "\<And>r. q = Inr r \<Longrightarrow> \<not> or_success r"
  shows "s' = s"
  using assms by (auto simp: finish_def split: sum.splits option.splits prod.splits)

lemma iteration_success:
  "loop_iteration x e jid run rec sp pol s = Inr (Some (r, s')) \<Longrightarrow> or_success r"
  using iteration_outcome by (fastforce simp: loop_outcome_def)

lemma operator_failure_unchanged:
  assumes "loop_decide_operator x e i s = (q, s')" and "\<And>r. q = Inr r \<Longrightarrow> \<not> or_success r"
  shows "s' = s"
proof (cases "dget (oi_payload i) ''prepared_run_record_id'' \<noteq> JNull")
  case True
  then show ?thesis
    using assms by (auto simp: loop_decide_operator_def loop_prepared_def split: sum.splits option.splits)
next
  case False
  note np = this
  show ?thesis
  proof (cases "dget (oi_payload i) ''recommendation_id'' = JNull \<or> dget (oi_payload i) ''run_record_id'' = JNull")
    case True
    then show ?thesis using assms np by (simp add: loop_decide_operator_def)
  next
    case False
    show ?thesis
      by (rule finish_unchanged [OF assms(1) [unfolded loop_decide_operator_def if_not_P [OF np] if_not_P [OF False]]])
         (use assms(2) in \<open>auto simp: res_bind_Inr_iff split: option.splits dest: iteration_success\<close>)
  qed
qed

section \<open>Properties\<close>

text \<open>
  C1: One committed loop decision schedules exactly one continuation: a successful run of the
  operator (other than the start of a prepared run) records exactly one decision row for its run
  and then ends the loop with one pending report job and the cycle in \<open>reporting\<close>, or pauses its
  own job at a named gate, or leaves one pending execution or compile job and the cycle in
  \<open>running\<close>; every failure or exception leaves the store as it was.
\<close>

theorem loop_decide_one_decision:
  assumes "loop_decide_operator x e i s = (q, s')" and "dget (oi_payload i) ''prepared_run_record_id'' = JNull"
  shows "case q of
      Inr r \<Rightarrow> (if or_success r then \<exists>c. lc_job_id c = oi_job_id i \<and> lc_run c \<in> set (runs s) \<and> loop_outcome c s r s'
                else s' = s)
    | Inl err \<Rightarrow> s' = s"
proof (cases "\<exists>r. q = Inr r \<and> or_success r")
  case True
  then obtain r where r: "q = Inr r" "or_success r" by blast
  obtain run rec sp pol s1 where it: "run \<in> set (runs s)" "decisions s1 = decisions s" "jobs s1 = jobs s"
    "loop_iteration x e (oi_job_id i) run rec sp pol s1 = Inr (Some (r, s'))"
    using assms(1) [unfolded r(1)] r(2) assms(2) by (rule operator_iteration)
  from iteration_outcome [OF it(4)] obtain c where "lc_run c = run" "lc_job_id c = oi_job_id i" "loop_outcome c s1 r s'"
    by blast
  then show ?thesis using r it by (auto simp: loop_outcome_cong [OF it(2,3)])
next
  case False
  then have "s' = s" using operator_failure_unchanged [OF assms(1)] by blast
  then show ?thesis using False by (auto split: sum.splits)
qed

text \<open>
  C4: A run is charged to the budget exactly once: the first iteration about it adds one run to
  the cycle's budget under the spec's hypothesis, and the iteration that resumes it after a gate
  adds none.
\<close>

theorem run_charged_once:
  assumes it: "loop_iteration x e jid run rec sp pol s = Inr (Some (r, s'))"
    and one: "filter (\<lambda>b. ab_cycle_id b = rn_cycle_id run) (budgets s) = [b]"
    and ids: "distinct (map ab_id (budgets s))"
  shows "filter (\<lambda>b. ab_cycle_id b = rn_cycle_id run) (budgets s') =
    [if gate_rows s (rn_id run) = [] then (case sp of None \<Rightarrow> b | Some p \<Rightarrow> incremented e (sp_card_id p) b) else b]"
  using it
proof (cases rule: loop_iteration_cases)
  case (resumed b' s1 d s2)
  have "s1 = s" using load_or_create_budget_Inr [OF resumed(1)] one by auto
  then show ?thesis using decide_outcome [OF resumed(3) refl refl] resumed one by simp
next
  case (fresh b' s1 n c1 s2)
  have b': "s1 = s" "b' = b" using load_or_create_budget_Inr [OF fresh(1)] one by auto
  note f = charge_budget_frame [OF fresh(4)]
  have "budgets s' = budgets s2" using fresh_outcome [OF fresh(5) refl refl] by blast
  moreover have "filter (\<lambda>b. ab_cycle_id b = rn_cycle_id run) (budgets s2) =
      [case sp of None \<Rightarrow> b | Some p \<Rightarrow> incremented e (sp_card_id p) b]"
  proof (cases sp)
    case (Some p)
    have "b \<in> set (filter (\<lambda>b. ab_cycle_id b = rn_cycle_id run) (budgets s))" unfolding one by simp
    then have "table_get ab_id (budgets s) (ab_id b) = Some b" using ids by (simp add: table_get_unique)
    moreover have "filter (\<lambda>x. ab_cycle_id x = k) (update_where (\<lambda>r. ab_id r = ab_id b) (\<lambda>_. incremented e h b) bs) =
        map (\<lambda>x. if ab_id x = ab_id b then incremented e h b else x) (filter (\<lambda>x. ab_cycle_id x = k) bs)"
      if "\<forall>x\<in>set bs. ab_id x = ab_id b \<longrightarrow> x = b" for bs k h
      using that by (induction bs) auto
    moreover have "\<forall>x\<in>set (budgets s). ab_id x = ab_id b \<longrightarrow> x = b"
      using ids calculation(1) by (metis option.inject table_get_unique)
    ultimately show ?thesis using f(9,10) Some one b' by simp
  qed (use f(10) one b' in simp)
  ultimately show ?thesis using fresh(2) by simp
qed

text \<open>
  C5: The run budget is enforced: when the run being charged reaches \<open>max_total_runs\<close> (or its
  hypothesis reaches \<open>max_runs_per_hypothesis\<close>), the iteration decides \<open>stop_budget\<close>, so no further
  run is scheduled.
\<close>

theorem budget_limit_stops:
  assumes it: "loop_iteration x e jid run rec (Some p) pol s = Inr (Some (r, s'))"
    and one: "filter (\<lambda>b. ab_cycle_id b = rn_cycle_id run) (budgets s) = [b]"
    and new: "gate_rows s (rn_id run) = []"
    and limit: "(\<exists>m. max_total_runs pol = Some m \<and> m \<le> int (ab_total_runs b) + 1) \<or>
      (\<exists>m. max_runs_per_hypothesis pol = Some m \<and> m \<le> int (rph_get (ab_runs_per_hypothesis b) (sp_card_id p)) + 1)"
  shows "ld_decision (last (decisions s')) = ''stop_budget'' \<and>
    or_state_patch r = [(''cycle_status'', JStr ''reporting'')]"
  using it
proof (cases rule: loop_iteration_cases)
  case (resumed b' s1 d s2)
  then show ?thesis using new by simp
next
  case (fresh b' s1 n c1 s2)
  have "b' = b" using load_or_create_budget_Inr [OF fresh(1)] one by auto
  then have c1: "lc_budget c1 = incremented e (sp_card_id p) b" "lc_policy c1 = pol" "lc_card_id c1 = Some (sp_card_id p)"
    using charge_budget_frame [OF fresh(4)] by simp_all
  have "exceeded_limit c1 \<noteq> None"
    using limit by (auto simp: exceeded_limit_def c1 check_budget_def check_per_hypothesis_budget_def
        rph_get_incremented split: option.splits)
  then obtain why where "stop e c1 ''stop_budget'' why s2 = (r, s')"
    using fresh(5) by (auto simp: fresh_iteration_def)
  then show ?thesis by (auto simp: stop_def Let_def)
qed

text \<open>
  C24: A second pause of the same run wedges it: once an iteration that resumes from a gate pauses
  at a gate again, every later iteration about this run raises MultipleResultsFound, whatever the
  policy, spec or recommendation then are.
\<close>

theorem second_gate_pause_wedges:
  assumes it: "loop_iteration x e jid run rec sp pol s = Inr (Some (r, s'))"
    and resumed: "gate_rows s (rn_id run) \<noteq> []"
    and again: "ld_decision (last (decisions s')) = ''stop_gate''"
  shows "loop_iteration x' e' jid' run rec' sp' pol' s' = Inl MultipleResultsFound"
  using it
proof (cases rule: loop_iteration_cases)
  case (fresh b s1 n c1 s2)
  then show ?thesis using resumed by simp
next
  case (resumed b s1 d s2)
  note lb = load_or_create_budget_Inr [OF resumed(1)]
  have bs: "budgets s' = budgets s1" using decide_outcome [OF resumed(3) refl refl] resumed(6) by simp
  obtain b' where budget: "load_or_create_budget e' (rn_cycle_id run) s' = Inr (b', s')"
    using lb bs by (simp add: load_or_create_budget_def)
  from iteration_outcome [OF it] obtain d' where d': "decisions s' = decisions s @ [d']" "ld_run_id d' = rn_id run"
    by (auto simp: loop_outcome_def)
  then have "gate_rows s' (rn_id run) = [d, d']"
    using resumed(2) again by (simp add: gate_rows_def)
  then show ?thesis using budget by (simp add: loop_iteration_def)
qed

text \<open>
  No decision of the loop is ever mined as a retrieval heuristic: the names the operator
  writes are disjoint from the two names the consolidation looks for.
\<close>

theorem loop_decisions_never_mined:
  assumes "loop_decide_operator x e i s = (Inr r, s')" and "or_success r"
    and "dget (oi_payload i) ''prepared_run_record_id'' = JNull"
  shows "\<exists>d. decisions s' = decisions s @ [d] \<and> extract_retrieval_heuristic_from_loop py sha d = None"
proof -
  obtain run rec sp pol s1 where ds: "decisions s1 = decisions s"
    and it: "loop_iteration x e (oi_job_id i) run rec sp pol s1 = Inr (Some (r, s'))"
    using assms by (rule operator_iteration)
  from iteration_outcome [OF it] obtain c where "loop_outcome c s1 r s'" by blast
  from loop_outcome_decision [OF this] obtain d where "decisions s' = decisions s @ [d]"
    and d: "ld_decision d \<in> halting_decisions \<union> work_decisions \<union> {''stop_gate''}" using ds by auto
  moreover have "ld_decision d \<notin> {''parameter_variation'', ''hypothesis_pivot''}"
    using d by (auto simp: halting_decisions_def work_decisions_def)
  ultimately show ?thesis by (auto simp: extract_retrieval_heuristic_from_loop_def)
qed

section \<open>A worked example\<close>

definition demo_run :: run_record where
  "demo_run = pending_run demo_env 20 1 3 4 None 1"

definition demo_rec :: run_recommendation where
  "demo_rec = \<lparr>rr_id = 30, rr_run_id = 20, rr_charter_id = 3, rr_cycle_id = 4, rr_spec_id = 1,
     rr_type = ''continue_current'', rr_action = [], rr_reasoning = [], rr_inputs_summary = JNull, rr_created_at = 0\<rparr>"

definition demo_net_spec :: experiment_spec where
  "demo_net_spec = demo_spec\<lparr>sp_code_plan := JObj [(''requires_network'', JBool True)]\<rparr>"

definition demo_ext :: "autonomy_policy \<Rightarrow> loop_ext" where
  "demo_ext pol = \<lparr>lx_py = demo_py, lx_model_validate = (\<lambda>_. Inr pol), lx_embed_text = (\<lambda>_. None),
     lx_sha256 = (\<lambda>_. []), lx_summary = (\<lambda>_ _ _ _. Inr ''summary.json''), lx_read_summary = (\<lambda>_. None)\<rparr>"

definition demo_cycle :: cycle where
  "demo_cycle = \<lparr>cy_id = 4, cy_charter_id = 3, cy_status = Cy_loop_deciding, cy_config = None,
     cy_created_at = 0, cy_updated_at = 0, cy_started_at = Some 0, cy_completed_at = None\<rparr>"

definition demo_world :: db where
  "demo_world = empty_db\<lparr>cycles := [demo_cycle], specs := [demo_net_spec], runs := [demo_run],
     recommendations := [demo_rec], budgets := [demo_budget]\<rparr>"

definition demo_loop_input :: op_input where
  "demo_loop_input = \<lparr>oi_cycle_id = 4, oi_charter_id = 3, oi_job_id = 9, oi_job_type = ''loop_decide'',
     oi_payload = [(''recommendation_id'', JUuid 30), (''run_record_id'', JUuid 20)]\<rparr>"

definition net_policy :: autonomy_policy where
  "net_policy = AutonomyPolicy\<lparr>checkpoint_gates := CheckpointGateConfig\<lparr>before_network_execution := True\<rparr>\<rparr>"

lemmas demo_loop_defs = demo_world_def demo_run_def demo_rec_def demo_net_spec_def demo_ext_def demo_cycle_def
  demo_loop_input_def net_policy_def demo_spec_def demo_budget_def demo_py_def demo_env_def empty_db_def
  AutonomyPolicy_def CheckpointGateConfig_def pending_run_def

lemma demo_preview_gate:
  "lc_policy c = net_policy \<Longrightarrow> lc_spec c = Some demo_net_spec \<Longrightarrow>
   preview_gate (demo_ext pol) c demo_net_spec = Inr (Some ''before_network_execution'')"
  by (simp add: preview_gate_def preview_next_spec_def detect_network_access_def or_dict_def evaluate_gates_def
      demo_net_spec_def demo_spec_def net_policy_def AutonomyPolicy_def CheckpointGateConfig_def Let_def)

lemma demo_decides:
  assumes "lc_policy c = net_policy" "lc_spec c = Some demo_net_spec" "lc_rec c = demo_rec"
    "ab_total_runs (lc_budget c) = 1" "cards s = []" "signals s = []" "frontiers s = []" "specs s = [demo_net_spec]"
  shows "decide_and_act (demo_ext pol) e c s = Inr (Some (pause_for_gate e c ''before_network_execution'' s))"
proof -
  have "\<not> should_generate_summary 1 (summary_interval net_policy)"
    by (simp add: should_generate_summary_def net_policy_def AutonomyPolicy_def)
  then have "summarize_context (demo_ext pol) e c s = Inr (c, s)"
    using assms by (simp add: summarize_context_def)
  moreover have "detect_repetition h s k demo_net_spec =
      Inr \<lparr>is_duplicate = False, is_near_duplicate = False, prior_spec_id = None, match_type = None\<rparr>" for h k
    using assms by (simp add: detect_repetition_def prior_specs_def)
  ultimately show ?thesis
    using assms
    by (simp add: decide_and_act_def load_signal_def load_frontier_def load_card_def act_on_recommendation_def
        act_with_spec_def demo_preview_gate demo_rec_def split: option.splits)
qed

abbreviation demo_iteration :: "db \<Rightarrow> (op_result \<times> db) option res" where
  "demo_iteration s \<equiv> loop_iteration (demo_ext net_policy) demo_env 9 demo_run demo_rec (Some demo_net_spec) net_policy s"

definition demo_charged :: db where
  "demo_charged = snd (charge_budget demo_env (iteration_ctx 9 demo_run demo_rec (Some demo_net_spec) net_policy demo_budget None 0) demo_world)"

definition demo_ctx :: loop_ctx where
  "demo_ctx = fst (charge_budget demo_env (iteration_ctx 9 demo_run demo_rec (Some demo_net_spec) net_policy demo_budget None 0) demo_world)"

definition demo_paused :: db where
  "demo_paused = snd (pause_for_gate demo_env demo_ctx ''before_network_execution'' demo_charged)"

lemma demo_ctx_facts:
  "lc_policy demo_ctx = net_policy" "lc_spec demo_ctx = Some demo_net_spec" "lc_rec demo_ctx = demo_rec"
  "ab_total_runs (lc_budget demo_ctx) = 1" "lc_run demo_ctx = demo_run" "ab_cycle_id (lc_budget demo_ctx) = 4"
  "lc_card_id demo_ctx = Some 7" "cards demo_charged = []" "signals demo_charged = []" "frontiers demo_charged = []"
  "specs demo_charged = [demo_net_spec]" "decisions demo_charged = []" "budgets demo_charged = [lc_budget demo_ctx]"
  by (simp_all add: demo_ctx_def demo_charged_def charge_budget_def iteration_ctx_def increment_budget_def
      incremented_def Let_def demo_world_def demo_budget_def demo_net_spec_def demo_spec_def empty_db_def)

lemma demo_first: "demo_iteration demo_world = Inr (Some (OperatorResult, demo_paused))"
proof -
  have load: "load_or_create_budget demo_env 4 demo_world = Inr (demo_budget, demo_world)"
    by (simp add: load_or_create_budget_def demo_world_def demo_budget_def)
  have "exceeded_limit demo_ctx = None"
    by (simp add: exceeded_limit_def demo_ctx_facts check_budget_def check_per_hypothesis_budget_def net_policy_def
        AutonomyPolicy_def)
  moreover have "checkpoint_gate demo_ctx demo_charged = Inr None"
    by (simp add: checkpoint_gate_def demo_ctx_facts load_signal_def load_frontier_def load_card_def evaluate_gates_def
        net_policy_def AutonomyPolicy_def CheckpointGateConfig_def Let_def)
  ultimately have "fresh_iteration (demo_ext net_policy) demo_env demo_ctx demo_charged =
      Inr (Some (OperatorResult, demo_paused))"
    by (simp add: fresh_iteration_def demo_decides demo_ctx_facts demo_paused_def)
       (simp add: pause_for_gate_def Let_def)
  moreover have "charge_budget demo_env (iteration_ctx 9 demo_run demo_rec (Some demo_net_spec) net_policy demo_budget None 0)
      demo_world = (demo_ctx, demo_charged)"
    by (simp add: demo_ctx_def demo_charged_def)
  ultimately show ?thesis
    using load by (simp add: loop_iteration_def gate_rows_def demo_world_def demo_run_def pending_run_def empty_db_def)
qed

definition demo_gate_decision :: loop_decision where
  "demo_gate_decision = decision_row demo_env demo_ctx ''stop_gate'' (Some ''before_network_execution'') None None
     (new_uuid demo_env (update_job 9 (\<lambda>j. j\<lparr>j_status := Js_paused\<rparr>) demo_charged))"

lemma demo_paused_facts:
  "decisions demo_paused = [demo_gate_decision]" "gate_rows demo_paused (rn_id demo_run) = [demo_gate_decision]"
  "cards demo_paused = []" "signals demo_paused = []" "frontiers demo_paused = []"
  "specs demo_paused = [demo_net_spec]" "budgets demo_paused = [lc_budget demo_ctx]"
proof -
  have "lc_job_id demo_ctx = 9"
    using charge_budget_frame(7) [of demo_env _ demo_world demo_ctx demo_charged]
    by (simp add: demo_ctx_def demo_charged_def charge_budget_def iteration_ctx_def increment_budget_def Let_def)
  then show ds: "decisions demo_paused = [demo_gate_decision]"
    by (simp add: demo_paused_def pause_for_gate_def demo_ctx_facts demo_gate_decision_def Let_def)
  then show "gate_rows demo_paused (rn_id demo_run) = [demo_gate_decision]"
    by (simp add: gate_rows_def demo_gate_decision_def demo_ctx_facts)
  show "cards demo_paused = []" "signals demo_paused = []" "frontiers demo_paused = []"
    "specs demo_paused = [demo_net_spec]" "budgets demo_paused = [lc_budget demo_ctx]"
    by (simp_all add: demo_paused_def pause_for_gate_def demo_ctx_facts persist_decision_def update_job_def Let_def)
qed

lemma demo_second:
  "\<exists>s2. demo_iteration demo_paused = Inr (Some (OperatorResult, s2)) \<and> ld_decision (last (decisions s2)) = ''stop_gate''"
proof -
  let ?c = "iteration_ctx 9 demo_run demo_rec (Some demo_net_spec) net_policy (lc_budget demo_ctx)
     (Some demo_gate_decision) 1"
  let ?s = "lc_emit demo_env ?c ''autonomy.gate_resumed''
     [(''run_record_id'', JUuid (rn_id demo_run)), (''iteration'', JInt (int (lc_iteration ?c)))] demo_paused"
  have load: "load_or_create_budget demo_env (rn_cycle_id demo_run) demo_paused = Inr (lc_budget demo_ctx, demo_paused)"
    by (simp add: load_or_create_budget_def demo_paused_facts demo_ctx_facts demo_run_def pending_run_def)
  have one: "length (filter (\<lambda>d. ld_cycle_id d = rn_cycle_id demo_run) (decisions demo_paused)) = 1"
    by (simp add: demo_paused_facts demo_gate_decision_def demo_ctx_facts)
  have dec: "decide_and_act (demo_ext net_policy) demo_env ?c ?s =
      Inr (Some (pause_for_gate demo_env ?c ''before_network_execution'' ?s))"
    by (rule demo_decides) (simp_all add: demo_paused_facts demo_ctx_facts iteration_ctx_def)
  obtain r s2 where p: "pause_for_gate demo_env ?c ''before_network_execution'' ?s = (r, s2)" by fastforce
  then have "r = OperatorResult" by (auto simp: pause_for_gate_def Let_def)
  moreover have "demo_iteration demo_paused = Inr (Some (r, s2))"
    using dec p unfolding loop_iteration_def load res_bind.simps prod.case demo_paused_facts(2)
    by (simp only: scalar_one_or_none.simps res_bind.simps one Let_def option.case)
  ultimately show ?thesis using pause_outcome [OF p refl refl] by blast
qed

theorem second_gate_pause_wedges_witness:
  "\<exists>s2. demo_iteration demo_paused = Inr (Some (OperatorResult, s2)) \<and> demo_iteration s2 = Inl MultipleResultsFound"
  using demo_second second_gate_pause_wedges [of _ _ _ demo_run _ _ _ demo_paused]
  by (metis demo_paused_facts(2) list.distinct(1))

theorem run_charged_once_witness:
  "filter (\<lambda>b. ab_cycle_id b = rn_cycle_id demo_run) (budgets demo_paused) = [incremented demo_env 7 demo_budget]"
proof -
  have "filter (\<lambda>b. ab_cycle_id b = rn_cycle_id demo_run) (budgets demo_world) = [demo_budget]"
    "distinct (map ab_id (budgets demo_world))" "gate_rows demo_world (rn_id demo_run) = []"
    by (simp_all add: demo_world_def demo_budget_def demo_run_def pending_run_def gate_rows_def empty_db_def)
  then show ?thesis
    using run_charged_once [OF demo_first] by (simp add: demo_net_spec_def demo_spec_def)
qed

lemma demo_limit:
  "\<exists>r s'. loop_iteration (demo_ext net_policy) demo_env 9 demo_run demo_rec (Some demo_net_spec)
     (net_policy\<lparr>max_total_runs := Some 1\<rparr>) demo_world = Inr (Some (r, s'))"
proof -
  have load: "load_or_create_budget demo_env 4 demo_world = Inr (demo_budget, demo_world)"
    by (simp add: load_or_create_budget_def demo_world_def demo_budget_def)
  have lim: "exceeded_limit (c\<lparr>lc_budget := incremented demo_env h demo_budget\<rparr>) = Some ''max_total_runs''"
    if "lc_policy c = net_policy\<lparr>max_total_runs := Some 1\<rparr>" for c h
    using that by (simp add: exceeded_limit_def check_budget_def demo_budget_def)
  have rows: "gate_rows demo_world (rn_id demo_run) = []" "rn_cycle_id demo_run = 4"
    by (simp_all add: gate_rows_def demo_world_def empty_db_def demo_run_def pending_run_def)
  show ?thesis
    by (simp add: loop_iteration_def load rows charge_budget_def increment_budget_def fresh_iteration_def lim Let_def)
qed

theorem budget_limit_stops_witness:
  "\<exists>r s'. loop_iteration (demo_ext net_policy) demo_env 9 demo_run demo_rec (Some demo_net_spec)
     (net_policy\<lparr>max_total_runs := Some 1\<rparr>) demo_world = Inr (Some (r, s')) \<and>
     ld_decision (last (decisions s')) = ''stop_budget''"
proof -
  have "filter (\<lambda>b. ab_cycle_id b = rn_cycle_id demo_run) (budgets demo_world) = [demo_budget]"
    "gate_rows demo_world (rn_id demo_run) = []"
    by (simp_all add: demo_world_def demo_budget_def demo_run_def pending_run_def gate_rows_def empty_db_def)
  moreover have "max_total_runs (net_policy\<lparr>max_total_runs := Some 1\<rparr>) = Some 1 \<and> 1 \<le> int (ab_total_runs demo_budget) + 1"
    by simp
  ultimately show ?thesis using demo_limit budget_limit_stops by blast
qed

lemma demo_operator:
  "loop_decide_operator (demo_ext net_policy) demo_env demo_loop_input demo_world = (Inr OperatorResult, demo_paused)"
proof -
  have lp: "loop_patterns (demo_ext net_policy) demo_env demo_run demo_rec (Some demo_net_spec) demo_cycle demo_world =
      Inr ([], demo_world)"
    by (simp add: loop_patterns_def from_cycle_config_def inject_patterns_def find_relevant_patterns_def
        demo_cycle_def demo_world_def empty_db_def opt_dict_def dget_or_def Let_def)
  have rows: "filter (\<lambda>r. rr_id r = 30) (recommendations demo_world) = [demo_rec]"
    "filter (\<lambda>r. rn_id r = 20) (runs demo_world) = [demo_run]"
    "filter (\<lambda>p. sp_id p = rn_spec_id demo_run) (specs demo_world) = [demo_net_spec]"
    "table_get cy_id (cycles demo_world) (rn_cycle_id demo_run) = Some demo_cycle"
    by (simp_all add: demo_world_def demo_rec_def demo_run_def pending_run_def demo_net_spec_def demo_spec_def demo_cycle_def)
  have "lx_model_validate (demo_ext net_policy) j = Inr net_policy" for j by (simp add: demo_ext_def)
  then show ?thesis
    by (simp add: loop_decide_operator_def demo_loop_input_def rows lp demo_first finish_def)
qed

theorem loop_decide_one_decision_witness:
  "\<exists>c. lc_job_id c = 9 \<and> lc_run c \<in> set (runs demo_world) \<and> loop_outcome c demo_world OperatorResult demo_paused"
  using loop_decide_one_decision [OF demo_operator] by (simp add: demo_loop_input_def)

theorem loop_decisions_never_mined_witness:
  "\<exists>d. decisions demo_paused = decisions demo_world @ [d] \<and>
     extract_retrieval_heuristic_from_loop demo_py (\<lambda>_. []) d = None"
  by (rule loop_decisions_never_mined [OF demo_operator]) (simp_all add: demo_loop_input_def)

end
