(* ===== verification/Worker.thy ===== *)
theory Worker
  imports Pipeline_Sessions
begin

text \<open>
  The worker process: \<open>apps/worker/main.py\<close> (the loop body: claim, start, execute, persist the
  outcome), \<open>executor.py\<close> (dispatch to the registered operator), \<open>claimer.py\<close> and \<open>periodic.py\<close>.

  The loop body is split where it commits: other workers, users and operators act on the store between
  \<open>try_claim\<close>, \<open>begin_job\<close>, \<open>execute\<close> and \<open>persist_outcome\<close>, so each is a function of the store it
  finds.  The summary text of a result is not stored.  An exception that leaves \<open>persist_outcome\<close> is not
  caught by the loop: the session rolls back and the process ends.
\<close>

section \<open>Dispatch\<close>

type_synonym registry = "string \<Rightarrow> operator option"

definition register_operator :: "string \<Rightarrow> operator \<Rightarrow> registry \<Rightarrow> registry" where
  "register_operator job_type handler reg = reg(job_type := Some handler)"

definition echo_operator :: operator where
  "echo_operator i s = (Inr (OperatorResult\<lparr>or_state_patch := [(''echoed'', JObj (oi_payload i))]\<rparr>), s)"

text \<open>The job types the packages register, in the order of \<open>executor.py\<close>.\<close>

definition discovery_job_types :: "string list" where
  "discovery_job_types =
    [''discovery_intake'', ''discovery_search'', ''discovery_rerank'', ''discovery_analyze'', ''discovery_finalize'']"

definition analysis_job_types :: "string list" where
  "analysis_job_types =
    [''analysis_ingest'', ''analysis_chunk'', ''analysis_graph_extract'', ''analysis_coverage'', ''analysis_review'',
     ''analysis_evidence'']"

definition ideation_job_types :: "string list" where
  "ideation_job_types = [''hypothesis_generate'', ''hypothesis_critique'', ''hypothesis_rank'']"

definition protocol_job_types :: "string list" where
  "protocol_job_types = [''protocol_compile'']"

definition execution_job_types :: "string list" where
  "execution_job_types = [''execution_setup'', ''execution_run'', ''execution_capture'']"

definition verification_job_types :: "string list" where
  "verification_job_types = [''verification_check'', ''verification_postmortem'']"

definition remediation_job_types :: "string list" where
  "remediation_job_types = [''auto_remediate'', ''signal_classify'', ''recommend'']"

definition autonomy_job_types :: "string list" where
  "autonomy_job_types = [''loop_decide'', ''loop_report'']"

definition pattern_job_types :: "string list" where
  "pattern_job_types = [''consolidate_patterns'', ''decay_patterns'']"

text \<open>The registry after the module is loaded; \<open>handlers\<close> gives the operator functions of the packages.\<close>

definition REGISTRY :: "(string \<Rightarrow> operator) \<Rightarrow> registry" where
  "REGISTRY handlers =
    fold (\<lambda>t. register_operator t (handlers t))
      (discovery_job_types @ analysis_job_types @ ideation_job_types @ protocol_job_types @ execution_job_types @
       verification_job_types @ remediation_job_types @ autonomy_job_types @ pattern_job_types)
      (register_operator ''echo'' echo_operator (\<lambda>_. None))"

definition execute :: "registry \<Rightarrow> op_input \<Rightarrow> db \<Rightarrow> op_result \<times> db" where
  "execute reg i s =
    (case reg (oi_job_type i) of
       None \<Rightarrow> (op_fail ''No handler registered'', s)
     | Some handler \<Rightarrow>
        (case handler i s of
           (Inl exc, s') \<Rightarrow> (op_fail ''Handler raised'', s')
         | (Inr r, s') \<Rightarrow> (r, s')))"

section \<open>Claiming and starting\<close>

abbreviation worker_emit :: "env \<Rightarrow> string \<Rightarrow> string \<Rightarrow> uuid option \<Rightarrow> uuid option \<Rightarrow> dict \<Rightarrow> db \<Rightarrow> db" where
  "worker_emit e worker_id et charter_id cycle_id payload \<equiv>
     emit_event_sync e et charter_id cycle_id (Some payload) Actor_worker (Some worker_id)"

definition try_claim :: "env \<Rightarrow> string \<Rightarrow> uuid set \<Rightarrow> db \<Rightarrow> job option \<times> db" where
  "try_claim e worker_id locked s = claim_job e worker_id locked s"

definition resolve_charter_id :: "db \<Rightarrow> job \<Rightarrow> uuid option" where
  "resolve_charter_id s j =
    (case j_cycle_id j of None \<Rightarrow> None | Some k \<Rightarrow> map_option cy_charter_id (get_cycle s k))"

text \<open>\<open>UUID(int=0)\<close> stands for a missing identifier.\<close>

definition or_nil_uuid :: "uuid option \<Rightarrow> uuid" where
  "or_nil_uuid x = (case x of None \<Rightarrow> 0 | Some u \<Rightarrow> u)"

definition build_operator_input :: "db \<Rightarrow> job \<Rightarrow> op_input" where
  "build_operator_input s j =
     \<lparr>oi_cycle_id = or_nil_uuid (j_cycle_id j), oi_charter_id = or_nil_uuid (resolve_charter_id s j),
      oi_job_id = j_id j, oi_job_type = j_type j, oi_payload = opt_dict (j_payload j)\<rparr>"

definition begin_job :: "env \<Rightarrow> string \<Rightarrow> uuid \<Rightarrow> db \<Rightarrow> (job \<times> db) res" where
  "begin_job e worker_id job_id s =
    res_bind (start_job job_id s) (\<lambda>(j, s1).
      Inr (j, worker_emit e worker_id ''job_started'' (resolve_charter_id s1 j) (j_cycle_id j)
                [(''job_id'', JUuid (j_id j)), (''job_type'', JStr (j_type j))] s1))"

section \<open>Effects of a result\<close>

definition patch_target :: "dict \<Rightarrow> json" where
  "patch_target patch =
    (if truthy (dget patch ''cycle_status'') then dget patch ''cycle_status'' else dget patch ''target_status'')"

definition apply_state_patch :: "env \<Rightarrow> string \<Rightarrow> uuid option \<Rightarrow> uuid option \<Rightarrow> dict \<Rightarrow> db \<Rightarrow> db res" where
  "apply_state_patch e worker_id cycle_id charter_id patch s =
    (case cycle_id of
       None \<Rightarrow> Inr s
     | Some k \<Rightarrow>
        (if patch_target patch = JNull then Inr s
         else case get_cycle s k of
            None \<Rightarrow> Inr s
          | Some c \<Rightarrow>
             res_bind (CycleStatus_of (patch_target patch)) (\<lambda>target.
             res_bind (validate_transition (cy_status c) target) (\<lambda>_.
               Inr (worker_emit e worker_id ''research_cycle_transitioned''
                      (case charter_id of None \<Rightarrow> Some (cy_charter_id c) | Some ch \<Rightarrow> Some ch) (Some (cy_id c))
                      [(''from_status'', JStr (cycle_status_value (cy_status c))),
                       (''to_status'', JStr (cycle_status_value target))]
                      (put_cycle (transitioned e target c) s))))))"

definition persist_operator_events ::
  "env \<Rightarrow> string \<Rightarrow> uuid option \<Rightarrow> uuid option \<Rightarrow> (string \<times> dict) list \<Rightarrow> db \<Rightarrow> db" where
  "persist_operator_events e worker_id charter_id cycle_id evs s =
     fold (\<lambda>(et, payload). worker_emit e worker_id et charter_id cycle_id payload) evs s"

definition job_input :: "job \<Rightarrow> op_input" where
  "job_input j = \<lparr>oi_cycle_id = or_nil_uuid (j_cycle_id j), oi_charter_id = 0, oi_job_id = j_id j,
     oi_job_type = j_type j, oi_payload = opt_dict (j_payload j)\<rparr>"

definition job_detail :: "job \<Rightarrow> dict" where
  "job_detail j = [(''job_id'', JUuid (j_id j)), (''job_type'', JStr (j_type j))]"

text \<open>\<open>except (StateError, ValueError): return None, False\<close>; other exceptions propagate.\<close>

fun caught :: "exc \<Rightarrow> bool" where
  "caught (DiscoveryStateError m) = True"
| "caught (AnalysisStateError m) = True"
| "caught (IdeationStateError m) = True"
| "caught (ExecutionStateError m) = True"
| "caught (ValueError m) = True"
| "caught _ = False"

definition or_skip :: "'a res \<Rightarrow> 'b \<Rightarrow> ('a \<Rightarrow> 'b) \<Rightarrow> 'b res" where
  "or_skip m skip f = (case m of Inl exc \<Rightarrow> if caught exc then Inr skip else Inl exc | Inr x \<Rightarrow> Inr (f x))"

definition mark_discovery_job_failed :: "env \<Rightarrow> job \<Rightarrow> string \<Rightarrow> db \<Rightarrow> (uuid option \<times> bool \<times> db) res" where
  "mark_discovery_job_failed e j error s =
    (if \<not> startswith (j_type j) ''discovery_'' then Inr (None, False, s)
     else or_skip (res_bind (session_id_from_payload (job_input j)) (load_session s)) (None, False, s) (\<lambda>d.
       case discovery_mark_failed e (removeprefix (j_type j) ''discovery_'') error (job_detail j) d of
         (changed, d') \<Rightarrow> (Some (dis_id d), changed,
            s\<lparr>discoveries := update_where (\<lambda>r. dis_id r = dis_id d) (\<lambda>_. d') (discoveries s)\<rparr>)))"

definition mark_analysis_job_failed ::
  "env \<Rightarrow> job \<Rightarrow> string \<Rightarrow> db \<Rightarrow> (uuid option \<times> uuid option \<times> bool \<times> db) res" where
  "mark_analysis_job_failed e j error s =
    (if \<not> startswith (j_type j) ''analysis_'' then Inr (None, None, False, s)
     else or_skip (res_bind (analysis_session_id_from_payload (job_input j)) (load_analysis_session s))
            (None, None, False, s) (\<lambda>a.
       case analysis_mark_failed e (removeprefix (j_type j) ''analysis_'') error (job_detail j) a of
         (changed, a') \<Rightarrow> (Some (an_id a), Some (an_paper_card_id a), changed,
            s\<lparr>analyses := update_where (\<lambda>r. an_id r = an_id a) (\<lambda>_. a') (analyses s)\<rparr>)))"

definition mark_ideation_job_failed :: "env \<Rightarrow> job \<Rightarrow> string \<Rightarrow> db \<Rightarrow> (uuid option \<times> bool \<times> db) res" where
  "mark_ideation_job_failed e j error s =
    (if \<not> startswith (j_type j) ''hypothesis_'' then Inr (None, False, s)
     else or_skip (res_bind (hypothesis_session_id_from_payload (job_input j)) (load_hypothesis_session s))
            (None, False, s) (\<lambda>h.
       case ideation_mark_failed e (removeprefix (j_type j) ''hypothesis_'') error (job_detail j) h of
         (changed, h') \<Rightarrow> (Some (hs_id h), changed,
            s\<lparr>sessions := update_where (\<lambda>r. hs_id r = hs_id h) (\<lambda>_. h') (sessions s)\<rparr>)))"

definition mark_execution_job_failed :: "env \<Rightarrow> job \<Rightarrow> string \<Rightarrow> db \<Rightarrow> (uuid option \<times> bool \<times> db) res" where
  "mark_execution_job_failed e j error s =
    (if \<not> (\<exists>p\<in>set [''execution_'', ''verification_'', ''protocol_'']. startswith (j_type j) p)
     then Inr (None, False, s)
     else or_skip (res_bind (run_record_id_from_payload (job_input j)) (load_run_record s)) (None, False, s) (\<lambda>r.
       if rn_status r \<in> {''failed'', ''cancelled''} then (Some (rn_id r), False, s)
       else (Some (rn_id r), True,
             put_run (r\<lparr>rn_status := ''failed'', rn_error := Some error, rn_completed_at := Some (now e)\<rparr>) s)))"

section \<open>Persisting the outcome\<close>

definition error_text :: "op_result \<Rightarrow> string" where
  "error_text r = (case or_error r of None \<Rightarrow> ''unknown error'' | Some m \<Rightarrow> if m = [] then ''unknown error'' else m)"

definition error_json :: "op_result \<Rightarrow> json" where
  "error_json r = (case or_error r of None \<Rightarrow> JNull | Some m \<Rightarrow> JStr m)"

definition result_dict :: "op_result \<Rightarrow> dict" where
  "result_dict r =
    [(''state_patch'', JObj (or_state_patch r)), (''artifacts'', JList (map JStr (or_artifacts r))),
     (''events'', JList (map (\<lambda>(et, p). JObj [(''event_type'', JStr et), (''payload'', JObj p)]) (or_events r)))]"

definition persist_success :: "env \<Rightarrow> string \<Rightarrow> job \<Rightarrow> uuid option \<Rightarrow> op_result \<Rightarrow> db \<Rightarrow> db res" where
  "persist_success e worker_id j charter_id r s =
    res_bind (apply_state_patch e worker_id (j_cycle_id j) charter_id (or_state_patch r)
                (persist_operator_events e worker_id charter_id (j_cycle_id j) (or_events r) s)) (\<lambda>s1.
      if j_status j = Js_paused
      then res_bind (pause_job (j_id j) (Some (result_dict r)) s1) (\<lambda>(_, s2).
        Inr (worker_emit e worker_id ''job_paused_at_checkpoint'' charter_id (j_cycle_id j)
               [(''job_id'', JUuid (j_id j))] s2))
      else res_bind (complete_job e (j_id j) (Some (result_dict r)) s1) (\<lambda>(_, s2).
        Inr (worker_emit e worker_id ''job_completed'' charter_id (j_cycle_id j)
               [(''job_id'', JUuid (j_id j))] s2)))"

definition emit_if :: "bool \<Rightarrow> (db \<Rightarrow> db) \<Rightarrow> db \<Rightarrow> db" where
  "emit_if changed f s = (if changed then f s else s)"

definition opt_uuid_text :: "uuid option \<Rightarrow> json" where
  "opt_uuid_text x = (case x of None \<Rightarrow> JStr ''None'' | Some u \<Rightarrow> JUuid u)"

definition failure_event ::
  "env \<Rightarrow> string \<Rightarrow> job \<Rightarrow> uuid option \<Rightarrow> op_result \<Rightarrow> string \<Rightarrow> dict \<Rightarrow> db \<Rightarrow> db" where
  "failure_event e worker_id j charter_id r et ids =
     worker_emit e worker_id et charter_id (j_cycle_id j)
       (ids @ [(''operator'', JStr (j_type j)), (''error'', error_json r)])"

definition persist_failure :: "env \<Rightarrow> string \<Rightarrow> job \<Rightarrow> uuid option \<Rightarrow> op_result \<Rightarrow> db \<Rightarrow> db res" where
  "persist_failure e worker_id j charter_id r s0 =
    (let s = persist_operator_events e worker_id charter_id (j_cycle_id j) (or_events r) s0;
         error = error_text r
     in
    res_bind (mark_discovery_job_failed e j error s) (\<lambda>(did, dchanged, s1).
    res_bind (mark_analysis_job_failed e j error s1) (\<lambda>(aid, pid, achanged, s2).
    res_bind (mark_ideation_job_failed e j error s2) (\<lambda>(iid, ichanged, s3).
    res_bind (mark_execution_job_failed e j error s3) (\<lambda>(rid, rchanged, s4).
    res_bind (fail_job e (j_id j) error s4) (\<lambda>(_, s5).
      let s6 = emit_if ichanged (failure_event e worker_id j charter_id r ''ideation.session_failed''
                 [(''hypothesis_session_id'', opt_uuid_text iid)]) s5;
          s7 = emit_if rchanged (failure_event e worker_id j charter_id r ''execution.run_failed''
                 [(''run_record_id'', opt_uuid_text rid)]) s6;
          s8 = emit_if dchanged (failure_event e worker_id j charter_id r ''discovery.session_failed''
                 [(''session_id'', opt_uuid_text did)]) s7;
          s9 = emit_if achanged (failure_event e worker_id j charter_id r ''analysis.session_failed''
                 [(''analysis_session_id'', opt_uuid_text aid), (''paper_card_id'', opt_uuid_text pid)]) s8
      in Inr (worker_emit e worker_id ''job_failed'' charter_id (j_cycle_id j)
                [(''job_id'', JUuid (j_id j)), (''error'', error_json r)] s9)))))))"

definition persist_outcome :: "env \<Rightarrow> string \<Rightarrow> uuid \<Rightarrow> op_result \<Rightarrow> db \<Rightarrow> db res" where
  "persist_outcome e worker_id job_id r s =
    (case get_job s job_id of
       None \<Rightarrow> Inr s
     | Some j \<Rightarrow>
        let charter_id = resolve_charter_id s j
        in if j_status j = Js_cancelled
           then Inr (worker_emit e worker_id ''job_cancelled_acknowledged'' charter_id (j_cycle_id j)
                       [(''job_id'', JUuid (j_id j))] s)
           else if or_success r then persist_success e worker_id j charter_id r s
           else persist_failure e worker_id j charter_id r s)"

text \<open>One turn of the loop when nobody else acts meanwhile: False when there was nothing to claim.\<close>

definition worker_turn :: "registry \<Rightarrow> env \<Rightarrow> string \<Rightarrow> uuid set \<Rightarrow> db \<Rightarrow> (bool \<times> db) res" where
  "worker_turn reg e worker_id locked s =
    (case try_claim e worker_id locked s of
       (None, s1) \<Rightarrow> Inr (False, s1)
     | (Some j0, s1) \<Rightarrow>
        res_bind (begin_job e worker_id (j_id j0) s1) (\<lambda>(j, s2).
          case execute reg (build_operator_input s2 j) s2 of
            (r, s3) \<Rightarrow> res_bind (persist_outcome e worker_id (j_id j) r s3) (\<lambda>s4. Inr (True, s4))))"

section \<open>Periodic tasks\<close>

record worker_settings =
  job_heartbeat_timeout_s :: nat
  job_max_reclaims :: nat
  pattern_decay_interval_h :: nat
  pattern_max_staleness_days :: nat

definition decay_interval :: "worker_settings \<Rightarrow> time" where
  "decay_interval cfg = int (pattern_decay_interval_h cfg) * 3600 * 1000000"

definition decay_state :: "db \<Rightarrow> periodic_job_state option" where
  "decay_state s = table_get pj_job_kind (periodic s) ''decay_patterns''"

definition decay_gated :: "env \<Rightarrow> worker_settings \<Rightarrow> db \<Rightarrow> bool" where
  "decay_gated e cfg s =
    (case decay_state s of
       None \<Rightarrow> False
     | Some st \<Rightarrow> (case pj_last_enqueued_at st of
          None \<Rightarrow> False | Some t \<Rightarrow> now e - t < decay_interval cfg))"

definition maybe_enqueue_decay :: "env \<Rightarrow> worker_settings \<Rightarrow> db \<Rightarrow> bool \<times> db" where
  "maybe_enqueue_decay e cfg s =
    (if decay_gated e cfg s then (False, s)
     else case create_job e None ''decay_patterns''
                 (Some [(''max_staleness_days'', JInt (int (pattern_max_staleness_days cfg)))]) 0 s of
       (j, s1) \<Rightarrow>
        (True, s1\<lparr>periodic :=
          (case decay_state s of
             None \<Rightarrow> periodic s1 @ [\<lparr>pj_job_kind = ''decay_patterns'', pj_last_enqueued_at = Some (now e),
                       pj_last_completed_at = None, pj_last_job_id = Some (j_id j)\<rparr>]
           | Some _ \<Rightarrow> update_where (\<lambda>r. pj_job_kind r = ''decay_patterns'')
                (\<lambda>r. r\<lparr>pj_last_enqueued_at := Some (now e), pj_last_job_id := Some (j_id j)\<rparr>) (periodic s1))\<rparr>))"

text \<open>The summary counts: reclaimed, failed after too many reclaims, decay job enqueued.\<close>

definition run_periodic_tasks :: "env \<Rightarrow> worker_settings \<Rightarrow> db \<Rightarrow> (nat \<times> nat \<times> bool) \<times> db" where
  "run_periodic_tasks e cfg s =
    (case reclaim_stale_jobs e (job_heartbeat_timeout_s cfg) (job_max_reclaims cfg) s of
       ((reclaimed, exhausted), s1) \<Rightarrow>
        (case maybe_enqueue_decay e cfg s1 of (enq, s2) \<Rightarrow> ((reclaimed, exhausted, enq), s2)))"

section \<open>Facts\<close>

lemma persist_operator_events_frame [simp]:
  "jobs (persist_operator_events e w ch cy evs s) = jobs s" "cycles (persist_operator_events e w ch cy evs s) = cycles s"
  "runs (persist_operator_events e w ch cy evs s) = runs s"
  "discoveries (persist_operator_events e w ch cy evs s) = discoveries s"
  "analyses (persist_operator_events e w ch cy evs s) = analyses s"
  "sessions (persist_operator_events e w ch cy evs s) = sessions s"
  by (induction evs arbitrary: s; simp add: persist_operator_events_def split_def)+

lemma get_job_cong: "jobs s' = jobs s \<Longrightarrow> get_job s' k = get_job s k"
  by (simp add: get_job_def)

lemma get_cycle_cong: "cycles s' = cycles s \<Longrightarrow> get_cycle s' k = get_cycle s k"
  by (simp add: get_cycle_def)

lemma apply_state_patch_Inr:
  assumes "apply_state_patch e w cy ch p s = Inr s'"
  shows "s' = s \<or> (\<exists>k c t ch'. cy = Some k \<and> get_cycle s k = Some c \<and> t \<in> set (ALLOWED_TRANSITIONS (cy_status c)) \<and>
    patch_target p = JStr (cycle_status_value t) \<and>
    s' = emit_event_sync e ''research_cycle_transitioned'' ch' (Some (cy_id c))
      (Some [(''from_status'', JStr (cycle_status_value (cy_status c))), (''to_status'', JStr (cycle_status_value t))])
      Actor_worker (Some w) (put_cycle (transitioned e t c) s))"
proof (cases "s' = s")
  case False
  then obtain k where k: "cy = Some k" using assms by (auto simp: apply_state_patch_def split: option.splits)
  with False assms have raw: "patch_target p \<noteq> JNull" by (auto simp: apply_state_patch_def)
  with k False assms obtain c where c: "get_cycle s k = Some c"
    by (auto simp: apply_state_patch_def split: option.splits)
  from assms k raw c obtain t where t: "CycleStatus_of (patch_target p) = Inr t"
    by (auto simp: apply_state_patch_def res_bind_Inr_iff)
  from assms k raw c t have v: "t \<in> set (ALLOWED_TRANSITIONS (cy_status c))"
    by (auto simp: apply_state_patch_def res_bind_Inr_iff validate_transition_Inr)
  from assms k raw c t have "\<exists>ch'. s' = emit_event_sync e ''research_cycle_transitioned'' ch' (Some (cy_id c))
      (Some [(''from_status'', JStr (cycle_status_value (cy_status c))), (''to_status'', JStr (cycle_status_value t))])
      Actor_worker (Some w) (put_cycle (transitioned e t c) s)"
    by (auto simp: apply_state_patch_def res_bind_Inr_iff)
  with k c v CycleStatus_of_Inr [OF t] show ?thesis by blast
qed simp

lemma apply_state_patch_frame:
  assumes "apply_state_patch e w cy ch p s = Inr s'"
  shows "jobs s' = jobs s" "runs s' = runs s"
  using apply_state_patch_Inr [OF assms] by auto

lemma updated_job_some:
  assumes "get_job s k = Some j" and "\<And>j. j_id (f j) = j_id j"
  shows "updated_job k f s = Inr (f j, update_job k f s)"
  using assms by (simp add: updated_job_def get_update_job_same)

lemma failure_event_frame [simp]:
  "jobs (failure_event e w j ch r et ids s) = jobs s" "cycles (failure_event e w j ch r et ids s) = cycles s"
  by (simp_all add: failure_event_def)

lemma or_skip_Inr: "or_skip m skip f = Inr y \<Longrightarrow> y = skip \<or> (\<exists>x. m = Inr x \<and> y = f x)"
  by (auto simp: or_skip_def split: sum.splits if_splits)

lemma mark_discovery_frame:
  "mark_discovery_job_failed e j err s = Inr (i, b, s') \<Longrightarrow>
   jobs s' = jobs s \<and> cycles s' = cycles s \<and> events s' = events s \<and> runs s' = runs s"
  by (auto simp: mark_discovery_job_failed_def split: if_splits prod.splits dest!: or_skip_Inr)

lemma mark_analysis_frame:
  "mark_analysis_job_failed e j err s = Inr (i, p, b, s') \<Longrightarrow>
   jobs s' = jobs s \<and> cycles s' = cycles s \<and> events s' = events s \<and> runs s' = runs s"
  by (auto simp: mark_analysis_job_failed_def split: if_splits prod.splits dest!: or_skip_Inr)

lemma mark_ideation_frame:
  "mark_ideation_job_failed e j err s = Inr (i, b, s') \<Longrightarrow>
   jobs s' = jobs s \<and> cycles s' = cycles s \<and> events s' = events s \<and> runs s' = runs s"
  by (auto simp: mark_ideation_job_failed_def split: if_splits prod.splits dest!: or_skip_Inr)

lemma mark_execution_frame:
  "mark_execution_job_failed e j err s = Inr (i, b, s') \<Longrightarrow>
   jobs s' = jobs s \<and> cycles s' = cycles s \<and> events s' = events s"
  by (auto simp: mark_execution_job_failed_def split: if_splits dest!: or_skip_Inr)

text \<open>Operators report their own events: none of those that record the status of a cycle.\<close>

definition status_event_types :: "string set" where
  "status_event_types = {''research_cycle_created'', ''research_cycle_transitioned''}"

definition plain_result :: "op_result \<Rightarrow> bool" where
  "plain_result r \<longleftrightarrow> (\<forall>(et, p)\<in>set (or_events r). et \<notin> status_event_types)"

lemma log_agrees_cong: "cycles s' = cycles s \<Longrightarrow> events s' = events s \<Longrightarrow> log_agrees s' = log_agrees s"
  by (simp add: log_agrees_def)

lemma cycles_inv_cong: "cycles s' = cycles s \<Longrightarrow> cycles_inv s' = cycles_inv s"
  by (simp add: cycles_inv_def)

lemma log_agrees_plain:
  "et \<notin> status_event_types \<Longrightarrow> log_agrees (emit_event_sync e et ch cy p act ai s) = log_agrees s"
  by (simp add: log_agrees_def emit_event_sync_def Let_def logged_status_snoc is_status_event_def
      status_event_types_def)

lemma log_agrees_operator_events:
  "plain_result r \<Longrightarrow> log_agrees (persist_operator_events e w ch cy (or_events r) s) = log_agrees s"
proof -
  have "\<forall>(et, p)\<in>set evs. et \<notin> status_event_types \<Longrightarrow>
      log_agrees (persist_operator_events e w ch cy evs s) = log_agrees s" for evs
  proof (induction evs arbitrary: s)
    case (Cons ev evs)
    obtain et p where ev: "ev = (et, p)" by (cases ev)
    have "persist_operator_events e w ch cy (ev # evs) s =
        persist_operator_events e w ch cy evs (worker_emit e w et ch cy p s)"
      by (simp add: persist_operator_events_def ev)
    moreover have "log_agrees (worker_emit e w et ch cy p s) = log_agrees s"
      using Cons.prems by (simp add: ev log_agrees_plain)
    ultimately show ?case using Cons by simp
  qed (simp add: persist_operator_events_def)
  then show "plain_result r \<Longrightarrow> ?thesis" by (simp add: plain_result_def)
qed

lemma emit_if_frame:
  "(\<And>s. jobs (f s) = jobs s) \<Longrightarrow> jobs (emit_if b f s) = jobs s"
  "(\<And>s. cycles (f s) = cycles s) \<Longrightarrow> cycles (emit_if b f s) = cycles s"
  "(\<And>s. log_agrees (f s) = log_agrees s) \<Longrightarrow> log_agrees (emit_if b f s) = log_agrees s"
  by (simp_all add: emit_if_def)

lemma log_agrees_failure_event:
  "et \<notin> status_event_types \<Longrightarrow> log_agrees (failure_event e w j ch r et ids s) = log_agrees s"
  by (simp add: failure_event_def log_agrees_plain)

definition failed_row :: "env \<Rightarrow> string \<Rightarrow> job \<Rightarrow> job" where
  "failed_row e m j = j\<lparr>j_status := Js_failed, j_error := Some m, j_completed_at := Some (now e)\<rparr>"

lemma fail_job_updated: "fail_job e k m = updated_job k (failed_row e m)"
  by (rule ext) (simp add: fail_job_def failed_row_def [abs_def])

lemma persist_failure_Inr:
  assumes "persist_failure e w j ch r s = Inr s'"
  shows "jobs s' = jobs (update_job (j_id j) (failed_row e (error_text r)) s)" "cycles s' = cycles s"
    "plain_result r \<Longrightarrow> log_agrees s' = log_agrees s"
proof -
  let ?s = "persist_operator_events e w ch (j_cycle_id j) (or_events r) s"
  obtain di db s1 where d: "mark_discovery_job_failed e j (error_text r) ?s = Inr (di, db, s1)"
    using assms by (auto simp: persist_failure_def Let_def res_bind_Inr_iff)
  obtain ai pi ab s2 where a: "mark_analysis_job_failed e j (error_text r) s1 = Inr (ai, pi, ab, s2)"
    using assms d by (auto simp: persist_failure_def Let_def res_bind_Inr_iff)
  obtain ii ib s3 where i: "mark_ideation_job_failed e j (error_text r) s2 = Inr (ii, ib, s3)"
    using assms d a by (auto simp: persist_failure_def Let_def res_bind_Inr_iff)
  obtain ri rb s4 where x: "mark_execution_job_failed e j (error_text r) s3 = Inr (ri, rb, s4)"
    using assms d a i by (auto simp: persist_failure_def Let_def res_bind_Inr_iff)
  obtain jj s5 where f: "fail_job e (j_id j) (error_text r) s4 = Inr (jj, s5)"
    using assms d a i x by (auto simp: persist_failure_def Let_def res_bind_Inr_iff)
  let ?t = "emit_if ab (failure_event e w j ch r ''analysis.session_failed''
                 [(''analysis_session_id'', opt_uuid_text ai), (''paper_card_id'', opt_uuid_text pi)])
       (emit_if db (failure_event e w j ch r ''discovery.session_failed'' [(''session_id'', opt_uuid_text di)])
       (emit_if rb (failure_event e w j ch r ''execution.run_failed'' [(''run_record_id'', opt_uuid_text ri)])
       (emit_if ib (failure_event e w j ch r ''ideation.session_failed'' [(''hypothesis_session_id'', opt_uuid_text ii)])
         s5)))"
  have s': "s' = worker_emit e w ''job_failed'' ch (j_cycle_id j)
      [(''job_id'', JUuid (j_id j)), (''error'', error_json r)] ?t"
    using assms d a i x f by (simp add: persist_failure_def Let_def)
  have s5: "s5 = update_job (j_id j) (failed_row e (error_text r)) s4"
    using updated_job_Inr f by (simp add: fail_job_updated)
  have s4: "jobs s4 = jobs s" "cycles s4 = cycles s" "events s4 = events ?s"
    using mark_discovery_frame [OF d] mark_analysis_frame [OF a] mark_ideation_frame [OF i]
      mark_execution_frame [OF x] by simp_all
  have t: "jobs ?t = jobs s5" "cycles ?t = cycles s5" "log_agrees ?t = log_agrees s5"
    by (simp_all add: emit_if_frame log_agrees_failure_event status_event_types_def)
  show "jobs s' = jobs (update_job (j_id j) (failed_row e (error_text r)) s)" "cycles s' = cycles s"
    unfolding s' emit_event_sync_frame t unfolding s5 using s4 by (simp_all add: update_job_def)
  show "log_agrees s' = log_agrees s" if "plain_result r"
  proof -
    have "log_agrees s' = log_agrees s5" by (simp add: s' log_agrees_plain t status_event_types_def)
    also have "\<dots> = log_agrees ?s" by (rule log_agrees_cong) (simp_all add: s5 s4 update_job_def)
    finally show ?thesis by (simp add: log_agrees_operator_events that)
  qed
qed

definition completed_row :: "env \<Rightarrow> dict \<Rightarrow> job \<Rightarrow> job" where
  "completed_row e d j = j\<lparr>j_status := Js_completed, j_result := Some d, j_completed_at := Some (now e)\<rparr>"

definition paused_row :: "dict \<Rightarrow> job \<Rightarrow> job" where
  "paused_row d j = j\<lparr>j_status := Js_paused, j_result := Some d\<rparr>"

lemma outcome_rows [simp]:
  "j_id (failed_row e m j) = j_id j" "j_id (completed_row e d j) = j_id j" "j_id (paused_row d j) = j_id j"
  "j_status (failed_row e m j) = Js_failed" "j_status (completed_row e d j) = Js_completed"
  "j_status (paused_row d j) = Js_paused"
  by (simp_all add: failed_row_def completed_row_def paused_row_def)

lemma complete_pause_updated:
  "complete_job e k (Some d) = updated_job k (completed_row e d)" "pause_job k (Some d) = updated_job k (paused_row d)"
  by (rule ext, simp add: complete_job_def pause_job_def completed_row_def [abs_def] paused_row_def [abs_def])+

lemma persist_success_Inr:
  assumes "persist_success e w j ch r s = Inr s'"
  obtains s1 where "apply_state_patch e w (j_cycle_id j) ch (or_state_patch r)
      (persist_operator_events e w ch (j_cycle_id j) (or_events r) s) = Inr s1"
    "jobs s' = jobs (update_job (j_id j)
       (if j_status j = Js_paused then paused_row (result_dict r) else completed_row e (result_dict r)) s)"
    "cycles s' = cycles s1" "log_agrees s' = log_agrees s1"
proof -
  let ?f = "if j_status j = Js_paused then paused_row (result_dict r) else completed_row e (result_dict r)"
  obtain s1 where s1: "apply_state_patch e w (j_cycle_id j) ch (or_state_patch r)
      (persist_operator_events e w ch (j_cycle_id j) (or_events r) s) = Inr s1"
    using assms by (auto simp: persist_success_def res_bind_Inr_iff)
  have "jobs s1 = jobs s" using apply_state_patch_frame(1) [OF s1] by simp
  moreover obtain jj s2 et where s2: "updated_job (j_id j) ?f s1 = Inr (jj, s2)"
    and s': "s' = worker_emit e w et ch (j_cycle_id j) [(''job_id'', JUuid (j_id j))] s2" "et \<notin> status_event_types"
    using assms s1
    by (auto simp: persist_success_def res_bind_Inr_iff complete_pause_updated status_event_types_def split: if_splits)
  moreover have u: "s2 = update_job (j_id j) ?f s1" using updated_job_Inr [OF s2] by simp
  moreover have "log_agrees s2 = log_agrees s1" by (rule log_agrees_cong) (simp_all add: u update_job_def)
  ultimately show ?thesis
    by (intro that [OF s1]) (simp_all add: update_job_def log_agrees_plain)
qed

lemma get_job_update_other:
  "(\<And>j. j_id (f j) = j_id j) \<Longrightarrow> k' \<noteq> k \<Longrightarrow> get_job (update_job k f s) k' = get_job s k'"
  by (simp add: get_update_job)

text \<open>The row a job is left with.\<close>

definition outcome_row :: "env \<Rightarrow> op_result \<Rightarrow> job \<Rightarrow> job" where
  "outcome_row e r j =
    (if j_status j = Js_cancelled then j
     else if or_success r
     then (if j_status j = Js_paused then paused_row (result_dict r) j else completed_row e (result_dict r) j)
     else failed_row e (error_text r) j)"

lemma outcome_row_id [simp]: "j_id (outcome_row e r j) = j_id j"
  by (simp add: outcome_row_def)

lemma persist_outcome_jobs:
  assumes "persist_outcome e w k r s = Inr s'" and "get_job s k = Some j"
  shows "\<exists>f. jobs s' = jobs (update_job k f s) \<and> (\<forall>x. j_id (f x) = j_id x) \<and> f j = outcome_row e r j"
proof -
  have id: "j_id j = k" using assms(2) by (auto simp: get_job_def dest: table_get_Some_in)
  consider (cancelled) "j_status j = Js_cancelled" | (ok) "j_status j \<noteq> Js_cancelled" "or_success r"
    | (failed) "j_status j \<noteq> Js_cancelled" "\<not> or_success r" by blast
  then show ?thesis
  proof cases
    case cancelled
    then have "jobs s' = jobs s" using assms by (auto simp: persist_outcome_def Let_def)
    also have "\<dots> = jobs (update_job k id s)"
      by (auto simp: update_job_def update_where_def intro: map_idI [symmetric])
    finally show ?thesis using cancelled by (intro exI [of _ id]) (simp add: outcome_row_def)
  next
    case ok
    then have "persist_success e w j (resolve_charter_id s j) r s = Inr s'"
      using assms by (simp add: persist_outcome_def Let_def)
    then show ?thesis
    proof (rule persist_success_Inr)
      let ?f = "if j_status j = Js_paused then paused_row (result_dict r) else completed_row e (result_dict r)"
      assume "jobs s' = jobs (update_job (j_id j) ?f s)"
      then show ?thesis using ok id by (intro exI [of _ ?f]) (simp add: outcome_row_def)
    qed
  next
    case failed
    then have "persist_failure e w j (resolve_charter_id s j) r s = Inr s'"
      using assms by (simp add: persist_outcome_def Let_def)
    then show ?thesis using persist_failure_Inr(1) failed id
      by (intro exI [of _ "failed_row e (error_text r)"]) (simp add: outcome_row_def)
  qed
qed

lemma apply_state_patch_Inl:
  "(\<exists>err. apply_state_patch e w cy ch p s = Inl err) \<longleftrightarrow>
    (\<exists>k c. cy = Some k \<and> get_cycle s k = Some c \<and> patch_target p \<noteq> JNull \<and>
      (\<forall>t\<in>set (ALLOWED_TRANSITIONS (cy_status c)). patch_target p \<noteq> JStr (cycle_status_value t)))"
proof (cases "\<exists>k c. cy = Some k \<and> get_cycle s k = Some c \<and> patch_target p \<noteq> JNull")
  case False
  then show ?thesis by (auto simp: apply_state_patch_def split: option.splits)
next
  case True
  then obtain k c where k: "cy = Some k" "get_cycle s k = Some c" "patch_target p \<noteq> JNull" by blast
  show ?thesis
  proof (cases "CycleStatus_of (patch_target p)")
    case (Inl err)
    then have "patch_target p \<noteq> JStr (cycle_status_value t)" for t by auto
    then show ?thesis using k Inl by (auto simp: apply_state_patch_def)
  next
    case (Inr t)
    then have "patch_target p = JStr (cycle_status_value t)" by (rule CycleStatus_of_Inr)
    then show ?thesis using k by (auto simp: apply_state_patch_def validate_transition_def cycle_status_value_inj)
  qed
qed

text \<open>Primary keys are unique.\<close>

definition unique_keys :: "db \<Rightarrow> bool" where
  "unique_keys s \<longleftrightarrow> distinct (map dis_id (discoveries s)) \<and> distinct (map an_id (analyses s)) \<and>
     distinct (map hs_id (sessions s)) \<and> distinct (map rn_id (runs s))"

lemma scalar_key_ok:
  assumes "distinct (map key tbl)"
  shows "\<exists>x. scalar_one_or_none (filter (\<lambda>r. key r = k) tbl) = Inr x"
proof (cases "table_get key tbl k")
  case None
  then have "filter (\<lambda>r. key r = k) tbl = []" by (auto simp: table_get_None_iff filter_empty_conv)
  then show ?thesis by simp
next
  case (Some r)
  then show ?thesis by (simp add: filter_key_singleton [OF assms])
qed

lemma load_by_id_ok:
  assumes "distinct (map key tbl)" and "caught missing" and "caught absent"
  shows "\<exists>y. or_skip (res_bind (id_from_payload pk absent i) (load_by_id key missing tbl)) skip f = Inr y"
proof -
  have "\<exists>y. or_skip (load_by_id key missing tbl u) skip f = Inr y" for u
    using scalar_key_ok [OF assms(1), of u] assms(2)
    by (auto simp: load_by_id_def or_skip_def split: option.splits)
  then show ?thesis
    using assms(3) by (cases "dget (oi_payload i) pk") (auto simp: id_from_payload_def or_skip_def Let_def)
qed

lemma load_run_record_by_id:
  "load_run_record s = load_by_id rn_id (ExecutionStateError ''run record not found'') (runs s)"
  "run_record_id_from_payload =
     id_from_payload ''run_record_id'' (ExecutionStateError ''payload is missing run_record_id'')"
  by (rule ext, simp add: load_run_record_def load_by_id_def run_record_id_from_payload_def id_from_payload_def)+

lemma if_ok: "\<exists>y. m = Inr y \<Longrightarrow> \<exists>y. (if c then Inr a else m) = Inr y"
  by auto

lemmas mark_defs = mark_discovery_job_failed_def mark_analysis_job_failed_def mark_ideation_job_failed_def
  mark_execution_job_failed_def session_id_from_payload_def load_session_def analysis_session_id_from_payload_def
  load_analysis_session_def hypothesis_session_id_from_payload_def load_hypothesis_session_def load_run_record_by_id

lemma marks_ok:
  "distinct (map dis_id (discoveries s)) \<Longrightarrow> \<exists>y. mark_discovery_job_failed e j m s = Inr y"
  "distinct (map an_id (analyses s)) \<Longrightarrow> \<exists>y. mark_analysis_job_failed e j m s = Inr y"
  "distinct (map hs_id (sessions s)) \<Longrightarrow> \<exists>y. mark_ideation_job_failed e j m s = Inr y"
  "distinct (map rn_id (runs s)) \<Longrightarrow> \<exists>y. mark_execution_job_failed e j m s = Inr y"
  unfolding mark_defs by (rule if_ok, rule load_by_id_ok, assumption, simp, simp)+

lemma persist_failure_ok:
  assumes keys: "unique_keys s" and j: "get_job s (j_id j) = Some j"
  shows "\<exists>s'. persist_failure e w j ch r s = Inr s'"
proof -
  let ?s = "persist_operator_events e w ch (j_cycle_id j) (or_events r) s"
  obtain di db s1 where d: "mark_discovery_job_failed e j (error_text r) ?s = Inr (di, db, s1)"
    using marks_ok(1) [of ?s e j "error_text r"] keys by (auto simp: unique_keys_def simp del: split_paired_Ex)
  have s1: "analyses s1 = analyses s" "sessions s1 = sessions s"
    using d by (auto simp: mark_discovery_job_failed_def split: if_splits prod.splits dest!: or_skip_Inr)
  obtain ai pi ab s2 where a: "mark_analysis_job_failed e j (error_text r) s1 = Inr (ai, pi, ab, s2)"
    using marks_ok(2) [of s1 e j "error_text r"] keys s1 by (auto simp: unique_keys_def simp del: split_paired_Ex)
  have s2: "sessions s2 = sessions s"
    using a s1 by (auto simp: mark_analysis_job_failed_def split: if_splits prod.splits dest!: or_skip_Inr)
  obtain ii ib s3 where i: "mark_ideation_job_failed e j (error_text r) s2 = Inr (ii, ib, s3)"
    using marks_ok(3) [of s2 e j "error_text r"] keys s2 by (auto simp: unique_keys_def simp del: split_paired_Ex)
  have s3: "runs s3 = runs s"
    using mark_discovery_frame [OF d] mark_analysis_frame [OF a] mark_ideation_frame [OF i] by simp
  obtain ri rb s4 where x: "mark_execution_job_failed e j (error_text r) s3 = Inr (ri, rb, s4)"
    using marks_ok(4) [of s3 e j "error_text r"] keys s3 by (auto simp: unique_keys_def simp del: split_paired_Ex)
  have "jobs s4 = jobs s"
    using mark_discovery_frame [OF d] mark_analysis_frame [OF a] mark_ideation_frame [OF i]
      mark_execution_frame [OF x] by simp
  then have "get_job s4 (j_id j) = Some j" using j get_job_cong by metis
  from updated_job_some [OF this, of "failed_row e (error_text r)"] d a i x show ?thesis
    by (simp add: persist_failure_def Let_def fail_job_updated)
qed

section \<open>Properties\<close>

text \<open>
  C8: Persisting an outcome settles exactly the executed job, on every branch: a job cancelled meanwhile
  keeps its row, a successful one is completed with the result, or stays paused with the result when it
  was paused meanwhile, and a failed one is failed with the error text; no other job changes.  The row's
  claimant is not consulted, so this also holds for a worker whose job was reclaimed by another.
\<close>

theorem outcome_settles_job:
  assumes out: "persist_outcome e w k r s = Inr s'" and j: "get_job s k = Some j"
  shows "get_job s' k = Some
      (if j_status j = Js_cancelled then j
       else if \<not> or_success r
       then j\<lparr>j_status := Js_failed, j_error := Some (error_text r), j_completed_at := Some (now e)\<rparr>
       else if j_status j = Js_paused then j\<lparr>j_result := Some (result_dict r)\<rparr>
       else j\<lparr>j_status := Js_completed, j_result := Some (result_dict r), j_completed_at := Some (now e)\<rparr>) \<and>
    (\<forall>k'. k' \<noteq> k \<longrightarrow> get_job s' k' = get_job s k')"
proof -
  obtain f where f: "jobs s' = jobs (update_job k f s)" "\<And>x. j_id (f x) = j_id x" "f j = outcome_row e r j"
    using persist_outcome_jobs [OF out j] by blast
  have "get_job s' k = Some (outcome_row e r j)"
    using f get_update_job_same [of f k s] j by (simp add: get_job_cong [OF f(1)])
  moreover have "get_job s' k' = get_job s k'" if "k' \<noteq> k" for k'
    using get_job_update_other [of f, OF f(2) that] by (simp add: get_job_cong [OF f(1)])
  ultimately show ?thesis by (simp add: outcome_row_def failed_row_def completed_row_def paused_row_def)
qed

definition demo_job :: "job_status \<Rightarrow> job" where
  "demo_job st = \<lparr>j_id = 9, j_cycle_id = Some 4, j_type = ''echo'', j_status = st, j_payload = None, j_result = None,
     j_error = None, j_claimed_by = Some ''w1'', j_claimed_at = Some 10, j_heartbeat_at = None, j_priority = 0,
     j_created_at = 5, j_completed_at = None, j_reclaim_count = 0\<rparr>"

definition demo_running_cycle :: cycle where
  "demo_running_cycle = \<lparr>cy_id = 4, cy_charter_id = 3, cy_status = Cy_running, cy_config = None, cy_created_at = 1,
     cy_updated_at = 1, cy_started_at = Some 1, cy_completed_at = None\<rparr>"

definition demo_shop :: "job_status \<Rightarrow> db" where
  "demo_shop st = empty_db\<lparr>jobs := [demo_job st], cycles := [demo_running_cycle],
     events := [\<lparr>ev_id = 1, ev_charter_id = Some 3, ev_cycle_id = Some 4, ev_type = ''research_cycle_transitioned'',
       ev_payload = Some [(''from_status'', JStr ''protocol_ready''), (''to_status'', JStr ''running'')],
       ev_actor_type = Actor_user, ev_actor_id = None, ev_created_at = 1\<rparr>]\<rparr>"

lemma demo_shop_facts [simp]:
  "get_job (demo_shop st) 9 = Some (demo_job st)" "get_cycle (demo_shop st) 4 = Some demo_running_cycle"
  "j_id (demo_job st) = 9" "j_status (demo_job st) = st" "j_cycle_id (demo_job st) = Some 4"
  "jobs (demo_shop st) = [demo_job st]" "cycles (demo_shop st) = [demo_running_cycle]"
  "cy_status demo_running_cycle = Cy_running" "cy_id demo_running_cycle = 4"
  by (simp_all add: demo_shop_def get_job_def get_cycle_def demo_job_def demo_running_cycle_def)

lemma demo_persist:
  "\<exists>s'. persist_outcome demo_env ''w2'' 9 (op_patch Cy_verifying) (demo_shop Js_running) = Inr s'"
proof -
  have "\<exists>s1. apply_state_patch demo_env ''w2'' (Some 4) ch [(''cycle_status'', JStr ''verifying'')] s = Inr s1"
    if "get_cycle s 4 = Some demo_running_cycle" for ch s
  proof -
    have "Cy_verifying \<in> set (ALLOWED_TRANSITIONS Cy_running)" by simp
    then have "\<not> (\<exists>err. apply_state_patch demo_env ''w2'' (Some 4) ch [(''cycle_status'', JStr ''verifying'')] s = Inl err)"
      unfolding apply_state_patch_Inl using that by (auto simp: patch_target_def)
    then show ?thesis by (metis old.sum.exhaust)
  qed
  moreover have "get_cycle (persist_operator_events demo_env ''w2'' ch (Some 4) [] (demo_shop Js_running)) 4 =
      Some demo_running_cycle" for ch
    by (simp add: persist_operator_events_def)
  ultimately obtain s1 where s1: "apply_state_patch demo_env ''w2'' (Some 4)
      (resolve_charter_id (demo_shop Js_running) (demo_job Js_running)) [(''cycle_status'', JStr ''verifying'')]
      (persist_operator_events demo_env ''w2'' (resolve_charter_id (demo_shop Js_running) (demo_job Js_running))
         (Some 4) [] (demo_shop Js_running)) = Inr s1"
    by blast
  have "get_job s1 9 = Some (demo_job Js_running)"
    using apply_state_patch_frame(1) [OF s1] get_job_cong [of s1 "demo_shop Js_running"] by simp
  from updated_job_some [OF this, of "completed_row demo_env d" for d] show ?thesis
    using s1 by (simp add: persist_outcome_def persist_success_def Let_def complete_pause_updated OperatorResult_def)
qed

theorem outcome_settles_job_witness:
  "\<exists>s'. persist_outcome demo_env ''w2'' 9 (op_patch Cy_verifying) (demo_shop Js_running) = Inr s' \<and>
     map_option j_status (get_job s' 9) = Some Js_completed"
proof -
  obtain s' where s': "persist_outcome demo_env ''w2'' 9 (op_patch Cy_verifying) (demo_shop Js_running) = Inr s'"
    using demo_persist by blast
  from outcome_settles_job [OF s', of "demo_job Js_running"] s' show ?thesis by (simp add: OperatorResult_def)
qed

lemma persist_success_Inl:
  assumes j: "get_job s (j_id j) = Some j"
  shows "(\<exists>err. persist_success e w j ch r s = Inl err) \<longleftrightarrow>
    (\<exists>err. apply_state_patch e w (j_cycle_id j) ch (or_state_patch r)
      (persist_operator_events e w ch (j_cycle_id j) (or_events r) s) = Inl err)"
proof (cases "apply_state_patch e w (j_cycle_id j) ch (or_state_patch r)
      (persist_operator_events e w ch (j_cycle_id j) (or_events r) s)")
  case (Inl err)
  then show ?thesis by (simp add: persist_success_def)
next
  case (Inr s1)
  have "get_job s1 (j_id j) = Some j"
    using j apply_state_patch_frame(1) [OF Inr] get_job_cong [of s1 s] by simp
  note u = updated_job_some [OF this]
  show ?thesis
    using Inr u [of "paused_row (result_dict r)"] u [of "completed_row e (result_dict r)"]
    by (simp add: persist_success_def complete_pause_updated)
qed

text \<open>
  C10: With unique primary keys, persisting an outcome raises in exactly one situation: the job succeeded
  and was not cancelled, its cycle exists, and the status its result asks for is not an allowed
  transition from the cycle's status.  The loop has no handler for it, so the worker stops there with the
  job still running.
\<close>

theorem worker_stops_iff:
  assumes keys: "unique_keys s"
  shows "(\<exists>err. persist_outcome e w k r s = Inl err) \<longleftrightarrow>
    (\<exists>j cid c. get_job s k = Some j \<and> j_status j \<noteq> Js_cancelled \<and> or_success r \<and>
       j_cycle_id j = Some cid \<and> get_cycle s cid = Some c \<and> patch_target (or_state_patch r) \<noteq> JNull \<and>
       (\<forall>t\<in>set (ALLOWED_TRANSITIONS (cy_status c)). patch_target (or_state_patch r) \<noteq> JStr (cycle_status_value t)))"
proof (cases "get_job s k")
  case None
  then show ?thesis by (simp add: persist_outcome_def)
next
  case (Some j)
  then have id: "j_id j = k" by (auto simp: get_job_def dest: table_get_Some_in)
  note j = Some [folded id]
  show ?thesis
  proof (cases "j_status j \<noteq> Js_cancelled \<and> or_success r")
    case True
    have cyc: "get_cycle (persist_operator_events e w ch cy evs s) cid = get_cycle s cid" for ch cy evs cid
      by (rule get_cycle_cong) simp
    have "(\<exists>err. persist_outcome e w k r s = Inl err) \<longleftrightarrow>
        (\<exists>err. persist_success e w j (resolve_charter_id s j) r s = Inl err)"
      using True Some by (simp add: persist_outcome_def Let_def)
    then show ?thesis
      using True Some persist_success_Inl [OF j] by (simp add: apply_state_patch_Inl cyc)
  next
    case False
    have "\<exists>s'. persist_outcome e w k r s = Inr s'"
      using False Some persist_failure_ok [OF keys j] by (auto simp: persist_outcome_def Let_def)
    then show ?thesis using False Some by auto
  qed
qed

text \<open>A gate pause of a compile job asks for \<open>loop_deciding\<close> while the cycle is \<open>running\<close>.\<close>

theorem worker_stops_iff_witness:
  "unique_keys (demo_shop Js_running) \<and>
   (\<exists>err. persist_outcome demo_env ''w1'' 9 (op_patch Cy_loop_deciding) (demo_shop Js_running) = Inl err)"
proof -
  have keys: "unique_keys (demo_shop Js_running)" by (simp add: unique_keys_def demo_shop_def empty_db_def)
  have "patch_target (or_state_patch (op_patch Cy_loop_deciding)) = JStr ''loop_deciding''"
    "or_success (op_patch Cy_loop_deciding)"
    by (simp_all add: patch_target_def OperatorResult_def)
  then show ?thesis
    unfolding worker_stops_iff [OF keys] using keys by auto
qed

text \<open>
  C9: Whatever an operator returns, the worker moves a cycle only along the state machine, keeps every cycle
  row well formed, and keeps the event log a faithful record of every cycle's status, provided the
  operator's own events are not the two that record a status.
\<close>

theorem worker_keeps_cycle_log:
  assumes out: "persist_outcome e w k r s = Inr s'" and inv: "cycles_inv s" and log: "log_agrees s"
    and plain: "plain_result r"
  shows "cycles_inv s' \<and> log_agrees s' \<and>
    (\<forall>c\<in>set (cycles s). \<exists>c'\<in>set (cycles s'). cy_id c' = cy_id c \<and>
       (c' = c \<or> cy_status c' \<in> set (ALLOWED_TRANSITIONS (cy_status c))))"
proof -
  have same: ?thesis if "cycles s' = cycles s" "log_agrees s' = log_agrees s"
    using inv log that cycles_inv_cong [OF that(1)] by auto
  consider (gone) "get_job s k = None" | (cancelled) j where "get_job s k = Some j" "j_status j = Js_cancelled"
    | (failed) j where "get_job s k = Some j" "j_status j \<noteq> Js_cancelled" "\<not> or_success r"
    | (ok) j where "get_job s k = Some j" "j_status j \<noteq> Js_cancelled" "or_success r"
    by (cases "get_job s k") blast+
  then show ?thesis
  proof cases
    case gone
    then show ?thesis using out same by (simp add: persist_outcome_def)
  next
    case cancelled
    then show ?thesis
      using out same by (auto simp: persist_outcome_def Let_def log_agrees_plain status_event_types_def)
  next
    case failed
    then have "persist_failure e w j (resolve_charter_id s j) r s = Inr s'"
      using out by (simp add: persist_outcome_def Let_def)
    from persist_failure_Inr(2,3) [OF this] show ?thesis using same plain by blast
  next
    case ok
    let ?s = "persist_operator_events e w (resolve_charter_id s j) (j_cycle_id j) (or_events r) s"
    have "persist_success e w j (resolve_charter_id s j) r s = Inr s'"
      using out ok by (simp add: persist_outcome_def Let_def)
    then show ?thesis
    proof (rule persist_success_Inr)
      fix s1 assume p: "apply_state_patch e w (j_cycle_id j) (resolve_charter_id s j) (or_state_patch r) ?s = Inr s1"
        and s': "cycles s' = cycles s1" "log_agrees s' = log_agrees s1"
      have logs: "log_agrees ?s" using log plain by (simp add: log_agrees_operator_events)
      from apply_state_patch_Inr [OF p] show ?thesis
      proof (elim disjE exE conjE)
        assume "s1 = ?s"
        then show ?thesis using same s' log logs by simp
      next
        fix cid c t ch'
        assume c: "get_cycle ?s cid = Some c" and t: "t \<in> set (ALLOWED_TRANSITIONS (cy_status c))"
          and s1: "s1 = emit_event_sync e ''research_cycle_transitioned'' ch' (Some (cy_id c))
            (Some [(''from_status'', JStr (cycle_status_value (cy_status c))), (''to_status'', JStr (cycle_status_value t))])
            Actor_worker (Some w) (put_cycle (transitioned e t c) ?s)"
        have in_c: "c \<in> set (cycles s)" using c by (auto simp: get_cycle_def dest: table_get_Some_in)
        have dist: "distinct (map cy_id (cycles s))" and wf: "cycle_wf c" using inv in_c by (auto simp: cycles_inv_def)
        have "cycles_inv (put_cycle (transitioned e t c) ?s)"
          by (rule put_cycle_inv) (use inv wf t in \<open>simp_all add: cycles_inv_def transitioned_wf\<close>)
        moreover have "log_agrees s1"
          unfolding s1 by (rule log_agrees_put_emit) (simp_all add: logs dist)
        moreover have cs: "set (cycles s') = {x \<in> set (cycles s). cy_id x \<noteq> cy_id c} \<union> {transitioned e t c}"
          using in_c by (auto simp: s' s1 set_cycles_put)
        moreover have "x = c" if "x \<in> set (cycles s)" "cy_id x = cy_id c" for x
          using inj_onD [OF distinct_map [THEN iffD1, OF dist, THEN conjunct2], of x c] that in_c by simp
        ultimately show ?thesis using s' t by (auto simp: s1 cycles_inv_def)
      qed
    qed
  qed
qed

theorem worker_keeps_cycle_log_witness:
  "\<exists>s'. persist_outcome demo_env ''w2'' 9 (op_patch Cy_verifying) (demo_shop Js_running) = Inr s' \<and>
     cycles_inv s' \<and> log_agrees s'"
proof -
  obtain s' where s': "persist_outcome demo_env ''w2'' 9 (op_patch Cy_verifying) (demo_shop Js_running) = Inr s'"
    using demo_persist by blast
  have "cycles_inv (demo_shop Js_running)"
    by (simp add: cycles_inv_def cycle_wf_def) (simp add: demo_running_cycle_def)
  moreover have "log_agrees (demo_shop Js_running)"
    by (simp add: log_agrees_def) (simp add: demo_shop_def logged_status_def is_status_event_def event_status_def opt_dict_def)
  moreover have "plain_result (op_patch Cy_verifying)" by (simp add: plain_result_def OperatorResult_def)
  ultimately show ?thesis using worker_keeps_cycle_log [OF s'] s' by blast
qed

text \<open>
  A cancellation that lands between the worker's claim and its start is lost: the user's request
  succeeds, yet starting the job sets it back to running, with the completion time the cancellation wrote.
\<close>

theorem cancel_before_start_is_lost:
  assumes dist: "distinct (job_ids s)" and j: "get_job s k = Some j" and st: "j_status j = Js_claimed"
    and cancel: "api_cancel_job e k s = Inr (j1, s1)"
  shows "\<exists>j2 s2. begin_job e' w k s1 = Inr (j2, s2) \<and> j_status j1 = Js_cancelled \<and>
     j_status j2 = Js_running \<and> j_completed_at j2 = Some (now e) \<and> get_job s2 k = Some j2"
  using cancel unfolding api_cancel_job_def
proof (rule control_job_Inr)
  let ?f = "\<lambda>j. j\<lparr>j_status := Js_cancelled, j_completed_at := Some (now e)\<rparr>"
  let ?g = "\<lambda>j. j\<lparr>j_status := Js_running\<rparr>"
  fix x ch assume x: "x \<in> set (jobs s)" "j_id x = k" and j1: "j1 = ?f x"
    and s1: "s1 = emit_event_sync e ''job_cancelled'' ch (j_cycle_id x) (Some [(''job_id'', JUuid k)]) Actor_system None
            (update_job k ?f s)"
  have "get_job s k = Some x" using get_job_in [OF dist x(1)] x(2) by simp
  then have "get_job s1 k = Some (?f x)"
    using get_job_cong [of s1 "update_job k ?f s"] get_update_job_same [of ?f k s] by (simp add: s1)
  from updated_job_some [OF this, of ?g]
  have g: "start_job k s1 = Inr (?g (?f x), update_job k ?g s1)" by (simp add: start_job_def)
  have "get_job (update_job k ?g s1) k = Some (?g (?f x))"
    using \<open>get_job s1 k = Some (?f x)\<close> get_update_job_same [of ?g k s1] by simp
  then show ?thesis using g j1 by (simp add: begin_job_def get_job_def)
qed

theorem cancel_before_start_is_lost_witness:
  "\<exists>j1 s1 j2 s2. api_cancel_job demo_env 9 (demo_shop Js_claimed) = Inr (j1, s1) \<and>
     begin_job demo_env ''w1'' 9 s1 = Inr (j2, s2) \<and> j_status j1 = Js_cancelled \<and> j_status j2 = Js_running"
proof -
  have "\<exists>j1 s1. api_cancel_job demo_env 9 (demo_shop Js_claimed) = Inr (j1, s1)"
    by (simp add: api_cancel_job_def control_job_def api_get_job_def resolve_charter_id_for_job_def)
  then obtain j1 s1 where c: "api_cancel_job demo_env 9 (demo_shop Js_claimed) = Inr (j1, s1)" by blast
  have "distinct (job_ids (demo_shop Js_claimed))" by (simp add: job_ids_def)
  from cancel_before_start_is_lost [OF this demo_shop_facts(1) demo_shop_facts(4) c] c show ?thesis by blast
qed

section \<open>The decay gate\<close>

text \<open>The times at which a run of periodic ticks enqueued a decay job.\<close>

fun decay_times :: "worker_settings \<Rightarrow> env list \<Rightarrow> db \<Rightarrow> time list" where
  "decay_times cfg [] s = []"
| "decay_times cfg (e # es) s =
    (case run_periodic_tasks e cfg s of
       ((_, _, enq), s') \<Rightarrow> (if enq then [now e] else []) @ decay_times cfg es s')"

definition last_decay :: "db \<Rightarrow> time option" where
  "last_decay s = (case decay_state s of None \<Rightarrow> None | Some st \<Rightarrow> pj_last_enqueued_at st)"

lemma fold_reclaim_periodic [simp]:
  "periodic (fst (fold (reclaim_one e h m) js acc)) = periodic (fst acc)"
proof (induction js arbitrary: acc)
  case (Cons j js)
  obtain s a b where acc: "acc = (s, a, b)" by (cases acc)
  have "periodic (fst (reclaim_one e h m j acc)) = periodic (fst acc)"
    by (simp add: acc reclaim_one_def Let_def update_job_def)
  then show ?case using Cons by simp
qed simp

lemma reclaim_periodic [simp]: "periodic (snd (reclaim_stale_jobs e h m s)) = periodic s"
  using fold_reclaim_periodic [of e h m "filter (is_stale (reclaim_cutoff e h)) (jobs s)" "(s, 0, 0)"]
  by (cases "fold (reclaim_one e h m) (filter (is_stale (reclaim_cutoff e h)) (jobs s)) (s, 0, 0)")
     (simp add: reclaim_stale_jobs_def)

lemma last_decay_cong: "periodic s' = periodic s \<Longrightarrow> last_decay s' = last_decay s"
  by (simp add: last_decay_def decay_state_def)

lemma table_get_update_all:
  "(\<And>r. key (f r) = key r) \<Longrightarrow> table_get key (update_where (\<lambda>r. key r = k) f tbl) k = map_option f (table_get key tbl k)"
  by (induction tbl) auto

lemma create_job_periodic [simp]: "periodic (snd (create_job e c t p pr s)) = periodic s"
  by (simp add: create_job_def Let_def)

lemma maybe_enqueue_decay_last:
  assumes "maybe_enqueue_decay e cfg s = (enq, s')"
  shows "enq \<longleftrightarrow> (case last_decay s of None \<Rightarrow> True | Some t \<Rightarrow> t + decay_interval cfg \<le> now e)"
    and "last_decay s' = (if enq then Some (now e) else last_decay s)"
proof -
  show enq: "enq \<longleftrightarrow> (case last_decay s of None \<Rightarrow> True | Some t \<Rightarrow> t + decay_interval cfg \<le> now e)"
    using assms by (auto simp: maybe_enqueue_decay_def decay_gated_def last_decay_def split: option.splits prod.splits if_splits)
  show "last_decay s' = (if enq then Some (now e) else last_decay s)"
  proof (cases "decay_gated e cfg s")
    case True
    then show ?thesis using assms by (auto simp: maybe_enqueue_decay_def)
  next
    case False
    obtain j s1 where c: "create_job e None ''decay_patterns''
        (Some [(''max_staleness_days'', JInt (int (pattern_max_staleness_days cfg)))]) 0 s = (j, s1)"
      by fastforce
    have p: "periodic s1 = periodic s"
      using create_job_periodic [of e None "''decay_patterns''"
        "Some [(''max_staleness_days'', JInt (int (pattern_max_staleness_days cfg)))]" 0 s] c by simp
    have e: "enq" using assms False c by (auto simp: maybe_enqueue_decay_def)
    show ?thesis
    proof (cases "decay_state s")
      case None
      then show ?thesis using assms False c e p
        by (auto simp: maybe_enqueue_decay_def last_decay_def decay_state_def table_get_append)
    next
      case (Some st)
      then show ?thesis using assms False c e p
        by (auto simp: maybe_enqueue_decay_def last_decay_def decay_state_def table_get_update_all)
    qed
  qed
qed

lemma decay_times_spaced:
  "sorted_wrt (\<lambda>a b. a + decay_interval cfg \<le> b) (decay_times cfg es s) \<and>
   (\<forall>t. last_decay s = Some t \<longrightarrow> (\<forall>x\<in>set (decay_times cfg es s). t + decay_interval cfg \<le> x))"
proof (induction es arbitrary: s)
  case (Cons e es)
  obtain rc ex s1 where r: "reclaim_stale_jobs e (job_heartbeat_timeout_s cfg) (job_max_reclaims cfg) s = ((rc, ex), s1)"
    by (metis surj_pair)
  obtain enq s2 where m: "maybe_enqueue_decay e cfg s1 = (enq, s2)" by fastforce
  have l1: "last_decay s1 = last_decay s"
    using last_decay_cong [of s1 s] reclaim_periodic [of e "job_heartbeat_timeout_s cfg" "job_max_reclaims cfg" s] r by simp
  have times: "decay_times cfg (e # es) s = (if enq then [now e] else []) @ decay_times cfg es s2"
    by (simp add: run_periodic_tasks_def r m)
  have nonneg: "0 \<le> decay_interval cfg" by (simp add: decay_interval_def)
  note l2 = maybe_enqueue_decay_last [OF m]
  show ?case
  proof (cases enq)
    case True
    then have ih: "\<forall>x\<in>set (decay_times cfg es s2). now e + decay_interval cfg \<le> x"
      using Cons.IH [of s2] l2 by simp
    moreover have "t + decay_interval cfg \<le> now e" if "last_decay s = Some t" for t
      using l2(1) True l1 that by simp
    ultimately show ?thesis using Cons.IH [of s2] times True nonneg by force
  next
    case False
    then show ?thesis using Cons.IH [of s2] times l2(2) l1 by simp
  qed
qed simp

text \<open>
  C25: However often and whenever the periodic tasks run, including across restarts of the worker, decay jobs are
  enqueued at least the configured interval apart, and from the last recorded one.
\<close>

theorem decay_once_per_interval:
  "sorted_wrt (\<lambda>a b. a + decay_interval cfg \<le> b)
     ((case last_decay s of None \<Rightarrow> [] | Some t \<Rightarrow> [t]) @ decay_times cfg es s)"
  using decay_times_spaced [of cfg es s] by (cases "last_decay s") auto

end
