(* ===== verification/Loop_Worker.thy ===== *)
theory Loop_Worker
  imports Loop_Decide Worker
begin

text \<open>
  The loop decision run by the worker: what \<open>loop_decide_operator\<close> returns and commits is what the
  worker's registry dispatches to and its outcome handler accepts.
\<close>

section \<open>The operator leaves cycles alone\<close>

lemma loop_cycles_frame [simp]:
  "cycles (persist_decision e c d g n a s) = cycles s"
  "cycles (update_job k f s) = cycles s"
  "cycles (put_card h s) = cycles s"
  by (simp_all add: persist_decision_def update_job_def put_card_def)

lemma start_rerun_cycles: "start_rerun e c k s = (i, s1) \<Longrightarrow> cycles s1 = cycles s"
  by (auto simp: start_rerun_def Let_def enqueue_next_snd)

lemma leaf_cycles:
  "stop e c d why s = (r, s') \<Longrightarrow> cycles s' = cycles s \<and> or_events r = []"
  "pause_for_gate e c g s = (r, s') \<Longrightarrow> cycles s' = cycles s \<and> or_events r = []"
  by (auto simp: stop_def pause_for_gate_def Let_def OperatorResult_def)

lemma continue_cycles: "continue_current e c sp s = (r, s') \<Longrightarrow> cycles s' = cycles s \<and> or_events r = []"
  by (auto simp: continue_current_def Let_def OperatorResult_def split: prod.splits dest!: start_rerun_cycles)

lemma vary_cycles: "vary_parameters x e c sp sg fr s = Some (r, s') \<Longrightarrow> cycles s' = cycles s \<and> or_events r = []"
  by (auto simp: vary_parameters_def Let_def OperatorResult_def split: option.splits)

lemma pivot_compile_cycles: "pivot_compile e c nc s = (r, s') \<Longrightarrow> cycles s' = cycles s \<and> or_events r = []"
  by (auto simp: pivot_compile_def Let_def OperatorResult_def split: option.splits dest: leaf_cycles)

lemma pivot_existing_cycles:
  "pivot_existing x e c nc sp s = Inr (r, s') \<Longrightarrow> cycles s' = cycles s \<and> or_events r = []"
  by (auto simp: pivot_existing_def Let_def res_bind_Inr_iff OperatorResult_def split: option.splits prod.splits
      dest: leaf_cycles dest!: start_rerun_cycles)

lemma deprioritize_cycles [simp]: "cycles (deprioritize_current e c s) = cycles s"
  by (auto simp: deprioritize_current_def split: option.splits)

lemma pivot_cycles:
  assumes "pivot_hypothesis x e c s = Inr (r, s')"
  shows "cycles s' = cycles s \<and> or_events r = []"
proof (cases "next_viable_card (deprioritize_current e c s) (rn_cycle_id (lc_run c))")
  case None
  then show ?thesis using assms leaf_cycles(1) by (fastforce simp: pivot_hypothesis_def)
next
  case (Some nc)
  then show ?thesis
    using assms pivot_existing_cycles pivot_compile_cycles
    by (fastforce simp: pivot_hypothesis_def Let_def split: option.splits if_splits)
qed

lemma act_with_spec_cycles:
  assumes "act_with_spec x e c sp rt sg fr s = Inr (Some (r, s'))"
  shows "cycles s' = cycles s \<and> or_events r = []"
proof -
  have "(\<exists>g. pause_for_gate e c g s = (r, s')) \<or> continue_current e c sp s = (r, s') \<or>
      pivot_hypothesis x e c s = Inr (r, s') \<or> vary_parameters x e c sp sg fr s = Some (r, s')"
    using assms by (auto simp: act_with_spec_def res_bind_Inr_iff split: if_splits option.splits)
  then show ?thesis
    by (elim disjE exE) (erule leaf_cycles(2) continue_cycles pivot_cycles vary_cycles)+
qed

lemma act_cycles:
  assumes "act_on_recommendation x e c sg fr s = Inr (Some (r, s'))"
  shows "cycles s' = cycles s \<and> or_events r = []"
proof -
  have "(\<exists>d why. stop e c d why s = (r, s')) \<or> pivot_hypothesis x e c s = Inr (r, s') \<or>
     (\<exists>sp rt t. act_with_spec x e c sp rt sg fr t = Inr (Some (r, s')) \<and> cycles t = cycles s)"
    using assms by (auto simp: act_on_recommendation_def res_bind_Inr_iff Let_def split: if_splits option.splits) (force+)?
  then show ?thesis using leaf_cycles(1) pivot_cycles act_with_spec_cycles by metis
qed

lemma decide_cycles:
  assumes "decide_and_act x e c s = Inr (Some (r, s'))"
  shows "cycles s' = cycles s \<and> or_events r = []"
proof -
  from assms obtain c1 s1 where sm: "summarize_context x e c s = Inr (c1, s1)"
    by (auto simp: decide_and_act_def res_bind_Inr_iff)
  then have s1: "cycles s1 = cycles s"
    by (auto simp: summarize_context_def res_bind_Inr_iff split: if_splits)
  from assms sm obtain sg fr s2 where act: "act_on_recommendation x e c1 sg fr s2 = Inr (Some (r, s'))"
    and s2: "cycles s2 = cycles s1"
    by (auto simp: decide_and_act_def res_bind_Inr_iff split: option.splits dest!: update_hypothesis_status_Inr)
  show ?thesis using act_cycles [OF act] s1 s2 by simp
qed

lemma fresh_cycles:
  assumes "fresh_iteration x e c s = Inr (Some (r, s'))"
  shows "cycles s' = cycles s \<and> or_events r = []"
proof -
  have "(\<exists>d why. stop e c d why s = (r, s')) \<or> (\<exists>g. pause_for_gate e c g s = (r, s')) \<or>
      decide_and_act x e c s = Inr (Some (r, s'))"
    using assms by (auto simp: fresh_iteration_def res_bind_Inr_iff split: option.splits)
  then show ?thesis by (elim disjE exE) (erule leaf_cycles decide_cycles)+
qed

lemma budget_cycles:
  "load_or_create_budget e k s = Inr (b, s1) \<Longrightarrow> cycles s1 = cycles s"
  "charge_budget e c s = (c1, s2) \<Longrightarrow> cycles s2 = cycles s"
  by (auto simp: load_or_create_budget_def charge_budget_def increment_budget_def res_bind_Inr_iff Let_def
      split: option.splits)

lemma iteration_cycles:
  assumes "loop_iteration x e jid run rec sp pol s = Inr (Some (r, s'))"
  shows "cycles s' = cycles s \<and> or_events r = []"
  using assms
proof (cases rule: loop_iteration_cases)
  case (resumed b s1 d s2)
  then show ?thesis using decide_cycles [OF resumed(3)] budget_cycles(1) by metis
next
  case (fresh b s1 n c1 s2)
  then show ?thesis using fresh_cycles [OF fresh(5)] budget_cycles by metis
qed

text \<open>What a successful loop decision hands to the worker.\<close>

lemma loop_decide_hands_over:
  assumes op: "loop_decide_operator x e i s = (Inr r, s')" and ok: "or_success r"
  shows "cycles s' = cycles s \<and> or_events r = [] \<and>
    ((\<exists>t\<in>{Cy_running, Cy_reporting}. or_state_patch r = [(''cycle_status'', JStr (cycle_status_value t))]) \<and>
       (\<exists>j. jobs s' = jobs s @ [j] \<and> j_type j \<in> {''execution_setup'', ''protocol_compile'', ''loop_report''})
     \<or> or_state_patch r = [] \<and> jobs s' = jobs (update_job (oi_job_id i) (\<lambda>j. j\<lparr>j_status := Js_paused\<rparr>) s))"
proof (cases "dget (oi_payload i) ''prepared_run_record_id'' = JNull")
  case False
  then show ?thesis
    using op ok by (auto simp: loop_decide_operator_def loop_prepared_def enqueue_next_snd create_job_jobs OperatorResult_def
      split: sum.splits option.splits)
next
  case True
  obtain run rec sp pol s1 where s1: "jobs s1 = jobs s" "cycles s1 = cycles s"
    and it: "loop_iteration x e (oi_job_id i) run rec sp pol s1 = Inr (Some (r, s'))"
    using op ok True by (rule operator_iteration)
  obtain c where c: "lc_job_id c = oi_job_id i" "loop_outcome c s1 r s'" using iteration_outcome [OF it] by blast
  have "jobs (update_job k f s1) = jobs (update_job k f s)" for k f by (simp add: update_job_def s1)
  then show ?thesis using iteration_cycles [OF it] c s1 unfolding loop_outcome_def by auto
qed

lemma REGISTRY_iff:
  "REGISTRY handlers t = (if t \<in> set (discovery_job_types @ analysis_job_types @ ideation_job_types @ protocol_job_types @
       execution_job_types @ verification_job_types @ remediation_job_types @ autonomy_job_types @ pattern_job_types)
     then Some (handlers t) else if t = ''echo'' then Some echo_operator else None)"
proof -
  have "fold (\<lambda>t. register_operator t (handlers t)) ts reg t = (if t \<in> set ts then Some (handlers t) else reg t)" for ts reg
    by (induction ts arbitrary: reg) (auto simp: register_operator_def)
  then show ?thesis by (simp add: REGISTRY_def register_operator_def)
qed

lemma execute_loop_decide:
  assumes "handlers ''loop_decide'' = loop_decide_operator x e" and "oi_job_type i = ''loop_decide''"
  shows "execute (REGISTRY handlers) i s =
    (case loop_decide_operator x e i s of (Inl exc, s') \<Rightarrow> (op_fail ''Handler raised'', s') | (Inr r, s') \<Rightarrow> (r, s'))"
  using assms by (simp add: execute_def REGISTRY_iff autonomy_job_types_def)

text \<open>The status a settled loop decision leaves its cycle in, by the status of its job.\<close>

definition loop_settled :: "job_status \<Rightarrow> cycle_status \<Rightarrow> bool" where
  "loop_settled js cs \<longleftrightarrow>
     js = Js_completed \<and> cs \<in> {Cy_running, Cy_reporting} \<or> js \<in> {Js_paused, Js_failed} \<and> cs = Cy_loop_deciding"

lemma get_job_append: "get_job s k = Some j \<Longrightarrow> jobs s' = jobs s @ js \<Longrightarrow> get_job s' k = Some j"
  by (simp add: get_job_def table_get_append)

lemma table_get_replaced:
  "key r = k \<Longrightarrow> table_get key tbl k = Some q \<Longrightarrow> table_get key (update_where (\<lambda>x. key x = k) (\<lambda>_. r) tbl) k = Some r"
  by (induction tbl) (auto split: if_splits)

lemma ids_update_job: "(\<And>j. j_id (f j) = j_id j) \<Longrightarrow> j_id ` set (jobs (update_job k f s)) = j_id ` set (jobs s)"
  using job_ids_update_job [of f k s] by (simp add: job_ids_def flip: set_map)

lemma loop_success_settles:
  assumes j: "get_job s k = Some j" "j_status j \<noteq> Js_cancelled" "j_cycle_id j = Some cid"
    and c: "get_cycle s cid = Some c" "cy_status c = Cy_loop_deciding"
    and ok: "or_success r" "or_events r = []"
    and patch: "j_status j = Js_paused \<and> or_state_patch r = [] \<or> j_status j = Js_running \<and>
      (\<exists>t\<in>{Cy_running, Cy_reporting}. or_state_patch r = [(''cycle_status'', JStr (cycle_status_value t))])"
  shows "\<exists>s' j' c'. persist_outcome e w k r s = Inr s' \<and> get_job s' k = Some j' \<and> get_cycle s' cid = Some c' \<and>
    loop_settled (j_status j') (cy_status c')"
proof -
  have id: "j_id j = k" and cid: "cy_id c = cid"
    using j(1) c(1) by (auto simp: get_job_def get_cycle_def dest: table_get_Some_in)
  have "\<exists>t\<in>{Cy_running, Cy_reporting}.
      or_state_patch r = (if j_status j = Js_paused then [] else [(''cycle_status'', JStr (cycle_status_value t))])"
    using patch by (elim disjE conjE) auto
  then obtain t where t: "t \<in> {Cy_running, Cy_reporting}"
    "or_state_patch r = (if j_status j = Js_paused then [] else [(''cycle_status'', JStr (cycle_status_value t))])"
    by blast
  let ?s1 = "persist_operator_events e w (resolve_charter_id s j) (Some cid) (or_events r) s"
  have s1: "?s1 = s" by (simp add: ok persist_operator_events_def)
  have target: "patch_target (or_state_patch r) =
      (if j_status j = Js_paused then JNull else JStr (cycle_status_value t))"
    using t by (auto simp: patch_target_def)
  have "\<not> (\<exists>err. apply_state_patch e w (Some cid) (resolve_charter_id s j) (or_state_patch r) s = Inl err)"
    unfolding apply_state_patch_Inl using c t target by auto
  then obtain s2 where s2: "apply_state_patch e w (Some cid) (resolve_charter_id s j) (or_state_patch r) s = Inr s2"
    by (metis old.sum.exhaust)
  have out: "persist_outcome e w k r s = persist_success e w j (resolve_charter_id s j) r s"
    using j ok by (simp add: persist_outcome_def)
  have "\<not> (\<exists>err. persist_success e w j (resolve_charter_id s j) r s = Inl err)"
    unfolding persist_success_Inl [OF j(1) [folded id]] using j s1 s2 by simp
  then obtain s3 where s3: "persist_outcome e w k r s = Inr s3" unfolding out by (metis old.sum.exhaust)
  have "get_job s3 k = Some (outcome_row e r j)"
  proof -
    obtain f where f: "jobs s3 = jobs (update_job k f s)" "\<And>x. j_id (f x) = j_id x" "f j = outcome_row e r j"
      using persist_outcome_jobs [OF s3 j(1)] by blast
    then show ?thesis using get_update_job_same [of f k s] j by (simp add: get_job_cong [OF f(1)])
  qed
  moreover have "cycles s3 = cycles s2"
    using s3 [unfolded out] by (rule persist_success_Inr) (use j s1 s2 in simp)
  then have "get_cycle s3 cid = get_cycle s2 cid" by (rule get_cycle_cong)
  moreover have "\<exists>c'. get_cycle s2 cid = Some c' \<and>
      cy_status c' = (if j_status j = Js_paused then Cy_loop_deciding else t)"
    using s2 c cid t target
    by (auto simp: apply_state_patch_def res_bind_Inr_iff get_cycle_def put_cycle_def table_get_replaced split: if_splits)
  ultimately show ?thesis
    using s3 patch t by (auto simp: loop_settled_def outcome_row_def ok)
qed

text \<open>
  C7: A loop decision run by the worker always settles: from a cycle in \<open>loop_deciding\<close> and a running
  \<open>loop_decide\<close> job the outcome is accepted by the state machine (the worker does not stop), the job ends
  completed with the cycle in \<open>running\<close> or \<open>reporting\<close>, or paused at a gate or failed with the cycle still
  in \<open>loop_deciding\<close>, and any job the decision scheduled has a registered handler.
\<close>

theorem loop_decision_settles:
  assumes h: "handlers ''loop_decide'' = loop_decide_operator x e"
    and keys: "unique_keys s" and j: "get_job s k = Some j" "j_type j = ''loop_decide''" "j_status j = Js_running"
      "j_cycle_id j = Some cid"
    and c: "get_cycle s cid = Some c" "cy_status c = Cy_loop_deciding"
    and run: "execute (REGISTRY handlers) (build_operator_input s j) s = (r, s1)"
  shows "(\<exists>s2 j' c'. persist_outcome e w k r s1 = Inr s2 \<and> get_job s2 k = Some j' \<and> get_cycle s2 cid = Some c' \<and>
      loop_settled (j_status j') (cy_status c')) \<and>
    (\<forall>n\<in>set (jobs s1). j_id n \<notin> j_id ` set (jobs s) \<longrightarrow> REGISTRY handlers (j_type n) \<noteq> None)"
proof -
  let ?i = "build_operator_input s j"
  have id: "j_id j = k" using j by (auto simp: get_job_def dest: table_get_Some_in)
  have i: "oi_job_type ?i = ''loop_decide''" "oi_job_id ?i = k" using j id by (simp_all add: build_operator_input_def)
  obtain q s1' where q: "loop_decide_operator x e ?i s = (q, s1')" by (cases "loop_decide_operator x e ?i s")
  have ex: "(r, s1) = (case q of Inl exc \<Rightarrow> (op_fail ''Handler raised'', s1') | Inr r \<Rightarrow> (r, s1'))"
    using run execute_loop_decide [of handlers x e ?i, OF h i(1)] q by (simp split: sum.splits)
  show ?thesis
  proof (cases "\<exists>r. q = Inr r \<and> or_success r")
    case True
    then have qr: "q = Inr r" "or_success r" and s1': "s1' = s1" using ex by auto
    from q qr s1' have "loop_decide_operator x e ?i s = (Inr r, s1)" by simp
    note ho = loop_decide_hands_over [OF this qr(2)]
    have cyc: "get_cycle s1 cid = Some c" using ho c get_cycle_cong [of s1 s] by simp
    have f: "get_job (update_job k (\<lambda>j. j\<lparr>j_status := Js_paused\<rparr>) s) k = Some (j\<lparr>j_status := Js_paused\<rparr>)"
      using get_update_job_same [of "\<lambda>j. j\<lparr>j_status := Js_paused\<rparr>" k s] j by simp
    from ho have "\<exists>s2 j' c'. persist_outcome e w k r s1 = Inr s2 \<and> get_job s2 k = Some j' \<and> get_cycle s2 cid = Some c' \<and>
      loop_settled (j_status j') (cy_status c')"
    proof (elim conjE disjE exE)
      fix n assume "jobs s1 = jobs s @ [n]" "or_events r = []"
        "\<exists>t\<in>{Cy_running, Cy_reporting}. or_state_patch r = [(''cycle_status'', JStr (cycle_status_value t))]"
      then show ?thesis
        by (intro loop_success_settles [of s1 k j cid c]) (use j c cyc qr get_job_append [OF j(1)] in auto)
    next
      assume u: "jobs s1 = jobs (update_job (oi_job_id ?i) (\<lambda>j. j\<lparr>j_status := Js_paused\<rparr>) s)"
        and rest: "or_events r = []" "or_state_patch r = []"
      have "get_job s1 k = Some (j\<lparr>j_status := Js_paused\<rparr>)" using f get_job_cong [OF u] i by simp
      then show ?thesis
        by (intro loop_success_settles [of s1 k "j\<lparr>j_status := Js_paused\<rparr>" cid c]) (use j c cyc qr rest in auto)
    qed
    moreover have "REGISTRY handlers (j_type n) \<noteq> None" if n: "n \<in> set (jobs s1)" "j_id n \<notin> j_id ` set (jobs s)" for n
    proof -
      have "j_type n \<in> {''execution_setup'', ''protocol_compile'', ''loop_report''}"
        using ho n ids_update_job [of "\<lambda>j. j\<lparr>j_status := Js_paused\<rparr>" "oi_job_id ?i" s] by auto
      then show ?thesis
        by (auto simp: REGISTRY_iff execution_job_types_def protocol_job_types_def autonomy_job_types_def)
    qed
    ultimately show ?thesis by blast
  next
    case False
    then have s: "s1' = s" using operator_failure_unchanged [OF q] by blast
    have fail: "\<not> or_success r" "s1 = s" using ex False s by (auto split: sum.splits)
    obtain s2 where s2: "persist_failure e w j (resolve_charter_id s j) r s = Inr s2"
      using persist_failure_ok [OF keys j(1) [folded id]] by blast
    then have "persist_outcome e w k r s1 = Inr s2" using fail j by (simp add: persist_outcome_def)
    moreover have "get_job s2 k = Some (failed_row e (error_text r) j)"
      using persist_failure_Inr(1) [OF s2] get_job_cong [of s2] get_update_job_same [of "failed_row e (error_text r)" k s] j id
      by simp
    moreover have "get_cycle s2 cid = Some c" using persist_failure_Inr(2) [OF s2] get_cycle_cong [of s2 s] c by simp
    ultimately show ?thesis using fail c by (auto simp: loop_settled_def)
  qed
qed

definition demo_loop_shop :: db where
  "demo_loop_shop = demo_world\<lparr>jobs := [(demo_job Js_running)\<lparr>j_type := ''loop_decide'', j_payload := Some (oi_payload demo_loop_input)\<rparr>],
     cycles := [demo_running_cycle\<lparr>cy_status := Cy_loop_deciding\<rparr>]\<rparr>"

theorem loop_decision_settles_witness:
  "\<exists>r s1 s2 j' c'. execute (REGISTRY (\<lambda>_. loop_decide_operator (demo_ext net_policy) demo_env))
       (build_operator_input demo_loop_shop (the (get_job demo_loop_shop 9))) demo_loop_shop = (r, s1) \<and>
     persist_outcome demo_env ''w1'' 9 r s1 = Inr s2 \<and> get_job s2 9 = Some j' \<and> get_cycle s2 4 = Some c' \<and>
     loop_settled (j_status j') (cy_status c')"
proof -
  let ?h = "\<lambda>_::string. loop_decide_operator (demo_ext net_policy) demo_env"
  let ?j = "(demo_job Js_running)\<lparr>j_type := ''loop_decide'', j_payload := Some (oi_payload demo_loop_input)\<rparr>"
  have j: "get_job demo_loop_shop 9 = Some ?j" by (simp add: demo_loop_shop_def get_job_def)
  have jf: "j_type ?j = ''loop_decide''" "j_status ?j = Js_running" "j_cycle_id ?j = Some 4" by simp_all
  have c: "get_cycle demo_loop_shop 4 = Some (demo_running_cycle\<lparr>cy_status := Cy_loop_deciding\<rparr>)"
    "cy_status (demo_running_cycle\<lparr>cy_status := Cy_loop_deciding\<rparr>) = Cy_loop_deciding"
    by (simp_all add: demo_loop_shop_def get_cycle_def)
  have keys: "unique_keys demo_loop_shop"
    by (simp add: unique_keys_def demo_loop_shop_def demo_world_def empty_db_def)
  obtain r s1 where x: "execute (REGISTRY ?h) (build_operator_input demo_loop_shop ?j) demo_loop_shop = (r, s1)"
    by (cases "execute (REGISTRY ?h) (build_operator_input demo_loop_shop ?j) demo_loop_shop")
  from loop_decision_settles [of ?h, OF refl keys j jf c x] x j show ?thesis by (metis option.sel)
qed

end
