(* ===== verification/Autonomy_Service.thy ===== *)
theory Autonomy_Service
  imports Loop_Worker Experiment_Service
begin

text \<open>
  The autonomy API (\<open>apps/api/routers/autonomy.py\<close>): reading and updating the policy of a cycle, the budget
  and decision views, resuming a loop that waits at a gate, and stopping a loop by hand; and the report reader of
  \<open>libs/core/services/autonomy_service.py\<close>.

  \<open>validate\<close> is \<open>AutonomyPolicy.model_validate\<close>.  A request is one transaction, as in \<open>Experiment_Service\<close>.
\<close>

section \<open>Policy\<close>

definition get_autonomy_policy :: "(json \<Rightarrow> autonomy_policy res) \<Rightarrow> uuid \<Rightarrow> db \<Rightarrow> autonomy_policy res" where
  "get_autonomy_policy validate cycle_id s =
    (case get_cycle s cycle_id of
       None \<Rightarrow> Inl (HTTPException 404)
     | Some c \<Rightarrow> validate (dget_or (opt_dict (cy_config c)) ''autonomy'' (JObj [])))"

record policy_update =
  pu_mode :: "string option"
  pu_max_total_runs :: "int option"
  pu_max_wall_clock_hours :: "real option"
  pu_max_runs_per_hypothesis :: "int option"
  pu_max_wall_time_per_run_s :: "int option"
  pu_summary_interval :: "int option"
  pu_checkpoint_gates :: "checkpoint_gate_config option"

text \<open>\<open>body.model_dump(exclude_none=True)\<close>.\<close>

definition given :: "string \<Rightarrow> ('a \<Rightarrow> json) \<Rightarrow> 'a option \<Rightarrow> dict" where
  "given name f v = (case v of None \<Rightarrow> [] | Some x \<Rightarrow> [(name, f x)])"

definition gates_dump :: "checkpoint_gate_config \<Rightarrow> json" where
  "gates_dump g = JObj
    ([(''after_every_run'', JBool (after_every_run g))] @ given ''after_every_n_runs'' JInt (after_every_n_runs g) @
     [(''before_hardware_escalation'', JBool (before_hardware_escalation g)),
      (''before_result_promotion'', JBool (before_result_promotion g)),
      (''before_network_execution'', JBool (before_network_execution g))])"

definition update_dump :: "policy_update \<Rightarrow> dict" where
  "update_dump u =
     given ''mode'' JStr (pu_mode u) @ given ''max_total_runs'' JInt (pu_max_total_runs u) @
     given ''max_wall_clock_hours'' JFloat (pu_max_wall_clock_hours u) @
     given ''max_runs_per_hypothesis'' JInt (pu_max_runs_per_hypothesis u) @
     given ''max_wall_time_per_run_s'' JInt (pu_max_wall_time_per_run_s u) @
     given ''summary_interval'' JInt (pu_summary_interval u) @ given ''checkpoint_gates'' gates_dump (pu_checkpoint_gates u)"

text \<open>
  Assigning a JSON column: at the flush SQLAlchemy compares the new value with the object that was loaded and
  writes the column only if they differ.  \<open>loaded\<close> is that object as it is by then.
\<close>

definition flush_config :: "dict option \<Rightarrow> dict option \<Rightarrow> dict \<Rightarrow> dict option" where
  "flush_config stored loaded new =
    (case loaded of
       Some d \<Rightarrow> if py_eq (JObj d) (JObj new) then stored else Some new
     | None \<Rightarrow> Some new)"

text \<open>
  \<open>dict(cycle.config or {})\<close> copies the outer dictionary only: \<open>current\<close> is the dictionary inside the loaded
  object when there is one, and \<open>current.update\<close> changes that object, too.
\<close>

definition update_autonomy_policy ::
  "env \<Rightarrow> (json \<Rightarrow> autonomy_policy res) \<Rightarrow> uuid \<Rightarrow> policy_update \<Rightarrow> db \<Rightarrow> (autonomy_policy \<times> db) res" where
  "update_autonomy_policy e validate cycle_id body s =
    (case get_cycle s cycle_id of
       None \<Rightarrow> Inl (HTTPException 404)
     | Some c \<Rightarrow>
        let config = opt_dict (cy_config c);
            put = (\<lambda>current loaded.
              let new = dset config ''autonomy'' (JObj current)
              in res_bind (validate (JObj current)) (\<lambda>p.
                   Inr (p, put_cycle (c\<lparr>cy_config := flush_config (cy_config c) loaded new, cy_updated_at := now e\<rparr>) s)))
        in (case map_of config ''autonomy'' of
              None \<Rightarrow> put (dupdate [] (update_dump body)) (cy_config c)
            | Some (JObj d) \<Rightarrow>
                put (dupdate d (update_dump body)) (Some (dset config ''autonomy'' (JObj (dupdate d (update_dump body)))))
            | Some _ \<Rightarrow> Inl AttributeError))"

section \<open>Budget and decisions\<close>

definition get_autonomy_budget :: "uuid \<Rightarrow> db \<Rightarrow> autonomy_budget option res" where
  "get_autonomy_budget cycle_id s = scalar_one_or_none (filter (\<lambda>b. ab_cycle_id b = cycle_id) (budgets s))"

definition list_loop_decisions :: "uuid \<Rightarrow> db \<Rightarrow> loop_decision list" where
  "list_loop_decisions cycle_id s = sort_key ld_iteration_number (filter (\<lambda>d. ld_cycle_id d = cycle_id) (decisions s))"

definition get_loop_decision :: "uuid \<Rightarrow> uuid \<Rightarrow> db \<Rightarrow> loop_decision res" where
  "get_loop_decision cycle_id decision_id s =
     res_bind (scalar_one_or_none (filter (\<lambda>d. ld_id d = decision_id \<and> ld_cycle_id d = cycle_id) (decisions s))) or_404"

text \<open>The report bundle on disk; unreadable JSON counts as absent (\<open>loads\<close> is None).\<close>

definition report_path :: "string \<Rightarrow> uuid \<Rightarrow> string \<Rightarrow> string" where
  "report_path data_root cycle_id name = data_root @ ''/reports/cycles/'' @ uuid_str cycle_id @ ''/completion/'' @ name"

definition read_report_file ::
  "string \<Rightarrow> (string \<Rightarrow> json option) \<Rightarrow> uuid \<Rightarrow> db \<Rightarrow> string option \<times> json option" where
  "read_report_file data_root loads cycle_id s =
    (map_of (disk s) (report_path data_root cycle_id ''report.md''),
     Option.bind (map_of (disk s) (report_path data_root cycle_id ''report.json'')) loads)"

definition get_autonomy_report ::
  "string \<Rightarrow> (string \<Rightarrow> json option) \<Rightarrow> uuid \<Rightarrow> db \<Rightarrow> (string option \<times> json option) res" where
  "get_autonomy_report data_root loads cycle_id s =
    (let r = read_report_file data_root loads cycle_id s
     in if fst r = None \<and> snd r = None then Inl (HTTPException 404) else Inr r)"

section \<open>Resuming at a gate\<close>

definition resume_gate :: "env \<Rightarrow> uuid \<Rightarrow> db \<Rightarrow> (uuid \<times> db) res" where
  "resume_gate e cycle_id s =
    (case first_row (order_desc j_created_at
            (filter (\<lambda>j. j_cycle_id j = Some cycle_id \<and> j_type j = ''loop_decide'' \<and> j_status j = Js_paused) (jobs s))) of
       None \<Rightarrow> Inl (HTTPException 404)
     | Some j \<Rightarrow>
        Inr (j_id j, emit_event e ''autonomy.gate_resumed'' (map_option cy_charter_id (get_cycle s cycle_id)) (Some cycle_id)
          (Some [(''job_id'', JUuid (j_id j))]) Actor_system None
          (update_job (j_id j) (\<lambda>j. j\<lparr>j_status := Js_pending, j_claimed_by := None, j_claimed_at := None,
             j_heartbeat_at := None\<rparr>) s)))"

section \<open>Stopping by hand\<close>

definition budget_snapshot_of :: "autonomy_budget option \<Rightarrow> budget_snapshot" where
  "budget_snapshot_of b =
    (case b of None \<Rightarrow> \<lparr>bs_total_runs = 0, bs_wall_clock_elapsed_s = 0, bs_runs_per_hypothesis = []\<rparr>
     | Some b \<Rightarrow> \<lparr>bs_total_runs = ab_total_runs b, bs_wall_clock_elapsed_s = ab_wall_clock_elapsed_s b,
         bs_runs_per_hypothesis = ab_runs_per_hypothesis b\<rparr>)"

text \<open>The run and recommendation the manual decision refers to: the last decision's, else the newest recommendation's.\<close>

definition stop_anchor :: "uuid \<Rightarrow> db \<Rightarrow> (loop_decision option \<times> uuid \<times> uuid) option" where
  "stop_anchor cycle_id s =
    (case first_row (order_desc ld_created_at (filter (\<lambda>d. ld_cycle_id d = cycle_id) (decisions s))) of
       Some d \<Rightarrow> Some (Some d, ld_recommendation_id d, ld_run_id d)
     | None \<Rightarrow>
        map_option (\<lambda>r. (None, rr_id r, rr_run_id r))
          (first_row (order_desc rr_created_at (filter (\<lambda>r. rr_cycle_id r = cycle_id) (recommendations s)))))"

definition manual_decision ::
  "env \<Rightarrow> uuid \<Rightarrow> cycle \<Rightarrow> autonomy_budget option \<Rightarrow> loop_decision option \<Rightarrow> uuid \<Rightarrow> uuid \<Rightarrow> loop_decision" where
  "manual_decision e i c b last_decision rec_id run_id =
     \<lparr>ld_id = i, ld_cycle_id = cy_id c, ld_charter_id = cy_charter_id c, ld_run_id = run_id,
      ld_recommendation_id = rec_id,
      ld_iteration_number = (case last_decision of None \<Rightarrow> 1 | Some d \<Rightarrow> ld_iteration_number d + 1),
      ld_decision = ''stop_manual'', ld_gate_triggered = None, ld_budget_snapshot = budget_snapshot_of b,
      ld_card_id = Option.bind last_decision ld_card_id, ld_next_card_id = None, ld_next_action = None,
      ld_context_summary_path = Option.bind last_decision ld_context_summary_path, ld_created_at = now e\<rparr>"

definition record_stop :: "env \<Rightarrow> cycle \<Rightarrow> autonomy_budget option \<Rightarrow> db \<Rightarrow> db" where
  "record_stop e c b s =
    (case stop_anchor (cy_id c) s of
       None \<Rightarrow> s
     | Some (last_decision, rec_id, run_id) \<Rightarrow>
        (tick_uuid s)\<lparr>decisions := decisions s @ [manual_decision e (new_uuid e s) c b last_decision rec_id run_id]\<rparr>)"

text \<open>The cycle goes to reporting directly, not through the state machine.\<close>

definition stop_cycle :: "env \<Rightarrow> cycle \<Rightarrow> db \<Rightarrow> cycle \<times> db" where
  "stop_cycle e c s =
    (if cy_status c \<in> {Cy_loop_deciding, Cy_running}
     then let c' = c\<lparr>cy_status := Cy_reporting, cy_updated_at := now e\<rparr>
          in (c', snd (create_job e (Some (cy_id c)) ''loop_report'' (Some [(''cycle_id'', JUuid (cy_id c))]) 5 (put_cycle c' s)))
     else (c, s))"

definition cancel_jobs_of :: "uuid \<Rightarrow> db \<Rightarrow> db" where
  "cancel_jobs_of cycle_id =
     update_jobs (\<lambda>j. j_cycle_id j = Some cycle_id \<and> j_status j \<in> {Js_pending, Js_claimed, Js_running, Js_paused})
       (\<lambda>j. j\<lparr>j_status := Js_cancelled\<rparr>)"

definition stop_loop :: "env \<Rightarrow> uuid \<Rightarrow> db \<Rightarrow> (cycle_status \<times> db) res" where
  "stop_loop e cycle_id s =
    (case get_cycle s cycle_id of
       None \<Rightarrow> Inl (HTTPException 404)
     | Some c \<Rightarrow>
        let s1 = cancel_jobs_of cycle_id s
        in res_bind (scalar_one_or_none (filter (\<lambda>b. ab_cycle_id b = cycle_id) (budgets s1))) (\<lambda>b.
             case stop_cycle e c (record_stop e c b s1) of
               (c', s2) \<Rightarrow> Inr (cy_status c',
                 emit_event e ''autonomy.loop_stopped_manual'' (Some (cy_charter_id c)) (Some cycle_id)
                   (Some [(''reason'', JStr ''manual_stop'')]) Actor_system None s2)))"

section \<open>What a policy update writes\<close>

lemma py_eq_refl [simp]: "py_eq j j"
  by (simp add: py_eq_def)

lemma put_cycle_get:
  assumes "get_cycle s k = Some c" and "cy_id c' = k"
  shows "get_cycle (put_cycle c' s) k = Some c'"
proof -
  have "k \<in> cy_id ` set (cycles s)" using assms(1) by (auto simp: get_cycle_def dest: table_get_Some_in)
  then show ?thesis using assms(2) by (simp add: get_cycle_def put_cycle_def table_get_put)
qed

lemma canon_key: "py_eq (JObj a) (JObj b) \<Longrightarrow> fst ` set a = fst ` set b"
proof -
  have k: "fst ` set (sort_key fst (map (\<lambda>(k, v). (k, py_norm v)) d)) = fst ` set d" for d :: dict
    by (force simp: image_iff)
  assume "py_eq (JObj a) (JObj b)"
  then have "sort_key fst (map (\<lambda>(k, v). (k, py_norm v)) a) = sort_key fst (map (\<lambda>(k, v). (k, py_norm v)) b)"
    by (simp add: py_eq_def)
  then show ?thesis using k [of a] k [of b] by metis
qed

text \<open>
  Updating the policy of a cycle reports the updated policy, but stores it only when the cycle had no policy
  before: once there is one the flush finds nothing to write, and every later read sees the old policy.
\<close>

theorem policy_update_stored_iff_first:
  assumes up: "update_autonomy_policy e validate k body s = Inr (p, s')" and c: "get_cycle s k = Some c"
  shows "(map_of (opt_dict (cy_config c)) ''autonomy'' = None \<longrightarrow> get_autonomy_policy validate k s' = Inr p) \<and>
    (map_of (opt_dict (cy_config c)) ''autonomy'' \<noteq> None \<longrightarrow>
      map_option cy_config (get_cycle s' k) = Some (cy_config c) \<and>
      get_autonomy_policy validate k s' = get_autonomy_policy validate k s)"
proof (intro conjI impI)
  have k: "cy_id c = k" using c by (auto simp: get_cycle_def dest: table_get_Some_in)
  let ?cfg = "opt_dict (cy_config c)"
  assume none: "map_of ?cfg ''autonomy'' = None"
  let ?cur = "dupdate [] (update_dump body)"
  let ?new = "dset ?cfg ''autonomy'' (JObj ?cur)"
  have "''autonomy'' \<notin> fst ` set ?cfg" using none by (simp add: map_of_eq_None_iff)
  then have "\<not> py_eq (JObj d) (JObj ?new)" if "cy_config c = Some d" for d
    using canon_key [of d ?new] that by (auto simp: keys_dset opt_dict_def)
  then have f: "flush_config (cy_config c) (cy_config c) ?new = Some ?new"
    by (auto simp: flush_config_def split: option.splits)
  have "validate (JObj ?cur) = Inr p \<and> s' = put_cycle (c\<lparr>cy_config := Some ?new, cy_updated_at := now e\<rparr>) s"
    using up none f by (auto simp: update_autonomy_policy_def c Let_def res_bind_Inr_iff)
  then show "get_autonomy_policy validate k s' = Inr p"
    using put_cycle_get [OF c, of "c\<lparr>cy_config := Some ?new, cy_updated_at := now e\<rparr>"] k
    by (simp add: get_autonomy_policy_def opt_dict_def dget_or_def)
next
  have k: "cy_id c = k" using c by (auto simp: get_cycle_def dest: table_get_Some_in)
  let ?cfg = "opt_dict (cy_config c)"
  assume "map_of ?cfg ''autonomy'' \<noteq> None"
  then obtain d where d: "map_of ?cfg ''autonomy'' = Some (JObj d)"
    using up by (auto simp: update_autonomy_policy_def c Let_def split: json.splits)
  have s': "s' = put_cycle (c\<lparr>cy_config := cy_config c, cy_updated_at := now e\<rparr>) s"
    using up d by (auto simp: update_autonomy_policy_def c Let_def res_bind_Inr_iff flush_config_def)
  have g: "get_cycle s' k = Some (c\<lparr>cy_config := cy_config c, cy_updated_at := now e\<rparr>)"
    unfolding s' by (rule put_cycle_get [OF c]) (simp add: k)
  show "map_option cy_config (get_cycle s' k) = Some (cy_config c)" by (simp add: g)
  show "get_autonomy_policy validate k s' = get_autonomy_policy validate k s"
    by (simp add: get_autonomy_policy_def g c)
qed

section \<open>What a stop leaves behind\<close>

lemma record_stop_frame [simp]:
  "jobs (record_stop e c b s) = jobs s" "cycles (record_stop e c b s) = cycles s" "runs (record_stop e c b s) = runs s"
  by (simp_all add: record_stop_def split: option.splits prod.splits)

lemma cancel_jobs_of_frame [simp]:
  "cycles (cancel_jobs_of k s) = cycles s" "runs (cancel_jobs_of k s) = runs s" "budgets (cancel_jobs_of k s) = budgets s"
  "decisions (cancel_jobs_of k s) = decisions s" "recommendations (cancel_jobs_of k s) = recommendations s"
  by (simp_all add: cancel_jobs_of_def update_jobs_def)

lemma stop_loop_Inr:
  assumes "stop_loop e k s = Inr (st, s')"
  obtains c b c' s2 where "get_cycle s k = Some c" "scalar_one_or_none (filter (\<lambda>b. ab_cycle_id b = k) (budgets s)) = Inr b"
    "stop_cycle e c (record_stop e c b (cancel_jobs_of k s)) = (c', s2)" "st = cy_status c'"
    "s' = emit_event_sync e ''autonomy.loop_stopped_manual'' (Some (cy_charter_id c)) (Some k)
       (Some [(''reason'', JStr ''manual_stop'')]) Actor_system None s2"
proof (cases "get_cycle s k")
  case (Some c)
  obtain b where b: "scalar_one_or_none (filter (\<lambda>b. ab_cycle_id b = k) (budgets s)) = Inr b"
    using assms Some by (auto simp: stop_loop_def Let_def res_bind_Inr_iff)
  obtain c' s2 where "stop_cycle e c (record_stop e c b (cancel_jobs_of k s)) = (c', s2)"
    by (cases "stop_cycle e c (record_stop e c b (cancel_jobs_of k s))")
  then show ?thesis using assms Some b that by (simp add: stop_loop_def Let_def emit_event_eq_sync)
qed (use assms in \<open>simp add: stop_loop_def\<close>)

text \<open>
  A manual stop leaves no claimable or running job of the cycle but the report job it creates when the loop was
  running or deciding, in which case the cycle goes to reporting; it continues the numbering of decisions with one
  \<open>stop_manual\<close>, and leaves every run as it was.
\<close>

theorem stop_loop_spec:
  assumes ok: "stop_loop e k s = Inr (st, s')"
  shows "\<exists>c. get_cycle s k = Some c \<and> runs s' = runs s \<and>
    (if cy_status c \<in> {Cy_running, Cy_loop_deciding}
     then st = Cy_reporting \<and> get_cycle s' k = Some (c\<lparr>cy_status := Cy_reporting, cy_updated_at := now e\<rparr>) \<and>
       (\<exists>j. jobs s' = jobs (cancel_jobs_of k s) @ [j] \<and> j_type j = ''loop_report'' \<and> j_status j = Js_pending)
     else st = cy_status c \<and> get_cycle s' k = Some c \<and> jobs s' = jobs (cancel_jobs_of k s)) \<and>
    (\<forall>j\<in>set (jobs (cancel_jobs_of k s)). j_cycle_id j = Some k \<longrightarrow> j_status j \<in> terminal_jobs) \<and>
    (case stop_anchor k s of None \<Rightarrow> decisions s' = decisions s
     | Some (d, rec, r) \<Rightarrow> \<exists>m. decisions s' = decisions s @ [m] \<and> ld_decision m = ''stop_manual'' \<and>
         ld_run_id m = r \<and> ld_recommendation_id m = rec \<and>
         ld_iteration_number m = (case d of None \<Rightarrow> 1 | Some d \<Rightarrow> Suc (ld_iteration_number d)))"
proof -
  from stop_loop_Inr [OF ok] obtain c b c' s2
    where c: "get_cycle s k = Some c" and s2: "stop_cycle e c (record_stop e c b (cancel_jobs_of k s)) = (c', s2)"
      and st: "st = cy_status c'"
      and s': "s' = emit_event_sync e ''autonomy.loop_stopped_manual'' (Some (cy_charter_id c)) (Some k)
       (Some [(''reason'', JStr ''manual_stop'')]) Actor_system None s2" .
  have id: "cy_id c = k" "k \<in> cy_id ` set (cycles s)" using c by (auto simp: get_cycle_def dest: table_get_Some_in)
  have jobs: "\<forall>j\<in>set (jobs (cancel_jobs_of k s)). j_cycle_id j = Some k \<longrightarrow> j_status j \<in> terminal_jobs"
  proof (intro ballI impI)
    fix j assume j: "j \<in> set (jobs (cancel_jobs_of k s))" "j_cycle_id j = Some k"
    let ?P = "\<lambda>j. j_cycle_id j = Some k \<and> j_status j \<in> {Js_pending, Js_claimed, Js_running, Js_paused}"
    obtain j0 where "j = (if ?P j0 then j0\<lparr>j_status := Js_cancelled\<rparr> else j0)"
      using j(1) unfolding cancel_jobs_of_def update_jobs_frame set_update_where by blast
    then show "j_status j \<in> terminal_jobs" using j(2) by (cases "?P j0"; cases "j_status j0") auto
  qed
  have decs: "case stop_anchor k s of None \<Rightarrow> decisions s' = decisions s
     | Some (d, rec, r) \<Rightarrow> \<exists>m. decisions s' = decisions s @ [m] \<and> ld_decision m = ''stop_manual'' \<and>
         ld_run_id m = r \<and> ld_recommendation_id m = rec \<and>
         ld_iteration_number m = (case d of None \<Rightarrow> 1 | Some d \<Rightarrow> Suc (ld_iteration_number d))"
  proof -
    have a: "stop_anchor k (cancel_jobs_of k s) = stop_anchor k s" by (simp add: stop_anchor_def cong: option.case_cong)
    have "decisions s' = decisions (record_stop e c b (cancel_jobs_of k s))"
      using s' s2 by (auto simp: stop_cycle_def Let_def put_cycle_def split: if_splits)
    then show ?thesis
      by (simp add: record_stop_def id a manual_decision_def split: option.splits prod.splits)
  qed
  have cyc: "if cy_status c \<in> {Cy_running, Cy_loop_deciding}
     then st = Cy_reporting \<and> get_cycle s' k = Some (c\<lparr>cy_status := Cy_reporting, cy_updated_at := now e\<rparr>) \<and>
       (\<exists>j. jobs s' = jobs (cancel_jobs_of k s) @ [j] \<and> j_type j = ''loop_report'' \<and> j_status j = Js_pending)
     else st = cy_status c \<and> get_cycle s' k = Some c \<and> jobs s' = jobs (cancel_jobs_of k s)"
  proof (cases "cy_status c \<in> {Cy_running, Cy_loop_deciding}")
    case True
    let ?c = "c\<lparr>cy_status := Cy_reporting, cy_updated_at := now e\<rparr>" and ?s1 = "record_stop e c b (cancel_jobs_of k s)"
    have "get_cycle (put_cycle ?c ?s1) k = Some ?c"
      using id by (intro put_cycle_get [of _ k c]) (simp_all add: get_cycle_def c [unfolded get_cycle_def])
    then show ?thesis using True s2 st s'
      by (auto simp: stop_cycle_def Let_def get_cycle_def create_job_jobs)
  next
    case False
    then show ?thesis using s2 st s' c by (auto simp: stop_cycle_def get_cycle_def)
  qed
  have "runs s' = runs s" using s' s2 by (auto simp: stop_cycle_def Let_def split: if_splits)
  with c cyc jobs decs show ?thesis by blast
qed

section \<open>Stopping while a container runs\<close>

lemma capture_end_result:
  assumes "capture_end e run p n s = (r, s')"
  shows "or_state_patch r = [(''cycle_status'', JStr ''verifying'')] \<and> or_success r \<and>
    cycles s' = cycles s \<and> (\<exists>j. jobs s' = jobs s @ [j])"
  using assms
  by (auto simp: capture_end_def capture_completed_def capture_failed_def Let_def OperatorResult_def enqueue_next_snd
      create_job_jobs split: if_splits)

lemma forbidden_patch_raises:
  assumes j: "get_job s k = Some j" "j_status j = Js_running" "j_cycle_id j = Some cid" and ok: "or_success r"
    and c: "get_cycle s cid = Some c"
    and patch: "or_state_patch r = [(''cycle_status'', JStr (cycle_status_value t))]" "t \<notin> set (ALLOWED_TRANSITIONS (cy_status c))"
  shows "persist_outcome e w k r s = Inl (InvalidTransitionError (cycle_status_value (cy_status c)) (cycle_status_value t))"
proof -
  have t: "patch_target (or_state_patch r) = JStr (cycle_status_value t)"
    using patch(1) by (cases t) (simp_all add: patch_target_def)
  have c1: "get_cycle (persist_operator_events e w ch (Some cid) (or_events r) s) cid = Some c" for ch
    using c by (simp add: get_cycle_def)
  show ?thesis
    using j ok c1 patch(2)
    by (simp add: persist_outcome_def Let_def persist_success_def apply_state_patch_def t validate_transition_def)
qed

lemma load_run_record_get:
  assumes "load_run_record s k = Inr run"
  shows "table_get rn_id (runs s) k = Some run"
proof -
  have f: "filter (\<lambda>r. rn_id r = k) (runs s) = [run]"
    using assms by (auto simp: load_run_record_def res_bind_Inr_iff scalar_one_or_none_Some_iff split: option.splits)
  have "table_get key tbl k = first_row (filter (\<lambda>r. key r = k) tbl)" for key :: "run_record \<Rightarrow> uuid" and tbl
    by (induction tbl) (simp_all add: first_row_def)
  then show ?thesis by (simp add: f first_row_def)
qed

lemma stop_running_cycle:
  assumes stop: "stop_loop e k s = Inr (st, s1)" and c: "get_cycle s k = Some c" "cy_status c = Cy_running"
  shows "get_cycle s1 k = Some (c\<lparr>cy_status := Cy_reporting, cy_updated_at := now e\<rparr>)" and "runs s1 = runs s"
proof -
  from stop_loop_Inr [OF stop] obtain b c' sx
    where sx: "stop_cycle e c (record_stop e c b (cancel_jobs_of k s)) = (c', sx)"
      and s1: "s1 = emit_event_sync e ''autonomy.loop_stopped_manual'' (Some (cy_charter_id c)) (Some k)
       (Some [(''reason'', JStr ''manual_stop'')]) Actor_system None sx" using c(1) by (metis option.inject)
  have id: "cy_id c = k" using c by (auto simp: get_cycle_def dest: table_get_Some_in)
  let ?c = "c\<lparr>cy_status := Cy_reporting, cy_updated_at := now e\<rparr>" and ?s1 = "record_stop e c b (cancel_jobs_of k s)"
  show "runs s1 = runs s" using s1 sx by (auto simp: stop_cycle_def Let_def split: if_splits)
  have "get_cycle (put_cycle ?c ?s1) k = Some ?c"
    using id by (intro put_cycle_get [of _ k c]) (simp_all add: get_cycle_def c(1) [unfolded get_cycle_def])
  then show "get_cycle s1 k = Some ?c" using s1 sx c(2) by (auto simp: stop_cycle_def Let_def get_cycle_def)
qed

lemma finish_container_captures:
  assumes "finish_container x e1 rid (Inr oc, lines, s1) = (Inr res, s2)" and "oc_exit_code oc = 0"
    and "oc_terminal_state oc = ''completed''" and "table_get rn_id (runs s1) rid = Some run"
  obtains j where "jobs s2 = jobs s1 @ [j]" "cycles s2 = cycles s1" "j_type j = ''execution_capture''"
    "j_cycle_id j = Some (rn_cycle_id run)"
  using assms
  by (auto simp: finish_container_def after_container_def container_succeeded_def outcome_row_def Let_def enqueue_next_snd
      create_job_jobs)

text \<open>
  C37: Stopping a loop does not reach a container that is running: its row stays, the control callback keeps it
  going, and when it exits successfully the operator still schedules the capture of its artifacts.  That capture
  asks for the cycle to verify, which a cycle in reporting forbids: persisting its result raises, and with it the
  worker process ends.
\<close>

theorem stop_while_running_crashes_worker:
  assumes stop: "stop_loop e k s = Inr (st, s1)" and c: "get_cycle s k = Some c" "cy_status c = Cy_running"
    and run: "load_run_record s rid = Inr run" "rn_cycle_id run = k" "rn_status run = ''running''"
    and fin: "finish_container x e1 rid (Inr oc, lines, s1) = (Inr res, s2)" "oc_exit_code oc = 0" "oc_terminal_state oc = ''completed''"
    and ids: "distinct (job_ids s2)"
    and start: "start_job (j_id (last (jobs s2))) s2 = Inr (j, s3)"
    and capture: "execution_capture_operator py dir file e2 (build_operator_input s3 j) s3 = (Inr res2, s4)" "or_success res2"
  shows "(\<forall>e' t. \<exists>t' s'. control_callback e' rid t s1 = Inr (Ctl_none, t', s')) \<and> j_type j = ''execution_capture'' \<and>
    persist_outcome e3 w (j_id j) res2 s4 = Inl (InvalidTransitionError ''reporting'' ''verifying'')"
proof (intro conjI allI)
  note c1 = stop_running_cycle [OF stop c]
  show "\<exists>t' s'. control_callback e' rid t s1 = Inr (Ctl_none, t', s')" for e' t
    using run c1(2) by (simp add: control_callback_def load_run_record_def Let_def)
  have t: "table_get rn_id (runs s1) rid = Some run" using load_run_record_get [OF run(1)] c1(2) by simp
  obtain jj where jj: "jobs s2 = jobs s1 @ [jj]" "cycles s2 = cycles s1" "j_type jj = ''execution_capture''" "j_cycle_id jj = Some k"
    using finish_container_captures [OF fin t] run(2) by metis
  have g: "get_job s2 (j_id jj) = Some jj"
    using ids jj(1) table_get_unique [of j_id "jobs s2" jj] by (simp add: get_job_def job_ids_def)
  have j: "j = jj\<lparr>j_status := Js_running\<rparr>" and s3: "s3 = update_job (j_id jj) (\<lambda>j. j\<lparr>j_status := Js_running\<rparr>) s2"
    using start g jj(1) get_update_job_same [of "\<lambda>j. j\<lparr>j_status := Js_running\<rparr>" "j_id jj" s2]
    by (auto simp: start_job_def updated_job_def Let_def split: option.splits)
  show "j_type j = ''execution_capture''" using j jj(3) by simp
  obtain kk rr sp p where "capture_end e2 (captured_row dir rr p) p (length (collect_artifacts (dir kk))) s3 = (res2, s4)"
    using capture_operator_Inr [OF capture] by metis
  note ce = capture_end_result [OF this]
  have "get_job s3 (j_id jj) = Some j"
    using s3 j g get_update_job_same [of "\<lambda>j. j\<lparr>j_status := Js_running\<rparr>" "j_id jj" s2] by simp
  then have gj: "get_job s4 (j_id j) = Some j" using ce j by (auto simp: get_job_def table_get_append)
  have gc: "get_cycle s4 k = Some (c\<lparr>cy_status := Cy_reporting, cy_updated_at := now e\<rparr>)"
    using ce s3 jj(2) c1(1) by (simp add: get_cycle_def update_job_def)
  have "persist_outcome e3 w (j_id j) res2 s4 =
      Inl (InvalidTransitionError (cycle_status_value (cy_status (c\<lparr>cy_status := Cy_reporting, cy_updated_at := now e\<rparr>)))
        (cycle_status_value Cy_verifying))"
    by (rule forbidden_patch_raises [OF gj _ _ _ gc]) (use ce j jj(4) in simp_all)
  then show "persist_outcome e3 w (j_id j) res2 s4 = Inl (InvalidTransitionError ''reporting'' ''verifying'')" by simp
qed


definition demo_busy_run :: run_record where
  "demo_busy_run = demo_ready_run\<lparr>rn_status := ''running''\<rparr>"

definition demo_busy_world :: db where
  "demo_busy_world = empty_db\<lparr>cycles := [demo_running_cycle], runs := [demo_busy_run], specs := [demo_spec],
     uuid_calls := 7\<rparr>"

definition demo_exit :: run_outcome where
  "demo_exit = \<lparr>oc_exit_code = 0, oc_wall_time_s = 3, oc_resource_usage = [], oc_container_id = ''c1'',
     oc_terminal_state = ''completed'', oc_status_message = None\<rparr>"

lemma demo_busy_facts:
  "get_cycle demo_busy_world 4 = Some demo_running_cycle" "cy_status demo_running_cycle = Cy_running"
  "load_run_record demo_busy_world 20 = Inr demo_busy_run" "rn_cycle_id demo_busy_run = 4" "rn_status demo_busy_run = ''running''"
  by (simp_all add: demo_busy_world_def demo_busy_run_def demo_ready_run_def demo_running_cycle_def get_cycle_def
      load_run_record_def pending_run_def)

lemma demo_stop: "\<exists>s1. stop_loop demo_env 4 demo_busy_world = Inr (Cy_reporting, s1) \<and> specs s1 = [demo_spec] \<and>
    runs s1 = [demo_busy_run] \<and> job_ids s1 = [107] \<and> uuid_calls s1 = 9"
  unfolding stop_loop_def demo_busy_facts option.case Let_def
  by (simp add: stop_cycle_def record_stop_def stop_anchor_def demo_busy_world_def empty_db_def cancel_jobs_of_def
      update_jobs_def demo_running_cycle_def first_row_def order_desc_def put_cycle_def create_job_def emit_event_eq_sync
      Let_def job_ids_def new_uuid_def demo_env_def)

lemma demo_finish:
  assumes "specs s1 = [demo_spec]" "runs s1 = [demo_busy_run]" "job_ids s1 = [107]" "uuid_calls s1 = 9"
  shows "\<exists>res s2. finish_container demo_exec demo_env 20 (Inr demo_exit, [], s1) = (Inr res, s2) \<and>
    distinct (job_ids s2) \<and> specs s2 = [demo_spec] \<and> map rn_id (runs s2) = [20] \<and> map rn_spec_id (runs s2) = [1] \<and>
    get_job s2 (j_id (last (jobs s2))) = Some (last (jobs s2)) \<and>
    dget (opt_dict (j_payload (last (jobs s2)))) ''run_record_id'' = JUuid 20"
proof -
  have ids: "108 \<notin> set (map j_id (jobs s1))" "110 \<notin> set (map j_id (jobs s1))" using assms(3) by (simp_all add: job_ids_def)
  have b: "rn_id demo_busy_run = 20" "rn_spec_id demo_busy_run = 1" "rn_cycle_id demo_busy_run = 4"
    by (simp_all add: demo_busy_run_def demo_ready_run_def pending_run_def)
  have none: "table_get j_id (jobs s1) 110 = None" using ids by (simp add: table_get_None_iff)
  show ?thesis
    using assms ids none
    by (simp add: finish_container_def after_container_def container_succeeded_def outcome_row_def Let_def
        enqueue_next_snd create_job_def b demo_exit_def put_run_def emit_event_sync_def job_ids_def new_uuid_def demo_env_def
        get_job_def table_get_append opt_dict_def)
qed

lemma capture_without_metrics:
  assumes "map rn_id (runs s) = [20]" "map rn_spec_id (runs s) = [1]" "specs s = [demo_spec]"
    and "run_record_id_from_payload i = Inr 20"
  shows "\<exists>r s'. execution_capture_operator (xx_py demo_exec) (\<lambda>_. None) (\<lambda>_. Metrics_missing) demo_env i s = (Inr r, s') \<and>
    or_success r"
proof -
  obtain run where run: "runs s = [run]" "rn_id run = 20" "rn_spec_id run = 1" using assms(1,2) by auto
  have l: "load_run_record s 20 = Inr run" by (simp add: load_run_record_def run)
  have sp: "table_get sp_id (specs s) (rn_spec_id run) = Some demo_spec" by (simp add: assms(3) run demo_spec_def)
  obtain r s' where r: "capture_run (xx_py demo_exec) None Metrics_missing demo_env run demo_spec s = Inr (r, s')" "or_success r"
    by (simp add: capture_run_def parse_metrics_def parsed_ok_def capture_failed_def OperatorResult_def Let_def)
  then have "execution_capture_operator (xx_py demo_exec) (\<lambda>_. None) (\<lambda>_. Metrics_missing) demo_env i s = (Inr r, s')"
    unfolding execution_capture_operator_def with_run_id_def assms(4) sum.case with_spec_def l res_bind.simps sp option.case
    by (simp add: committed_def)
  with r show ?thesis by blast
qed

theorem stop_while_running_crashes_worker_witness:
  "\<exists>s1 res s2 j s3 r s4. stop_loop demo_env 4 demo_busy_world = Inr (Cy_reporting, s1) \<and>
     finish_container demo_exec demo_env 20 (Inr demo_exit, [], s1) = (Inr res, s2) \<and>
     start_job (j_id (last (jobs s2))) s2 = Inr (j, s3) \<and>
     execution_capture_operator (xx_py demo_exec) (\<lambda>_. None) (\<lambda>_. Metrics_missing) demo_env (build_operator_input s3 j) s3 = (Inr r, s4) \<and>
     persist_outcome demo_env ''w1'' (j_id j) r s4 = Inl (InvalidTransitionError ''reporting'' ''verifying'')"
proof -
  obtain s1 where s1: "stop_loop demo_env 4 demo_busy_world = Inr (Cy_reporting, s1)" "specs s1 = [demo_spec]"
    "runs s1 = [demo_busy_run]" "job_ids s1 = [107]" "uuid_calls s1 = 9"
    using demo_stop by blast
  obtain res s2 where s2: "finish_container demo_exec demo_env 20 (Inr demo_exit, [], s1) = (Inr res, s2)"
    "distinct (job_ids s2)" "specs s2 = [demo_spec]" "map rn_id (runs s2) = [20]" "map rn_spec_id (runs s2) = [1]"
    "get_job s2 (j_id (last (jobs s2))) = Some (last (jobs s2))"
    "dget (opt_dict (j_payload (last (jobs s2)))) ''run_record_id'' = JUuid 20"
    using demo_finish [OF s1(2-5)] by (elim exE conjE) (rule that; assumption)
  let ?f = "\<lambda>j. j\<lparr>j_status := Js_running\<rparr>" and ?k = "j_id (last (jobs s2))"
  have st: "start_job ?k s2 = Inr (?f (last (jobs s2)), update_job ?k ?f s2)"
    using s2(6) get_update_job_same [of ?f ?k s2] by (simp add: start_job_def updated_job_def Let_def)
  have i: "run_record_id_from_payload (build_operator_input (update_job ?k ?f s2) (?f (last (jobs s2)))) = Inr 20"
    using s2(7) by (simp add: run_record_id_from_payload_def build_operator_input_def)
  have frame: "map rn_id (runs (update_job ?k ?f s2)) = [20]" "map rn_spec_id (runs (update_job ?k ?f s2)) = [1]"
    "specs (update_job ?k ?f s2) = [demo_spec]" using s2(3-5) by (simp_all add: update_job_def)
  obtain r s4 where r: "execution_capture_operator (xx_py demo_exec) (\<lambda>_. None) (\<lambda>_. Metrics_missing) demo_env
      (build_operator_input (update_job ?k ?f s2) (?f (last (jobs s2)))) (update_job ?k ?f s2) = (Inr r, s4)" "or_success r"
    using capture_without_metrics [OF frame i] by blast
  have "oc_exit_code demo_exit = 0" "oc_terminal_state demo_exit = ''completed''" by (simp_all add: demo_exit_def)
  from stop_while_running_crashes_worker [OF s1(1) demo_busy_facts s2(1) this s2(2) st r] s1(1) s2(1) st r
  show ?thesis by blast
qed

theorem stop_loop_spec_witness:
  "\<exists>s'. stop_loop demo_env 4 demo_busy_world = Inr (Cy_reporting, s') \<and> runs s' = runs demo_busy_world"
  using demo_stop stop_loop_spec [of demo_env 4 demo_busy_world Cy_reporting] by blast

definition demo_policy_cycle :: cycle where
  "demo_policy_cycle = demo_running_cycle\<lparr>cy_config := Some [(''autonomy'', JObj [(''max_total_runs'', JInt 5)])]\<rparr>"

definition demo_policy_world :: db where
  "demo_policy_world = empty_db\<lparr>cycles := [demo_policy_cycle]\<rparr>"

definition demo_validate :: "json \<Rightarrow> autonomy_policy res" where
  "demo_validate j = Inr (AutonomyPolicy\<lparr>max_total_runs :=
     (case dget (as_dict j) ''max_total_runs'' of JInt n \<Rightarrow> Some n | _ \<Rightarrow> None)\<rparr>)"

definition demo_extension :: policy_update where
  "demo_extension = \<lparr>pu_mode = None, pu_max_total_runs = Some 50, pu_max_wall_clock_hours = None,
     pu_max_runs_per_hypothesis = None, pu_max_wall_time_per_run_s = None, pu_summary_interval = None,
     pu_checkpoint_gates = None\<rparr>"

theorem policy_update_stored_iff_first_witness:
  "\<exists>p s'. update_autonomy_policy demo_env demo_validate 4 demo_extension demo_policy_world = Inr (p, s') \<and>
     max_total_runs p = Some 50 \<and>
     get_autonomy_policy demo_validate 4 s' = Inr (AutonomyPolicy\<lparr>max_total_runs := Some 5\<rparr>)"
proof -
  have c: "get_cycle demo_policy_world 4 = Some demo_policy_cycle"
    by (simp add: demo_policy_world_def demo_policy_cycle_def demo_running_cycle_def get_cycle_def)
  have cfg: "cy_config demo_policy_cycle = Some [(''autonomy'', JObj [(''max_total_runs'', JInt 5)])]"
    by (simp add: demo_policy_cycle_def)
  obtain p s' where u: "update_autonomy_policy demo_env demo_validate 4 demo_extension demo_policy_world = Inr (p, s')"
    "max_total_runs p = Some 50"
    by (simp add: update_autonomy_policy_def c cfg Let_def demo_validate_def demo_extension_def update_dump_def given_def
        opt_dict_def)
  have old: "get_autonomy_policy demo_validate 4 demo_policy_world = Inr (AutonomyPolicy\<lparr>max_total_runs := Some 5\<rparr>)"
    by (simp add: get_autonomy_policy_def c cfg opt_dict_def dget_or_def demo_validate_def)
  have "get_autonomy_policy demo_validate 4 s' = get_autonomy_policy demo_validate 4 demo_policy_world"
    using policy_update_stored_iff_first [OF u(1) c] cfg by (simp add: opt_dict_def)
  with u old show ?thesis by metis
qed

end
