(* ===== verification/Remediation.thy ===== *)
theory Remediation
  imports Signals Patterns
begin

text \<open>
  Automatic remediation of failed runs: strategy selection (\<open>libs/remediation/strategies.py\<close>) and the
  operator \<open>auto_remediate\<close> (\<open>libs/remediation/operators/remediate.py\<close>), which records an attempt and
  either creates a retry run or hands the run to the postmortem.

  The regular expression for missing modules is spelled out as a scanner.  \<open>remedy_ext\<close> is what lies
  outside: the text conversions of the runtime, the embedding service and
  the debugging model, which answers with patched files or not at all.
\<close>

section \<open>Reading error text\<close>

definition is_quote :: "char \<Rightarrow> bool" where
  "is_quote c \<longleftrightarrow> c = CHR 39 \<or> c = CHR 34"

text \<open>\<open>[^'"]+['"]\<close>, and the first place after any text of the same line where it follows a quote.\<close>

definition quoted :: "string \<Rightarrow> (string \<times> string) option" where
  "quoted s =
    (let w = takeWhile (\<lambda>c. \<not> is_quote c) s; rest = dropWhile (\<lambda>c. \<not> is_quote c) s
     in if w = [] \<or> rest = [] then None else Some (w, tl rest))"

fun next_quoted :: "string \<Rightarrow> (string \<times> string) option" where
  "next_quoted [] = None"
| "next_quoted (c # cs) =
    (case (if is_quote c then quoted cs else None) of
       Some r \<Rightarrow> Some r
     | None \<Rightarrow> if c = CHR 10 then None else next_quoted cs)"

definition after_keyword :: "string \<Rightarrow> string option" where
  "after_keyword s =
    (let low = map char_lower s in
     if startswith low ''modulenotfounderror'' then Some (drop 19 s)
     else if startswith low ''importerror'' then Some (drop 11 s) else None)"

lemma quoted_shorter: "quoted s = Some (w, rest) \<Longrightarrow> length rest < length s"
proof -
  assume q: "quoted s = Some (w, rest)"
  then have "rest = tl (dropWhile (\<lambda>c. \<not> is_quote c) s)" "dropWhile (\<lambda>c. \<not> is_quote c) s \<noteq> []"
    by (auto simp: quoted_def Let_def split: if_splits)
  then have "length rest < length (dropWhile (\<lambda>c. \<not> is_quote c) s)" by simp
  also have "\<dots> \<le> length s" by (simp add: length_dropWhile_le)
  finally show ?thesis .
qed

lemma next_quoted_shorter: "next_quoted s = Some (w, rest) \<Longrightarrow> length rest < length s"
proof (induction s)
  case (Cons c cs)
  then show ?case using quoted_shorter [of cs w rest] by (auto split: if_splits option.splits)
qed simp

lemma after_keyword_shorter: "after_keyword s = Some rest \<Longrightarrow> length rest \<le> length s"
  by (auto simp: after_keyword_def Let_def split: if_splits)

text \<open>\<open>re.findall\<close>: the matches from left to right, each search starting where the last match ended.\<close>

function (sequential) find_modules :: "string \<Rightarrow> string list" where
  "find_modules [] = []"
| "find_modules (c # cs) =
    (case after_keyword (c # cs) of
       None \<Rightarrow> find_modules cs
     | Some rest \<Rightarrow>
        (case next_quoted rest of
           None \<Rightarrow> find_modules cs
         | Some (m, rest') \<Rightarrow> m # find_modules rest'))"
  by pat_completeness auto
termination
proof (relation "measure length")
  fix c cs rest m rest' and p :: "string \<times> string"
  assume a: "after_keyword (c # cs) = Some rest" "next_quoted rest = Some p" "(m, rest') = p"
  then have "length rest' < length rest" using next_quoted_shorter [of rest m rest'] by simp
  also have "\<dots> \<le> length (c # cs)" using a after_keyword_shorter by blast
  finally show "(rest', c # cs) \<in> measure length" by simp
qed auto

definition extract_missing_modules :: "string \<Rightarrow> string list" where
  "extract_missing_modules stderr_tail =
     take 10 (first_occurrences (map (takeWhile (\<lambda>c. c \<noteq> CHR 46)) (find_modules stderr_tail)))"

section \<open>Resource limits\<close>

definition py_int_text :: "pylib \<Rightarrow> string \<Rightarrow> int res" where
  "py_int_text py s = (case parse_int py s of None \<Rightarrow> Inl (ValueError s) | Some i \<Rightarrow> Inr i)"

definition parse_memory :: "pylib \<Rightarrow> json \<Rightarrow> int res" where
  "parse_memory py raw =
    (let m = map char_lower (py_strip (py_str (float_repr py) raw)) in
     if m \<noteq> [] \<and> last m = CHR 103 then py_int_text py (butlast m)
     else if m \<noteq> [] \<and> last m = CHR 109 then res_bind (py_int_text py (butlast m)) (\<lambda>i. Inr (max 1 (i div 1024)))
     else (case parse_int py m of None \<Rightarrow> Inr 16 | Some i \<Rightarrow> Inr i))"

definition MEMORY_CAP :: json where "MEMORY_CAP = JStr ''64g''"
definition TIMEOUT_CAP_SECONDS :: int where "TIMEOUT_CAP_SECONDS = 14400"

section \<open>Strategies\<close>

record strategy_result =
  st_strategy :: string
  st_tier :: string
  st_remediable :: bool
  st_reasoning :: string
  st_overrides :: dict

definition skip_result :: "string \<Rightarrow> strategy_result" where
  "skip_result why = \<lparr>st_strategy = ''skip'', st_tier = ''focused'', st_remediable = False, st_reasoning = why,
     st_overrides = []\<rparr>"

definition broad_debug_result :: "string \<Rightarrow> strategy_result" where
  "broad_debug_result why = \<lparr>st_strategy = ''debug_broad'', st_tier = ''broad'', st_remediable = True,
     st_reasoning = why, st_overrides = []\<rparr>"

definition focused_result :: "string \<Rightarrow> string \<Rightarrow> dict \<Rightarrow> strategy_result" where
  "focused_result strategy why overrides = \<lparr>st_strategy = strategy, st_tier = ''focused'', st_remediable = True,
     st_reasoning = why, st_overrides = overrides\<rparr>"

definition artifact_extension :: "string \<Rightarrow> string" where
  "artifact_extension path =
    (if CHR 46 \<in> set path then map char_lower (rev (takeWhile (\<lambda>c. c \<noteq> CHR 46) (rev path))) else [])"

text \<open>\<open>str(x.get("name", "")).strip()\<close> and \<open>str(x.get("path") or x.get("name") or "")\<close>.\<close>

definition stripped_name :: "pylib \<Rightarrow> json \<Rightarrow> string res" where
  "stripped_name py x = res_bind (jget_or x ''name'' (JStr [])) (\<lambda>n. Inr (py_strip (py_str (float_repr py) n)))"

definition path_or_name :: "pylib \<Rightarrow> json \<Rightarrow> string res" where
  "path_or_name py x =
    res_bind (jget_or x ''path'' JNull) (\<lambda>p. res_bind (jget_or x ''name'' JNull) (\<lambda>n.
      Inr (py_str (float_repr py) (if truthy p then p else if truthy n then n else JStr []))))"

definition missing_required :: "pylib \<Rightarrow> string list \<Rightarrow> json \<Rightarrow> bool res" where
  "missing_required py produced a =
    res_bind (jget_or a ''required'' (JBool True)) (\<lambda>req.
      if \<not> truthy req then Inr False
      else res_bind (stripped_name py a) (\<lambda>n. Inr (n \<noteq> [] \<and> n \<notin> set produced)))"

definition basename :: "string \<Rightarrow> string" where
  "basename path = last (split_char (CHR 47) path)"

definition patch_file :: "string \<Rightarrow> string \<Rightarrow> string \<Rightarrow> string" where
  "patch_file produced expected content =
    (let updated = py_replace produced expected content
     in if basename produced \<noteq> [] \<and> basename produced \<noteq> basename expected
        then py_replace (basename produced) (basename expected) updated else updated)"

fun patched_files :: "string \<Rightarrow> string \<Rightarrow> dict \<Rightarrow> dict" where
  "patched_files produced expected [] = []"
| "patched_files produced expected ((f, JStr content) # fs) =
    (let updated = patch_file produced expected content in
     (if updated \<noteq> content then [(f, JStr updated)] else []) @ patched_files produced expected fs)"
| "patched_files produced expected (_ # fs) = patched_files produced expected fs"

definition artifact_fix :: "string \<Rightarrow> string \<Rightarrow> string \<Rightarrow> string \<Rightarrow> json \<Rightarrow> strategy_result option res" where
  "artifact_fix expected_name expected_path produced_name produced_path code_plan =
    res_bind (jget_or code_plan ''files'' (JObj [])) (\<lambda>files.
      case files of
        JObj fs \<Rightarrow>
          (let patched = patched_files produced_path expected_path fs in
           if patched = [] then Inr None
           else Inr (Some (focused_result ''repair_artifact_path''
             (''Expected artifact '' @ [CHR 39] @ expected_name @ [CHR 39] @ '' was missing, but produced artifact '' @
              [CHR 39] @ (if produced_name \<noteq> [] then produced_name else produced_path) @ [CHR 39] @
              '' matched the extension. Rewriting file references to the expected artifact path.'')
             [(''code_plan'', JObj [(''patched_files'', JObj patched)]),
              (''artifact_rewrite'', JObj [(''from'', JStr produced_path), (''to'', JStr expected_path)])])))
      | _ \<Rightarrow> Inr None)"

definition select_invalid_artifact_fix :: "pylib \<Rightarrow> json \<Rightarrow> json \<Rightarrow> json \<Rightarrow> strategy_result option res" where
  "select_invalid_artifact_fix py expected_artifacts artifact_manifest code_plan =
    res_bind (py_iter (or_list artifact_manifest)) (\<lambda>manifest.
    res_bind (py_iter (or_list expected_artifacts)) (\<lambda>expecteds.
    res_bind (filter_res (\<lambda>x. res_bind (jget_or x ''name'' JNull) (\<lambda>n. Inr (truthy n))) manifest) (\<lambda>named.
    res_bind (map_res (stripped_name py) named) (\<lambda>produced_names.
    res_bind (filter_res (missing_required py produced_names) expecteds) (\<lambda>missing.
      case missing of
        [expected] \<Rightarrow>
          res_bind (stripped_name py expected) (\<lambda>expected_name.
          res_bind (jget_or expected ''path'' JNull) (\<lambda>p.
            let expected_path = py_strip (if truthy p then py_str (float_repr py) p else expected_name) in
            if expected_name = [] \<or> expected_path = [] then Inr None
            else res_bind (filter_res (\<lambda>x. res_bind (path_or_name py x) (\<lambda>q.
                   if artifact_extension q = artifact_extension expected_path
                   then res_bind (stripped_name py x) (\<lambda>n. Inr (n \<noteq> expected_name)) else Inr False)) manifest) (\<lambda>candidates.
              case candidates of
                [produced] \<Rightarrow>
                  res_bind (path_or_name py produced) (\<lambda>q.
                  res_bind (jget_or produced ''name'' JNull) (\<lambda>n.
                    let produced_path = py_strip q;
                        produced_name = py_strip (if truthy n then py_str (float_repr py) n else [])
                    in if produced_path = [] then Inr None
                       else artifact_fix expected_name expected_path produced_name produced_path (or_dict code_plan)))
              | _ \<Rightarrow> Inr None)))
      | _ \<Rightarrow> Inr None)))))"

definition needs_escalation :: "string \<Rightarrow> (string \<times> string) list \<Rightarrow> bool" where
  "needs_escalation failure_class prior \<longleftrightarrow> (\<exists>(s, fc)\<in>set prior. fc = failure_class \<and> s \<noteq> ''debug_broad'')"

definition dependency_strategy :: "string \<Rightarrow> strategy_result" where
  "dependency_strategy stderr_tail =
    (let missing = extract_missing_modules stderr_tail in
     if missing \<noteq> []
     then focused_result ''install_deps'' (''Missing modules detected: '' @ join_with '', '' missing @ ''.'')
            [(''build_recipe'', JObj [(''extra_pip_packages'', JList (map JStr missing))])]
     else broad_debug_result ''Dependency failure but could not parse missing module names.'')"

definition oom_strategy :: "pylib \<Rightarrow> json \<Rightarrow> strategy_result res" where
  "oom_strategy py limits =
    res_bind (jget_or limits ''memory'' (JStr ''16g'')) (\<lambda>raw.
    res_bind (parse_memory py raw) (\<lambda>current.
    res_bind (parse_memory py MEMORY_CAP) (\<lambda>cap.
      let new = min (current * 2) cap in
      Inr (if new \<le> current then skip_result ''Memory already at cap (64g).''
           else focused_result ''increase_memory''
             (''Doubling memory from '' @ int_str current @ ''GB to '' @ int_str new @ ''GB.'')
             [(''run_resource_limits'', JObj [(''memory'', JStr (int_str new @ ''g''))])]))))"

definition timeout_strategy :: "pylib \<Rightarrow> json \<Rightarrow> strategy_result res" where
  "timeout_strategy py limits =
    res_bind (jget_or limits ''timeout'' (JInt 3600)) (\<lambda>raw.
    res_bind (py_int py raw) (\<lambda>current.
      let new = min (trunc (of_int current * 3 / 2)) TIMEOUT_CAP_SECONDS in
      Inr (if new \<le> current then skip_result ''Timeout already at cap (14400s).''
           else focused_result ''extend_timeout''
             (''Increasing timeout from '' @ int_str current @ ''s to '' @ int_str new @ ''s.'')
             [(''run_resource_limits'', JObj [(''timeout'', JInt new)])])))"

definition artifact_strategy :: "pylib \<Rightarrow> json \<Rightarrow> json \<Rightarrow> json \<Rightarrow> strategy_result res" where
  "artifact_strategy py expected manifest code_plan =
    res_bind (select_invalid_artifact_fix py expected manifest code_plan) (\<lambda>fix_result.
      Inr (case fix_result of Some f \<Rightarrow> f
           | None \<Rightarrow> broad_debug_result ''Invalid artifact output was ambiguous; escalating to broad debug.''))"

definition select_strategy ::
  "pylib \<Rightarrow> string \<Rightarrow> string \<Rightarrow> json \<Rightarrow> (string \<times> string) list \<Rightarrow> json \<Rightarrow> json \<Rightarrow> json \<Rightarrow> strategy_result res" where
  "select_strategy py failure_class stderr_tail resource_limits prior expected manifest code_plan =
    (let escalate = needs_escalation failure_class prior; limits = or_dict resource_limits in
     if failure_class = ''metric_parse'' then Inr (skip_result ''Metric parse failures are not auto-remediable.'')
     else if failure_class = ''dependency'' then
       Inr (if escalate then broad_debug_result ''Focused dep-install already tried; escalating to broad debug.''
            else dependency_strategy stderr_tail)
     else if failure_class = ''oom'' then
       (if escalate then Inr (broad_debug_result ''OOM after memory increase; escalating to broad debug.'')
        else oom_strategy py limits)
     else if failure_class = ''timeout'' then
       (if escalate then Inr (broad_debug_result ''Timeout after increase; escalating to broad debug.'')
        else timeout_strategy py limits)
     else if failure_class = ''invalid_artifact'' then
       (if escalate then Inr (broad_debug_result ''Artifact fix already tried; escalating to broad debug.'')
        else artifact_strategy py expected manifest code_plan)
     else if failure_class = ''runtime'' then
       Inr (broad_debug_result ''Runtime exception; LLM analysis needed for code fix.'')
     else Inr (skip_result (''Unknown failure class '' @ [CHR 39] @ failure_class @ [CHR 39] @ ''; cannot auto-remediate.'')))"

section \<open>The operator\<close>

record remedy_ext =
  rx_py :: pylib
  rx_embed_text :: "string \<Rightarrow> real list option"
  rx_broad_debug :: "string \<Rightarrow> json \<Rightarrow> json \<Rightarrow> pattern_match list \<Rightarrow> dict option"

definition DEFAULT_MAX_ATTEMPTS :: nat where "DEFAULT_MAX_ATTEMPTS = 3"

definition failure_class_of :: "run_record \<Rightarrow> string" where
  "failure_class_of r = (case rn_failure_class r of None \<Rightarrow> ''unknown'' | Some c \<Rightarrow> if c = [] then ''unknown'' else c)"

definition action_row ::
  "env \<Rightarrow> uuid \<Rightarrow> run_record \<Rightarrow> uuid option \<Rightarrow> string \<Rightarrow> string \<Rightarrow> json \<Rightarrow> string \<Rightarrow> nat \<Rightarrow> remediation_action" where
  "action_row e i run retry strategy tier detail outcome attempt =
     \<lparr>ra_id = i, ra_run_id = rn_id run, ra_retry_run_id = retry, ra_charter_id = rn_charter_id run,
      ra_cycle_id = rn_cycle_id run, ra_spec_id = rn_spec_id run, ra_failure_class = failure_class_of run,
      ra_strategy = strategy, ra_strategy_tier = tier, ra_action_detail = detail, ra_outcome = outcome,
      ra_attempt_number = attempt, ra_max_attempts = DEFAULT_MAX_ATTEMPTS, ra_created_at = now e\<rparr>"

definition add_action ::
  "env \<Rightarrow> run_record \<Rightarrow> uuid option \<Rightarrow> string \<Rightarrow> string \<Rightarrow> json \<Rightarrow> string \<Rightarrow> nat \<Rightarrow> db \<Rightarrow> db" where
  "add_action e run retry strategy tier detail outcome attempt s =
     (tick_uuid s)\<lparr>actions := actions s @ [action_row e (new_uuid e s) run retry strategy tier detail outcome attempt]\<rparr>"

abbreviation run_emit :: "env \<Rightarrow> run_record \<Rightarrow> string \<Rightarrow> dict \<Rightarrow> db \<Rightarrow> db" where
  "run_emit e run et payload \<equiv> emit_sys e et (rn_charter_id run) (rn_cycle_id run) payload"

definition to_postmortem :: "env \<Rightarrow> run_record \<Rightarrow> db \<Rightarrow> op_result \<times> db" where
  "to_postmortem e run s =
     (OperatorResult, enqueue_next_phase4 e (rn_cycle_id run) ''verification_postmortem'' (rn_id run) [] s)"

definition remediation_exhausted :: "env \<Rightarrow> run_record \<Rightarrow> nat \<Rightarrow> db \<Rightarrow> op_result \<times> db" where
  "remediation_exhausted e run attempt s =
     to_postmortem e run
       (run_emit e run ''remediation.exhausted''
          [(''run_record_id'', JUuid (rn_id run)), (''attempt_number'', JInt (int attempt)),
           (''max_attempts'', JInt (int DEFAULT_MAX_ATTEMPTS))]
          (add_action e run None ''skip'' ''focused'' JNull ''exhausted'' attempt s))"

definition remediation_skipped :: "env \<Rightarrow> run_record \<Rightarrow> strategy_result \<Rightarrow> nat \<Rightarrow> db \<Rightarrow> op_result \<times> db" where
  "remediation_skipped e run strat attempt s =
     to_postmortem e run
       (run_emit e run ''remediation.skipped''
          [(''run_record_id'', JUuid (rn_id run)),
           (''failure_class'', case rn_failure_class run of None \<Rightarrow> JNull | Some c \<Rightarrow> JStr c),
           (''reason'', JStr (st_reasoning strat))]
          (add_action e run None (st_strategy strat) (st_tier strat) JNull ''skipped'' attempt s))"

definition debug_without_fix :: "env \<Rightarrow> run_record \<Rightarrow> nat \<Rightarrow> db \<Rightarrow> op_result \<times> db" where
  "debug_without_fix e run attempt s =
     to_postmortem e run (add_action e run None ''debug_broad'' ''broad'' JNull ''skipped'' attempt s)"

text \<open>The patterns handed to the debugging model: those recorded for the same failure class.\<close>

definition pattern_hints :: "run_record \<Rightarrow> pattern_match list \<Rightarrow> pattern_match list" where
  "pattern_hints run ms =
     filter (\<lambda>m. dget (cp_structured_body (pmt_pattern m)) ''failure_class'' = JStr (failure_class_of run)) ms"

definition prior_detail :: "remediation_action list \<Rightarrow> json" where
  "prior_detail acts = JList (map (\<lambda>a. JObj [(''strategy'', JStr (ra_strategy a)),
     (''failure_class'', JStr (ra_failure_class a)), (''outcome'', JStr (ra_outcome a))]) acts)"

definition dpop :: "dict \<Rightarrow> string \<Rightarrow> dict" where
  "dpop d k = filter (\<lambda>(k', _). k' \<noteq> k) d"

definition remediation_payload :: "dict \<Rightarrow> dict" where
  "remediation_payload overrides =
    (let ov = (case map_of overrides ''code_plan'' of None \<Rightarrow> [] | Some v \<Rightarrow> [(''code_plan'', v)]) @
              (case map_of overrides ''build_recipe'' of None \<Rightarrow> [] | Some v \<Rightarrow> [(''build_recipe'', v)])
     in if ov = [] then [] else [(''remediation_overrides'', JObj ov)])"

definition retry_limits :: "run_record \<Rightarrow> dict \<Rightarrow> dict" where
  "retry_limits run overrides =
    (let limits = as_dict (or_dict (rn_resource_limits run))
     in case map_of overrides ''run_resource_limits'' of Some v \<Rightarrow> dupdate limits (as_dict v) | None \<Rightarrow> limits)"

definition retry_row :: "env \<Rightarrow> uuid \<Rightarrow> run_record \<Rightarrow> dict \<Rightarrow> run_record" where
  "retry_row e i run limits =
     (pending_run e i (rn_spec_id run) (rn_charter_id run) (rn_cycle_id run) (Some (rn_id run)) (rn_run_number run + 1))
       \<lparr>rn_resource_limits := (if limits = [] then JNull else JObj limits)\<rparr>"

definition create_retry ::
  "env \<Rightarrow> run_record \<Rightarrow> strategy_result \<Rightarrow> dict \<Rightarrow> nat \<Rightarrow> db \<Rightarrow> op_result \<times> db" where
  "create_retry e run strat overrides0 attempt s =
    (let overrides = dpop overrides0 ''run_resource_limits'';
         i = new_uuid e s;
         s1 = add_run (retry_row e i run (retry_limits run overrides0)) s;
         s2 = add_action e run (Some i) (st_strategy strat) (st_tier strat)
                (if overrides = [] then JNull else JObj overrides) ''retry_created'' attempt s1;
         s3 = run_emit e run ''remediation.retry_created''
                [(''run_record_id'', JUuid (rn_id run)), (''retry_run_id'', JUuid i),
                 (''strategy'', JStr (st_strategy strat)), (''strategy_tier'', JStr (st_tier strat)),
                 (''attempt_number'', JInt (int attempt))] s2
     in (op_patch Cy_running,
         enqueue_next_phase4 e (rn_cycle_id run) ''execution_setup'' i (remediation_payload overrides) s3))"

text \<open>After the strategy is selected: skip, debug, or retry.\<close>

definition apply_strategy ::
  "remedy_ext \<Rightarrow> env \<Rightarrow> run_record \<Rightarrow> experiment_spec \<Rightarrow> remediation_action list \<Rightarrow> pattern_match list \<Rightarrow> nat
   \<Rightarrow> strategy_result \<Rightarrow> db \<Rightarrow> op_result \<times> db" where
  "apply_strategy x e run sp acts hints attempt strat s =
    (if \<not> st_remediable strat then remediation_skipped e run strat attempt s
     else if st_strategy strat = ''debug_broad'' then
       let s1 = run_emit e run ''remediation.strategy_escalated''
                  [(''run_record_id'', JUuid (rn_id run)), (''from_tier'', JStr ''focused''), (''to_tier'', JStr ''broad'')] s
       in (case rx_broad_debug x (log_tail s run) (sp_code_plan sp) (prior_detail acts) hints of
             Some (f # fs) \<Rightarrow>
               create_retry e run strat (dset (st_overrides strat) ''code_plan'' (JObj [(''patched_files'', JObj (f # fs))]))
                 attempt s1
           | _ \<Rightarrow> debug_without_fix e run attempt s1)
     else create_retry e run strat (st_overrides strat) attempt s)"

definition remediation_patterns ::
  "remedy_ext \<Rightarrow> env \<Rightarrow> run_record \<Rightarrow> experiment_spec \<Rightarrow> db \<Rightarrow> (pattern_match list \<times> db) res" where
  "remediation_patterns x e run sp s =
    res_bind (from_cycle_config (rx_py x)
                (case table_get cy_id (cycles s) (rn_cycle_id run) of None \<Rightarrow> None | Some c \<Rightarrow> cy_config c)) (\<lambda>pol.
      inject_patterns e (rn_charter_id run) (Some (rn_cycle_id run)) [''remediation'', ''failure''] pol
        (rx_embed_text x (join_with [CHR 10]
           [failure_class_of run, log_tail s run, sp_title sp, sp_description sp]))
        (Some ''auto_remediate'') True s)"

definition remediate_run ::
  "remedy_ext \<Rightarrow> env \<Rightarrow> run_record \<Rightarrow> experiment_spec \<Rightarrow> remediation_action list \<Rightarrow> db \<Rightarrow> (op_result \<times> db) res" where
  "remediate_run x e run sp acts s0 =
    (let s = run_emit e run ''remediation.started''
               [(''run_record_id'', JUuid (rn_id run)), (''failure_class'', JStr (failure_class_of run))] s0;
         attempt = length acts + 1
     in if length acts \<ge> DEFAULT_MAX_ATTEMPTS then Inr (remediation_exhausted e run attempt s)
        else
          res_bind (remediation_patterns x e run sp s) (\<lambda>(ms, s1).
          res_bind (select_strategy (rx_py x) (failure_class_of run) (log_tail s run) (rn_resource_limits run)
                      (map (\<lambda>a. (ra_strategy a, ra_failure_class a)) acts)
                      (sp_expected_artifacts sp) (rn_artifact_manifest run) (sp_code_plan sp)) (\<lambda>strat.
            Inr (apply_strategy x e run sp acts (pattern_hints run ms) attempt strat s1))))"

text \<open>None: the walk up the lineage of the run never ends.\<close>

definition auto_remediate_operator ::
  "remedy_ext \<Rightarrow> env \<Rightarrow> op_input \<Rightarrow> db \<Rightarrow> (op_result res \<times> db) option" where
  "auto_remediate_operator x e i s =
    (case run_record_id_from_payload i of
       Inl (ExecutionStateError m) \<Rightarrow> Some (Inr (op_fail m), s)
     | Inl err \<Rightarrow> Some (Inl err, s)
     | Inr run_id \<Rightarrow>
        (case res_bind (load_run_record s run_id) (\<lambda>run.
                res_bind (load_experiment_spec s (rn_spec_id run)) (\<lambda>sp. Inr (run, sp))) of
           Inl err \<Rightarrow> Some (Inl err, s)
         | Inr (run, sp) \<Rightarrow>
            Option.bind (load_lineage_actions s (rn_id run)) (\<lambda>acts.
              Some (committed s (remediate_run x e run sp acts s)))))"

section \<open>What one attempt commits\<close>

lemma add_action_frame [simp]:
  "runs (add_action e run q st ti d out n s) = runs s" "jobs (add_action e run q st ti d out n s) = jobs s"
  "actions (add_action e run q st ti d out n s) =
     actions s @ [action_row e (new_uuid e s) run q st ti d out n]"
  by (simp_all add: add_action_def)

lemma action_row_simps [simp]:
  "ra_run_id (action_row e i run q st ti d out n) = rn_id run"
  "ra_retry_run_id (action_row e i run q st ti d out n) = q"
  "ra_outcome (action_row e i run q st ti d out n) = out"
  by (simp_all add: action_row_def)

lemma enqueue_phase4_simps [simp]:
  "runs (enqueue_next_phase4 e c t k x s) = runs s" "actions (enqueue_next_phase4 e c t k x s) = actions s"
  "\<exists>j. jobs (enqueue_next_phase4 e c t k x s) = jobs s @ [j] \<and> j_type j = t \<and> j_status j = Js_pending"
  by (simp_all add: enqueue_next_phase4_def create_job_jobs)

text \<open>
  The contract of a committed attempt: one row in the attempt log of the run and one job, which is either the
  postmortem of the run or the set-up of one retry run that descends from it.
\<close>

definition attempt_committed :: "run_record \<Rightarrow> db \<Rightarrow> op_result \<Rightarrow> db \<Rightarrow> bool" where
  "attempt_committed run s r s' \<longleftrightarrow>
    (\<exists>a j. actions s' = actions s @ [a] \<and> ra_run_id a = rn_id run \<and> jobs s' = jobs s @ [j] \<and> j_status j = Js_pending \<and>
      (runs s' = runs s \<and> ra_retry_run_id a = None \<and> ra_outcome a \<in> {''exhausted'', ''skipped''} \<and>
         j_type j = ''verification_postmortem'' \<and> or_state_patch r = []
       \<or> (\<exists>q. runs s' = runs s @ [q] \<and> ra_retry_run_id a = Some (rn_id q) \<and> ra_outcome a = ''retry_created'' \<and>
            rn_parent_run_id q = Some (rn_id run) \<and> rn_spec_id q = rn_spec_id run \<and> rn_status q = ''pending'' \<and>
            rn_run_number q = rn_run_number run + 1 \<and> j_type j = ''execution_setup'' \<and>
            or_state_patch r = [(''cycle_status'', JStr ''running'')])))"

lemma attempt_committed_cong:
  "actions s = actions s0 \<Longrightarrow> jobs s = jobs s0 \<Longrightarrow> runs s = runs s0 \<Longrightarrow>
   attempt_committed run s r s' = attempt_committed run s0 r s'"
  by (simp add: attempt_committed_def)

lemma postmortem_committed:
  assumes "to_postmortem e run s = (r, s')"
    and "\<exists>a. actions s = actions s0 @ [a] \<and> ra_run_id a = rn_id run \<and> ra_retry_run_id a = None \<and>
      ra_outcome a \<in> {''exhausted'', ''skipped''} \<and> jobs s = jobs s0 \<and> runs s = runs s0"
  shows "attempt_committed run s0 r s'"
proof -
  obtain a where a: "actions s = actions s0 @ [a]" "ra_run_id a = rn_id run" "ra_retry_run_id a = None"
    "ra_outcome a \<in> {''exhausted'', ''skipped''}" "jobs s = jobs s0" "runs s = runs s0"
    using assms(2) by blast
  have s': "s' = enqueue_next_phase4 e (rn_cycle_id run) ''verification_postmortem'' (rn_id run) [] s" "r = OperatorResult"
    using assms(1) by (simp_all add: to_postmortem_def)
  obtain j where j: "jobs s' = jobs s @ [j]" "j_type j = ''verification_postmortem''" "j_status j = Js_pending"
    using enqueue_phase4_simps(3) unfolding s' by blast
  show ?thesis
    unfolding attempt_committed_def
    by (intro exI [of _ a] exI [of _ j]) (use a j s' in \<open>simp add: OperatorResult_def\<close>)
qed

lemma branches_committed:
  "remediation_exhausted e run n s = (r, s') \<Longrightarrow> attempt_committed run s r s'"
  "remediation_skipped e run st n s = (r, s') \<Longrightarrow> attempt_committed run s r s'"
  "debug_without_fix e run n s = (r, s') \<Longrightarrow> attempt_committed run s r s'"
  unfolding remediation_exhausted_def remediation_skipped_def debug_without_fix_def
  by (erule postmortem_committed, simp)+

lemma retry_row_simps [simp]:
  "rn_id (retry_row e i run l) = i" "rn_parent_run_id (retry_row e i run l) = Some (rn_id run)"
  "rn_spec_id (retry_row e i run l) = rn_spec_id run" "rn_status (retry_row e i run l) = ''pending''"
  "rn_run_number (retry_row e i run l) = rn_run_number run + 1"
  by (simp_all add: retry_row_def pending_run_def)

lemma add_run_actions [simp]: "actions (add_run q s) = actions s"
  by (simp add: add_run_def)

lemma create_retry_committed:
  assumes "create_retry e run strat ov n s = (r, s')"
  shows "attempt_committed run s r s'"
proof -
  let ?q = "retry_row e (new_uuid e s) run (retry_limits run ov)"
  have r: "or_state_patch r = [(''cycle_status'', JStr ''running'')]"
    using assms by (auto simp: create_retry_def Let_def)
  have rows: "runs s' = runs s @ [?q]"
    "\<exists>a. actions s' = actions s @ [a] \<and> ra_run_id a = rn_id run \<and> ra_retry_run_id a = Some (rn_id ?q) \<and>
       ra_outcome a = ''retry_created''"
    using assms by (auto simp: create_retry_def Let_def)
  have "\<exists>j. jobs s' = jobs s @ [j] \<and> j_type j = ''execution_setup'' \<and> j_status j = Js_pending"
    using assms by (auto simp: create_retry_def Let_def enqueue_next_phase4_def create_job_jobs)
  with r rows show ?thesis unfolding attempt_committed_def by (metis retry_row_simps)
qed

lemma apply_strategy_committed:
  assumes "apply_strategy x e run sp acts hints n strat s = (r, s')"
  shows "attempt_committed run s r s'"
proof -
  let ?s1 = "run_emit e run ''remediation.strategy_escalated''
      [(''run_record_id'', JUuid (rn_id run)), (''from_tier'', JStr ''focused''), (''to_tier'', JStr ''broad'')] s"
  have c: "attempt_committed run ?s1 r s' = attempt_committed run s r s'" by (rule attempt_committed_cong) simp_all
  consider "remediation_skipped e run strat n s = (r, s')" | ov where "create_retry e run strat ov n s = (r, s')"
    | ov where "create_retry e run strat ov n ?s1 = (r, s')" | "debug_without_fix e run n ?s1 = (r, s')"
    using assms by (auto simp: apply_strategy_def Let_def split: if_splits option.splits list.splits)
  then show ?thesis
  proof cases
    case 1
    then show ?thesis by (rule branches_committed(2))
  next
    case 2
    then show ?thesis by (rule create_retry_committed)
  next
    case 3
    then show ?thesis using c create_retry_committed by metis
  next
    case 4
    then show ?thesis using c branches_committed(3) by metis
  qed
qed

lemma inject_frame:
  "inject_patterns e ch k ts pol emb op aud s = Inr (ms, s') \<Longrightarrow>
   jobs s' = jobs s \<and> runs s' = runs s \<and> actions s' = actions s \<and> reports s' = reports s"
proof -
  have "jobs (fold (emit_applied e ch k op) ms s) = jobs s \<and> runs (fold (emit_applied e ch k op) ms s) = runs s \<and>
      actions (fold (emit_applied e ch k op) ms s) = actions s \<and> reports (fold (emit_applied e ch k op) ms s) = reports s" for ms
    by (induction ms arbitrary: s) (simp_all add: emit_applied_def)
  then show "inject_patterns e ch k ts pol emb op aud s = Inr (ms, s') \<Longrightarrow> ?thesis"
    by (auto simp: inject_patterns_def res_bind_Inr_iff Let_def)
qed

lemma remediate_run_committed:
  assumes "remediate_run x e run sp acts s = Inr (r, s')"
  shows "attempt_committed run s r s'" and "DEFAULT_MAX_ATTEMPTS \<le> length acts \<Longrightarrow> runs s' = runs s"
proof -
  let ?s = "run_emit e run ''remediation.started''
      [(''run_record_id'', JUuid (rn_id run)), (''failure_class'', JStr (failure_class_of run))] s"
  have c: "attempt_committed run ?s r s' = attempt_committed run s r s'" by (rule attempt_committed_cong) simp_all
  show "attempt_committed run s r s'"
  proof (cases "DEFAULT_MAX_ATTEMPTS \<le> length acts")
    case True
    then show ?thesis using assms branches_committed(1) c by (fastforce simp: remediate_run_def Let_def)
  next
    case False
    with assms obtain ms s1 strat where p: "remediation_patterns x e run sp ?s = Inr (ms, s1)"
      and a: "apply_strategy x e run sp acts (pattern_hints run ms) (length acts + 1) strat s1 = (r, s')"
      by (auto simp: remediate_run_def Let_def res_bind_Inr_iff)
    have "jobs s1 = jobs ?s \<and> runs s1 = runs ?s \<and> actions s1 = actions ?s"
      using p by (auto simp: remediation_patterns_def res_bind_Inr_iff dest!: inject_frame)
    then show ?thesis
      using apply_strategy_committed [OF a] attempt_committed_cong [of s1 s run r s'] by simp
  qed
  show "runs s' = runs s" if "DEFAULT_MAX_ATTEMPTS \<le> length acts"
    using assms that by (auto simp: remediate_run_def Let_def remediation_exhausted_def to_postmortem_def)
qed

lemma auto_remediate_run:
  assumes op: "auto_remediate_operator x e i s = Some (Inr r, s')" and ok: "or_success r" and par: "parents_ok [] (runs s)"
  obtains run sp where "run \<in> set (runs s)" "run_record_id_from_payload i = Inr (rn_id run)"
    "remediate_run x e run sp (sort_key ra_created_at
       (filter (\<lambda>a. ra_run_id a \<in> set (ancestors (rev (runs s)) (rn_id run))) (actions s))) s = Inr (r, s')"
proof (cases "run_record_id_from_payload i")
  case (Inl err)
  then show ?thesis using op ok by (cases err) (auto simp: auto_remediate_operator_def)
next
  case (Inr k)
  show ?thesis
  proof (cases "res_bind (load_run_record s k) (\<lambda>run. res_bind (load_experiment_spec s (rn_spec_id run)) (\<lambda>sp. Inr (run, sp)))")
    case (Inl err)
    then show ?thesis using op Inr by (simp add: auto_remediate_operator_def)
  next
    case p: (Inr rs)
    obtain run sp where rs: "rs = (run, sp)" by (cases rs)
    then have "load_run_record s k = Inr run" using p by (auto simp: res_bind_Inr_iff)
    from load_run_record_in [OF this] have run: "run \<in> set (runs s)" "rn_id run = k" by auto
    have "committed s (remediate_run x e run sp (sort_key ra_created_at
       (filter (\<lambda>a. ra_run_id a \<in> set (ancestors (rev (runs s)) (rn_id run))) (actions s))) s) = (Inr r, s')"
      using op Inr p rs by (simp add: auto_remediate_operator_def lineage_actions_ok [OF par])
    then show ?thesis using run Inr
      by (intro that [of run sp]) (auto simp: committed_def split: sum.splits prod.splits)
  qed
qed

section \<open>Chains of retries\<close>

definition attempts :: "db \<Rightarrow> uuid \<Rightarrow> nat" where
  "attempts s k = length (filter (\<lambda>a. ra_run_id a \<in> set (ancestors (rev (runs s)) k)) (actions s))"

text \<open>
  What the rest of the system does between two attempts, as far as lineages see it: runs are added or
  change other columns, attempts are added; neither is removed and no run changes its parent.
\<close>

definition goes_on :: "db \<Rightarrow> db \<Rightarrow> bool" where
  "goes_on s s' \<longleftrightarrow> (\<exists>xs ys. lineage_keys s' = lineage_keys s @ xs \<and> actions s' = actions s @ ys) \<and> parents_ok [] (runs s')"

inductive retry_chain :: "nat \<Rightarrow> uuid \<Rightarrow> db \<Rightarrow> bool" where
  start: "parents_ok [] (runs s) \<Longrightarrow> k \<in> rn_id ` set (runs s) \<Longrightarrow> retry_chain 0 k s"
| wait: "retry_chain n k s \<Longrightarrow> goes_on s s' \<Longrightarrow> retry_chain n k s'"
| retry: "retry_chain n k s \<Longrightarrow> auto_remediate_operator x e i s = Some (Inr r, s') \<Longrightarrow> or_success r \<Longrightarrow>
    run_record_id_from_payload i = Inr k \<Longrightarrow> runs s' = runs s @ [q] \<Longrightarrow> rn_id q \<notin> rn_id ` set (runs s) \<Longrightarrow>
    retry_chain (Suc n) (rn_id q) s'"

lemma keys_of_lineage: "rn_id ` set (runs s) = fst ` set (lineage_keys s)"
  by (auto simp: lineage_keys_def image_image)

lemma goes_on_ancestors:
  assumes go: "goes_on s s'" and k: "k \<in> rn_id ` set (runs s)"
  shows "ancestors (rev (runs s')) k = ancestors (rev (runs s)) k" "k \<in> rn_id ` set (runs s')"
proof -
  obtain xs where xs: "lineage_keys s' = lineage_keys s @ xs" using go by (auto simp: goes_on_def)
  let ?n = "length (runs s)"
  let ?pre = "take ?n (runs s')" and ?suf = "drop ?n (runs s')"
  let ?k = "\<lambda>r. (rn_id r, rn_parent_run_id r)"
  have len: "length (lineage_keys s) = ?n" by (simp add: lineage_keys_def)
  have pre: "map ?k ?pre = map ?k (runs s)"
    using arg_cong [OF xs, of "take ?n"] len by (simp add: lineage_keys_def take_map)
  have ids: "rn_id ` set ?pre = rn_id ` set (runs s)"
    using arg_cong [OF pre, of "\<lambda>l. fst ` set l"] by (simp add: image_image)
  have "distinct (map rn_id (?pre @ ?suf))"
    using go parents_ok_distinct [of "[]" "runs s'"] by (simp add: goes_on_def)
  then have "rn_id ` set ?pre \<inter> rn_id ` set ?suf = {}"
    unfolding map_append distinct_append set_map by blast
  then have "k \<notin> rn_id ` set ?suf" using k unfolding ids by blast
  then have "ancestors (rev (?pre @ ?suf)) k = ancestors (rev ?pre) k" by (rule ancestors_suffix)
  also have "\<dots> = ancestors (rev (runs s)) k"
    by (rule ancestors_cong) (use pre in \<open>simp flip: rev_map\<close>)
  finally show "ancestors (rev (runs s')) k = ancestors (rev (runs s)) k" by simp
  show "k \<in> rn_id ` set (runs s')" using k by (auto simp: keys_of_lineage xs image_Un)
qed

lemma retry_chain_attempts:
  "retry_chain n k s \<Longrightarrow> parents_ok [] (runs s) \<and> k \<in> rn_id ` set (runs s) \<and> n \<le> attempts s k \<and> n \<le> DEFAULT_MAX_ATTEMPTS"
proof (induction rule: retry_chain.induct)
  case (start s k)
  then show ?case by simp
next
  case (wait n k s s')
  then have "ancestors (rev (runs s')) k = ancestors (rev (runs s)) k" "k \<in> rn_id ` set (runs s')"
    using goes_on_ancestors by blast+
  moreover obtain ys where "actions s' = actions s @ ys" "parents_ok [] (runs s')"
    using wait.hyps by (auto simp: goes_on_def)
  ultimately show ?case using wait.IH by (auto simp: attempts_def)
next
  case (retry n k s x e i r s' q)
  have par: "parents_ok [] (runs s)" using retry.IH by simp
  from retry.hyps(2,3) par show ?case
  proof (rule auto_remediate_run)
    fix run :: run_record and sp
    let ?acts = "sort_key ra_created_at
       (filter (\<lambda>a. ra_run_id a \<in> set (ancestors (rev (runs s)) (rn_id run))) (actions s))"
    assume run: "run \<in> set (runs s)" "run_record_id_from_payload i = Inr (rn_id run)"
      and rr: "remediate_run x e run sp ?acts s = Inr (r, s')"
    then have k: "rn_id run = k" using retry.hyps(4) by simp
    have "\<not> DEFAULT_MAX_ATTEMPTS \<le> length ?acts" using remediate_run_committed(2) [OF rr] retry.hyps(5) by fastforce
    then have less: "attempts s k < DEFAULT_MAX_ATTEMPTS" by (simp add: attempts_def k)
    obtain a where a: "actions s' = actions s @ [a]" "ra_run_id a = k" and p: "rn_parent_run_id q = Some k"
      using remediate_run_committed(1) [OF rr] retry.hyps(5) k by (auto simp: attempt_committed_def)
    have anc: "ancestors (rev (runs s')) (rn_id q) = rn_id q # ancestors (rev (runs s)) k"
      by (simp add: retry.hyps(5) p)
    have "k \<in> set (ancestors rs k)" for rs by (induction rs) auto
    then have "Suc (attempts s k) \<le> attempts s' (rn_id q)"
      unfolding attempts_def anc a(1) filter_append length_append
      using a(2) length_filter_mono [of "\<lambda>a. ra_run_id a \<in> set (ancestors (rev (runs s)) k)"
        "\<lambda>a. ra_run_id a \<in> set (rn_id q # ancestors (rev (runs s)) k)" "actions s"] by simp
    moreover have "parents_ok [] (runs s')"
      using par retry.hyps(5,6) p run(1) k by (auto simp: parents_ok_snoc)
    ultimately show ?case using retry.IH less retry.hyps(5) by auto
  qed
qed

section \<open>Properties\<close>

text \<open>
  C26: Remediation cannot retry forever: whatever happens between attempts, a run descends from a first run by
  at most three automatic retries; at the fourth failure the operator records an exhausted attempt and sends
  the run to the postmortem.
\<close>

theorem retries_bounded:
  assumes "retry_chain n k s"
  shows "n \<le> 3"
  using retry_chain_attempts [OF assms] by (simp add: DEFAULT_MAX_ATTEMPTS_def)

text \<open>
  Every attempt that returns successfully is accounted for: it appends exactly one attempt to the log and
  exactly one job, either the postmortem of the failed run or the set-up of one retry that descends from it and has
  the next run number, and it asks for the cycle to run again only in the second case; a lineage with three
  attempts gets no further retry.
\<close>

theorem remediation_accounts:
  assumes "auto_remediate_operator x e i s = Some (Inr r, s')" and "or_success r" and "parents_ok [] (runs s)"
  shows "\<exists>run\<in>set (runs s). run_record_id_from_payload i = Inr (rn_id run) \<and> attempt_committed run s r s' \<and>
    (3 \<le> attempts s (rn_id run) \<longrightarrow> runs s' = runs s)"
  using assms
proof (rule auto_remediate_run)
  fix run sp
  assume r: "run \<in> set (runs s)" "run_record_id_from_payload i = Inr (rn_id run)"
    and rr: "remediate_run x e run sp (sort_key ra_created_at
       (filter (\<lambda>a. ra_run_id a \<in> set (ancestors (rev (runs s)) (rn_id run))) (actions s))) s = Inr (r, s')"
  from remediate_run_committed [OF rr] r show ?thesis
    by (intro bexI [of _ run]) (simp_all add: attempts_def DEFAULT_MAX_ATTEMPTS_def)
qed

definition demo_remedy :: remedy_ext where
  "demo_remedy = \<lparr>rx_py = demo_py, rx_embed_text = (\<lambda>_. None), rx_broad_debug = (\<lambda>_ _ _ _. None)\<rparr>"

definition demo_slow_run :: run_record where
  "demo_slow_run = (pending_run demo_env 20 1 3 4 None 1)\<lparr>rn_status := ''failed'', rn_failure_class := Some ''timeout''\<rparr>"

definition demo_slow_world :: db where
  "demo_slow_world = empty_db\<lparr>runs := [demo_slow_run], specs := [demo_spec]\<rparr>"

lemma demo_slow_facts:
  "runs demo_slow_world = [demo_slow_run]" "specs demo_slow_world = [demo_spec]" "actions demo_slow_world = []"
  "cycles demo_slow_world = []" "patterns demo_slow_world = []" "uuid_calls demo_slow_world = 0" "rn_id demo_slow_run = 20"
  "rn_spec_id demo_slow_run = 1" "rn_parent_run_id demo_slow_run = None" "failure_class_of demo_slow_run = ''timeout''"
  "rn_resource_limits demo_slow_run = JNull" "sp_id demo_spec = 1" "parents_ok [] (runs demo_slow_world)"
  by (simp_all add: demo_slow_world_def demo_slow_run_def pending_run_def failure_class_of_def demo_spec_def empty_db_def)

lemma demo_slow_strategy:
  "select_strategy demo_py ''timeout'' tail JNull [] ex mf cp =
     Inr (focused_result ''extend_timeout'' (''Increasing timeout from '' @ int_str 3600 @ ''s to '' @ int_str 5400 @ ''s.'')
       [(''run_resource_limits'', JObj [(''timeout'', JInt 5400)])])"
  by (simp add: select_strategy_def needs_escalation_def timeout_strategy_def or_dict_def dget_or_def trunc_def
      TIMEOUT_CAP_SECONDS_def Let_def)

lemma demo_slow_patterns:
  "remediation_patterns demo_remedy demo_env demo_slow_run demo_spec (emit_sys demo_env et 3 4 pl demo_slow_world) =
     Inr ([], emit_sys demo_env et 3 4 pl demo_slow_world)"
  by (simp add: remediation_patterns_def from_cycle_config_def inject_patterns_def find_relevant_patterns_def demo_slow_facts
      demo_remedy_def opt_dict_def dget_or_def Let_def)

lemma demo_slow_retry:
  "\<exists>r s' q. auto_remediate_operator demo_remedy demo_env demo_failed_input demo_slow_world = Some (Inr r, s') \<and> or_success r \<and>
     runs s' = runs demo_slow_world @ [q] \<and> rn_id q = 101"
proof -
  let ?s = "emit_sys demo_env ''remediation.started'' 3 4
      [(''run_record_id'', JUuid 20), (''failure_class'', JStr ''timeout'')] demo_slow_world"
  have ids: "rn_charter_id demo_slow_run = 3" "rn_cycle_id demo_slow_run = 4"
    by (simp_all add: demo_slow_run_def pending_run_def)
  have "new_uuid demo_env ?s = 101" by (simp add: new_uuid_def demo_env_def demo_slow_facts)
  then have "\<exists>r s' q. remediate_run demo_remedy demo_env demo_slow_run demo_spec [] demo_slow_world = Inr (r, s') \<and> or_success r \<and>
     runs s' = runs demo_slow_world @ [q] \<and> rn_id q = 101"
    using demo_slow_patterns [of "''remediation.started''"]
    by (simp add: remediate_run_def DEFAULT_MAX_ATTEMPTS_def ids demo_slow_facts Let_def demo_slow_strategy
        apply_strategy_def focused_result_def create_retry_def OperatorResult_def) (simp add: demo_remedy_def demo_slow_strategy
        apply_strategy_def focused_result_def create_retry_def OperatorResult_def Let_def ids demo_slow_facts)
  then obtain r s' q where r: "remediate_run demo_remedy demo_env demo_slow_run demo_spec [] demo_slow_world = Inr (r, s')" "or_success r"
     "runs s' = runs demo_slow_world @ [q]" "rn_id q = 101" by blast
  have inp: "run_record_id_from_payload demo_failed_input = Inr 20"
    by (simp add: demo_failed_input_def run_record_id_from_payload_def)
  have run: "load_run_record demo_slow_world 20 = Inr demo_slow_run" "load_experiment_spec demo_slow_world 1 = Inr demo_spec"
    by (simp_all add: load_run_record_def load_experiment_spec_def demo_slow_facts)
  have lin: "load_lineage_actions demo_slow_world 20 = Some []"
    using lineage_actions_ok(1) [OF demo_slow_facts(13), of 20] by (simp add: demo_slow_facts)
  have "auto_remediate_operator demo_remedy demo_env demo_failed_input demo_slow_world = Some (Inr r, s')"
    unfolding auto_remediate_operator_def inp sum.case run res_bind.simps demo_slow_facts(7,8) prod.case lin
      Option.bind.simps by (simp add: r committed_def)
  then show ?thesis using r by blast
qed

theorem retries_bounded_witness:
  "\<exists>s'. retry_chain 1 101 s' \<and> (1::nat) \<le> 3"
proof -
  obtain r s' q where r: "auto_remediate_operator demo_remedy demo_env demo_failed_input demo_slow_world = Some (Inr r, s')"
    "or_success r" "runs s' = runs demo_slow_world @ [q]" "rn_id q = 101" using demo_slow_retry by blast
  have "retry_chain 0 20 demo_slow_world"
    by (rule retry_chain.start) (simp_all add: demo_slow_facts)
  then have "retry_chain (Suc 0) (rn_id q) s'"
    by (rule retry_chain.retry [OF _ r(1,2) _ r(3)])
      (simp_all add: demo_failed_input_def run_record_id_from_payload_def demo_slow_facts r)
  with retries_bounded [OF this] r(4) show ?thesis by auto
qed

theorem remediation_accounts_witness:
  "\<exists>r s'. auto_remediate_operator demo_remedy demo_env demo_failed_input demo_slow_world = Some (Inr r, s') \<and>
     (\<exists>run\<in>set (runs demo_slow_world). attempt_committed run demo_slow_world r s')"
proof -
  obtain r s' where r: "auto_remediate_operator demo_remedy demo_env demo_failed_input demo_slow_world = Some (Inr r, s')"
    "or_success r" using demo_slow_retry by blast
  from remediation_accounts [OF r demo_slow_facts(13)] r show ?thesis by blast
qed

end
