(* ===== verification/Verification.thy ===== *)
theory Verification
  imports Execution Remediation Skills
begin

text \<open>
  Verification of a run: metric verdicts (\<open>classify_metric\<close> of \<open>libs/execution/metrics.py\<close>,
  \<open>libs/verification/baseline.py\<close>), the artifact contract (\<open>libs/verification/contracts.py\<close>), the operator
  \<open>verification_check\<close> with its two further checks (\<open>libs/verification/operators/check.py\<close>) and the operator
  \<open>verification_postmortem\<close> (\<open>libs/verification/operators/postmortem.py\<close>).

  The texts these checks write for human readers (\<open>detail\<close>, the report summary) are left out; what building them
  requires of the data is kept.  The embedding service and the model that writes the postmortem are parameters.
\<close>

section \<open>Metric verdicts\<close>

record metric_verdict =
  mv_name :: json
  mv_value :: json
  mv_baseline :: "real option"
  mv_delta :: "real option"
  mv_direction :: json
  mv_passed :: bool

text \<open>A stored number (Postgres keeps no not-a-number and no infinity in JSON).\<close>

definition num :: "json \<Rightarrow> real res" where
  "num v = (case py_num v of None \<Rightarrow> Inl TypeError | Some x \<Rightarrow> Inr x)"

text \<open>\<open>d.get(key)\<close> for a key that is itself a JSON value.\<close>

definition jlookup :: "json \<Rightarrow> json \<Rightarrow> json res" where
  "jlookup d key =
    (case d of
       JObj xs \<Rightarrow> res_bind (key_text key) (\<lambda>k. Inr (case k of None \<Rightarrow> JNull | Some t \<Rightarrow> dget xs t))
     | _ \<Rightarrow> Inl AttributeError)"

text \<open>\<open>if baseline_metrics and name in baseline_metrics: float(baseline_metrics[name])\<close>.\<close>

definition baseline_of :: "pylib \<Rightarrow> json \<Rightarrow> json \<Rightarrow> real option res" where
  "baseline_of py baseline_metrics name =
    (if \<not> truthy baseline_metrics then Inr None
     else res_bind (py_in name baseline_metrics) (\<lambda>present.
       if \<not> present then Inr None
       else res_bind (case baseline_metrics of JObj _ \<Rightarrow> jlookup baseline_metrics name | _ \<Rightarrow> Inl TypeError) (\<lambda>v.
            res_bind (py_float py v) (\<lambda>b. Inr (Some b)))))"

definition classify_metric :: "pylib \<Rightarrow> json \<Rightarrow> json \<Rightarrow> json \<Rightarrow> json \<Rightarrow> metric_verdict res" where
  "classify_metric py name value spec_metric baseline_metrics =
    res_bind (jget_or spec_metric ''direction'' (JStr ''maximize'')) (\<lambda>direction.
    res_bind (jget_or spec_metric ''threshold'' JNull) (\<lambda>threshold.
    res_bind (baseline_of py baseline_metrics name) (\<lambda>base.
    res_bind (num value) (\<lambda>v.
    res_bind (if threshold = JNull then Inr True
              else res_bind (py_float py threshold) (\<lambda>t. Inr (if direction = JStr ''maximize'' then v \<ge> t else v \<le> t))) (\<lambda>passed.
      Inr \<lparr>mv_name = name, mv_value = value, mv_baseline = base, mv_delta = map_option (\<lambda>b. v - b) base,
           mv_direction = direction, mv_passed = passed\<rparr>)))))"

definition missing_verdict :: "json \<Rightarrow> metric_verdict" where
  "missing_verdict name = \<lparr>mv_name = name, mv_value = JFloat 0, mv_baseline = None, mv_delta = None,
     mv_direction = JStr ''maximize'', mv_passed = False\<rparr>"

definition verdict_of :: "pylib \<Rightarrow> json \<Rightarrow> json \<Rightarrow> json \<Rightarrow> metric_verdict res" where
  "verdict_of py run_metrics baseline_expected spec_metric =
    res_bind (jget_or spec_metric ''name'' (JStr [])) (\<lambda>name.
    res_bind (jlookup run_metrics name) (\<lambda>value.
      if value = JNull then Inr (missing_verdict name)
      else classify_metric py name value spec_metric baseline_expected))"

definition compare_to_baseline :: "pylib \<Rightarrow> json \<Rightarrow> json list \<Rightarrow> json \<Rightarrow> metric_verdict list res" where
  "compare_to_baseline py run_metrics spec_metrics baseline =
    res_bind (jget_or baseline ''expected_metrics'' (JObj [])) (\<lambda>be. map_res (verdict_of py run_metrics be) spec_metrics)"

section \<open>Artifact contract\<close>

record artifact_check =
  ac_name :: json
  ac_expected :: bool
  ac_found :: bool
  ac_required :: json
  ac_passed :: bool

text \<open>\<open>a["name"]\<close> of an entry of the manifest, used as a key.\<close>

definition entry_name :: "json \<Rightarrow> json res" where
  "entry_name a =
    (case a of
       JObj d \<Rightarrow> if ''name'' \<in> fst ` set d
                 then res_bind (key_text (dget d ''name'')) (\<lambda>_. Inr (dget d ''name'')) else Inl (KeyError ''name'')
     | _ \<Rightarrow> Inl TypeError)"

text \<open>\<open>x.get('hash', '?')[:12]\<close> needs text or a list.\<close>

definition sliceable :: "json \<Rightarrow> unit res" where
  "sliceable v = (case v of JStr _ \<Rightarrow> Inr () | JUuid _ \<Rightarrow> Inr () | JList _ \<Rightarrow> Inr () | _ \<Rightarrow> Inl TypeError)"

definition find_entry :: "json list \<Rightarrow> json list \<Rightarrow> json \<Rightarrow> json option" where
  "find_entry names manifest name = map_option snd (find (\<lambda>(n, _). py_eq n name) (zip names manifest))"

definition check_artifact :: "json list \<Rightarrow> json list \<Rightarrow> json \<Rightarrow> artifact_check res" where
  "check_artifact names manifest expected =
    res_bind (jget_or expected ''name'' (JStr [])) (\<lambda>name.
    res_bind (jget_or expected ''required'' (JBool True)) (\<lambda>required.
    res_bind (key_text name) (\<lambda>_.
      let entry = find_entry names manifest name in
    res_bind (case entry of None \<Rightarrow> Inr ()
              | Some a \<Rightarrow> res_bind (jget_or a ''hash'' (JStr ''?'')) sliceable) (\<lambda>_.
      Inr \<lparr>ac_name = name, ac_expected = True, ac_found = (entry \<noteq> None), ac_required = required,
           ac_passed = (entry \<noteq> None \<or> \<not> truthy required)\<rparr>))))"

definition check_artifact_contract :: "json list \<Rightarrow> json list \<Rightarrow> artifact_check list res" where
  "check_artifact_contract manifest expected_artifacts =
    res_bind (map_res entry_name manifest) (\<lambda>names. map_res (check_artifact names manifest) expected_artifacts)"

section \<open>Output contract and metric sanity\<close>

text \<open>The name and the outcome of a check; both builders return a list of them.\<close>

type_synonym named_check = "json \<times> bool"

text \<open>\<open>Path(text).suffix.lower().lstrip(".")\<close>.\<close>

definition path_name :: "string \<Rightarrow> string" where
  "path_name p = (case rev (filter (\<lambda>w. w \<noteq> [] \<and> w \<noteq> ''.'') (split_char (CHR 47) p)) of [] \<Rightarrow> [] | w # _ \<Rightarrow> w)"

definition path_suffix :: "string \<Rightarrow> string" where
  "path_suffix p =
    (let n = path_name p; ext = rev (takeWhile (\<lambda>c. c \<noteq> CHR 46) (rev n))
     in if CHR 46 \<in> set n \<and> ext \<noteq> [] \<and> length ext + 1 < length n then map char_lower ext else [])"

text \<open>\<open>{artifact["name"]: artifact for artifact in manifest}.get(name)\<close>: the last entry of a name counts.\<close>

definition last_entry :: "json list \<Rightarrow> json list \<Rightarrow> json \<Rightarrow> json option" where
  "last_entry names manifest name = find_entry (rev names) (rev manifest) name"

definition output_check :: "pylib \<Rightarrow> json list \<Rightarrow> json list \<Rightarrow> json \<Rightarrow> named_check res" where
  "output_check py names manifest expected =
    res_bind (jget_or expected ''name'' (JStr [])) (\<lambda>name.
    res_bind (jget_or expected ''type'' (JStr [])) (\<lambda>ty.
    res_bind (key_text name) (\<lambda>_.
      let artifact_type = map char_lower (if truthy ty then py_str (float_repr py) ty else []) in
      case last_entry names manifest name of
        None \<Rightarrow> res_bind (jget_or expected ''required'' (JBool True)) (\<lambda>required. Inr (name, \<not> truthy required))
      | Some found \<Rightarrow>
          res_bind (jget_or found ''path'' JNull) (\<lambda>p.
            let suffix = path_suffix (py_str (float_repr py) (if truthy p then p else name))
            in Inr (name, artifact_type = [] \<or> artifact_type = suffix \<or> artifact_type = ''file'')))))"

definition build_output_contract :: "pylib \<Rightarrow> json list \<Rightarrow> json list \<Rightarrow> named_check list res" where
  "build_output_contract py manifest expected_artifacts =
    res_bind (map_res entry_name manifest) (\<lambda>names. map_res (output_check py names manifest) expected_artifacts)"

text \<open>\<open>{str(m.get("name")): m for m in spec_metrics if m.get("name")}\<close>.\<close>

fun spec_by_name :: "pylib \<Rightarrow> (string \<times> json) list \<Rightarrow> json list \<Rightarrow> (string \<times> json) list res" where
  "spec_by_name py acc [] = Inr acc"
| "spec_by_name py acc (m # ms) =
    res_bind (jget_or m ''name'' JNull) (\<lambda>n.
      spec_by_name py (if truthy n then dset acc (py_str (float_repr py) n) m else acc) ms)"

definition sanity_check :: "pylib \<Rightarrow> (string \<times> json) list \<Rightarrow> dict option \<Rightarrow> string \<times> json \<Rightarrow> named_check res" where
  "sanity_check py by_name prior nv =
    (case nv of (name, value) \<Rightarrow>
      let metric_spec = (case map_of by_name name of None \<Rightarrow> JObj [] | Some m \<Rightarrow> m) in
      res_bind (jget_or metric_spec ''min'' JNull) (\<lambda>range_min. res_bind (jget_or metric_spec ''max'' JNull) (\<lambda>range_max.
      res_bind (num value) (\<lambda>v.
      res_bind (if range_min = JNull then Inr True else res_bind (py_float py range_min) (\<lambda>l. Inr (v \<ge> l))) (\<lambda>above.
      res_bind (if range_max = JNull then Inr True else res_bind (py_float py range_max) (\<lambda>h. Inr (v \<le> h))) (\<lambda>below.
      res_bind (case prior of
                  None \<Rightarrow> Inr 0
                | Some d \<Rightarrow> if name \<in> fst ` set d then py_float py (dget d name) else Inr 0) (\<lambda>_.
        Inr (JStr name, above \<and> below))))))))"

definition build_metric_sanity :: "pylib \<Rightarrow> dict \<Rightarrow> json list \<Rightarrow> dict option \<Rightarrow> named_check list res" where
  "build_metric_sanity py run_metrics spec_metrics prior =
    res_bind (spec_by_name py [] spec_metrics) (\<lambda>by_name.
    res_bind (map_res (sanity_check py by_name prior) run_metrics) (\<lambda>checks.
      Inr (checks @
        map (\<lambda>n. (JStr n, False)) (sort (filter (\<lambda>n. n \<notin> fst ` set run_metrics) (map fst by_name))) @
        map (\<lambda>n. (JStr n, True)) (sort (filter (\<lambda>n. n \<notin> fst ` set by_name) (map fst run_metrics))))))"

section \<open>The check operator\<close>

text \<open>What the four checks of a completed run found.\<close>

record check_results =
  cr_verdicts :: "metric_verdict list"
  cr_artifacts :: "artifact_check list"
  cr_output :: "named_check list"
  cr_sanity :: "named_check list"
  cr_has_thresholds :: bool

definition all_pass :: "check_results \<Rightarrow> bool" where
  "all_pass c \<longleftrightarrow> (\<forall>v\<in>set (cr_verdicts c). mv_passed v) \<and> (\<forall>a\<in>set (cr_artifacts c). ac_passed a) \<and>
     (\<forall>(_, p)\<in>set (cr_output c). p) \<and> (\<forall>(_, p)\<in>set (cr_sanity c). p)"

definition verdict :: "check_results \<Rightarrow> string" where
  "verdict c = (if all_pass c then (if cr_has_thresholds c then ''passed'' else ''inconclusive'') else ''failed'')"

definition failing :: "string \<Rightarrow> json list \<Rightarrow> string list res" where
  "failing label names =
    (if names = [] then Inr [] else res_bind (map_res text_of names) (\<lambda>ts. Inr [label @ join_with '', '' ts]))"

definition check_warnings :: "check_results \<Rightarrow> uuid option \<Rightarrow> uuid list \<Rightarrow> string list res" where
  "check_warnings c prior_run pattern_ids =
    res_bind (if all_pass c
              then Inr (if cr_has_thresholds c then [] else [''no metric thresholds defined; verdict is informational''])
              else res_bind (failing ''failed metrics: '' (map mv_name (filter (\<lambda>v. \<not> mv_passed v) (cr_verdicts c)))) (\<lambda>w1.
                   res_bind (failing ''missing artifacts: '' (map ac_name (filter (\<lambda>a. \<not> ac_passed a) (cr_artifacts c)))) (\<lambda>w2.
                   res_bind (failing ''output contract issues: '' (map fst (filter (\<lambda>(_, p). \<not> p) (cr_output c)))) (\<lambda>w3.
                   res_bind (failing ''metric sanity issues: '' (map fst (filter (\<lambda>(_, p). \<not> p) (cr_sanity c)))) (\<lambda>w4.
                     Inr (w1 @ w2 @ w3 @ w4)))))) (\<lambda>ws.
      Inr (ws @ (case prior_run of None \<Rightarrow> [] | Some r \<Rightarrow> [''historical comparison anchor: run '' @ uuid_str r]) @
           (if pattern_ids = [] then [] else [''pattern priors applied: '' @ join_with '', '' (map uuid_str pattern_ids)])))"

text \<open>The JSON columns of the report (without the \<open>detail\<close> texts).\<close>

fun json_key :: "pylib \<Rightarrow> json \<Rightarrow> string" where
  "json_key py JNull = ''null''"
| "json_key py (JBool b) = (if b then ''true'' else ''false'')"
| "json_key py j = py_str (float_repr py) j"

definition json_real :: "real option \<Rightarrow> json" where
  "json_real x = (case x of None \<Rightarrow> JNull | Some r \<Rightarrow> JFloat r)"

definition comparison_json :: "pylib \<Rightarrow> metric_verdict list \<Rightarrow> json" where
  "comparison_json py vs = JObj (fold (\<lambda>v d. dset d (json_key py (mv_name v))
     (JObj [(''baseline'', json_real (mv_baseline v)), (''actual'', mv_value v), (''delta'', json_real (mv_delta v)),
            (''direction'', mv_direction v), (''pass'', JBool (mv_passed v))])) vs [])"

definition artifact_json :: "artifact_check list \<Rightarrow> json" where
  "artifact_json cs = JList (map (\<lambda>c. JObj [(''name'', ac_name c), (''expected'', JBool (ac_expected c)),
     (''found'', JBool (ac_found c)), (''required'', ac_required c), (''pass'', JBool (ac_passed c))]) cs)"

definition checks_json :: "named_check list \<Rightarrow> json" where
  "checks_json cs = JObj [(''checks'', JList (map (\<lambda>(n, p). JObj [(''name'', n), (''pass'', JBool p)]) cs))]"

definition report_row ::
  "env \<Rightarrow> uuid \<Rightarrow> run_record \<Rightarrow> string \<Rightarrow> json \<Rightarrow> json \<Rightarrow> json \<Rightarrow> json \<Rightarrow> json \<Rightarrow> verification_report" where
  "report_row e i run v bc ac oc ms ws =
     \<lparr>vr_id = i, vr_run_id = rn_id run, vr_charter_id = rn_charter_id run, vr_cycle_id = rn_cycle_id run,
      vr_verdict = v, vr_baseline_comparison = bc, vr_artifact_checks = ac, vr_output_contract = oc,
      vr_metric_sanity = ms, vr_warnings = ws, vr_signal_id = None, vr_recommendation_id = None,
      vr_created_at = now e\<rparr>"

definition add_report ::
  "env \<Rightarrow> run_record \<Rightarrow> string \<Rightarrow> json \<Rightarrow> json \<Rightarrow> json \<Rightarrow> json \<Rightarrow> json \<Rightarrow> db \<Rightarrow> db" where
  "add_report e run v bc ac oc ms ws s =
     (tick_uuid s)\<lparr>reports := reports s @ [report_row e (new_uuid e s) run v bc ac oc ms ws]\<rparr>"

definition enqueue_next_verification :: "env \<Rightarrow> uuid \<Rightarrow> string \<Rightarrow> uuid \<Rightarrow> db \<Rightarrow> db" where
  "enqueue_next_verification e cycle_id next_job_type run_id s =
     snd (create_job e (Some cycle_id) next_job_type (Some [(''run_record_id'', JUuid run_id)]) 10 s)"

definition or_unknown :: "string option \<Rightarrow> string" where
  "or_unknown t = (case t of Some (c # cs) \<Rightarrow> c # cs | _ \<Rightarrow> ''unknown'')"

definition check_failed_run :: "env \<Rightarrow> run_record \<Rightarrow> db \<Rightarrow> op_result \<times> db" where
  "check_failed_run e run s =
    (let why = (case rn_error run of Some (c # cs) \<Rightarrow> c # cs | _ \<Rightarrow> or_unknown (rn_failure_class run));
         s1 = add_report e run ''failed'' JNull JNull JNull JNull (JList [JStr (''run failed: '' @ why)]) s;
         s2 = run_emit e run ''verification.check_completed''
                [(''run_record_id'', JUuid (rn_id run)), (''verdict'', JStr ''failed''), (''reason'', JStr ''run_failed'')] s1
     in (OperatorResult, enqueue_next_verification e (rn_cycle_id run) ''auto_remediate'' (rn_id run) s2))"

text \<open>The latest other completed run of the spec: \<open>ORDER BY completed_at DESC LIMIT 1\<close>, where Postgres puts nulls first.\<close>

definition prior_run :: "db \<Rightarrow> run_record \<Rightarrow> run_record option" where
  "prior_run s run =
    first_row (sort_key (\<lambda>r. case rn_completed_at r of None \<Rightarrow> (0::int, 0::int) | Some t \<Rightarrow> (1, - t))
      (filter (\<lambda>r. rn_spec_id r = rn_spec_id run \<and> rn_id r \<noteq> rn_id run \<and> rn_status r = ''completed'') (runs s)))"

definition run_checks ::
  "pylib \<Rightarrow> run_record \<Rightarrow> experiment_spec \<Rightarrow> run_record option \<Rightarrow> check_results res" where
  "run_checks py run sp prior =
    (let run_metrics = or_dict (rn_metrics_output run) in
     res_bind (case prior of None \<Rightarrow> Inr None
               | Some r \<Rightarrow> res_bind (py_dict (or_dict (rn_metrics_output r))) (\<lambda>d. Inr (Some d))) (\<lambda>prior_metrics.
     res_bind (py_iter (or_list (sp_metrics sp))) (\<lambda>spec_metrics.
     res_bind (compare_to_baseline py run_metrics spec_metrics (or_dict (sp_baseline sp))) (\<lambda>vs.
     res_bind (py_iter (or_list (rn_artifact_manifest run))) (\<lambda>manifest.
     res_bind (py_iter (or_list (sp_expected_artifacts sp))) (\<lambda>expected.
     res_bind (check_artifact_contract manifest expected) (\<lambda>acs.
     res_bind (build_output_contract py manifest expected) (\<lambda>oc.
     res_bind (py_dict run_metrics) (\<lambda>rm.
     res_bind (build_metric_sanity py rm spec_metrics prior_metrics) (\<lambda>ms.
     res_bind (map_res (\<lambda>m. jget_or m ''threshold'' JNull) spec_metrics) (\<lambda>ths.
       Inr \<lparr>cr_verdicts = vs, cr_artifacts = acs, cr_output = oc, cr_sanity = ms,
            cr_has_thresholds = (\<exists>t\<in>set ths. t \<noteq> JNull)\<rparr>)))))))))))"

definition check_patterns ::
  "pylib \<Rightarrow> (string \<Rightarrow> real list option) \<Rightarrow> env \<Rightarrow> run_record \<Rightarrow> experiment_spec \<Rightarrow> db \<Rightarrow> (pattern_match list \<times> db) res" where
  "check_patterns py embed_text e run sp s =
    res_bind (from_cycle_config py
                (case table_get cy_id (cycles s) (rn_cycle_id run) of None \<Rightarrow> None | Some c \<Rightarrow> cy_config c)) (\<lambda>pol.
      inject_patterns e (rn_charter_id run) (Some (rn_cycle_id run)) [''signal_trajectory'', ''failure''] pol
        (embed_text (py_strip (join_with [CHR 10]
           [sp_title sp, sp_description sp, json_text py (canon (or_list (sp_metrics sp))),
            json_text py (canon (or_dict (rn_metrics_output run))),
            case rn_failure_class run of None \<Rightarrow> [] | Some c \<Rightarrow> c])))
        (Some ''verification_check'') True s)"

definition persist_check ::
  "pylib \<Rightarrow> env \<Rightarrow> run_record \<Rightarrow> check_results \<Rightarrow> string list \<Rightarrow> db \<Rightarrow> op_result \<times> db" where
  "persist_check py e run c ws s =
    (let s1 = add_report e run (verdict c) (comparison_json py (cr_verdicts c)) (artifact_json (cr_artifacts c))
                (checks_json (cr_output c)) (checks_json (cr_sanity c))
                (if ws = [] then JNull else JList (map JStr ws)) s;
         s2 = run_emit e run ''verification.check_completed''
                [(''run_record_id'', JUuid (rn_id run)), (''verdict'', JStr (verdict c))] s1
     in (OperatorResult, enqueue_next_verification e (rn_cycle_id run)
           (if verdict c = ''failed'' then ''auto_remediate'' else ''signal_classify'') (rn_id run) s2))"

definition check_completed_run ::
  "pylib \<Rightarrow> (string \<Rightarrow> real list option) \<Rightarrow> env \<Rightarrow> run_record \<Rightarrow> experiment_spec \<Rightarrow> db \<Rightarrow> (op_result \<times> db) res" where
  "check_completed_run py embed_text e run sp s =
    res_bind (check_patterns py embed_text e run sp s) (\<lambda>(ms, s1).
    res_bind (run_checks py run sp (prior_run s1 run)) (\<lambda>c.
    res_bind (check_warnings c (map_option rn_id (prior_run s1 run)) (map (\<lambda>m. cp_id (pmt_pattern m)) ms)) (\<lambda>ws.
      Inr (persist_check py e run c ws s1))))"

definition check_run ::
  "pylib \<Rightarrow> (string \<Rightarrow> real list option) \<Rightarrow> env \<Rightarrow> db \<Rightarrow> run_record \<Rightarrow> experiment_spec \<Rightarrow> (op_result \<times> db) res" where
  "check_run py embed_text e s run sp =
    (let s1 = run_emit e run ''verification.check_started'' [(''run_record_id'', JUuid (rn_id run))] s
     in if rn_status run = ''failed'' then Inr (check_failed_run e run s1)
        else check_completed_run py embed_text e run sp s1)"

definition verification_check_operator :: "pylib \<Rightarrow> (string \<Rightarrow> real list option) \<Rightarrow> env \<Rightarrow> operator" where
  "verification_check_operator py embed_text e i s =
     with_run_id i s (\<lambda>run_id. committed s (with_spec s run_id (check_run py embed_text e s)))"

section \<open>The postmortem operator\<close>

record postmortem_output =
  po_root_cause :: string
  po_factors :: "json list"
  po_next_step :: string
  po_lessons :: "json list"

text \<open>
  What the model is asked: failure class, error, error trace, metrics, baseline comparison and the skill prompt joined
  to the system message.  It answers with its output and the provider and model that gave it, or raises.
\<close>

type_synonym analyst =
  "string \<Rightarrow> string \<Rightarrow> string \<Rightarrow> json \<Rightarrow> json \<Rightarrow> string option \<Rightarrow> string + postmortem_output \<times> string \<times> string"

definition postmortem_row ::
  "env \<Rightarrow> uuid \<Rightarrow> run_record \<Rightarrow> verification_report option \<Rightarrow> string \<Rightarrow> postmortem_output \<Rightarrow> failure_postmortem" where
  "postmortem_row e i run vr trace out =
     \<lparr>pm_id = i, pm_run_id = rn_id run, pm_report_id = map_option vr_id vr, pm_charter_id = rn_charter_id run,
      pm_cycle_id = rn_cycle_id run, pm_failure_class = failure_class_of run, pm_root_cause = po_root_cause out,
      pm_contributing_factors = null_if_empty (po_factors out),
      pm_error_trace = (if trace = [] then None else Some trace),
      pm_next_step_recommendation = (if po_next_step out = [] then None else Some (po_next_step out)),
      pm_lessons = null_if_empty (po_lessons out), pm_created_at = now e\<rparr>"

definition persist_postmortem ::
  "env \<Rightarrow> run_record \<Rightarrow> verification_report option \<Rightarrow> string \<Rightarrow> postmortem_output \<Rightarrow> db \<Rightarrow> op_result \<times> db" where
  "persist_postmortem e run vr trace out s =
    (let i = new_uuid e s;
         s1 = (tick_uuid s)\<lparr>postmortems := postmortems s @ [postmortem_row e i run vr trace out]\<rparr>;
         s2 = run_emit e run ''verification.postmortem_generated''
                [(''run_record_id'', JUuid (rn_id run)), (''postmortem_id'', JUuid i),
                 (''failure_class'', JStr (failure_class_of run))] s1
     in (OperatorResult, snd (create_job e (Some (rn_cycle_id run)) ''recommend''
           (Some [(''run_record_id'', JUuid (rn_id run)), (''failed'', JBool True)]) 10 s2)))"

definition analyse ::
  "analyst \<Rightarrow> env \<Rightarrow> op_input \<Rightarrow> run_record \<Rightarrow> verification_report option \<Rightarrow> string \<Rightarrow> string option \<Rightarrow> db
   \<Rightarrow> postmortem_output \<times> db" where
  "analyse llm e i run vr trace prompt s =
    (case llm (failure_class_of run)
            (case rn_error run of Some (c # cs) \<Rightarrow> c # cs | _ \<Rightarrow> ''unknown error'') trace (rn_metrics_output run)
            (case vr of None \<Rightarrow> JNull | Some v \<Rightarrow> vr_baseline_comparison v) prompt of
       Inl err \<Rightarrow> (\<lparr>po_root_cause = ''Automated analysis unavailable: '' @ err, po_factors = [],
                    po_next_step = ''Review error trace manually'', po_lessons = []\<rparr>, s)
     | Inr (out, provider, model) \<Rightarrow>
         (out, snd (record_model_call e (Some (rn_cycle_id run)) (Some (oi_job_id i)) ''evaluation'' provider model None None s)))"

definition verification_postmortem_operator :: "pylib \<Rightarrow> analyst \<Rightarrow> env \<Rightarrow> operator" where
  "verification_postmortem_operator py llm e i s =
     with_run_id i s (\<lambda>run_id. committed s
      (res_bind (load_run_record s run_id) (\<lambda>run.
       res_bind (scalar_one_or_none (filter (\<lambda>v. vr_run_id v = rn_id run) (reports s))) (\<lambda>vr.
         let trace = log_tail s run in
       res_bind (load_skill_prompt s ''verification.run_evaluation'' (oi_job_type i)) (\<lambda>skill.
       res_bind (case kp_prompt skill of
                   None \<Rightarrow> Inr s
                 | Some _ \<Rightarrow> res_bind (record_skill_usage py e ''verification.run_evaluation'' (rn_cycle_id run) (oi_job_type i)
                              (oi_job_id i) JNull False s) (\<lambda>(_, s1). Inr s1)) (\<lambda>s1.
         case analyse llm e i run vr trace (kp_prompt skill) s1 of (out, s2) \<Rightarrow>
           Inr (persist_postmortem e run vr trace out s2)))))))"

section \<open>What a verdict means\<close>

lemma or_dict_JObj: "or_dict j = JObj d \<Longrightarrow> as_dict j = d"
  by (cases j) (auto simp: or_dict_def split: if_splits)

lemma or_list_member: "x \<in> set (as_list j) \<Longrightarrow> py_iter (or_list j) = Inr xs \<Longrightarrow> x \<in> set xs"
  by (cases j) (auto simp: or_list_def split: if_splits)

lemma iter_JObj_member: "py_iter (or_list j) = Inr xs \<Longrightarrow> JObj x \<in> set xs \<Longrightarrow> JObj x \<in> set (as_list j)"
  by (cases j) (auto simp: or_list_def split: if_splits)

text \<open>The metric requirement a spec states, on the metrics of the run.\<close>

definition meets :: "dict \<Rightarrow> dict \<Rightarrow> bool" where
  "meets run_metrics m \<longleftrightarrow>
    (\<forall>n. dget m ''name'' = JStr n \<longrightarrow>
      (\<exists>v. py_num (dget run_metrics n) = Some v \<and>
        (\<forall>t. dget m ''threshold'' = JFloat t \<longrightarrow>
           (if dget_or m ''direction'' (JStr ''maximize'') = JStr ''maximize'' then t \<le> v else v \<le> t))))"

definition delivered :: "json list \<Rightarrow> dict \<Rightarrow> bool" where
  "delivered manifest a \<longleftrightarrow>
    (truthy (dget_or a ''required'' (JBool True)) \<longrightarrow>
      (\<exists>x. JObj x \<in> set manifest \<and> py_eq (dget x ''name'') (dget_or a ''name'' (JStr []))))"

lemma dget_or_some: "dget m k = v \<Longrightarrow> v \<noteq> JNull \<Longrightarrow> dget_or m k w = v"
  by (auto simp: dget_def dget_or_def split: option.splits)

lemma dget_or_JNull: "dget_or m k JNull = dget m k"
  by (simp add: dget_def dget_or_def)

lemma classify_metric_passed:
  assumes "classify_metric py name value (JObj m) be = Inr v" and "mv_passed v"
  shows "\<exists>x. py_num value = Some x \<and> (\<forall>t. dget m ''threshold'' = JFloat t \<longrightarrow>
    (if dget_or m ''direction'' (JStr ''maximize'') = JStr ''maximize'' then t \<le> x else x \<le> t))"
proof -
  obtain b where b: "baseline_of py be name = Inr b"
    using assms(1) by (cases "baseline_of py be name") (simp_all add: classify_metric_def)
  obtain x where x: "py_num value = Some x"
    using assms(1) b by (cases "py_num value") (simp_all add: classify_metric_def num_def)
  have "if dget_or m ''direction'' (JStr ''maximize'') = JStr ''maximize'' then t \<le> x else x \<le> t"
    if t: "dget m ''threshold'' = JFloat t" for t
  proof -
    have "v = \<lparr>mv_name = name, mv_value = value, mv_baseline = b, mv_delta = map_option (\<lambda>b. x - b) b,
       mv_direction = dget_or m ''direction'' (JStr ''maximize''),
       mv_passed = (if dget_or m ''direction'' (JStr ''maximize'') = JStr ''maximize'' then t \<le> x else x \<le> t)\<rparr>"
      using assms(1) b x t unfolding classify_metric_def jget_or.simps res_bind.simps dget_or_JNull b num_def x t option.case by simp
    then show ?thesis using assms(2) by simp
  qed
  then show ?thesis using x by blast
qed

lemma compare_passed:
  assumes "compare_to_baseline py run_metrics ms base = Inr vs" and "\<forall>v\<in>set vs. mv_passed v" and "JObj m \<in> set ms"
    and d: "run_metrics = JObj d"
  shows "meets d m"
proof -
  obtain be where vs: "map_res (verdict_of py run_metrics be) ms = Inr vs"
    using assms(1) by (auto simp: compare_to_baseline_def res_bind_Inr_iff)
  obtain v where v: "verdict_of py run_metrics be (JObj m) = Inr v" "v \<in> set vs" using map_res_in [OF vs assms(3)] .
  show ?thesis unfolding meets_def
  proof (intro allI impI)
    fix n assume n: "dget m ''name'' = JStr n"
    then have name: "dget_or m ''name'' (JStr []) = JStr n" by (rule dget_or_some) simp
    have "dget d n \<noteq> JNull"
    proof
      assume "dget d n = JNull"
      then have "v = missing_verdict (JStr n)"
        using v(1) unfolding verdict_of_def jget_or.simps res_bind.simps name jlookup_def d json.case key_text.simps by simp
      then show False using v(2) assms(2) by (auto simp: missing_verdict_def)
    qed
    then have "classify_metric py (JStr n) (dget d n) (JObj m) be = Inr v"
      using v(1) unfolding verdict_of_def jget_or.simps res_bind.simps name jlookup_def d json.case key_text.simps by simp
    then show "\<exists>v. py_num (dget d n) = Some v \<and> (\<forall>t. dget m ''threshold'' = JFloat t \<longrightarrow>
        (if dget_or m ''direction'' (JStr ''maximize'') = JStr ''maximize'' then t \<le> v else v \<le> t))"
      using classify_metric_passed assms(2) v(2) by blast
  qed
qed

lemma find_entry_Some:
  assumes "find_entry names manifest name = Some x" and "map_res entry_name manifest = Inr names"
  shows "\<exists>d. x = JObj d \<and> x \<in> set manifest \<and> py_eq (dget d ''name'') name"
proof -
  from assms(1) obtain p where "find (\<lambda>(n, _). py_eq n name) (zip names manifest) = Some p" and px: "snd p = x"
    by (auto simp: find_entry_def)
  from find_Some_in [OF this(1)] have p: "p \<in> set (zip names manifest)" "py_eq (fst p) name" by (auto split: prod.splits)
  then have x: "x \<in> set manifest" using px by (metis in_set_zipE surjective_pairing)
  have "list_all2 (\<lambda>a n. entry_name a = Inr n) manifest names" using assms(2) by (simp add: map_res_Inr_iff)
  then have "entry_name x = Inr (fst p)"
    using p(1) px by (auto simp: list_all2_conv_all_nth set_zip)
  then have "\<exists>d. x = JObj d \<and> fst p = dget d ''name''"
    by (auto simp: entry_name_def res_bind_Inr_iff split: json.splits if_splits)
  then show ?thesis using p x by auto
qed

lemma artifacts_passed:
  assumes "check_artifact_contract manifest expected = Inr cs" and "\<forall>c\<in>set cs. ac_passed c" and "JObj a \<in> set expected"
  shows "delivered manifest a"
proof -
  obtain names where names: "map_res entry_name manifest = Inr names" and cs: "map_res (check_artifact names manifest) expected = Inr cs"
    using assms(1) by (auto simp: check_artifact_contract_def res_bind_Inr_iff)
  obtain c where c: "check_artifact names manifest (JObj a) = Inr c" "c \<in> set cs" using map_res_in [OF cs assms(3)] .
  let ?name = "dget_or a ''name'' (JStr [])" and ?req = "dget_or a ''required'' (JBool True)"
  have "ac_passed c \<longleftrightarrow> find_entry names manifest ?name \<noteq> None \<or> \<not> truthy ?req"
    using c(1) by (auto simp: check_artifact_def res_bind_Inr_iff Let_def)
  moreover have "\<exists>x. JObj x \<in> set manifest \<and> py_eq (dget x ''name'') ?name" if "find_entry names manifest ?name = Some y" for y
    using find_entry_Some [OF that names] by blast
  ultimately show ?thesis using assms(2) c(2) by (cases "find_entry names manifest ?name") (auto simp: delivered_def)
qed

lemma run_checks_parts:
  assumes "run_checks py run sp prior = Inr c"
  obtains ms manifest expected d where "py_iter (or_list (sp_metrics sp)) = Inr ms"
    "py_iter (or_list (rn_artifact_manifest run)) = Inr manifest" "py_iter (or_list (sp_expected_artifacts sp)) = Inr expected"
    "or_dict (rn_metrics_output run) = JObj d"
    "compare_to_baseline py (JObj d) ms (or_dict (sp_baseline sp)) = Inr (cr_verdicts c)"
    "check_artifact_contract manifest expected = Inr (cr_artifacts c)"
proof -
  let ?rm = "or_dict (rn_metrics_output run)"
  obtain ms where ms: "py_iter (or_list (sp_metrics sp)) = Inr ms"
    using assms by (auto simp: run_checks_def res_bind_Inr_iff Let_def)
  obtain vs where vs: "compare_to_baseline py ?rm ms (or_dict (sp_baseline sp)) = Inr vs"
    using assms ms by (auto simp: run_checks_def res_bind_Inr_iff Let_def)
  obtain manifest where mf: "py_iter (or_list (rn_artifact_manifest run)) = Inr manifest"
    using assms ms vs by (auto simp: run_checks_def res_bind_Inr_iff Let_def)
  obtain ex where ex: "py_iter (or_list (sp_expected_artifacts sp)) = Inr ex"
    using assms ms vs mf by (auto simp: run_checks_def res_bind_Inr_iff Let_def)
  obtain acs where acs: "check_artifact_contract manifest ex = Inr acs"
    using assms ms vs mf ex by (auto simp: run_checks_def res_bind_Inr_iff Let_def)
  obtain rm where rm: "py_dict ?rm = Inr rm"
    using assms ms vs mf ex acs by (auto simp: run_checks_def res_bind_Inr_iff Let_def)
  then have d: "?rm = JObj rm" by (cases ?rm) simp_all
  have "cr_verdicts c = vs \<and> cr_artifacts c = acs"
    using assms ms vs mf ex acs rm by (auto simp: run_checks_def res_bind_Inr_iff Let_def)
  then show ?thesis using that [OF ms mf ex d] vs acs by (simp add: d)
qed

lemma passed_contract:
  assumes "run_checks py run sp prior = Inr c" and "verdict c = ''passed''"
  shows "(\<forall>m. JObj m \<in> set (as_list (sp_metrics sp)) \<longrightarrow> meets (as_dict (rn_metrics_output run)) m) \<and>
    (\<forall>a. JObj a \<in> set (as_list (sp_expected_artifacts sp)) \<longrightarrow> delivered (as_list (rn_artifact_manifest run)) a)"
proof -
  obtain ms manifest ex d where p: "py_iter (or_list (sp_metrics sp)) = Inr ms"
    "py_iter (or_list (rn_artifact_manifest run)) = Inr manifest" "py_iter (or_list (sp_expected_artifacts sp)) = Inr ex"
    "or_dict (rn_metrics_output run) = JObj d"
    "compare_to_baseline py (JObj d) ms (or_dict (sp_baseline sp)) = Inr (cr_verdicts c)"
    "check_artifact_contract manifest ex = Inr (cr_artifacts c)"
    using run_checks_parts [OF assms(1)] .
  have "all_pass c" using assms(2) by (simp add: verdict_def split: if_splits)
  then have v: "\<forall>v\<in>set (cr_verdicts c). mv_passed v" "\<forall>a\<in>set (cr_artifacts c). ac_passed a" by (auto simp: all_pass_def)
  have "meets (as_dict (rn_metrics_output run)) m" if "JObj m \<in> set (as_list (sp_metrics sp))" for m
    using compare_passed [OF p(5) v(1) or_list_member [OF that p(1)]] or_dict_JObj [OF p(4)] by simp
  moreover have "delivered (as_list (rn_artifact_manifest run)) a" if "JObj a \<in> set (as_list (sp_expected_artifacts sp))" for a
    using artifacts_passed [OF p(6) v(2) or_list_member [OF that p(3)]] iter_JObj_member [OF p(2)]
    unfolding delivered_def by blast
  ultimately show ?thesis by blast
qed

section \<open>What the operators commit\<close>

lemma run_emit_frame: "reports (run_emit e run et p s) = reports s" "jobs (run_emit e run et p s) = jobs s"
  by simp_all

lemma report_simps [simp]:
  "reports (add_report e run v bc ac oc ms ws s) = reports s @ [report_row e (new_uuid e s) run v bc ac oc ms ws]"
  "jobs (add_report e run v bc ac oc ms ws s) = jobs s" "runs (add_report e run v bc ac oc ms ws s) = runs s"
  "actions (add_report e run v bc ac oc ms ws s) = actions s"
  "vr_run_id (report_row e i run v bc ac oc ms ws) = rn_id run" "vr_verdict (report_row e i run v bc ac oc ms ws) = v"
  by (simp_all add: add_report_def report_row_def)

lemma create_job_reports [simp]: "reports (snd (create_job e c t p pr s)) = reports s"
  by (simp add: create_job_def Let_def)

lemma enqueue_verification_simps [simp]:
  "reports (enqueue_next_verification e c t k s) = reports s" "runs (enqueue_next_verification e c t k s) = runs s"
  "actions (enqueue_next_verification e c t k s) = actions s"
  "\<exists>j. jobs (enqueue_next_verification e c t k s) = jobs s @ [j] \<and> j_type j = t"
  by (simp_all add: enqueue_next_verification_def create_job_jobs)

lemma check_patterns_frame:
  "check_patterns py emb e run sp s = Inr (ms, s1) \<Longrightarrow>
   jobs s1 = jobs s \<and> runs s1 = runs s \<and> actions s1 = actions s \<and> reports s1 = reports s"
  by (auto simp: check_patterns_def res_bind_Inr_iff dest!: inject_frame)

lemma persist_check_commits:
  assumes "persist_check py e run c ws s = (r, s')"
  shows "\<exists>rep j. reports s' = reports s @ [rep] \<and> vr_run_id rep = rn_id run \<and> vr_verdict rep = verdict c \<and>
    jobs s' = jobs s @ [j] \<and> j_type j = (if verdict c = ''failed'' then ''auto_remediate'' else ''signal_classify'') \<and>
    runs s' = runs s \<and> actions s' = actions s \<and> r = OperatorResult"
  using assms by (auto simp: persist_check_def Let_def enqueue_next_verification_def create_job_jobs)

lemma check_failed_run_commits:
  assumes "check_failed_run e run s = (r, s')"
  shows "\<exists>rep j. reports s' = reports s @ [rep] \<and> vr_run_id rep = rn_id run \<and> vr_verdict rep = ''failed'' \<and>
    jobs s' = jobs s @ [j] \<and> j_type j = ''auto_remediate'' \<and> runs s' = runs s \<and> actions s' = actions s \<and> r = OperatorResult"
  using assms by (auto simp: check_failed_run_def Let_def enqueue_next_verification_def create_job_jobs)

lemma check_operator_run:
  assumes op: "verification_check_operator py emb e i s = (Inr r, s')" and ok: "or_success r"
  obtains run sp where "run_record_id_from_payload i = Inr (rn_id run)" "load_run_record s (rn_id run) = Inr run"
    "table_get sp_id (specs s) (rn_spec_id run) = Some sp"
    "if rn_status run = ''failed''
     then check_failed_run e run (run_emit e run ''verification.check_started'' [(''run_record_id'', JUuid (rn_id run))] s) = (r, s')
     else \<exists>ms s1 c ws. check_patterns py emb e run sp
             (run_emit e run ''verification.check_started'' [(''run_record_id'', JUuid (rn_id run))] s) = Inr (ms, s1) \<and>
           run_checks py run sp (prior_run s1 run) = Inr c \<and> persist_check py e run c ws s1 = (r, s')"
proof -
  obtain k where k: "run_record_id_from_payload i = Inr k" and c: "with_spec s k (check_run py emb e s) = Inr (r, s')"
    using with_run_id_Inr [OF op [unfolded verification_check_operator_def] ok] unfolding committed_Inr by metis
  obtain run sp where run: "load_run_record s k = Inr run" and sp: "table_get sp_id (specs s) (rn_spec_id run) = Some sp"
    and f: "check_run py emb e s run sp = Inr (r, s')"
    using with_spec_Inr [OF c ok] by metis
  have id: "rn_id run = k" using load_run_record_in [OF run] by simp
  let ?s1 = "run_emit e run ''verification.check_started'' [(''run_record_id'', JUuid (rn_id run))] s"
  have body: "if rn_status run = ''failed'' then check_failed_run e run ?s1 = (r, s')
     else \<exists>ms s1 c ws. check_patterns py emb e run sp ?s1 = Inr (ms, s1) \<and>
           run_checks py run sp (prior_run s1 run) = Inr c \<and> persist_check py e run c ws s1 = (r, s')"
  proof (cases "rn_status run = ''failed''")
    case True
    then show ?thesis using f by (simp add: check_run_def Let_def)
  next
    case False
    then have f': "check_completed_run py emb e run sp ?s1 = Inr (r, s')" using f by (simp add: check_run_def Let_def)
    then obtain ms s1 where p: "check_patterns py emb e run sp ?s1 = Inr (ms, s1)"
      by (cases "check_patterns py emb e run sp ?s1") (auto simp: check_completed_run_def)
    then obtain c where c: "run_checks py run sp (prior_run s1 run) = Inr c"
      using f' by (cases "run_checks py run sp (prior_run s1 run)") (auto simp: check_completed_run_def)
    have "\<exists>ws. persist_check py e run c ws s1 = (r, s')"
      using f' p c unfolding check_completed_run_def by (auto simp: res_bind_Inr_iff)
    then show ?thesis using False p c by auto
  qed
  show ?thesis by (rule that [of run sp]) (use k run sp body id in simp_all)
qed


lemma create_job_misc [simp]:
  "bindings (snd (create_job e c t p pr s)) = bindings s" "postmortems (snd (create_job e c t p pr s)) = postmortems s"
  by (simp_all add: create_job_def Let_def)

lemma record_model_call_frame [simp]:
  "bindings (snd (record_model_call e c j ro pv md a b s)) = bindings s"
  "events (snd (record_model_call e c j ro pv md a b s)) = events s"
  "postmortems (snd (record_model_call e c j ro pv md a b s)) = postmortems s"
  "jobs (snd (record_model_call e c j ro pv md a b s)) = jobs s"
  "runs (snd (record_model_call e c j ro pv md a b s)) = runs s"
  "actions (snd (record_model_call e c j ro pv md a b s)) = actions s"
  by (simp_all add: record_model_call_def Let_def)

lemma persist_postmortem_commits:
  assumes "persist_postmortem e run vr trace out s = (r, s')"
  shows "r = OperatorResult \<and> bindings s' = bindings s \<and>
    event_types s' = event_types s @ [''verification.postmortem_generated''] \<and> runs s' = runs s \<and> actions s' = actions s \<and>
    (\<exists>i. postmortems s' = postmortems s @ [postmortem_row e i run vr trace out]) \<and>
    (\<exists>j. jobs s' = jobs s @ [j] \<and> j_type j = ''recommend'' \<and>
       j_payload j = Some [(''run_record_id'', JUuid (rn_id run)), (''failed'', JBool True)])"
  using assms by (auto simp: persist_postmortem_def Let_def create_job_jobs)

lemma record_skill_usage_frame:
  assumes "record_skill_usage py e skill c op job cfg raising s = Inr (b, s1)"
  shows "jobs s1 = jobs s \<and> runs s1 = runs s \<and> actions s1 = actions s \<and> postmortems s1 = postmortems s"
proof -
  obtain row where row: "find_skill s skill = Inr row"
    using assms by (cases "find_skill s skill") (simp_all add: record_skill_usage_def)
  show ?thesis
  proof (cases row)
    case (Some d)
    obtain dec where dec: "enforce py skill (sk_trust_tier d) (sk_manifest d) (cycle_config_of s c) = Inr dec"
      using assms row Some
      by (cases "enforce py skill (sk_trust_tier d) (sk_manifest d) (cycle_config_of s c)") (simp_all add: record_skill_usage_def)
    show ?thesis
      using assms unfolding record_skill_usage_def row Some dec res_bind.simps option.case
      by (auto simp: add_binding_def Let_def split: if_splits)
  qed (use assms row in \<open>simp add: record_skill_usage_def\<close>)
qed

text \<open>A postmortem that returns has left one row on the run and its recommendation job, on the failed path.\<close>

lemma postmortem_operator_commits:
  assumes op: "verification_postmortem_operator py llm e i s = (Inr r, s')" and ok: "or_success r"
  obtains run p j where "run_record_id_from_payload i = Inr (rn_id run)" "load_run_record s (rn_id run) = Inr run"
    "postmortems s' = postmortems s @ [p]" "pm_run_id p = rn_id run" "runs s' = runs s" "actions s' = actions s"
    "jobs s' = jobs s @ [j]" "j_type j = ''recommend''"
    "j_payload j = Some [(''run_record_id'', JUuid (rn_id run)), (''failed'', JBool True)]"
proof -
  obtain k where k: "run_record_id_from_payload i = Inr k"
    and body: "res_bind (load_run_record s k) (\<lambda>run.
       res_bind (scalar_one_or_none (filter (\<lambda>v. vr_run_id v = rn_id run) (reports s))) (\<lambda>vr.
         let trace = log_tail s run in
       res_bind (load_skill_prompt s ''verification.run_evaluation'' (oi_job_type i)) (\<lambda>skill.
       res_bind (case kp_prompt skill of
                   None \<Rightarrow> Inr s
                 | Some _ \<Rightarrow> res_bind (record_skill_usage py e ''verification.run_evaluation'' (rn_cycle_id run) (oi_job_type i)
                              (oi_job_id i) JNull False s) (\<lambda>(_, s1). Inr s1)) (\<lambda>s1.
         case analyse llm e i run vr trace (kp_prompt skill) s1 of (out, s2) \<Rightarrow>
           Inr (persist_postmortem e run vr trace out s2))))) = Inr (r, s')"
    using with_run_id_Inr [OF op [unfolded verification_postmortem_operator_def] ok] unfolding committed_Inr by blast
  obtain run where run: "load_run_record s k = Inr run" using body by (cases "load_run_record s k") simp_all
  have id: "rn_id run = k" using load_run_record_in [OF run] by simp
  obtain vr where vr: "scalar_one_or_none (filter (\<lambda>v. vr_run_id v = rn_id run) (reports s)) = Inr vr"
    using body run by (cases "scalar_one_or_none (filter (\<lambda>v. vr_run_id v = rn_id run) (reports s))") simp_all
  obtain skill where skill: "load_skill_prompt s ''verification.run_evaluation'' (oi_job_type i) = Inr skill"
    using body run vr by (cases "load_skill_prompt s ''verification.run_evaluation'' (oi_job_type i)") (simp_all add: Let_def)
  obtain s1 where s1: "(case kp_prompt skill of
                   None \<Rightarrow> Inr s
                 | Some _ \<Rightarrow> res_bind (record_skill_usage py e ''verification.run_evaluation'' (rn_cycle_id run) (oi_job_type i)
                              (oi_job_id i) JNull False s) (\<lambda>(_, s1). Inr s1)) = Inr s1" (is "?use = _")
    using body run vr skill by (cases ?use) (simp_all add: Let_def)
  have f1: "jobs s1 = jobs s \<and> runs s1 = runs s \<and> actions s1 = actions s \<and> postmortems s1 = postmortems s"
    using s1 by (cases "kp_prompt skill") (auto simp: res_bind_Inr_iff dest!: record_skill_usage_frame)
  obtain out s2 where an: "analyse llm e i run vr (log_tail s run) (kp_prompt skill) s1 = (out, s2)"
    by (cases "analyse llm e i run vr (log_tail s run) (kp_prompt skill) s1")
  have f2: "jobs s2 = jobs s1 \<and> runs s2 = runs s1 \<and> actions s2 = actions s1 \<and> postmortems s2 = postmortems s1"
    using an by (auto simp: analyse_def split: sum.splits prod.splits)
  have "persist_postmortem e run vr (log_tail s run) out s2 = (r, s')"
    using body run vr skill s1 an by (simp add: Let_def)
  from persist_postmortem_commits [OF this] obtain pi j where
    "postmortems s' = postmortems s2 @ [postmortem_row e pi run vr (log_tail s run) out]" "runs s' = runs s2" "actions s' = actions s2"
    "jobs s' = jobs s2 @ [j]" "j_type j = ''recommend''"
    "j_payload j = Some [(''run_record_id'', JUuid (rn_id run)), (''failed'', JBool True)]" by blast
  then show ?thesis using k run f1 f2 id
    by (intro that [of run "postmortem_row e pi run vr (log_tail s run) out" j]) (simp_all add: postmortem_row_def)
qed

text \<open>
  Blocking a skill does not keep its prompt from the model: when the trust policy refuses the binding of the
  postmortem's skill, the refusal is recorded as a \<open>skill.blocked\<close> event and no binding is written, but the operator
  ignores it and the postmortem is what the model answers to the prompt of the blocked skill.
\<close>

theorem blocked_prompt_reaches_model:
  assumes k: "run_record_id_from_payload i = Inr (rn_id run)" "load_run_record s (rn_id run) = Inr run"
    and vr: "scalar_one_or_none (filter (\<lambda>v. vr_run_id v = rn_id run) (reports s)) = Inr vr"
    and skill: "find_skill s ''verification.run_evaluation'' = Inr (Some d)" "sk_manifest d = model_dump m"
      "sk_trust_tier d = tier_value tier" "sk_body d = Some body" "sk_enabled d" "admits m (oi_job_type i)" "py_strip body \<noteq> []"
    and req: "jget_or (dget_or (cycle_config_of s (rn_cycle_id run)) ''skills'' (JObj [])) ''require_first_party_for_execution''
        (JBool False) = Inr req"
    and blocked: "\<not> trust_ok (truthy req) m tier"
    and llm: "llm (failure_class_of run) (case rn_error run of Some (c # cs) \<Rightarrow> c # cs | _ \<Rightarrow> ''unknown error'') (log_tail s run)
        (rn_metrics_output run) (case vr of None \<Rightarrow> JNull | Some v \<Rightarrow> vr_baseline_comparison v) (Some (py_strip body)) =
        Inr (out, provider, model)"
  shows "\<exists>s' p. verification_postmortem_operator py llm e i s = (Inr OperatorResult, s') \<and>
    ''skill.blocked'' \<in> set (event_types s') \<and> bindings s' = bindings s \<and>
    postmortems s' = postmortems s @ [p] \<and> pm_root_cause p = po_root_cause out"
proof -
  let ?op = "oi_job_type i"
  have prompt: "load_skill_prompt s ''verification.run_evaluation'' ?op = Inr \<lparr>kp_prompt = Some (py_strip body), kp_warning = None\<rparr>"
    unfolding load_skill_prompt_dump [OF skill(1,2,4)] using skill(5-7) by simp
  from enforce_dump [OF req] obtain dec where dec:
    "enforce py ''verification.run_evaluation'' (tier_value tier) (model_dump m) (cycle_config_of s (rn_cycle_id run)) = Inr dec"
    "\<not> en_allowed dec" using blocked by blast
  obtain s1 where use: "record_skill_usage py e ''verification.run_evaluation'' (rn_cycle_id run) ?op (oi_job_id i) JNull False s =
      Inr (None, s1)" and s1: "bindings s1 = bindings s" "event_types s1 = event_types s @ [''skill.blocked'']"
    "postmortems s1 = postmortems s"
    unfolding record_skill_usage_def skill(1-3) res_bind.simps option.case dec(1) Let_def using dec(2) by simp
  let ?s2 = "snd (record_model_call e (Some (rn_cycle_id run)) (Some (oi_job_id i)) ''evaluation'' provider model None None s1)"
  have an: "analyse llm e i run vr (log_tail s run) (Some (py_strip body)) s1 = (out, ?s2)"
    unfolding analyse_def llm by simp
  obtain r s' where pp: "persist_postmortem e run vr (log_tail s run) out ?s2 = (r, s')"
    by (cases "persist_postmortem e run vr (log_tail s run) out ?s2")
  note c = persist_postmortem_commits [OF pp]
  have "verification_postmortem_operator py llm e i s = (Inr OperatorResult, s')"
    unfolding verification_postmortem_operator_def with_run_id_def k sum.case res_bind.simps vr Let_def prompt
      skill_prompt_result.simps option.case use prod.case an pp committed_def using c by simp
  moreover obtain pi where "postmortems s' = postmortems s @ [postmortem_row e pi run vr (log_tail s run) out]"
    using c s1(3) by auto
  moreover have "''skill.blocked'' \<in> set (event_types s')" "bindings s' = bindings s" using c s1 by simp_all
  ultimately show ?thesis by (auto simp: postmortem_row_def)
qed

section \<open>Witnesses\<close>

definition demo_done_run :: run_record where
  "demo_done_run = (pending_run demo_env 20 1 3 4 None 1)\<lparr>rn_status := ''completed'',
     rn_metrics_output := JObj [(''acc'', JFloat (9 / 10))]\<rparr>"

definition demo_metric_spec :: experiment_spec where
  "demo_metric_spec = demo_spec\<lparr>sp_metrics := JList [JObj [(''name'', JStr ''acc''), (''threshold'', JFloat (1 / 2))]],
     sp_baseline := JNull, sp_expected_artifacts := JNull\<rparr>"

definition demo_done_world :: db where
  "demo_done_world = empty_db\<lparr>runs := [demo_done_run], specs := [demo_metric_spec]\<rparr>"

lemma demo_done_facts:
  "runs demo_done_world = [demo_done_run]" "specs demo_done_world = [demo_metric_spec]" "cycles demo_done_world = []"
  "patterns demo_done_world = []" "rn_id demo_done_run = 20" "rn_spec_id demo_done_run = 1" "sp_id demo_metric_spec = 1"
  "rn_status demo_done_run = ''completed''" "rn_metrics_output demo_done_run = JObj [(''acc'', JFloat (9 / 10))]"
  "rn_artifact_manifest demo_done_run = JNull" "rn_charter_id demo_done_run = 3" "rn_cycle_id demo_done_run = 4"
  "sp_metrics demo_metric_spec = JList [JObj [(''name'', JStr ''acc''), (''threshold'', JFloat (1 / 2))]]"
  "sp_baseline demo_metric_spec = JNull" "sp_expected_artifacts demo_metric_spec = JNull"
  by (simp_all add: demo_done_world_def demo_done_run_def pending_run_def demo_metric_spec_def demo_spec_def empty_db_def)

lemma demo_checks:
  "run_checks nopy demo_done_run demo_metric_spec None = Inr \<lparr>cr_verdicts = [\<lparr>mv_name = JStr ''acc'', mv_value = JFloat (9 / 10),
       mv_baseline = None, mv_delta = None, mv_direction = JStr ''maximize'', mv_passed = True\<rparr>],
     cr_artifacts = [], cr_output = [], cr_sanity = [(JStr ''acc'', True)], cr_has_thresholds = True\<rparr>"
  by (simp add: run_checks_def demo_done_facts or_dict_def or_list_def compare_to_baseline_def verdict_of_def dget_or_def
      jlookup_def classify_metric_def baseline_of_def num_def check_artifact_contract_def build_output_contract_def
      build_metric_sanity_def sanity_check_def dget_def Let_def)

lemma demo_check_patterns:
  "check_patterns nopy (\<lambda>_. None) demo_env demo_done_run demo_metric_spec (emit_sys demo_env et 3 4 pl demo_done_world) =
     Inr ([], emit_sys demo_env et 3 4 pl demo_done_world)"
  by (simp add: check_patterns_def from_cycle_config_def inject_patterns_def find_relevant_patterns_def demo_done_facts
      opt_dict_def dget_or_def Let_def)

lemma demo_check_passes:
  "\<exists>s'. verification_check_operator nopy (\<lambda>_. None) demo_env demo_run_input demo_done_world = (Inr OperatorResult, s') \<and>
     map vr_verdict (reports s') = [''passed'']"
proof -
  let ?s1 = "run_emit demo_env demo_done_run ''verification.check_started'' [(''run_record_id'', JUuid (rn_id demo_done_run))] demo_done_world"
  have prior: "prior_run ?s1 demo_done_run = None"
    by (simp add: prior_run_def demo_done_facts first_row_def)
  obtain c where c: "run_checks nopy demo_done_run demo_metric_spec None = Inr c" and v: "verdict c = ''passed''"
    and w: "check_warnings c None [] = Inr []"
    using demo_checks by (simp add: verdict_def all_pass_def check_warnings_def)
  obtain r s' where p: "persist_check nopy demo_env demo_done_run c [] ?s1 = (r, s')"
    by (cases "persist_check nopy demo_env demo_done_run c [] ?s1")
  have run: "check_run nopy (\<lambda>_. None) demo_env demo_done_world demo_done_run demo_metric_spec = Inr (r, s')"
    unfolding check_run_def check_completed_run_def Let_def
    using demo_check_patterns prior c w p by (simp add: demo_done_facts)
  have l: "run_record_id_from_payload demo_run_input = Inr 20" "load_run_record demo_done_world 20 = Inr demo_done_run"
    "table_get sp_id (specs demo_done_world) 1 = Some demo_metric_spec"
    by (simp_all add: demo_ready_facts load_run_record_def demo_done_facts)
  have "reports demo_done_world = []" by (simp add: demo_done_world_def empty_db_def)
  then show ?thesis
    unfolding verification_check_operator_def with_run_id_def l sum.case with_spec_def res_bind.simps demo_done_facts(6) option.case run
    using persist_check_commits [OF p] v by (auto simp: committed_def)
qed


definition demo_analyst :: analyst where
  "demo_analyst cls err trace metrics bc prompt =
     Inr (\<lparr>po_root_cause = (case prompt of None \<Rightarrow> ''no skill'' | Some p \<Rightarrow> ''obeyed: '' @ p), po_factors = [], po_next_step = [],
           po_lessons = []\<rparr>, ''provider'', ''model'')"

definition demo_blocked_world :: db where
  "demo_blocked_world = demo_failed_world\<lparr>skills := [new_skill demo_env 7 demo_discovered]\<rparr>"

theorem blocked_prompt_reaches_model_witness:
  "\<exists>s' p. verification_postmortem_operator nopy demo_analyst demo_env demo_run_input demo_blocked_world = (Inr OperatorResult, s') \<and>
     ''skill.blocked'' \<in> set (event_types s') \<and> bindings s' = [] \<and>
     postmortems s' = [p] \<and> pm_root_cause p = ''obeyed: prompt''"
proof -
  let ?out = "\<lparr>po_root_cause = ''obeyed: prompt'', po_factors = [], po_next_step = [], po_lessons = []\<rparr>"
  have k: "run_record_id_from_payload demo_run_input = Inr (rn_id demo_failed_run)"
    "load_run_record demo_blocked_world (rn_id demo_failed_run) = Inr demo_failed_run"
    by (simp_all add: demo_ready_facts load_run_record_def demo_blocked_world_def demo_failed_facts)
  have vr: "scalar_one_or_none (filter (\<lambda>v. vr_run_id v = rn_id demo_failed_run) (reports demo_blocked_world)) = Inr None"
    by (simp add: demo_blocked_world_def demo_failed_facts)
  have f: "find_skill demo_blocked_world ''verification.run_evaluation'' = Inr (Some (new_skill demo_env 7 demo_discovered))"
    by (simp add: find_skill_def demo_blocked_world_def demo_discovered_def demo_manifest_def)
  have m: "sk_manifest (new_skill demo_env 7 demo_discovered) = model_dump demo_manifest"
    "sk_trust_tier (new_skill demo_env 7 demo_discovered) = tier_value Third_party_untrusted"
    "sk_body (new_skill demo_env 7 demo_discovered) = Some ''prompt''" "sk_enabled (new_skill demo_env 7 demo_discovered)"
    by (simp_all add: new_skill_def demo_discovered_def)
  have adm: "admits demo_manifest (oi_job_type demo_run_input)" by (simp add: admits_def demo_manifest_def)
  have strip: "py_strip ''prompt'' = ''prompt''" by code_simp
  have req: "jget_or (dget_or (cycle_config_of demo_blocked_world (rn_cycle_id demo_failed_run)) ''skills'' (JObj []))
      ''require_first_party_for_execution'' (JBool False) = Inr (JBool False)"
    by (simp add: cycle_config_of_def demo_blocked_world_def demo_failed_facts dget_or_def)
  have blocked: "\<not> trust_ok (truthy (JBool False)) demo_manifest Third_party_untrusted"
    by (simp add: trust_ok_def demo_manifest_def ELEVATED_CAPABILITIES_def)
  have ne: "py_strip ''prompt'' \<noteq> []" unfolding strip by simp
  have llm: "demo_analyst cls err trace metrics bc (Some (py_strip ''prompt'')) = Inr (?out, ''provider'', ''model'')"
    for cls err trace metrics bc unfolding strip by (simp add: demo_analyst_def)
  have "bindings demo_blocked_world = []" "postmortems demo_blocked_world = []"
    by (simp_all add: demo_blocked_world_def demo_failed_world_def empty_db_def)
  with blocked_prompt_reaches_model [where llm = demo_analyst and py = nopy and e = demo_env,
      OF k vr f m(1,2,3,4) adm ne req blocked llm] show ?thesis by simp
qed

end
