(* ===== verification/Protocol_Compile.thy ===== *)
theory Protocol_Compile
  imports Autonomy_Service Verification
begin

text \<open>
  The protocol compiler: completeness of an experiment spec (\<open>libs/protocols/validation.py\<close>) and the operator
  that turns hypotheses into specs and, for the autonomous loop, prepares the next run
  (\<open>libs/protocols/operators/compile.py\<close>).

  The model that drafts the specs is \<open>px_draft\<close>: from the selected cards, the problem statement, the hardware
  profile, base image, skill prompt and variation context it makes a text of the error or the specs with the role
  configuration it used.  Its answer is typed by pydantic, so a spec is a record.
\<close>

section \<open>Completeness of a spec\<close>

record compiled_spec =
  cs_title :: string
  cs_description :: string
  cs_baseline :: dict
  cs_controls :: "dict list"
  cs_metrics :: "dict list"
  cs_expected_artifacts :: "dict list"
  cs_stop_conditions :: "dict list"
  cs_code_plan :: dict
  cs_base_image :: "string option"

abbreviation JDicts :: "dict list \<Rightarrow> json" where
  "JDicts ds \<equiv> JList (map JObj ds)"

text \<open>\<open>compiled.model_dump()\<close>.\<close>

definition spec_dump :: "compiled_spec \<Rightarrow> dict" where
  "spec_dump c =
    [(''title'', JStr (cs_title c)), (''description'', JStr (cs_description c)), (''baseline'', JObj (cs_baseline c)),
     (''controls'', JDicts (cs_controls c)), (''metrics'', JDicts (cs_metrics c)),
     (''expected_artifacts'', JDicts (cs_expected_artifacts c)), (''stop_conditions'', JDicts (cs_stop_conditions c)),
     (''code_plan'', JObj (cs_code_plan c)), (''base_image'', case cs_base_image c of None \<Rightarrow> JNull | Some t \<Rightarrow> JStr t)]"

record validation_result =
  vd_errors :: "string list"
  vd_warnings :: "string list"

definition vd_valid :: "validation_result \<Rightarrow> bool" where
  "vd_valid v \<longleftrightarrow> vd_errors v = []"

definition metric_label :: "nat \<Rightarrow> string" where
  "metric_label i = ''metric['' @ nat_digits i @ '']''"

definition check_metric :: "nat \<Rightarrow> json \<Rightarrow> string list res" where
  "check_metric i m =
    res_bind (jget_or m ''name'' JNull) (\<lambda>name. res_bind (jget_or m ''direction'' JNull) (\<lambda>dir.
      Inr ((if truthy name then [] else [metric_label i @ '' missing '' @ squote ''name'']) @
           (if dir = JStr ''maximize'' \<or> dir = JStr ''minimize'' then []
            else [metric_label i @ '' '' @ squote ''direction'' @ '' must be '' @ squote ''maximize'' @ '' or '' @ squote ''minimize'']))))"

fun check_metrics :: "nat \<Rightarrow> json list \<Rightarrow> string list res" where
  "check_metrics i [] = Inr []"
| "check_metrics i (m # ms) =
    res_bind (check_metric i m) (\<lambda>es. res_bind (check_metrics (Suc i) ms) (\<lambda>fs. Inr (es @ fs)))"

definition check_baseline :: "json \<Rightarrow> string list res" where
  "check_baseline baseline =
    (let missing = [''baseline must be defined with a description''] in
     if \<not> truthy baseline then Inr missing
     else res_bind (jget_or baseline ''description'' JNull) (\<lambda>d. Inr (if truthy d then [] else missing)))"

definition check_code_plan :: "json \<Rightarrow> string list res" where
  "check_code_plan code_plan =
    (if truthy code_plan
     then res_bind (jget_or code_plan ''entry_point'' JNull) (\<lambda>ep.
          res_bind (jget_or code_plan ''files'' (JObj [])) (\<lambda>fs.
            Inr ((if truthy ep then [] else [''code_plan missing '' @ squote ''entry_point'']) @
                 (if truthy fs then [] else [''code_plan has no files'']))))
     else Inr [''code_plan is required''])"

definition validate_spec :: "dict \<Rightarrow> validation_result res" where
  "validate_spec d =
    (let metrics = dget_or d ''metrics'' (JList []);
         stops = dget_or d ''stop_conditions'' (JList [])
     in res_bind (check_baseline (dget d ''baseline'')) (\<lambda>e1.
        res_bind (py_iter metrics) (\<lambda>ms.
        res_bind (check_metrics 0 ms) (\<lambda>e3.
        res_bind (check_code_plan (dget d ''code_plan'')) (\<lambda>e4.
          Inr \<lparr>vd_errors = e1 @ (if truthy metrics then [] else [''at least one metric must be defined'']) @ e3 @ e4,
               vd_warnings = (if truthy stops then [] else [''no stop conditions defined; run will rely on timeout''])\<rparr>)))))"

section \<open>Selecting hypotheses\<close>

record compile_ext =
  px_py :: pylib
  px_model_validate :: "json \<Rightarrow> autonomy_policy res"
  px_draft :: "hypothesis_card list \<Rightarrow> string \<Rightarrow> json \<Rightarrow> json \<Rightarrow> string option \<Rightarrow> json \<Rightarrow> string + (compiled_spec list \<times> dict)"

definition explicit_cards :: "db \<Rightarrow> hypothesis_session \<Rightarrow> uuid list \<Rightarrow> hypothesis_card list" where
  "explicit_cards s hs ids =
     filter (\<lambda>c. hc_id c \<in> set ids \<and> hc_session_id c = hs_id hs \<and> hc_cycle_id c = hs_cycle_id hs \<and>
       hc_charter_id c = hs_charter_id hs) (cards s)"

definition ranked_cards :: "db \<Rightarrow> hypothesis_session \<Rightarrow> hypothesis_card list" where
  "ranked_cards s hs =
     take 5 (sort_key (\<lambda>c. (hc_rank c = None, case hc_rank c of None \<Rightarrow> 0 | Some r \<Rightarrow> r))
       (filter (\<lambda>c. hc_session_id c = hs_id hs \<and> hc_status c \<in> {''candidate'', ''selected''}) (cards s)))"

text \<open>The cards to compile, or the message of the early return.\<close>

definition select_cards :: "db \<Rightarrow> hypothesis_session \<Rightarrow> json \<Rightarrow> (string + hypothesis_card list) res" where
  "select_cards s hs explicit =
    res_bind (if truthy explicit
              then res_bind (py_iter explicit) (\<lambda>raw. res_bind (map_res UUID_of raw) (\<lambda>ids.
                     let found = explicit_cards s hs ids
                     in Inr (if length found \<noteq> length ids then Inl ''one or more hypothesis_card_ids are out of scope for this hypothesis session, cycle, or charter''
                             else Inr found)))
              else Inr (Inr (ranked_cards s hs))) (\<lambda>r.
      Inr (case r of Inr [] \<Rightarrow> Inl ''no hypotheses available to compile'' | _ \<Rightarrow> r))"

definition selected_card :: "env \<Rightarrow> hypothesis_card \<Rightarrow> hypothesis_card" where
  "selected_card e c =
    (if hc_status c = ''candidate'' then c\<lparr>hc_status := ''selected'', hc_updated_at := now e\<rparr> else c)"

section \<open>Persisting specs\<close>

definition spec_row ::
  "env \<Rightarrow> uuid \<Rightarrow> hypothesis_session \<Rightarrow> hypothesis_card \<Rightarrow> compiled_spec \<Rightarrow> json \<Rightarrow> json \<Rightarrow> string \<Rightarrow> experiment_spec" where
  "spec_row e i hs crd c hardware base_image status =
     \<lparr>sp_id = i, sp_card_id = hc_id crd, sp_charter_id = hs_charter_id hs, sp_cycle_id = hs_cycle_id hs,
      sp_title = cs_title c, sp_description = cs_description c, sp_baseline = JObj (cs_baseline c),
      sp_controls = JDicts (cs_controls c), sp_metrics = JDicts (cs_metrics c),
      sp_expected_artifacts = JDicts (cs_expected_artifacts c), sp_stop_conditions = JDicts (cs_stop_conditions c),
      sp_code_plan = JObj (cs_code_plan c), sp_hardware_profile = hardware,
      sp_base_image = (case cs_base_image c of Some (ch # t) \<Rightarrow> Some (ch # t)
        | _ \<Rightarrow> (case base_image of JStr t \<Rightarrow> Some t | _ \<Rightarrow> None)),
      sp_build_recipe = JNull, sp_status = status, sp_created_at = now e, sp_updated_at = now e,
      sp_primary_metric_index = Some 0\<rparr>"

definition compile_one ::
  "env \<Rightarrow> hypothesis_session \<Rightarrow> json \<Rightarrow> json \<Rightarrow> hypothesis_card \<Rightarrow> compiled_spec \<Rightarrow> db \<times> uuid list \<times> nat
   \<Rightarrow> (db \<times> uuid list \<times> nat) res" where
  "compile_one e hs hardware base_image crd c acc =
    (case acc of (s, compiled, rejected) \<Rightarrow>
      res_bind (validate_spec (spec_dump c)) (\<lambda>v.
        let i = new_uuid e s;
            sp = spec_row e i hs crd c hardware base_image (if vd_valid v then ''validated'' else ''rejected'');
            crd' = (if vd_valid v then crd\<lparr>hc_status := ''compiled''\<rparr> else crd)\<lparr>hc_updated_at := now e\<rparr>;
            s1 = (if vd_valid v
                  then emit_sys e ''protocol.spec_compiled'' (hs_charter_id hs) (hs_cycle_id hs)
                    [(''spec_id'', JUuid i), (''hypothesis_card_id'', JUuid (hc_id crd)), (''title'', JStr (sp_title sp))] (tick_uuid s)
                  else emit_sys e ''protocol.spec_rejected'' (hs_charter_id hs) (hs_cycle_id hs)
                    [(''spec_id'', JUuid i), (''hypothesis_card_id'', JUuid (hc_id crd)),
                     (''errors'', JList (map JStr (vd_errors v)))] (tick_uuid s));
            s2 = put_card crd' (s1\<lparr>specs := specs s1 @ [sp]\<rparr>)
        in Inr (s2, if vd_valid v then compiled @ [i] else compiled, if vd_valid v then rejected else Suc rejected)))"

fun compile_all ::
  "env \<Rightarrow> hypothesis_session \<Rightarrow> json \<Rightarrow> json \<Rightarrow> (hypothesis_card \<times> compiled_spec) list \<Rightarrow> db \<times> uuid list \<times> nat
   \<Rightarrow> (db \<times> uuid list \<times> nat) res" where
  "compile_all e hs hardware base_image [] acc = Inr acc"
| "compile_all e hs hardware base_image ((crd, c) # rest) acc =
    res_bind (compile_one e hs hardware base_image crd c acc) (compile_all e hs hardware base_image rest)"

text \<open>A prompt counts as used when it is not empty; whether the binding was allowed is not looked at.\<close>

definition use_skill :: "pylib \<Rightarrow> env \<Rightarrow> op_input \<Rightarrow> uuid \<Rightarrow> string \<Rightarrow> skill_prompt_result \<Rightarrow> db \<Rightarrow> db res" where
  "use_skill py e i cycle_id skill_id p s =
    (case kp_prompt p of
       Some (ch # t) \<Rightarrow> res_bind (record_skill_usage py e skill_id cycle_id (oi_job_type i) (oi_job_id i) JNull False s) (\<lambda>(_, s1). Inr s1)
     | _ \<Rightarrow> Inr s)"

definition role_text :: "pylib \<Rightarrow> dict \<Rightarrow> string \<Rightarrow> string" where
  "role_text py cfg key = py_str (float_repr py) (dget_or cfg key (JStr ''unknown''))"

text \<open>The first session: the specs that were compiled, how many were rejected, and the store it commits.\<close>

definition compile_session ::
  "compile_ext \<Rightarrow> env \<Rightarrow> op_input \<Rightarrow> hypothesis_session \<Rightarrow> db \<Rightarrow> (string + uuid list \<times> nat \<times> db) res" where
  "compile_session x e i hs s =
    (let payload = oi_payload i;
         problem = (case get_charter s (hs_charter_id hs) of None \<Rightarrow> [] | Some ch \<Rightarrow> ch_problem_statement ch);
         hardware = dget payload ''hardware_profile''; base_image = dget payload ''base_image''
     in res_bind (select_cards s hs (dget payload ''hypothesis_card_ids'')) (\<lambda>sel.
       case sel of
         Inl msg \<Rightarrow> Inr (Inl msg)
       | Inr chosen \<Rightarrow>
          let chosen1 = map (selected_card e) chosen; s1 = fold put_card chosen1 s in
          res_bind (load_skill_prompt s1 ''ideation.experiment_planning'' (oi_job_type i)) (\<lambda>planning.
          res_bind (load_skill_prompt s1 ''coding.experiment_coding'' (oi_job_type i)) (\<lambda>coding.
          res_bind (use_skill (px_py x) e i (hs_cycle_id hs) ''ideation.experiment_planning'' planning s1) (\<lambda>s2.
          res_bind (use_skill (px_py x) e i (hs_cycle_id hs) ''coding.experiment_coding'' coding s2) (\<lambda>s3.
            case px_draft x chosen1 problem hardware base_image (join_skill_prompts [kp_prompt planning, kp_prompt coding])
                   (dget payload ''variation_context'') of
              Inl err \<Rightarrow> Inr (Inl (''protocol compilation failed: '' @ err))
            | Inr (drafts, cfg) \<Rightarrow>
               let s4 = snd (record_model_call e (Some (hs_cycle_id hs)) (Some (oi_job_id i)) ''protocol_drafting''
                          (role_text (px_py x) cfg ''provider'') (role_text (px_py x) cfg ''model'') None None s3)
               in res_bind (compile_all e hs hardware base_image (zip chosen1 drafts) (s4, [], 0)) (\<lambda>(s5, compiled, rejected).
                    Inr (Inr (compiled, rejected,
                      emit_sys e ''protocol.compilation_completed'' (hs_charter_id hs) (hs_cycle_id hs)
                        [(''compiled_count'', JInt (int (length compiled))), (''rejected_count'', JInt (int rejected))] s5)))))))))"


section \<open>Continuing the loop\<close>

definition loop_gate_decision ::
  "env \<Rightarrow> uuid \<Rightarrow> experiment_spec \<Rightarrow> autonomy_budget \<Rightarrow> dict \<Rightarrow> string \<Rightarrow> uuid \<Rightarrow> uuid \<Rightarrow> uuid option \<Rightarrow> nat \<Rightarrow> loop_decision" where
  "loop_gate_decision e i sp b ctx gate run_id rec_id crd n =
     \<lparr>ld_id = i, ld_cycle_id = sp_cycle_id sp, ld_charter_id = sp_charter_id sp, ld_run_id = run_id,
      ld_recommendation_id = rec_id, ld_iteration_number = n, ld_decision = ''stop_gate'', ld_gate_triggered = Some gate,
      ld_budget_snapshot = \<lparr>bs_total_runs = ab_total_runs b, bs_wall_clock_elapsed_s = ab_wall_clock_elapsed_s b,
        bs_runs_per_hypothesis = ab_runs_per_hypothesis b\<rparr>,
      ld_card_id = crd, ld_next_card_id = Some (sp_card_id sp), ld_next_action = Some ''execution_setup'',
      ld_context_summary_path = (case dget ctx ''context_summary_path'' of JStr t \<Rightarrow> Some t | _ \<Rightarrow> None),
      ld_created_at = now e\<rparr>"

definition persist_loop_gate ::
  "env \<Rightarrow> cycle option \<Rightarrow> experiment_spec \<Rightarrow> autonomy_budget \<Rightarrow> dict \<Rightarrow> string \<Rightarrow> db \<Rightarrow> db res" where
  "persist_loop_gate e cyc sp b ctx gate s =
    (if \<not> truthy (dget ctx ''run_record_id'') \<or> \<not> truthy (dget ctx ''recommendation_id'') \<or> cyc = None then Inr s
     else let n = length (filter (\<lambda>d. ld_cycle_id d = sp_cycle_id sp) (decisions s)) + 1 in
       res_bind (UUID_of (dget ctx ''run_record_id'')) (\<lambda>run_id.
       res_bind (UUID_of (dget ctx ''recommendation_id'')) (\<lambda>rec_id.
       res_bind (if truthy (dget ctx ''hypothesis_card_id'')
                 then res_bind (UUID_of (dget ctx ''hypothesis_card_id'')) (\<lambda>k. Inr (Some k)) else Inr None) (\<lambda>crd.
         Inr ((tick_uuid s)\<lparr>decisions := decisions s @ [loop_gate_decision e (new_uuid e s) sp b ctx gate run_id rec_id crd n]\<rparr>)))))"

text \<open>The \<open>loop_decide\<close> job that waits, already paused, to start the prepared run.\<close>

definition add_paused_job :: "env \<Rightarrow> uuid \<Rightarrow> uuid \<Rightarrow> db \<Rightarrow> db" where
  "add_paused_job e cycle_id run_id s =
    (case create_job e (Some cycle_id) ''loop_decide'' (Some [(''prepared_run_record_id'', JUuid run_id)]) 10 s of
       (j, s1) \<Rightarrow> s1\<lparr>jobs := jobs s @ [j\<lparr>j_status := Js_paused\<rparr>]\<rparr>)"

definition policy_json :: "cycle option \<Rightarrow> json" where
  "policy_json cyc = (case cyc of None \<Rightarrow> JObj [] | Some c \<Rightarrow> dget_or (opt_dict (cy_config c)) ''autonomy'' (JObj []))"

definition pause_prepared ::
  "env \<Rightarrow> cycle option \<Rightarrow> experiment_spec \<Rightarrow> autonomy_budget \<Rightarrow> dict \<Rightarrow> string \<Rightarrow> uuid \<Rightarrow> db \<Rightarrow> (op_result \<times> db) res" where
  "pause_prepared e cyc sp b ctx gate run_id s =
     res_bind (persist_loop_gate e cyc sp b ctx gate (add_paused_job e (sp_cycle_id sp) run_id s)) (\<lambda>s1.
       Inr (op_patch Cy_loop_deciding,
         emit_sys e ''autonomy.gate_triggered'' (sp_charter_id sp) (sp_cycle_id sp)
           [(''gate_name'', JStr gate), (''prepared_run_record_id'', JUuid run_id), (''spec_id'', JUuid (sp_id sp))] s1))"

definition compile_gate_context :: "autonomy_budget \<Rightarrow> next_spec_preview \<Rightarrow> dict \<Rightarrow> gate_context" where
  "compile_gate_context b preview ctx =
     \<lparr>runs_since_last_gate = 0, gc_wall_clock_elapsed_s = ab_wall_clock_elapsed_s b,
      next_hardware_profile = preview_hardware_profile preview,
      current_hardware_profile = dget ctx ''current_hardware_profile'', is_result_promotion = False,
      has_network_access = preview_network_access preview\<rparr>"

text \<open>The second session: a run of the first compiled spec, started at once unless a gate pauses before it.\<close>

definition start_loop_run :: "compile_ext \<Rightarrow> env \<Rightarrow> uuid \<Rightarrow> json \<Rightarrow> db \<Rightarrow> (op_result \<times> db) res" where
  "start_loop_run x e spec_id ctxj s =
    (case table_get sp_id (specs s) spec_id of
       None \<Rightarrow> Inr (op_fail ''compiled spec not found'', s)
     | Some sp \<Rightarrow>
        let run = pending_run e (new_uuid e s) spec_id (sp_charter_id sp) (sp_cycle_id sp) None (max_run_number s spec_id + 1);
            s1 = add_run run s; cyc = get_cycle s (sp_cycle_id sp)
        in res_bind (px_model_validate x (policy_json cyc)) (\<lambda>policy.
           res_bind (load_or_create_budget e (sp_cycle_id sp) s1) (\<lambda>(b, s2).
           res_bind (preview_next_spec (float_repr (px_py x)) (Some sp)) (\<lambda>preview.
           case ctxj of
             JObj ctx \<Rightarrow>
               res_bind (evaluate_gates policy b (compile_gate_context b preview ctx)) (\<lambda>gate.
                 case gate of
                   Some g \<Rightarrow>
                     if g \<in> {''before_hardware_escalation'', ''before_network_execution''}
                     then pause_prepared e cyc sp b ctx g (rn_id run) s2
                     else Inr (OperatorResult, snd (enqueue_next e (sp_cycle_id sp) ''execution_setup'' (rn_id run) [] s2))
                 | None \<Rightarrow> Inr (OperatorResult, snd (enqueue_next e (sp_cycle_id sp) ''execution_setup'' (rn_id run) [] s2)))
           | _ \<Rightarrow> Inl AttributeError))))"

definition compiled_result :: "uuid list \<Rightarrow> nat \<Rightarrow> op_result" where
  "compiled_result compiled rejected =
     add_event (op_patch Cy_protocol_ready) ''protocol.compilation_completed''
       [(''compiled_count'', JInt (int (length compiled))), (''rejected_count'', JInt (int rejected))]"

definition protocol_compile_operator :: "compile_ext \<Rightarrow> env \<Rightarrow> operator" where
  "protocol_compile_operator x e i s =
    (let raw = dget (oi_payload i) ''hypothesis_session_id'' in
     if raw = JNull then (Inr (op_fail ''missing hypothesis_session_id in payload''), s)
     else case UUID_of raw of
       Inl err \<Rightarrow> (Inl err, s)
     | Inr hs_key \<Rightarrow>
        (case table_get hs_id (sessions s) hs_key of
           None \<Rightarrow> (Inr (op_fail ''hypothesis session not found''), s)
         | Some hs \<Rightarrow>
            (case compile_session x e i hs s of
               Inl err \<Rightarrow> (Inl err, s)
             | Inr (Inl msg) \<Rightarrow> (Inr (op_fail msg), s)
             | Inr (Inr (compiled, rejected, s1)) \<Rightarrow>
                (case compiled of
                   [] \<Rightarrow> (Inr (op_fail (''all '' @ nat_digits rejected @ '' specs were rejected as under-specified'')), s1)
                 | first # _ \<Rightarrow>
                    if truthy (dget_or (oi_payload i) ''from_loop'' (JBool False))
                    then committed s1 (start_loop_run x e first (or_dict (dget (oi_payload i) ''loop_context'')) s1)
                    else (Inr (compiled_result compiled rejected), s1)))))"


section \<open>What a validated spec has\<close>

fun complete_metric :: "json \<Rightarrow> bool" where
  "complete_metric (JObj m) \<longleftrightarrow>
     truthy (dget m ''name'') \<and> dget m ''direction'' \<in> {JStr ''maximize'', JStr ''minimize''}"
| "complete_metric _ \<longleftrightarrow> False"

text \<open>The contract of the execution layer: what it may rely on in a spec it is given.\<close>

definition complete_spec :: "experiment_spec \<Rightarrow> bool" where
  "complete_spec sp \<longleftrightarrow>
     (case sp_baseline sp of JObj b \<Rightarrow> truthy (dget b ''description'') | _ \<Rightarrow> False) \<and>
     (case sp_metrics sp of JList ms \<Rightarrow> ms \<noteq> [] \<and> list_all complete_metric ms | _ \<Rightarrow> False) \<and>
     (case sp_code_plan sp of JObj p \<Rightarrow> truthy (dget p ''entry_point'') \<and> truthy (dget p ''files'') | _ \<Rightarrow> False)"

lemma check_metrics_dicts:
  "\<exists>es. check_metrics i (map JObj ms) = Inr es \<and> (es = [] \<longleftrightarrow> list_all complete_metric (map JObj ms))"
proof (induction ms arbitrary: i)
  case (Cons m ms)
  obtain es where "check_metrics (Suc i) (map JObj ms) = Inr es" "es = [] \<longleftrightarrow> list_all complete_metric (map JObj ms)"
    using Cons.IH by blast
  then show ?case by (auto simp: check_metric_def dget_def dget_or_def)
qed simp

lemma check_baseline_dict:
  "\<exists>es. check_baseline (JObj b) = Inr es \<and> (es = [] \<longleftrightarrow> truthy (dget b ''description''))"
  by (auto simp: check_baseline_def Let_def dget_def dget_or_def)

lemma check_code_plan_dict:
  "\<exists>es. check_code_plan (JObj p) = Inr es \<and> (es = [] \<longleftrightarrow> truthy (dget p ''entry_point'') \<and> truthy (dget p ''files''))"
  by (auto simp: check_code_plan_def dget_def dget_or_def split: option.splits)

lemma validate_spec_dump:
  obtains v where "validate_spec (spec_dump c) = Inr v"
    "vd_valid v \<longleftrightarrow> complete_spec (spec_row e i hs crd c hardware base_image st)"
proof -
  have g: "dget (spec_dump c) ''baseline'' = JObj (cs_baseline c)" "dget (spec_dump c) ''code_plan'' = JObj (cs_code_plan c)"
    "dget_or (spec_dump c) ''metrics'' d = JDicts (cs_metrics c)" for d
    by (simp_all add: spec_dump_def dget_or_def)
  obtain e1 where e1: "check_baseline (JObj (cs_baseline c)) = Inr e1"
      "e1 = [] \<longleftrightarrow> truthy (dget (cs_baseline c) ''description'')" using check_baseline_dict by blast
  obtain e3 where e3: "check_metrics 0 (map JObj (cs_metrics c)) = Inr e3"
      "e3 = [] \<longleftrightarrow> list_all complete_metric (map JObj (cs_metrics c))" using check_metrics_dicts by blast
  obtain e4 where e4: "check_code_plan (JObj (cs_code_plan c)) = Inr e4"
      "e4 = [] \<longleftrightarrow> truthy (dget (cs_code_plan c) ''entry_point'') \<and> truthy (dget (cs_code_plan c) ''files'')"
    using check_code_plan_dict by blast
  show ?thesis
    by (rule that, simp add: validate_spec_def g e1(1) e3(1) e4(1))
       (auto simp: vd_valid_def complete_spec_def spec_row_def e1(2) e3(2) e4(2))
qed

section \<open>Frames\<close>

text \<open>What no step of a compilation before the loop continuation touches.\<close>

definition untouched :: "db \<Rightarrow> db \<Rightarrow> bool" where
  "untouched s t \<longleftrightarrow> jobs t = jobs s \<and> cycles t = cycles s \<and> runs t = runs s \<and> decisions t = decisions s \<and> budgets t = budgets s"

lemma untouched_refl [simp]: "untouched s s"
  by (simp add: untouched_def)

lemma untouched_trans: "untouched s t \<Longrightarrow> untouched t u \<Longrightarrow> untouched s u"
  by (simp add: untouched_def)

lemma untouched_emit [simp]: "untouched s (emit_event_sync e et ch cy p act ai t) = untouched s t"
  by (simp add: untouched_def)

lemma put_card_other [simp]:
  "cycles (put_card c s) = cycles s" "runs (put_card c s) = runs s" "specs (put_card c s) = specs s"
  by (simp_all add: put_card_def)

lemma untouched_put_card [simp]: "untouched s (put_card c t) = untouched s t"
  by (simp add: untouched_def)

lemma fold_put_card: "untouched s (fold put_card cs s) \<and> specs (fold put_card cs s) = specs s"
proof (induction cs arbitrary: s)
  case (Cons c cs)
  show ?case using Cons [of "put_card c s"] untouched_trans [of s "put_card c s"] by simp
qed simp

lemma use_skill_frame:
  assumes "use_skill py e i k sid p s = Inr t"
  shows "untouched s t \<and> specs t = specs s"
proof (cases "kp_prompt p = None \<or> kp_prompt p = Some []")
  case True
  then show ?thesis using assms by (auto simp: use_skill_def)
next
  case False
  then obtain r where r: "record_skill_usage py e sid k (oi_job_type i) (oi_job_id i) JNull False s = Inr (r, t)"
    using assms by (auto simp: use_skill_def res_bind_Inr_iff split: option.splits list.splits)
  obtain row where row: "find_skill s sid = Inr row" using r by (cases "find_skill s sid") (simp_all add: record_skill_usage_def)
  show ?thesis
  proof (cases row)
    case (Some d)
    obtain dec where dec: "enforce py sid (sk_trust_tier d) (sk_manifest d) (cycle_config_of s k) = Inr dec"
      using r row Some
      by (cases "enforce py sid (sk_trust_tier d) (sk_manifest d) (cycle_config_of s k)") (simp_all add: record_skill_usage_def)
    show ?thesis
      using r unfolding record_skill_usage_def row Some dec res_bind.simps option.case
      by (auto simp: add_binding_def Let_def untouched_def split: if_splits)
  qed (use r row in \<open>simp add: record_skill_usage_def\<close>)
qed

lemma record_model_call_untouched [simp]:
  "untouched s (snd (record_model_call e c j ro pv md a b t)) = untouched s t"
  "specs (snd (record_model_call e c j ro pv md a b t)) = specs t"
  by (simp_all add: record_model_call_def Let_def untouched_def)

section \<open>What a compilation commits\<close>

definition judged :: "experiment_spec \<Rightarrow> bool" where
  "judged sp \<longleftrightarrow> sp_status sp = (if complete_spec sp then ''validated'' else ''rejected'')"

lemma compile_one_Inr:
  assumes "compile_one e hs hw bi crd c (s, compiled, rejected) = Inr (s', compiled', rejected')"
  shows "untouched s s' \<and> (\<exists>sp. specs s' = specs s @ [sp] \<and> judged sp \<and> sp_cycle_id sp = hs_cycle_id hs \<and>
    compiled' = compiled @ (if complete_spec sp then [sp_id sp] else []) \<and>
    rejected' = rejected + (if complete_spec sp then 0 else 1))"
proof -
  define sp where "sp = spec_row e (new_uuid e s) hs crd c hw bi (if complete_spec (spec_row e 0 hs crd c hw bi []) then ''validated'' else ''rejected'')"
  have cs: "complete_spec (spec_row e i hs crd c hw bi st) = complete_spec sp" for i st
    by (simp add: sp_def complete_spec_def spec_row_def)
  obtain v where v: "validate_spec (spec_dump c) = Inr v" "vd_valid v \<longleftrightarrow> complete_spec sp"
    using validate_spec_dump [of c e 0 hs crd hw bi "[]"] cs by metis
  have st: "sp = spec_row e (new_uuid e s) hs crd c hw bi (if vd_valid v then ''validated'' else ''rejected'')"
    by (subst sp_def) (simp only: cs v(2))
  have row: "sp_id sp = new_uuid e s" "sp_cycle_id sp = hs_cycle_id hs"
      "sp_status sp = (if vd_valid v then ''validated'' else ''rejected'')"
    by (subst st, simp add: spec_row_def)+
  have sp: "sp_id sp = new_uuid e s" "sp_cycle_id sp = hs_cycle_id hs" "judged sp"
    using row by (simp_all add: judged_def v(2))
  have "untouched s s' \<and> specs s' = specs s @ [sp] \<and> compiled' = compiled @ (if vd_valid v then [sp_id sp] else []) \<and>
    rejected' = rejected + (if vd_valid v then 0 else 1)"
  proof (cases "vd_valid v")
    case True
    have row: "spec_row e (new_uuid e s) hs crd c hw bi ''validated'' = sp" by (subst st) (simp add: True)
    show ?thesis
      using assms unfolding compile_one_def prod.case v(1) res_bind.simps Let_def if_P [OF True] row sp(1)
      by (auto simp: untouched_def)
  next
    case False
    have row: "spec_row e (new_uuid e s) hs crd c hw bi ''rejected'' = sp" by (subst st) (simp add: False)
    show ?thesis
      using assms unfolding compile_one_def prod.case v(1) res_bind.simps Let_def if_not_P [OF False] row sp(1)
      by (auto simp: untouched_def)
  qed
  then show ?thesis using sp v(2) by auto
qed

lemma compile_all_Inr:
  assumes "compile_all e hs hw bi prs (s, compiled, rejected) = Inr (s', compiled', rejected')"
  shows "untouched s s' \<and> (\<exists>new. specs s' = specs s @ new \<and> length new = length prs \<and> list_all judged new \<and>
    (\<forall>sp\<in>set new. sp_cycle_id sp = hs_cycle_id hs) \<and>
    compiled' = compiled @ map sp_id (filter complete_spec new) \<and>
    rejected' = rejected + length (filter (\<lambda>sp. \<not> complete_spec sp) new))"
  using assms
proof (induction prs arbitrary: s compiled rejected)
  case (Cons pr prs)
  obtain crd c where pr: "pr = (crd, c)" by (cases pr)
  obtain s1 c1 r1 where one: "compile_one e hs hw bi crd c (s, compiled, rejected) = Inr (s1, c1, r1)"
    and rest: "compile_all e hs hw bi prs (s1, c1, r1) = Inr (s', compiled', rejected')"
    using Cons.prems unfolding pr by (auto simp: res_bind_Inr_iff)
  obtain sp where sp: "specs s1 = specs s @ [sp]" "judged sp" "sp_cycle_id sp = hs_cycle_id hs" "untouched s s1"
    "c1 = compiled @ (if complete_spec sp then [sp_id sp] else [])" "r1 = rejected + (if complete_spec sp then 0 else 1)"
    using compile_one_Inr [OF one] by blast
  obtain new where new: "untouched s1 s'" "specs s' = specs s1 @ new" "length new = length prs" "list_all judged new"
    "\<forall>sp\<in>set new. sp_cycle_id sp = hs_cycle_id hs" "compiled' = c1 @ map sp_id (filter complete_spec new)"
    "rejected' = r1 + length (filter (\<lambda>sp. \<not> complete_spec sp) new)"
    using Cons.IH [OF rest] by blast
  show ?case
    by (intro conjI exI [of _ "sp # new"] untouched_trans [OF sp(4) new(1)]) (use sp new in simp_all)
qed simp


lemma compile_session_Inr:
  assumes "compile_session x e i hs s = Inr (Inr (compiled, rejected, s'))"
  shows "untouched s s' \<and> (\<exists>new. specs s' = specs s @ new \<and> list_all judged new \<and>
    (\<forall>sp\<in>set new. sp_cycle_id sp = hs_cycle_id hs) \<and>
    compiled = map sp_id (filter complete_spec new) \<and> rejected = length (filter (\<lambda>sp. \<not> complete_spec sp) new))"
proof -
  obtain chosen where sel: "select_cards s hs (dget (oi_payload i) ''hypothesis_card_ids'') = Inr (Inr chosen)"
  proof (cases "select_cards s hs (dget (oi_payload i) ''hypothesis_card_ids'')")
    case (Inr sel)
    then show ?thesis using assms that by (cases sel) (simp_all add: compile_session_def Let_def)
  qed (use assms in \<open>simp add: compile_session_def Let_def\<close>)
  define s1 where "s1 = fold put_card (map (selected_card e) chosen) s"
  note body = assms [unfolded compile_session_def Let_def sel res_bind.simps sum.case, folded s1_def]
  obtain pl where pl: "load_skill_prompt s1 ''ideation.experiment_planning'' (oi_job_type i) = Inr pl"
    using body by (cases "load_skill_prompt s1 ''ideation.experiment_planning'' (oi_job_type i)") simp_all
  note body = body [unfolded pl res_bind.simps]
  obtain cd where cd: "load_skill_prompt s1 ''coding.experiment_coding'' (oi_job_type i) = Inr cd"
    using body by (cases "load_skill_prompt s1 ''coding.experiment_coding'' (oi_job_type i)") simp_all
  note body = body [unfolded cd res_bind.simps]
  obtain s2 where u2: "use_skill (px_py x) e i (hs_cycle_id hs) ''ideation.experiment_planning'' pl s1 = Inr s2"
    using body by (cases "use_skill (px_py x) e i (hs_cycle_id hs) ''ideation.experiment_planning'' pl s1") simp_all
  note body = body [unfolded u2 res_bind.simps]
  obtain s3 where u3: "use_skill (px_py x) e i (hs_cycle_id hs) ''coding.experiment_coding'' cd s2 = Inr s3"
    using body by (cases "use_skill (px_py x) e i (hs_cycle_id hs) ''coding.experiment_coding'' cd s2") simp_all
  note body = body [unfolded u3 res_bind.simps]
  define ans where "ans = px_draft x (map (selected_card e) chosen)
      (case get_charter s (hs_charter_id hs) of None \<Rightarrow> [] | Some ch \<Rightarrow> ch_problem_statement ch)
      (dget (oi_payload i) ''hardware_profile'') (dget (oi_payload i) ''base_image'')
      (join_skill_prompts [kp_prompt pl, kp_prompt cd]) (dget (oi_payload i) ''variation_context'')"
  obtain drafts cfg where draft: "ans = Inr (drafts, cfg)"
    using body unfolding ans_def [symmetric] by (cases ans) (simp, metis surj_pair)
  note body = body [folded ans_def, unfolded draft sum.case prod.case]
  define s4 where "s4 = snd (record_model_call e (Some (hs_cycle_id hs)) (Some (oi_job_id i)) ''protocol_drafting''
      (role_text (px_py x) cfg ''provider'') (role_text (px_py x) cfg ''model'') None None s3)"
  obtain s5 where all: "compile_all e hs (dget (oi_payload i) ''hardware_profile'') (dget (oi_payload i) ''base_image'')
      (zip (map (selected_card e) chosen) drafts) (s4, [], 0) = Inr (s5, compiled, rejected)"
    and s': "untouched s5 s'" "specs s' = specs s5"
    using body [folded s4_def] by (auto simp: res_bind_Inr_iff)
  have to4: "untouched s s4" "specs s4 = specs s"
    using fold_put_card [where cs = "map (selected_card e) chosen" and s = s] use_skill_frame [OF u2] use_skill_frame [OF u3]
    by (auto simp: s4_def s1_def intro: untouched_trans)
  show ?thesis
    using compile_all_Inr [OF all] s' to4 by (auto intro: untouched_trans)
qed

lemma load_or_create_budget_frame:
  assumes "load_or_create_budget e k s = Inr (b, s')"
  shows "specs s' = specs s \<and> runs s' = runs s \<and> cycles s' = cycles s \<and> jobs s' = jobs s \<and> decisions s' = decisions s"
  using assms
  by (cases "scalar_one_or_none (filter (\<lambda>b. ab_cycle_id b = k) (budgets s))")
     (auto simp: load_or_create_budget_def Let_def split: option.splits)

text \<open>The job a started run leaves: its first stage, or the paused decision that waits at a gate.\<close>

definition setup_job :: "uuid \<Rightarrow> job \<Rightarrow> bool" where
  "setup_job run_id j \<longleftrightarrow> j_type j = ''execution_setup'' \<and> j_status j = Js_pending \<and>
     j_payload j = Some [(''run_record_id'', JUuid run_id)]"

definition waiting_job :: "uuid \<Rightarrow> job \<Rightarrow> bool" where
  "waiting_job run_id j \<longleftrightarrow> j_type j = ''loop_decide'' \<and> j_status j = Js_paused \<and>
     j_payload j = Some [(''prepared_run_record_id'', JUuid run_id)]"

lemma enqueue_setup:
  "\<exists>j. jobs (snd (enqueue_next e k ''execution_setup'' r [] s)) = jobs s @ [j] \<and> setup_job r j"
  using create_job_jobs [of e "Some k" "''execution_setup''" "Some [(''run_record_id'', JUuid r)]" 10 s]
  by (auto simp: enqueue_next_snd setup_job_def)

lemma add_paused_job_frame:
  "specs (add_paused_job e k r s) = specs s \<and> runs (add_paused_job e k r s) = runs s \<and>
   cycles (add_paused_job e k r s) = cycles s \<and> (\<exists>j. jobs (add_paused_job e k r s) = jobs s @ [j] \<and> waiting_job r j)"
  by (simp add: add_paused_job_def create_job_def Let_def waiting_job_def)

lemma pause_prepared_Inr:
  assumes "pause_prepared e cyc sp b ctx g run_id s = Inr (r, s')"
  shows "r = op_patch Cy_loop_deciding \<and> specs s' = specs s \<and> runs s' = runs s \<and> cycles s' = cycles s \<and>
    (\<exists>j. jobs s' = jobs s @ [j] \<and> waiting_job run_id j)"
proof -
  obtain s1 where g: "persist_loop_gate e cyc sp b ctx g (add_paused_job e (sp_cycle_id sp) run_id s) = Inr s1"
    and r: "r = op_patch Cy_loop_deciding" and s': "specs s' = specs s1" "runs s' = runs s1" "cycles s' = cycles s1" "jobs s' = jobs s1"
    using assms by (auto simp: pause_prepared_def res_bind_Inr_iff)
  have "specs s1 = specs (add_paused_job e (sp_cycle_id sp) run_id s)" "runs s1 = runs (add_paused_job e (sp_cycle_id sp) run_id s)"
    "cycles s1 = cycles (add_paused_job e (sp_cycle_id sp) run_id s)" "jobs s1 = jobs (add_paused_job e (sp_cycle_id sp) run_id s)"
    using g by (auto simp: persist_loop_gate_def Let_def res_bind_Inr_iff split: if_splits)
  then show ?thesis using r s' add_paused_job_frame by simp
qed

lemma enqueue_setup_outcome:
  assumes "(OperatorResult, snd (enqueue_next e k ''execution_setup'' run_id [] s)) = (r, s')"
  shows "r = OperatorResult \<and> specs s' = specs s \<and> runs s' = runs s \<and> cycles s' = cycles s \<and>
    (\<exists>j. jobs s' = jobs s @ [j] \<and> setup_job run_id j)"
  using assms enqueue_setup [of e k run_id s] by (auto simp: enqueue_next_snd)

lemma start_loop_run_Inr:
  assumes "start_loop_run x e spec_id ctxj s = Inr (r, s')"
  shows "specs s' = specs s \<and> cycles s' = cycles s \<and>
    (or_success r \<longrightarrow> (\<exists>run j. runs s' = runs s @ [run] \<and> rn_spec_id run = spec_id \<and> rn_status run = ''pending'' \<and>
       rn_run_number run = max_run_number s spec_id + 1 \<and> jobs s' = jobs s @ [j] \<and>
       (r = OperatorResult \<and> setup_job (rn_id run) j \<or> r = op_patch Cy_loop_deciding \<and> waiting_job (rn_id run) j)))"
proof (cases "table_get sp_id (specs s) spec_id")
  case None
  then show ?thesis using assms by (auto simp: start_loop_run_def)
next
  case (Some sp)
  define run where "run = pending_run e (new_uuid e s) spec_id (sp_charter_id sp) (sp_cycle_id sp) None (max_run_number s spec_id + 1)"
  obtain policy b s2 preview where lb: "load_or_create_budget e (sp_cycle_id sp) (add_run run s) = Inr (b, s2)"
    and rest: "(case ctxj of
             JObj ctx \<Rightarrow>
               res_bind (evaluate_gates policy b (compile_gate_context b preview ctx)) (\<lambda>gate.
                 case gate of
                   Some g \<Rightarrow>
                     if g \<in> {''before_hardware_escalation'', ''before_network_execution''}
                     then pause_prepared e (get_cycle s (sp_cycle_id sp)) sp b ctx g (rn_id run) s2
                     else Inr (OperatorResult, snd (enqueue_next e (sp_cycle_id sp) ''execution_setup'' (rn_id run) [] s2))
                 | None \<Rightarrow> Inr (OperatorResult, snd (enqueue_next e (sp_cycle_id sp) ''execution_setup'' (rn_id run) [] s2)))
           | _ \<Rightarrow> Inl AttributeError) = Inr (r, s')"
    using assms unfolding start_loop_run_def Some option.case Let_def run_def [symmetric]
    by (auto simp: res_bind_Inr_iff)
  obtain ctx where ctx: "ctxj = JObj ctx" using rest by (cases ctxj) simp_all
  obtain gate where rest2: "(case gate of
                   Some g \<Rightarrow>
                     if g \<in> {''before_hardware_escalation'', ''before_network_execution''}
                     then pause_prepared e (get_cycle s (sp_cycle_id sp)) sp b ctx g (rn_id run) s2
                     else Inr (OperatorResult, snd (enqueue_next e (sp_cycle_id sp) ''execution_setup'' (rn_id run) [] s2))
                 | None \<Rightarrow> Inr (OperatorResult, snd (enqueue_next e (sp_cycle_id sp) ''execution_setup'' (rn_id run) [] s2))) = Inr (r, s')"
    using rest unfolding ctx by (auto simp only: json.case res_bind_Inr_iff)
  have s2: "specs s2 = specs s" "runs s2 = runs s @ [run]" "cycles s2 = cycles s" "jobs s2 = jobs s"
    using load_or_create_budget_frame [OF lb] by simp_all
  have out: "specs s' = specs s2 \<and> runs s' = runs s2 \<and> cycles s' = cycles s2 \<and>
     (\<exists>j. jobs s' = jobs s2 @ [j] \<and> (r = OperatorResult \<and> setup_job (rn_id run) j \<or> r = op_patch Cy_loop_deciding \<and> waiting_job (rn_id run) j))"
  proof (cases "\<exists>g. gate = Some g \<and> g \<in> {''before_hardware_escalation'', ''before_network_execution''}")
    case True
    then obtain g where "gate = Some g" and "pause_prepared e (get_cycle s (sp_cycle_id sp)) sp b ctx g (rn_id run) s2 = Inr (r, s')"
      using rest2 by auto
    from pause_prepared_Inr [OF this(2)] show ?thesis by blast
  next
    case False
    then have "(OperatorResult, snd (enqueue_next e (sp_cycle_id sp) ''execution_setup'' (rn_id run) [] s2)) = (r, s')"
      using rest2 by (auto split: option.splits if_splits)
    from enqueue_setup_outcome [OF this] show ?thesis by blast
  qed
  have run: "rn_spec_id run = spec_id" "rn_status run = ''pending''" "rn_run_number run = max_run_number s spec_id + 1"
    by (simp_all add: run_def pending_run_def)
  show ?thesis using out unfolding s2 using run by blast
qed


text \<open>A compilation that returns has committed nothing, or a session of judged specs and what followed it.\<close>

lemma protocol_compile_cases:
  assumes "protocol_compile_operator x e i s = (Inr r, s')"
  obtains (nothing) "s' = s" "\<not> or_success r"
  | (rejected) hs s1 new where "table_get hs_id (sessions s) (hs_id hs) = Some hs" "untouched s s1" "specs s1 = specs s @ new"
      "list_all judged new" "filter complete_spec new = []" "s' = s1" "\<not> or_success r"
  | (compiled) hs s1 new sp rest where "table_get hs_id (sessions s) (hs_id hs) = Some hs" "untouched s s1"
      "specs s1 = specs s @ new" "list_all judged new" "\<forall>sp\<in>set new. sp_cycle_id sp = hs_cycle_id hs"
      "filter complete_spec new = sp # rest"
      "if truthy (dget_or (oi_payload i) ''from_loop'' (JBool False))
       then start_loop_run x e (sp_id sp) (or_dict (dget (oi_payload i) ''loop_context'')) s1 = Inr (r, s')
       else s' = s1 \<and> r = compiled_result (map sp_id (filter complete_spec new)) (length (filter (\<lambda>sp. \<not> complete_spec sp) new))"
proof -
  note body = assms [unfolded protocol_compile_operator_def Let_def]
  show ?thesis
  proof (cases "dget (oi_payload i) ''hypothesis_session_id'' = JNull")
    case True
    then show ?thesis using body by - (rule nothing; auto simp: OperatorResult_def)
  next
    case False
    note body = body [unfolded if_not_P [OF False]]
    obtain k where k: "UUID_of (dget (oi_payload i) ''hypothesis_session_id'') = Inr k"
      using body by (cases "UUID_of (dget (oi_payload i) ''hypothesis_session_id'')") simp_all
    note body = body [unfolded k sum.case]
    show ?thesis
    proof (cases "table_get hs_id (sessions s) k")
      case None
      then show ?thesis using body by - (rule nothing; auto simp: OperatorResult_def)
    next
      case (Some hs)
      then have hs: "table_get hs_id (sessions s) (hs_id hs) = Some hs" using table_get_Some_in by metis
      note body = body [unfolded Some option.case]
      obtain out where out: "compile_session x e i hs s = Inr out"
        using body by (cases "compile_session x e i hs s") simp_all
      show ?thesis
      proof (cases out)
        case (Inl msg)
        then show ?thesis using body out by - (rule nothing; auto simp: OperatorResult_def)
      next
        case (Inr t)
        obtain ids n s1 where t: "t = (ids, n, s1)" by (cases t)
        note body = body [unfolded out Inr t sum.case prod.case]
        obtain new where new: "untouched s s1" "specs s1 = specs s @ new" "list_all judged new"
          "\<forall>sp\<in>set new. sp_cycle_id sp = hs_cycle_id hs" "ids = map sp_id (filter complete_spec new)"
          "n = length (filter (\<lambda>sp. \<not> complete_spec sp) new)"
          using compile_session_Inr out Inr t by blast
        show ?thesis
        proof (cases "filter complete_spec new")
          case Nil
          then have "s' = s1" "\<not> or_success r" using body new(5) by (auto simp: OperatorResult_def)
          then show ?thesis using rejected [OF hs new(1-3) Nil] by blast
        next
          case (Cons sp rest)
          then have ids: "ids = sp_id sp # map sp_id rest" using new(5) by simp
          show ?thesis
            by (rule compiled [OF hs new(1-4) Cons])
               (use body new(5,6) in \<open>auto simp: ids committed_def split: if_splits sum.splits\<close>)
        qed
      qed
    qed
  qed
qed


text \<open>
  C40: A compilation the loop asked for, which pauses before the run it has prepared, asks for a cycle status the state
  machine does not allow from \<open>running\<close>: the worker that called it raises instead of completing the job, with the
  run and the paused job already committed.
\<close>

theorem prepared_pause_crashes_worker:
  assumes op: "protocol_compile_operator x e i s = (Inr r, s')" and ok: "or_success r"
    and loop: "truthy (dget_or (oi_payload i) ''from_loop'' (JBool False))" and paused: "or_state_patch r \<noteq> []"
    and job: "get_job s k = Some j" "j_status j = Js_running" "j_cycle_id j = Some cid"
    and cyc: "get_cycle s cid = Some c" "cy_status c = Cy_running"
  shows "persist_outcome e2 w k r s' = Inl (InvalidTransitionError ''running'' ''loop_deciding'') \<and>
    (\<exists>run wait. runs s' = runs s @ [run] \<and> rn_status run = ''pending'' \<and> jobs s' = jobs s @ [wait] \<and> waiting_job (rn_id run) wait)"
  using op
proof (cases rule: protocol_compile_cases)
  case (compiled hs s1 new sp rest)
  from compiled(7) loop have "start_loop_run x e (sp_id sp) (or_dict (dget (oi_payload i) ''loop_context'')) s1 = Inr (r, s')" by simp
  from start_loop_run_Inr [OF this] ok paused compiled(2) obtain run wait where
    r: "r = op_patch Cy_loop_deciding" and new: "cycles s' = cycles s" "runs s' = runs s @ [run]" "rn_status run = ''pending''"
    "jobs s' = jobs s @ [wait]" "waiting_job (rn_id run) wait"
    by (auto simp: untouched_def OperatorResult_def)
  have here: "get_job s' k = Some j" "get_cycle s' cid = Some c"
    using job(1) cyc(1) new by (simp_all add: get_job_def get_cycle_def table_get_append)
  have "persist_outcome e2 w k r s' = Inl (InvalidTransitionError (cycle_status_value (cy_status c)) (cycle_status_value Cy_loop_deciding))"
    by (rule forbidden_patch_raises [OF here(1) job(2,3) _ here(2)]) (simp_all add: r OperatorResult_def cyc(2))
  then show ?thesis using new cyc(2) by simp
qed (use ok in simp_all)


section \<open>A witness\<close>

definition demo_draft :: compiled_spec where
  "demo_draft = \<lparr>cs_title = ''t'', cs_description = [], cs_baseline = [(''description'', JStr ''b'')], cs_controls = [],
     cs_metrics = [[(''name'', JStr ''acc''), (''direction'', JStr ''maximize'')]], cs_expected_artifacts = [],
     cs_stop_conditions = [],
     cs_code_plan = [(''entry_point'', JStr ''m''), (''files'', JObj [(''m'', JStr ''x'')]), (''requires_network'', JBool True)],
     cs_base_image = None\<rparr>"

definition demo_compile_ext :: compile_ext where
  "demo_compile_ext = \<lparr>px_py = nopy,
     px_model_validate = (\<lambda>_. Inr (AutonomyPolicy\<lparr>checkpoint_gates := CheckpointGateConfig\<lparr>before_network_execution := True\<rparr>\<rparr>)),
     px_draft = (\<lambda>_ _ _ _ _ _. Inr ([demo_draft], []))\<rparr>"

definition demo_hypotheses :: hypothesis_session where
  "demo_hypotheses = \<lparr>hs_id = 2, hs_cycle_id = 4, hs_charter_id = 3, hs_status = ''ranked'', hs_budget = JNull, hs_error = None,
     hs_step_log = None, hs_stats = None, hs_started_at = None, hs_created_at = 0, hs_updated_at = 0, hs_completed_at = None\<rparr>"

definition demo_compile_world :: db where
  "demo_compile_world = (demo_shop Js_running)\<lparr>sessions := [demo_hypotheses],
     cards := [demo_card\<lparr>hc_status := ''candidate''\<rparr>]\<rparr>"

definition demo_compile_input :: "bool \<Rightarrow> op_input" where
  "demo_compile_input loop = \<lparr>oi_cycle_id = 4, oi_charter_id = 3, oi_job_id = 9, oi_job_type = ''protocol_compile'',
     oi_payload = [(''hypothesis_session_id'', JUuid 2), (''from_loop'', JBool loop)]\<rparr>"

lemmas demo_compile_defs =
  protocol_compile_operator_def demo_compile_input_def demo_compile_world_def demo_hypotheses_def 
  compile_session_def select_cards_def ranked_cards_def demo_card_def Let_def demo_compile_ext_def 
  load_skill_prompt_def find_skill_def demo_shop_def empty_db_def use_skill_def record_model_call_def 
  new_uuid_def demo_env_def demo_draft_def compile_one_def validate_spec_def spec_dump_def dget_or_def 
  check_baseline_def check_metric_def check_code_plan_def vd_valid_def res_bind.simps no_prompt_def 
  role_text_def selected_card_def put_card_def spec_row_def committed_def start_loop_run_def emit_event_sync_def 
  or_dict_def max_run_number_def policy_json_def get_cycle_def demo_running_cycle_def opt_dict_def 
  load_or_create_budget_def preview_next_spec_def detect_network_access_def evaluate_gates_def 
  CheckpointGateConfig_def AutonomyPolicy_def compile_gate_context_def pause_prepared_def add_paused_job_def 
  persist_loop_gate_def add_run_def pending_run_def create_job_def 

lemma demo_compile_pauses:
  "\<exists>r s'. protocol_compile_operator demo_compile_ext demo_env (demo_compile_input True) demo_compile_world = (Inr r, s') \<and>
     or_success r \<and> or_state_patch r \<noteq> []"
  by (simp add: demo_compile_defs OperatorResult_def)


lemma demo_compile_succeeds:
  "\<exists>r s'. protocol_compile_operator demo_compile_ext demo_env (demo_compile_input False) demo_compile_world = (Inr r, s') \<and> or_success r"
  by (simp add: demo_compile_defs OperatorResult_def compiled_result_def add_event_def)


theorem prepared_pause_crashes_worker_witness:
  "\<exists>r s'. protocol_compile_operator demo_compile_ext demo_env (demo_compile_input True) demo_compile_world = (Inr r, s') \<and>
     persist_outcome demo_env ''w1'' 9 r s' = Inl (InvalidTransitionError ''running'' ''loop_deciding'')"
proof -
  obtain r s' where op: "protocol_compile_operator demo_compile_ext demo_env (demo_compile_input True) demo_compile_world = (Inr r, s')"
    "or_success r" "or_state_patch r \<noteq> []" using demo_compile_pauses by blast
  have facts: "truthy (dget_or (oi_payload (demo_compile_input True)) ''from_loop'' (JBool False))"
    "get_job demo_compile_world 9 = Some (demo_job Js_running)" "get_cycle demo_compile_world 4 = Some demo_running_cycle"
    "j_status (demo_job Js_running) = Js_running" "j_cycle_id (demo_job Js_running) = Some 4" "cy_status demo_running_cycle = Cy_running"
    by (simp_all add: demo_compile_input_def dget_or_def demo_compile_world_def demo_shop_def empty_db_def get_job_def get_cycle_def
        demo_job_def demo_running_cycle_def)
  show ?thesis
    using prepared_pause_crashes_worker [OF op(1,2) facts(1) op(3) facts(2,4,5,3,6)] op(1) by blast
qed

end
