(* ===== verification/Ideation.thy ===== *)
theory Ideation
  imports Protocol_Compile Discovery_Pipeline
begin

text \<open>
  The three ideation operators (\<open>libs/ideation/operators\<close>): hypotheses are generated from the evidence of the cycle,
  critiqued and ranked.  The generation and critique models and the embedding service are the fields of
  \<open>ideation_ext\<close>; the rationale and mechanism of a hypothesis are texts only the models read.
\<close>

section \<open>Surroundings\<close>

record generated_hypothesis =
  gh_title :: string
  gh_statement :: string
  gh_supporting_evidence_ids :: "string list"

record critique_result =
  cr_strengths :: "string list"
  cr_weaknesses :: "string list"
  cr_failure_modes :: "string list"
  cr_novelty_score :: real
  cr_feasibility_score :: real
  cr_impact_score :: real

record ideation_ext =
  ix_py :: pylib
  ix_embed :: "string \<Rightarrow> real list option"
  ix_generate :: "charter \<Rightarrow> dict list \<Rightarrow> int \<Rightarrow> string option \<Rightarrow> pattern_match list \<Rightarrow> string + generated_hypothesis list \<times> dict"
  ix_critique :: "hypothesis_card list \<Rightarrow> string \<Rightarrow> string option \<Rightarrow> string + critique_result list \<times> dict"

definition put_hypothesis_session :: "hypothesis_session \<Rightarrow> db \<Rightarrow> db" where
  "put_hypothesis_session h s = s\<lparr>sessions := update_where (\<lambda>x. hs_id x = hs_id h) (\<lambda>_. h) (sessions s)\<rparr>"

definition with_hypothesis_session ::
  "op_input \<Rightarrow> db \<Rightarrow> (hypothesis_session \<Rightarrow> (op_result \<times> db) res) \<Rightarrow> op_result res \<times> db" where
  "with_hypothesis_session i s f =
    (case hypothesis_session_id_from_payload i of
       Inl (IdeationStateError m) \<Rightarrow> (Inr (op_fail m), s)
     | Inl err \<Rightarrow> (Inl err, s)
     | Inr k \<Rightarrow>
        (case load_hypothesis_session s k of
           Inl (IdeationStateError m) \<Rightarrow> (Inr (op_fail m), s)
         | Inl err \<Rightarrow> (Inl err, s)
         | Inr h \<Rightarrow> committed s (f h)))"

text \<open>The failure branches commit the marked session.\<close>

definition fail_ideation :: "env \<Rightarrow> string \<Rightarrow> string \<Rightarrow> hypothesis_session \<Rightarrow> db \<Rightarrow> (op_result \<times> db) res" where
  "fail_ideation e step error h s =
     Inr (op_fail error, put_hypothesis_session (snd (ideation_mark_failed e step error [] h)) s)"

definition ideation_prompt :: "db \<Rightarrow> op_input \<Rightarrow> skill_prompt_result res" where
  "ideation_prompt s i = load_skill_prompt s ''ideation.hypothesis_generation'' (oi_job_type i)"

definition record_ideation_skill ::
  "pylib \<Rightarrow> env \<Rightarrow> op_input \<Rightarrow> uuid \<Rightarrow> json \<Rightarrow> skill_prompt_result \<Rightarrow> db \<Rightarrow> db res" where
  "record_ideation_skill py e i cycle_id config p s =
    (case kp_prompt p of
       Some (c # t) \<Rightarrow>
         res_bind (record_skill_usage py e ''ideation.hypothesis_generation'' cycle_id (oi_job_type i) (oi_job_id i) config False s)
           (\<lambda>(_, s1). Inr s1)
     | _ \<Rightarrow> Inr s)"

definition record_ideation_call :: "pylib \<Rightarrow> env \<Rightarrow> op_input \<Rightarrow> uuid \<Rightarrow> dict \<Rightarrow> db \<Rightarrow> db" where
  "record_ideation_call py e i cycle_id cfg s =
     snd (record_model_call e (Some cycle_id) (Some (oi_job_id i)) ''hypothesis_generation'' (role_text py cfg ''provider'')
            (role_text py cfg ''model'') None None s)"

section \<open>Generating\<close>

definition evidence_summary :: "evidence_card \<Rightarrow> dict" where
  "evidence_summary c = [(''id'', JUuid (ec_id c)), (''claim'', JStr (ec_claim c)), (''type'', JStr (ec_type c)),
     (''confidence'', JFloat (ec_confidence c))]"

text \<open>\<open>item["summary"]\<close>.\<close>

definition summary_of :: "dict \<Rightarrow> string res" where
  "summary_of item =
    (case map_of item ''summary'' of None \<Rightarrow> Inl (KeyError ''summary'') | Some (JStr t) \<Rightarrow> Inr t | Some _ \<Rightarrow> Inl TypeError)"

definition profile_text :: "charter \<Rightarrow> dict list \<Rightarrow> string res" where
  "profile_text ch summaries =
     res_bind (map_res summary_of summaries) (\<lambda>ts.
       Inr (join_with [CHR 10] [ch_title ch, ch_problem_statement ch, join_with '' '' ts]))"

definition candidate_card :: "env \<Rightarrow> hypothesis_session \<Rightarrow> uuid \<Rightarrow> generated_hypothesis \<Rightarrow> hypothesis_card" where
  "candidate_card e h k g =
     \<lparr>hc_id = k, hc_session_id = hs_id h, hc_charter_id = hs_charter_id h, hc_cycle_id = hs_cycle_id h, hc_title = gh_title g,
      hc_statement = gh_statement g, hc_evidence_ids = gh_supporting_evidence_ids g, hc_critique = JNull,
      hc_novelty_score = None, hc_feasibility_score = None, hc_impact_score = None, hc_rank = None,
      hc_status = ''candidate'', hc_rejection_reason = None, hc_created_at = now e, hc_updated_at = now e\<rparr>"

definition persist_hypotheses ::
  "env \<Rightarrow> hypothesis_session \<Rightarrow> nat \<Rightarrow> generated_hypothesis list \<Rightarrow> db \<Rightarrow> (op_result \<times> db) res" where
  "persist_hypotheses e h evidence_count gs s =
    (case fresh_rows e (candidate_card e h) gs s of (new, s1) \<Rightarrow>
       let n = int (length new);
           h1 = ideation_append_step_log e ''generate'' ''ok'' [(''evidence_count'', JInt (int evidence_count)), (''generated_count'', JInt n)]
                  (ideation_merge_stats [(''generated_count'', JInt n)] h)
       in case ideation_enqueue_next e (hs_cycle_id h) ''hypothesis_critique'' (hs_id h)
                 (put_hypothesis_session h1 (s1\<lparr>cards := cards s1 @ new\<rparr>)) of
            (job_id, s2) \<Rightarrow> Inr (add_event OperatorResult ''ideation.hypotheses_generated''
              [(''hypothesis_session_id'', JUuid (hs_id h)), (''generated_count'', JInt n), (''next_job_id'', JUuid job_id)], s2))"

definition generate_body :: "ideation_ext \<Rightarrow> env \<Rightarrow> op_input \<Rightarrow> db \<Rightarrow> hypothesis_session \<Rightarrow> (op_result \<times> db) res" where
  "generate_body x e i s hs =
    (let h = (ideation_mark_started_if_needed e hs)\<lparr>hs_status := ''generating'', hs_error := None\<rparr> in
     case get_charter s (hs_charter_id h) of
       None \<Rightarrow> fail_ideation e ''generate'' ''charter not found'' h s
     | Some ch \<Rightarrow>
        let rows = filter (\<lambda>c. ec_cycle_id c = hs_cycle_id h) (evidence (lib s)); summaries = map evidence_summary rows
        in if rows = [] then fail_ideation e ''generate'' ''no evidence cards found for cycle'' h s
           else
             res_bind (res_bind (as_dict_res (hs_budget h)) (\<lambda>b. py_int (ix_py x) (dget_or b ''max_hypotheses'' (JInt 10)))) (\<lambda>max_hypotheses.
             res_bind (ideation_prompt s i) (\<lambda>skill.
             res_bind (record_ideation_skill (ix_py x) e i (hs_cycle_id h) JNull skill s) (\<lambda>s1.
             res_bind (from_cycle_config (ix_py x) (case get_cycle s (hs_cycle_id h) of None \<Rightarrow> None | Some c \<Rightarrow> cy_config c)) (\<lambda>pol.
             res_bind (profile_text ch summaries) (\<lambda>t.
             res_bind (inject_patterns e (hs_charter_id h) (Some (hs_cycle_id h)) [''successful_line'', ''failure''] pol
                         (ix_embed x t) (Some ''hypothesis_generate'') True s1) (\<lambda>(matches, s2).
               case ix_generate x ch summaries max_hypotheses (kp_prompt skill) matches of
                 Inl err \<Rightarrow> fail_ideation e ''generate'' err h s2
               | Inr (gs, cfg) \<Rightarrow>
                   persist_hypotheses e h (length rows) (py_take max_hypotheses gs)
                     (record_ideation_call (ix_py x) e i (hs_cycle_id h) cfg s2))))))))"

definition hypothesis_generate_operator :: "ideation_ext \<Rightarrow> env \<Rightarrow> operator" where
  "hypothesis_generate_operator x e i s = with_hypothesis_session i s (generate_body x e i s)"

section \<open>Critique\<close>

definition candidates :: "db \<Rightarrow> uuid \<Rightarrow> hypothesis_card list" where
  "candidates s sid = filter (\<lambda>c. hc_session_id c = sid \<and> hc_status c = ''candidate'') (cards s)"

definition critiqued_card :: "env \<Rightarrow> hypothesis_card \<Rightarrow> critique_result \<Rightarrow> hypothesis_card" where
  "critiqued_card e c r =
     c\<lparr>hc_critique := JObj [(''strengths'', JStrs (cr_strengths r)), (''weaknesses'', JStrs (cr_weaknesses r)),
                            (''failure_modes'', JStrs (cr_failure_modes r))],
       hc_novelty_score := Some (cr_novelty_score r), hc_feasibility_score := Some (cr_feasibility_score r),
       hc_impact_score := Some (cr_impact_score r), hc_updated_at := now e\<rparr>"

definition critique_body :: "ideation_ext \<Rightarrow> env \<Rightarrow> op_input \<Rightarrow> db \<Rightarrow> hypothesis_session \<Rightarrow> (op_result \<times> db) res" where
  "critique_body x e i s hs =
    (let h = hs\<lparr>hs_status := ''critiquing''\<rparr>;
         problem = (case get_charter s (hs_charter_id h) of None \<Rightarrow> [] | Some ch \<Rightarrow> ch_problem_statement ch);
         cs = sort_key hc_created_at (candidates s (hs_id h))
     in if cs = [] then fail_ideation e ''critique'' ''no candidate hypotheses to critique'' h s
        else
          res_bind (ideation_prompt s i) (\<lambda>skill.
          res_bind (record_ideation_skill (ix_py x) e i (hs_cycle_id h) (JObj [(''mode'', JStr ''critique'')]) skill s) (\<lambda>s1.
            case ix_critique x cs problem (kp_prompt skill) of
              Inl err \<Rightarrow> fail_ideation e ''critique'' err h s1
            | Inr (rs, cfg) \<Rightarrow>
                let s2 = record_ideation_call (ix_py x) e i (hs_cycle_id h) cfg s1;
                    done_cards = map2 (critiqued_card e) cs rs; n = int (length done_cards);
                    h1 = ideation_append_step_log e ''critique'' ''ok'' [(''critiqued_count'', JInt n)]
                           (ideation_merge_stats [(''critiqued_count'', JInt n)] h)
                in case ideation_enqueue_next e (hs_cycle_id h) ''hypothesis_rank'' (hs_id h)
                          (put_hypothesis_session h1 (fold put_card done_cards s2)) of
                     (job_id, s3) \<Rightarrow> Inr (add_event OperatorResult ''ideation.hypotheses_critiqued''
                       [(''hypothesis_session_id'', JUuid (hs_id h)), (''critiqued_count'', JInt n), (''next_job_id'', JUuid job_id)], s3))))"

definition hypothesis_critique_operator :: "ideation_ext \<Rightarrow> env \<Rightarrow> operator" where
  "hypothesis_critique_operator x e i s = with_hypothesis_session i s (critique_body x e i s)"

section \<open>Ranking\<close>

definition or_zero :: "real option \<Rightarrow> real" where
  "or_zero v = (case v of None \<Rightarrow> 0 | Some x \<Rightarrow> x)"

definition composite_score :: "hypothesis_card \<Rightarrow> real" where
  "composite_score c =
     3 / 10 * or_zero (hc_novelty_score c) + 4 / 10 * or_zero (hc_feasibility_score c) + 3 / 10 * or_zero (hc_impact_score c)"

definition ranked_cards :: "hypothesis_card list \<Rightarrow> hypothesis_card list" where
  "ranked_cards cs = sort_key (\<lambda>c. - composite_score c) cs"

definition with_ranks :: "env \<Rightarrow> hypothesis_card list \<Rightarrow> hypothesis_card list" where
  "with_ranks e cs = map (\<lambda>(n, c). c\<lparr>hc_rank := Some (int n), hc_updated_at := now e\<rparr>) (enumerate 1 cs)"

definition rank_body :: "env \<Rightarrow> db \<Rightarrow> hypothesis_session \<Rightarrow> (op_result \<times> db) res" where
  "rank_body e s hs =
    (let h = hs\<lparr>hs_status := ''ranking''\<rparr>; ranked = ranked_cards (candidates s (hs_id h))
     in case ranked of
          [] \<Rightarrow> fail_ideation e ''rank'' ''no candidate hypotheses to rank'' h s
        | best # _ \<Rightarrow>
           let n = int (length ranked);
               h1 = ideation_append_step_log e ''rank'' ''ok''
                      [(''ranked_count'', JInt n), (''top_title'', JStr (hc_title best)),
                       (''top_score'', JFloat (py_round 3 (composite_score best)))]
                      (ideation_merge_stats [(''ranked_count'', JInt n)] (h\<lparr>hs_status := ''completed'', hs_completed_at := Some (now e)\<rparr>))
           in Inr (add_event (add_event (op_patch Cy_portfolio_ready) ''ideation.hypotheses_ranked''
                     [(''hypothesis_session_id'', JUuid (hs_id h)), (''ranked_count'', JInt n)])
                     ''ideation.session_completed'' [(''hypothesis_session_id'', JUuid (hs_id h))],
                   put_hypothesis_session h1 (fold put_card (with_ranks e ranked) s)))"

definition hypothesis_rank_operator :: "env \<Rightarrow> operator" where
  "hypothesis_rank_operator e i s = with_hypothesis_session i s (rank_body e s)"

section \<open>Facts\<close>

lemma with_hypothesis_session_cases:
  assumes "with_hypothesis_session i s f = (res, s')"
  shows "(s' = s \<and> (\<forall>r. res = Inr r \<longrightarrow> \<not> or_success r)) \<or>
    (\<exists>h r. UUID_of (dget (oi_payload i) ''hypothesis_session_id'') = Inr (hs_id h) \<and> h \<in> set (sessions s) \<and>
       f h = Inr (r, s') \<and> res = Inr r)"
proof (cases "hypothesis_session_id_from_payload i")
  case (Inl err)
  then show ?thesis using assms by (cases err) (auto simp: with_hypothesis_session_def OperatorResult_def)
next
  case (Inr k)
  have k: "UUID_of (dget (oi_payload i) ''hypothesis_session_id'') = Inr k"
    using Inr by (auto simp: hypothesis_session_id_from_payload_def id_from_payload_def Let_def split: if_splits)
  show ?thesis
  proof (cases "load_hypothesis_session s k")
    case (Inl err)
    then show ?thesis using assms Inr by (cases err) (auto simp: with_hypothesis_session_def OperatorResult_def)
  next
    case load: (Inr h)
    have h: "hs_id h = k" "h \<in> set (sessions s)" using load_by_id_Inr [OF load [unfolded load_hypothesis_session_def]] by simp_all
    have run: "with_hypothesis_session i s f = committed s (f h)" using Inr load by (simp add: with_hypothesis_session_def)
    show ?thesis
    proof (cases "f h")
      case (Inl err)
      then show ?thesis using assms run by (auto simp: committed_def)
    next
      case (Inr out)
      then obtain r s1 where "f h = Inr (r, s1)" by (cases out) simp
      then have "res = Inr r" "f h = Inr (r, s')" using assms run by (simp_all add: committed_def)
      then show ?thesis using h k by metis
    qed
  qed
qed

lemma fail_ideation_Inr: "fail_ideation e step error h s = Inr (r, s') \<Longrightarrow> \<not> or_success r \<and> jobs s' = jobs s \<and> cards s' = cards s"
  by (auto simp: fail_ideation_def OperatorResult_def put_hypothesis_session_def)

text \<open>No evidence summary has the key the embedded text is made of.\<close>

lemma profile_text_fails: "profile_text ch (map evidence_summary (c # cs)) = Inl (KeyError ''summary'')"
  by (simp add: profile_text_def summary_of_def evidence_summary_def)

lemma generate_body_fails:
  assumes "generate_body x e i s h = Inr (r, s')"
  shows "\<not> or_success r \<and> jobs s' = jobs s \<and> cards s' = cards s"
proof -
  define h1 where "h1 = (ideation_mark_started_if_needed e h)\<lparr>hs_status := ''generating'', hs_error := None\<rparr>"
  define rows where "rows = filter (\<lambda>c. ec_cycle_id c = hs_cycle_id h1) (evidence (lib s))"
  note body = assms [unfolded generate_body_def Let_def, folded h1_def, folded rows_def]
  show ?thesis
  proof (cases "get_charter s (hs_charter_id h1)")
    case None
    then show ?thesis using body by (auto dest: fail_ideation_Inr)
  next
    case (Some ch)
    show ?thesis
    proof (cases rows)
      case Nil
      then show ?thesis using body Some by (auto dest: fail_ideation_Inr)
    next
      case (Cons c cs)
      then show ?thesis using body [unfolded Some option.case Cons profile_text_fails]
        by (auto elim!: res_bind_InrE)
    qed
  qed
qed

text \<open>
  C16: Hypothesis generation cannot succeed.  Without evidence the session is failed; with evidence the text to embed is
  built from a key the evidence summaries do not have, and the operator raises before it asks the model: whatever
  the models and the database answer, no hypothesis is stored and the critique is never enqueued.
\<close>

theorem hypothesis_generate_never_succeeds:
  "(case fst (hypothesis_generate_operator x e i s) of Inl _ \<Rightarrow> True | Inr r \<Rightarrow> \<not> or_success r) \<and>
   cards (snd (hypothesis_generate_operator x e i s)) = cards s \<and> jobs (snd (hypothesis_generate_operator x e i s)) = jobs s"
proof -
  obtain res s' where run: "hypothesis_generate_operator x e i s = (res, s')" by fastforce
  from with_hypothesis_session_cases [OF run [unfolded hypothesis_generate_operator_def]] show ?thesis
    using generate_body_fails [of x e i s _ _ s'] by (auto simp: run split: sum.split)
qed

section \<open>The critique stage\<close>

lemma record_skill_usage_jobs:
  assumes "record_skill_usage py e sid k ot j cfg False s = Inr (r, t)"
  shows "jobs t = jobs s"
proof -
  obtain row where row: "find_skill s sid = Inr row" using assms by (cases "find_skill s sid") (simp_all add: record_skill_usage_def)
  show ?thesis
  proof (cases row)
    case (Some d)
    obtain dec where dec: "enforce py sid (sk_trust_tier d) (sk_manifest d) (cycle_config_of s k) = Inr dec"
      using assms row Some
      by (cases "enforce py sid (sk_trust_tier d) (sk_manifest d) (cycle_config_of s k)") (simp_all add: record_skill_usage_def)
    show ?thesis
      using assms unfolding record_skill_usage_def row Some dec res_bind.simps option.case
      by (auto simp: add_binding_def Let_def split: if_splits)
  qed (use assms row in \<open>simp add: record_skill_usage_def\<close>)
qed

lemma record_ideation_skill_jobs: "record_ideation_skill py e i k cfg p s = Inr t \<Longrightarrow> jobs t = jobs s"
  by (auto simp: record_ideation_skill_def res_bind_Inr_iff dest!: record_skill_usage_jobs split: option.split_asm list.split_asm)

lemma jobs_record_ideation_call [simp]: "jobs (record_ideation_call py e i k cfg s) = jobs s"
  using record_model_call_untouched(1) by (simp add: record_ideation_call_def untouched_def)

lemma jobs_fold_put_card [simp]: "jobs (fold put_card cs s) = jobs s"
  using fold_put_card [of s cs] by (simp add: untouched_def)

lemma critique_body_hands:
  assumes "critique_body x e i s h = Inr (r, s')"
  shows "if or_success r then \<exists>j. jobs s' = jobs s @ [j] \<and> j_type j = ''hypothesis_rank'' \<and> j_status j = Js_pending \<and>
       j_payload j = Some [(''hypothesis_session_id'', JUuid (hs_id h))] else jobs s' = jobs s"
proof -
  define cs where "cs = sort_key hc_created_at (candidates s (hs_id (h\<lparr>hs_status := ''critiquing''\<rparr>)))"
  note body = assms [unfolded critique_body_def Let_def, folded cs_def]
  show ?thesis
  proof (cases "cs = []")
    case True
    then show ?thesis using body by (auto dest!: fail_ideation_Inr)
  next
    case False
    obtain skill s1 where skill: "ideation_prompt s i = Inr skill"
      and u: "record_ideation_skill (ix_py x) e i (hs_cycle_id (h\<lparr>hs_status := ''critiquing''\<rparr>)) (JObj [(''mode'', JStr ''critique'')]) skill s = Inr s1"
      using body False by (auto elim!: res_bind_InrE)
    note body = body [unfolded if_not_P [OF False] skill u res_bind.simps]
    show ?thesis
      using body record_ideation_skill_jobs [OF u]
      by (auto simp: ideation_enqueue_next_def create_job_def tick_uuid_def Let_def add_event_def OperatorResult_def
          put_hypothesis_session_def dest!: fail_ideation_Inr split: sum.split_asm prod.split_asm)
  qed
qed

interpretation critique: pipeline_stage "hypothesis_critique_operator x e" "''hypothesis_session_id''" "''hypothesis_rank''" for x e
proof unfold_locales
  fix i s r s'
  assume run: "hypothesis_critique_operator x e i s = (Inr r, s')" and ok: "or_success r"
  then obtain h where "UUID_of (dget (oi_payload i) ''hypothesis_session_id'') = Inr (hs_id h)" "critique_body x e i s h = Inr (r, s')"
    using with_hypothesis_session_cases [OF run [unfolded hypothesis_critique_operator_def]] by auto
  then show "\<exists>j. jobs s' = jobs s @ [j] \<and> handed_over ''hypothesis_session_id'' ''hypothesis_rank'' i j"
    using critique_body_hands [of x e i s h r s'] ok by (auto simp: handed_over_def)
next
  fix i s res s'
  assume run: "hypothesis_critique_operator x e i s = (res, s')" and no: "\<forall>r. res = Inr r \<longrightarrow> \<not> or_success r"
  from with_hypothesis_session_cases [OF run [unfolded hypothesis_critique_operator_def]] show "jobs s' = jobs s"
    using no critique_body_hands [of x e i s _ _ s'] by (metis (no_types, lifting))
qed

section \<open>The ranking\<close>

lemma map_snd_enumerate: "map (\<lambda>p. f (snd p)) (enumerate n xs) = map f xs"
  by (induction xs arbitrary: n) auto

lemma with_ranks_ids: "map hc_id (with_ranks e cs) = map hc_id cs"
  by (simp add: with_ranks_def case_prod_beta comp_def map_snd_enumerate)

lemma nth_with_ranks:
  "n < length cs \<Longrightarrow> with_ranks e cs ! n = (cs ! n)\<lparr>hc_rank := Some (int n + 1), hc_updated_at := now e\<rparr>"
  by (simp add: with_ranks_def nth_enumerate_eq)

definition replaced :: "hypothesis_card list \<Rightarrow> hypothesis_card \<Rightarrow> hypothesis_card" where
  "replaced ps c = (case find (\<lambda>p. hc_id p = hc_id c) ps of None \<Rightarrow> c | Some p \<Rightarrow> p)"

lemma replaced_id [simp]: "hc_id (replaced ps c) = hc_id c"
  by (auto simp: replaced_def find_Some_iff split: option.split)

lemma cards_fold_put_card:
  assumes "distinct (map hc_id ps)"
  shows "cards (fold put_card ps s) = map (replaced ps) (cards s)"
  using assms
proof (induction ps arbitrary: s)
  case Nil
  then show ?case by (simp add: replaced_def)
next
  case (Cons a ps)
  have none: "find (\<lambda>p. hc_id p = hc_id a) ps = None" using Cons.prems by (auto simp: find_None_iff image_iff)
  have "cards (fold put_card (a # ps) s) = map (replaced ps) (map (\<lambda>c. if hc_id c = hc_id a then a else c) (cards s))"
  proof -
    have "cards (put_card a s) = map (\<lambda>c. if hc_id c = hc_id a then a else c) (cards s)"
      by (simp add: put_card_def update_where_def)
    then show ?thesis using Cons by simp
  qed
  also have "\<dots> = map (replaced (a # ps)) (cards s)"
    using none by (auto simp: replaced_def)
  finally show ?case .
qed

lemma find_replaced:
  "distinct (map hc_id ps) \<Longrightarrow> n < length ps \<Longrightarrow> hc_id (ps ! n) = hc_id c \<Longrightarrow> replaced ps c = ps ! n"
proof (induction ps arbitrary: n)
  case (Cons a ps)
  then show ?case by (cases n) (auto simp: replaced_def, metis image_eqI nth_mem)
qed simp

lemma table_get_map:
  "distinct (map hc_id tbl) \<Longrightarrow> c \<in> set tbl \<Longrightarrow> table_get hc_id (map (replaced ps) tbl) (hc_id c) = Some (replaced ps c)"
proof (induction tbl)
  case (Cons a tbl)
  then show ?case by (cases "c = a") (auto simp: table_get_def image_iff)
qed simp

text \<open>
  Ranking a session gives its candidates the ranks 1 to n in the order of the weighted score, the best first, and
  changes nothing else of them; the session is completed, the cycle is to become portfolio_ready, and no job follows.
\<close>

theorem rank_orders_candidates:
  assumes "hypothesis_rank_operator e i s = (Inr r, s')" and "or_success r" and "distinct (map hc_id (cards s))"
  shows "\<exists>sid ranked. UUID_of (dget (oi_payload i) ''hypothesis_session_id'') = Inr sid \<and> ranked \<noteq> [] \<and>
     set ranked = set (candidates s sid) \<and> distinct ranked \<and> sorted_wrt (\<lambda>a b. composite_score b \<le> composite_score a) ranked \<and>
     (\<forall>n<length ranked. table_get hc_id (cards s') (hc_id (ranked ! n)) =
        Some ((ranked ! n)\<lparr>hc_rank := Some (int n + 1), hc_updated_at := now e\<rparr>)) \<and>
     jobs s' = jobs s \<and> or_state_patch r = [(''cycle_status'', JStr ''portfolio_ready'')]"
proof -
  obtain h where sid: "UUID_of (dget (oi_payload i) ''hypothesis_session_id'') = Inr (hs_id h)" and body: "rank_body e s h = Inr (r, s')"
    using with_hypothesis_session_cases [OF assms(1) [unfolded hypothesis_rank_operator_def]] assms(2) by auto
  define ranked where "ranked = ranked_cards (candidates s (hs_id h))"
  have ne: "ranked \<noteq> []" and out: "cards s' = cards (fold put_card (with_ranks e ranked) s)" "jobs s' = jobs s"
      "or_state_patch r = [(''cycle_status'', JStr ''portfolio_ready'')]"
    using body assms(2) unfolding rank_body_def Let_def
    by (auto simp: ranked_def add_event_def put_hypothesis_session_def dest!: fail_ideation_Inr split: list.split_asm)
  have set_r: "set ranked = set (candidates s (hs_id h))" by (simp add: ranked_def ranked_cards_def)
  have sub: "set ranked \<subseteq> set (cards s)" unfolding set_r by (auto simp: candidates_def)
  have d: "distinct (map hc_id ranked)"
    using assms(3) by (auto simp: ranked_def ranked_cards_def candidates_def distinct_map inj_on_def)
  then have "distinct ranked" by (rule distinct_map [THEN iffD1, THEN conjunct1])
  have sorted: "sorted_wrt (\<lambda>a b. composite_score b \<le> composite_score a) ranked"
    using sorted_sort_key [of "\<lambda>c. - composite_score c" "candidates s (hs_id h)"]
    by (simp add: ranked_def ranked_cards_def sorted_map)
  have dr: "distinct (map hc_id (with_ranks e ranked))" using d by (simp add: with_ranks_ids)
  have "table_get hc_id (cards s') (hc_id (ranked ! n)) = Some ((ranked ! n)\<lparr>hc_rank := Some (int n + 1), hc_updated_at := now e\<rparr>)"
    if n: "n < length ranked" for n
  proof -
    have mem: "ranked ! n \<in> set (cards s)" using sub n nth_mem by blast
    have "replaced (with_ranks e ranked) (ranked ! n) = with_ranks e ranked ! n"
      using n by (intro find_replaced [OF dr]) (simp_all add: nth_with_ranks, simp add: with_ranks_def)
    then show ?thesis
      using table_get_map [OF assms(3) mem, of "with_ranks e ranked"] n by (simp add: out(1) cards_fold_put_card [OF dr] nth_with_ranks)
  qed
  then show ?thesis using sid ne set_r \<open>distinct ranked\<close> sorted out(2,3) by blast
qed

section \<open>Witness\<close>

definition demo_candidate :: "uuid \<Rightarrow> real \<Rightarrow> hypothesis_card" where
  "demo_candidate k score = demo_card\<lparr>hc_id := k, hc_session_id := 30, hc_status := ''candidate'', hc_impact_score := Some score\<rparr>"

definition demo_ideation_world :: db where
  "demo_ideation_world = empty_db\<lparr>sessions := [demo_hypothesis_session], cards := [demo_candidate 1 (1 / 2), demo_candidate 2 1]\<rparr>"

definition demo_ideation_input :: op_input where
  "demo_ideation_input = \<lparr>oi_cycle_id = 4, oi_charter_id = 3, oi_job_id = 9, oi_job_type = ''hypothesis_rank'',
     oi_payload = [(''hypothesis_session_id'', JUuid 30)]\<rparr>"

lemma demo_rank_runs: "\<exists>r s1. hypothesis_rank_operator demo_env demo_ideation_input demo_ideation_world = (Inr r, s1) \<and> or_success r"
proof -
  have l: "hypothesis_session_id_from_payload demo_ideation_input = Inr 30"
    "load_hypothesis_session demo_ideation_world 30 = Inr demo_hypothesis_session" "hs_id demo_hypothesis_session = 30"
    by (simp_all add: demo_ideation_input_def hypothesis_session_id_from_payload_def id_from_payload_def dget_def
        load_hypothesis_session_def load_by_id_def demo_ideation_world_def demo_hypothesis_session_def)
  have c: "candidates demo_ideation_world 30 = [demo_candidate 1 (1 / 2), demo_candidate 2 1]"
    by (simp add: candidates_def demo_ideation_world_def demo_candidate_def)
  have "ranked_cards [demo_candidate 1 (1 / 2), demo_candidate 2 1] \<noteq> []"
    unfolding ranked_cards_def by (metis length_sort length_0_conv list.distinct(1))
  then show ?thesis
    by (auto simp: hypothesis_rank_operator_def with_hypothesis_session_def l committed_def rank_body_def Let_def c add_event_def
        OperatorResult_def split: list.split)
qed

theorem rank_orders_candidates_witness:
  "\<exists>r s1 ranked. hypothesis_rank_operator demo_env demo_ideation_input demo_ideation_world = (Inr r, s1) \<and> or_success r \<and>
     sorted_wrt (\<lambda>a b. composite_score b \<le> composite_score a) ranked \<and> ranked \<noteq> [] \<and>
     table_get hc_id (cards s1) (hc_id (ranked ! 0)) = Some ((ranked ! 0)\<lparr>hc_rank := Some 1, hc_updated_at := 1000\<rparr>)"
proof -
  obtain r s1 where run: "hypothesis_rank_operator demo_env demo_ideation_input demo_ideation_world = (Inr r, s1)" "or_success r"
    using demo_rank_runs by blast
  have d: "distinct (map hc_id (cards demo_ideation_world))" by (simp add: demo_ideation_world_def demo_candidate_def)
  obtain ranked where "ranked \<noteq> []" "sorted_wrt (\<lambda>a b. composite_score b \<le> composite_score a) ranked"
    "\<forall>n<length ranked. table_get hc_id (cards s1) (hc_id (ranked ! n)) =
        Some ((ranked ! n)\<lparr>hc_rank := Some (int n + 1), hc_updated_at := now demo_env\<rparr>)"
    using rank_orders_candidates [OF run d] by blast
  moreover have "0 < length ranked" using calculation(1) by simp
  ultimately show ?thesis using run by (auto simp: demo_env_def intro!: exI [of _ ranked])
qed

end
