(* ===== verification/Pattern_Service.thy ===== *)
theory Pattern_Service
  imports Patterns Experiment_Service
begin

text \<open>
  The canonical-pattern API (\<open>apps/api/routers/patterns.py\<close> with the requests of
  \<open>libs/schemas/patterns.py\<close>): listings, the manual consolidation and decay jobs, approvals, rejections, tier
  changes and the retrieval preview.  Titles, summaries and rationales are left out; a request is one transaction.
\<close>

section \<open>Views\<close>

definition list_patterns ::
  "db \<Rightarrow> string option \<Rightarrow> string option \<Rightarrow> real \<Rightarrow> uuid option \<Rightarrow> nat \<Rightarrow> nat \<Rightarrow> canonical_pattern list \<times> nat" where
  "list_patterns s ptype tier min_conf charter_id =
     listing (\<lambda>p. (case ptype of Some (c # cs) \<Rightarrow> cp_pattern_type p = c # cs | _ \<Rightarrow> True) \<and>
         (case tier of Some (c # cs) \<Rightarrow> cp_trust_tier p = c # cs | _ \<Rightarrow> True) \<and>
         (min_conf > 0 \<longrightarrow> cp_confidence p \<ge> min_conf) \<and>
         (case charter_id of None \<Rightarrow> True | Some ch \<Rightarrow> ch \<in> set (cp_source_charter_ids p)))
       (order_desc cp_last_reinforced_at) (patterns s)"

definition observations_of :: "uuid \<Rightarrow> db \<Rightarrow> pattern_observation list" where
  "observations_of pattern_id s = order_desc po_observed_at (filter (\<lambda>x. po_pattern_id x = pattern_id) (observations s))"

definition get_pattern_row :: "db \<Rightarrow> uuid \<Rightarrow> canonical_pattern res" where
  "get_pattern_row s pattern_id = or_404 (table_get cp_id (patterns s) pattern_id)"

definition get_pattern :: "uuid \<Rightarrow> db \<Rightarrow> (canonical_pattern \<times> pattern_observation list) res" where
  "get_pattern pattern_id s =
     res_bind (get_pattern_row s pattern_id) (\<lambda>p. Inr (p, take 20 (observations_of pattern_id s)))"

definition list_observations :: "db \<Rightarrow> uuid \<Rightarrow> nat \<Rightarrow> nat \<Rightarrow> pattern_observation list \<times> nat" where
  "list_observations s pattern_id = listing (\<lambda>x. po_pattern_id x = pattern_id) (order_desc po_observed_at) (observations s)"

section \<open>Manual jobs\<close>

definition enqueue_job :: "env \<Rightarrow> string \<Rightarrow> dict \<Rightarrow> db \<Rightarrow> job \<times> db" where
  "enqueue_job e job_type payload = create_job e None job_type (Some payload) 0"

definition validate_types :: "string list option \<Rightarrow> string list option res" where
  "validate_types types =
    (case types of None \<Rightarrow> Inr None
     | Some ts \<Rightarrow> if \<exists>t\<in>set ts. t \<notin> set PATTERN_TYPES then Inl (ValueError ''unknown pattern_types'') else Inr (Some ts))"

definition consolidate_patterns :: "env \<Rightarrow> uuid option \<Rightarrow> string list option \<Rightarrow> db \<Rightarrow> (uuid \<times> db) res" where
  "consolidate_patterns e charter_id types s =
    (case validate_types types of
       Inl _ \<Rightarrow> Inl (HTTPException 422)
     | Inr ts \<Rightarrow>
        let payload = (case charter_id of None \<Rightarrow> [] | Some ch \<Rightarrow> [(''charter_id'', JUuid ch)]) @
              (case ts of Some (x # xs) \<Rightarrow> [(''pattern_types'', JList (map JStr (x # xs)))] | _ \<Rightarrow> [])
        in case enqueue_job e ''consolidate_patterns'' payload s of (j, s') \<Rightarrow> Inr (j_id j, s'))"

definition decay_patterns :: "env \<Rightarrow> bool \<Rightarrow> int option \<Rightarrow> db \<Rightarrow> (uuid \<times> db) res" where
  "decay_patterns e force max_days s =
    (let payload = [(''force'', JBool force)] @ (case max_days of None \<Rightarrow> [] | Some d \<Rightarrow> [(''max_staleness_days'', JInt d)])
     in case enqueue_job e ''decay_patterns'' payload s of (j, s') \<Rightarrow> Inr (j_id j, s'))"

section \<open>Curation\<close>

definition decide_pattern ::
  "env \<Rightarrow> string \<Rightarrow> string \<Rightarrow> uuid \<Rightarrow> string \<Rightarrow> uuid option \<Rightarrow> time option \<Rightarrow> db \<Rightarrow> (pattern_approval \<times> db) res" where
  "decide_pattern e decision event pattern_id rationale charter_id expires_at s =
     validated (rationale \<noteq> []) (res_bind (get_pattern_row s pattern_id) (\<lambda>_.
       let a = \<lparr>pa_id = new_uuid e s, pa_pattern_id = pattern_id, pa_charter_id = charter_id, pa_decision = decision,
                pa_expires_at = expires_at, pa_created_at = now e\<rparr>;
           s1 = (tick_uuid s)\<lparr>approvals := approvals s @ [a]\<rparr>
       in Inr (a, emit_event e event charter_id None
                (Some [(''pattern_id'', JUuid pattern_id), (''rationale'', JStr rationale)]) Actor_system None s1)))"

definition approve_pattern ::
  "env \<Rightarrow> uuid \<Rightarrow> string \<Rightarrow> uuid option \<Rightarrow> time option \<Rightarrow> db \<Rightarrow> (pattern_approval \<times> db) res" where
  "approve_pattern e pattern_id rationale charter_id expires_at =
     decide_pattern e ''approve'' ''pattern.approved'' pattern_id rationale charter_id expires_at"

definition reject_pattern :: "env \<Rightarrow> uuid \<Rightarrow> string \<Rightarrow> uuid option \<Rightarrow> db \<Rightarrow> (pattern_approval \<times> db) res" where
  "reject_pattern e pattern_id rationale charter_id =
     decide_pattern e ''reject'' ''pattern.rejected'' pattern_id rationale charter_id None"

definition VALID_TRUST_TIERS :: "string list" where
  "VALID_TRUST_TIERS = [''auto'', ''curated'', ''deprecated'']"

definition update_trust_tier ::
  "env \<Rightarrow> uuid \<Rightarrow> string \<Rightarrow> string \<Rightarrow> db \<Rightarrow> ((canonical_pattern \<times> pattern_observation list) \<times> db) res" where
  "update_trust_tier e pattern_id tier rationale s =
     validated (rationale \<noteq> []) (validated (tier \<in> set VALID_TRUST_TIERS)
       (res_bind (get_pattern_row s pattern_id) (\<lambda>p.
         let p' = p\<lparr>cp_trust_tier := tier\<rparr>;
             s1 = s\<lparr>patterns := update_where (\<lambda>x. cp_id x = pattern_id) (\<lambda>_. p') (patterns s)\<rparr>;
             s2 = emit_event e ''pattern.trust_tier_changed'' None None
                    (Some [(''pattern_id'', JUuid pattern_id), (''previous_tier'', JStr (cp_trust_tier p)),
                           (''new_tier'', JStr tier), (''rationale'', JStr rationale)]) Actor_system None s1
         in Inr ((p', take 20 (observations_of pattern_id s2)), s2))))"

section \<open>Retrieval preview\<close>

record preview_request =
  pq_current_cycle :: "uuid option"
  pq_embedding :: "real list option"
  pq_pattern_types :: "string list option"
  pq_min_confidence :: real
  pq_max_staleness_days :: int
  pq_cross_charter_only :: bool
  pq_limit :: int

definition retrieve_rows :: "env \<Rightarrow> db \<Rightarrow> preview_request \<Rightarrow> string list \<Rightarrow> pattern_match list res" where
  "retrieve_rows e s q types =
     find_relevant_patterns e s (pq_current_cycle q) (pq_embedding q) types (pq_min_confidence q)
       (pq_max_staleness_days q) (pq_cross_charter_only q) (115 / 100) (pq_limit q)"

definition retrieve_preview :: "env \<Rightarrow> preview_request \<Rightarrow> db \<Rightarrow> pattern_match list res" where
  "retrieve_preview e q s =
     validated (1 \<le> pq_limit q \<and> pq_limit q \<le> 100) (retrieve_rows e s q (opt_list (pq_pattern_types q)))"

definition retrieve_preview_for_pattern :: "env \<Rightarrow> uuid \<Rightarrow> preview_request \<Rightarrow> db \<Rightarrow> pattern_match list res" where
  "retrieve_preview_for_pattern e pattern_id q s =
     validated (1 \<le> pq_limit q \<and> pq_limit q \<le> 100) (res_bind (get_pattern_row s pattern_id) (\<lambda>p.
       retrieve_rows e s q (case opt_list (pq_pattern_types q) of [] \<Rightarrow> [cp_pattern_type p] | t # ts \<Rightarrow> t # ts)))"

interpretation patterns_page: paged_query "list_patterns s ptype tier min_conf charter_id"
  "order_desc cp_last_reinforced_at (filter (\<lambda>p. (case ptype of Some (c # cs) \<Rightarrow> cp_pattern_type p = c # cs | _ \<Rightarrow> True) \<and>
     (case tier of Some (c # cs) \<Rightarrow> cp_trust_tier p = c # cs | _ \<Rightarrow> True) \<and>
     (min_conf > 0 \<longrightarrow> cp_confidence p \<ge> min_conf) \<and>
     (case charter_id of None \<Rightarrow> True | Some ch \<Rightarrow> ch \<in> set (cp_source_charter_ids p))) (patterns s))"
  for s ptype tier min_conf charter_id
  unfolding list_patterns_def by (rule paged_listing) simp

interpretation observations_page: paged_query "list_observations s pattern_id" "observations_of pattern_id s" for s pattern_id
  unfolding list_observations_def observations_of_def by (rule paged_listing) simp

section \<open>Approvals by scope\<close>

text \<open>The newest decision about a pattern at one scope (a charter, or None for all) and whether it lets the pattern in.\<close>

definition scope_decision :: "db \<Rightarrow> uuid \<Rightarrow> uuid option \<Rightarrow> pattern_approval option" where
  "scope_decision s pattern_id scope =
     first_row (order_desc pa_created_at
       (filter (\<lambda>a. pa_pattern_id a = pattern_id \<and> pa_charter_id a = scope) (approvals s)))"

definition lets_in :: "env \<Rightarrow> pattern_approval option \<Rightarrow> bool" where
  "lets_in e d = (case d of None \<Rightarrow> False
     | Some a \<Rightarrow> pa_decision a = ''approve'' \<and> \<not> null_less (pa_expires_at a) (now e))"

lemma latest_by_scope_upto:
  assumes "distinct (map fst d)"
  shows "distinct (map fst (fold (\<lambda>r d. if map_of d (pa_charter_id r) = None then d @ [(pa_charter_id r, r)] else d) rows d)) \<and>
    map_of (fold (\<lambda>r d. if map_of d (pa_charter_id r) = None then d @ [(pa_charter_id r, r)] else d) rows d) sc =
      (case map_of d sc of Some a \<Rightarrow> Some a | None \<Rightarrow> first_row (filter (\<lambda>r. pa_charter_id r = sc) rows))"
  using assms
proof (induction rows arbitrary: d)
  case Nil
  then show ?case by (simp add: first_row_def split: option.splits)
next
  case (Cons r rows)
  let ?d = "if map_of d (pa_charter_id r) = None then d @ [(pa_charter_id r, r)] else d"
  have "distinct (map fst ?d)" using Cons.prems by (auto simp: map_of_eq_None_iff)
  from Cons.IH [OF this] show ?case
    by (auto simp: map_add_def first_row_def split: option.splits)
qed

lemma latest_by_scope_decisions:
  "snd ` set (latest_by_scope rows) = {a. \<exists>sc. first_row (filter (\<lambda>r. pa_charter_id r = sc) rows) = Some a}"
proof -
  have d: "distinct (map fst (latest_by_scope rows))"
    and m: "\<And>sc. map_of (latest_by_scope rows) sc = first_row (filter (\<lambda>r. pa_charter_id r = sc) rows)"
    using latest_by_scope_upto [of "[]" rows] by (simp_all add: latest_by_scope_def)
  have "a \<in> snd ` set (latest_by_scope rows) \<longleftrightarrow> (\<exists>sc. map_of (latest_by_scope rows) sc = Some a)" for a
    using map_of_SomeD map_of_is_SomeI [OF d] by (force simp: image_iff)
  then show ?thesis by (auto simp: m)
qed

text \<open>A curated pattern gets in through its charter's decision or the global one; neither overrides the other.\<close>

lemma has_valid_approval_scopes:
  "has_valid_approval e s p ch \<longleftrightarrow> lets_in e (scope_decision s p (Some ch)) \<or> lets_in e (scope_decision s p None)"
proof -
  let ?rows = "order_desc pa_created_at (filter (\<lambda>a. pa_pattern_id a = p \<and> (pa_charter_id a = Some ch \<or> pa_charter_id a = None))
      (approvals s))"
  have f: "first_row (filter (\<lambda>r. pa_charter_id r = sc) ?rows) =
      (if sc = Some ch \<or> sc = None then scope_decision s p sc else None)" for sc
  proof -
    have "filter (\<lambda>r. pa_charter_id r = sc) ?rows = order_desc pa_created_at (filter (\<lambda>a. pa_charter_id a = sc \<and>
        pa_pattern_id a = p \<and> (pa_charter_id a = Some ch \<or> pa_charter_id a = None)) (approvals s))"
      by (simp add: order_desc_def filter_sort conj_commute)
    also have "filter (\<lambda>a. pa_charter_id a = sc \<and> pa_pattern_id a = p \<and> (pa_charter_id a = Some ch \<or> pa_charter_id a = None))
        (approvals s) = (if sc = Some ch \<or> sc = None then filter (\<lambda>a. pa_pattern_id a = p \<and> pa_charter_id a = sc) (approvals s) else [])"
      by (auto intro: filter_cong simp: filter_empty_conv)
    finally show ?thesis by (auto simp: scope_decision_def first_row_def order_desc_def)
  qed
  have "has_valid_approval e s p ch \<longleftrightarrow> (\<exists>a\<in>snd ` set (latest_by_scope ?rows). lets_in e (Some a))"
    by (simp add: has_valid_approval_def Let_def lets_in_def)
  also have "\<dots> \<longleftrightarrow> (\<exists>sc. lets_in e (first_row (filter (\<lambda>r. pa_charter_id r = sc) ?rows)))"
    unfolding latest_by_scope_decisions
    by (auto simp: lets_in_def split: option.splits)
  also have "\<dots> \<longleftrightarrow> lets_in e (scope_decision s p (Some ch)) \<or> lets_in e (scope_decision s p None)"
    unfolding f by (auto simp: lets_in_def split: if_splits)
  finally show ?thesis .
qed

lemma newest_decides:
  assumes "approvals s' = approvals s @ [a]" and "pa_pattern_id a = p"
    and "\<forall>b\<in>set (approvals s). pa_pattern_id b = p \<longrightarrow> pa_created_at b < pa_created_at a"
  shows "scope_decision s' p sc = (if sc = pa_charter_id a then Some a else scope_decision s p sc)"
proof (cases "sc = pa_charter_id a")
  case True
  let ?rows = "filter (\<lambda>b. pa_pattern_id b = p \<and> pa_charter_id b = sc) (approvals s')"
  have a: "a \<in> set ?rows" using assms True by simp
  then obtain r where r: "first_row (order_desc pa_created_at ?rows) = Some r"
    by (metis first_row_None_iff not_None_eq set_order_desc empty_iff list.set(1))
  from first_row_order_desc_max [OF r] a have "r \<in> set ?rows" "pa_created_at a \<le> pa_created_at r" by auto
  then have "r = a" using assms by (auto split: if_splits)
  then show ?thesis using True r by (simp add: scope_decision_def)
qed (use assms in \<open>simp add: scope_decision_def\<close>)

lemma decide_pattern_Inr:
  "decide_pattern e d ev p why ch ex s = Inr (a, s') \<Longrightarrow>
   approvals s' = approvals s @ [a] \<and> pa_pattern_id a = p \<and> pa_charter_id a = ch \<and> pa_decision a = d \<and>
   pa_expires_at a = ex \<and> pa_created_at a = now e"
  by (auto simp: decide_pattern_def validated_def res_bind_Inr_iff Let_def emit_event_eq_sync split: if_splits)

text \<open>
  An approval lets the pattern in for its charter (for all charters when it is global) until it expires; a
  rejection takes back only the decision of its own scope, so a charter's rejection leaves a pattern
  in that is approved globally.
\<close>

theorem approvals_are_scoped:
  assumes past: "\<forall>b\<in>set (approvals s). pa_pattern_id b = p \<longrightarrow> pa_created_at b < now e"
  shows "(approve_pattern e p why scope ex s = Inr (a, s') \<longrightarrow> \<not> null_less ex (now e) \<longrightarrow>
      (scope = None \<or> scope = Some ch) \<longrightarrow> has_valid_approval e s' p ch) \<and>
    (reject_pattern e p why scope s = Inr (a, s') \<longrightarrow>
      (has_valid_approval e s' p ch \<longleftrightarrow>
        scope \<noteq> Some ch \<and> lets_in e (scope_decision s p (Some ch)) \<or> scope \<noteq> None \<and> lets_in e (scope_decision s p None)))"
proof (intro conjI impI)
  assume ap: "approve_pattern e p why scope ex s = Inr (a, s')" and ex: "\<not> null_less ex (now e)"
    and sc: "scope = None \<or> scope = Some ch"
  note d = decide_pattern_Inr [OF ap [unfolded approve_pattern_def]]
  have "scope_decision s' p scope = Some a" using newest_decides [of s' s a p] d past by simp
  then have "lets_in e (scope_decision s' p scope)" using d ex by (simp add: lets_in_def)
  then show "has_valid_approval e s' p ch" using sc unfolding has_valid_approval_scopes by auto
next
  assume rj: "reject_pattern e p why scope s = Inr (a, s')"
  note d = decide_pattern_Inr [OF rj [unfolded reject_pattern_def]]
  have dec: "scope_decision s' p sc = (if sc = scope then Some a else scope_decision s p sc)" for sc
    using newest_decides [of s' s a p] d past by simp
  have "\<not> lets_in e (Some a)" using d by (simp add: lets_in_def)
  then show "has_valid_approval e s' p ch \<longleftrightarrow>
        scope \<noteq> Some ch \<and> lets_in e (scope_decision s p (Some ch)) \<or> scope \<noteq> None \<and> lets_in e (scope_decision s p None)"
    unfolding has_valid_approval_scopes dec by (cases scope) auto
qed

definition demo_curated :: canonical_pattern where
  "demo_curated = \<lparr>cp_id = 50, cp_pattern_type = ''failure'', cp_content_key = ''k'', cp_structured_body = [],
     cp_embedding = None, cp_evidence_count = 3, cp_confidence = 1, cp_trust_tier = ''curated'',
     cp_first_observed_at = 1, cp_last_observed_at = 1, cp_last_reinforced_at = 1, cp_staleness_score = 0,
     cp_source_charter_ids = [3], cp_consolidation_version = 1\<rparr>"

definition demo_approved_world :: db where
  "demo_approved_world = empty_db\<lparr>patterns := [demo_curated],
     approvals := [\<lparr>pa_id = 1, pa_pattern_id = 50, pa_charter_id = None, pa_decision = ''approve'', pa_expires_at = None,
       pa_created_at = 10\<rparr>]\<rparr>"

theorem approvals_are_scoped_witness:
  "\<exists>a s'. reject_pattern demo_env 50 ''misleading'' (Some 3) demo_approved_world = Inr (a, s') \<and>
     has_valid_approval demo_env s' 50 3"
proof -
  obtain a s' where r: "reject_pattern demo_env 50 ''misleading'' (Some 3) demo_approved_world = Inr (a, s')"
    by (simp add: reject_pattern_def decide_pattern_def validated_def get_pattern_row_def demo_approved_world_def
        demo_curated_def or_404_def Let_def)
  have past: "\<forall>b\<in>set (approvals demo_approved_world). pa_pattern_id b = 50 \<longrightarrow> pa_created_at b < now demo_env"
    by (simp add: demo_approved_world_def demo_env_def)
  have "lets_in demo_env (scope_decision demo_approved_world 50 None)"
    by (simp add: lets_in_def scope_decision_def demo_approved_world_def order_desc_def first_row_def)
  then have "has_valid_approval demo_env s' 50 3"
    using approvals_are_scoped [OF past, of "''misleading''" "Some 3" None a s' 3] r by simp
  with r show ?thesis by blast
qed

end
