(* ===== verification/Run_Views.thy ===== *)
theory Run_Views
  imports Remediation Experiment_Service
begin

text \<open>
  The read-only remediation API (\<open>apps/api/routers/remediation.py\<close>): actions, signal, recommendation and retry
  lineage of a run, and the metric frontiers.  The walk up to the root of a lineage is a loop without a bound in
  the code, hence a partial function; the search for descendants ends because no run is visited twice.
\<close>

section \<open>Views of one run\<close>

definition get_run_remediation :: "uuid \<Rightarrow> db \<Rightarrow> remediation_action list" where
  "get_run_remediation run_id s = sort_key ra_created_at (filter (\<lambda>a. ra_run_id a = run_id) (actions s))"

definition get_run_signal :: "uuid \<Rightarrow> db \<Rightarrow> directional_signal option res" where
  "get_run_signal run_id s = scalar_one_or_none (filter (\<lambda>d. ds_run_id d = run_id) (signals s))"

definition get_run_recommendation :: "uuid \<Rightarrow> db \<Rightarrow> run_recommendation option res" where
  "get_run_recommendation run_id s = scalar_one_or_none (filter (\<lambda>r. rr_run_id r = run_id) (recommendations s))"

definition get_spec_signal_history :: "uuid \<Rightarrow> db \<Rightarrow> directional_signal list" where
  "get_spec_signal_history spec_id s = sort_key ds_created_at (filter (\<lambda>d. ds_spec_id d = spec_id) (signals s))"

definition get_hypothesis_frontier :: "uuid \<Rightarrow> db \<Rightarrow> metric_frontier option res" where
  "get_hypothesis_frontier card_id s = scalar_one_or_none (filter (\<lambda>f. mf_card_id f = card_id) (frontiers s))"

definition list_charter_frontiers :: "uuid \<Rightarrow> db \<Rightarrow> metric_frontier list" where
  "list_charter_frontiers charter_id s = order_desc mf_updated_at (filter (\<lambda>f. mf_charter_id f = charter_id) (frontiers s))"

section \<open>Lineage\<close>

partial_function (option) climb_to_root :: "run_record list \<Rightarrow> run_record \<Rightarrow> run_record option" where
  "climb_to_root rs r =
    (case rn_parent_run_id r of
       None \<Rightarrow> Some r
     | Some p \<Rightarrow> (case table_get rn_id rs p of None \<Rightarrow> Some r | Some q \<Rightarrow> climb_to_root rs q))"

definition age_order :: "run_record list \<Rightarrow> run_record list" where
  "age_order = sort_key (\<lambda>r. (rn_created_at r, rn_run_number r))"

text \<open>The children that are not in the lineage yet, each once.\<close>

fun unseen :: "uuid set \<Rightarrow> run_record list \<Rightarrow> run_record list" where
  "unseen seen [] = []"
| "unseen seen (c # cs) = (if rn_id c \<in> seen then unseen seen cs else c # unseen (insert (rn_id c) seen) cs)"

definition children_of :: "run_record list \<Rightarrow> uuid list \<Rightarrow> run_record list" where
  "children_of rs frontier = age_order (filter (\<lambda>r. case rn_parent_run_id r of None \<Rightarrow> False | Some p \<Rightarrow> p \<in> set frontier) rs)"

lemma set_unseen: "rn_id ` set (unseen seen cs) = rn_id ` set cs - seen" "set (unseen seen cs) \<subseteq> set cs"
  by (induction seen cs rule: unseen.induct) auto

lemma set_children_of: "set (children_of rs frontier) = {r \<in> set rs. \<exists>p\<in>set frontier. rn_parent_run_id r = Some p}"
  by (auto simp: children_of_def age_order_def split: option.splits)

function collect_lineage :: "run_record list \<Rightarrow> run_record list \<Rightarrow> uuid list \<Rightarrow> run_record list" where
  "collect_lineage rs found frontier =
    (if frontier = [] then found
     else let fresh = unseen (rn_id ` set found) (children_of rs frontier)
          in collect_lineage rs (found @ fresh) (map rn_id fresh))"
  by pat_completeness auto

termination
proof (relation "measures [\<lambda>(rs, found, frontier). card (rn_id ` set rs - rn_id ` set found), \<lambda>(rs, found, frontier). length frontier]")
  fix rs found :: "run_record list" and frontier fresh
  assume ne: "frontier \<noteq> []" and fresh: "fresh = unseen (rn_id ` set found) (children_of rs frontier)"
  show "((rs, found @ fresh, map rn_id fresh), (rs, found, frontier)) \<in>
      measures [\<lambda>(rs, found, frontier). card (rn_id ` set rs - rn_id ` set found), \<lambda>(rs, found, frontier). length frontier]"
  proof (cases "fresh = []")
    case False
    then obtain c where c: "c \<in> set fresh" by (meson list.set_sel(1))
    then have "c \<in> set rs" "rn_id c \<notin> rn_id ` set found"
      using set_unseen [of "rn_id ` set found" "children_of rs frontier"] set_children_of [of rs frontier] fresh
      by (auto simp: image_iff)
    then have "rn_id ` set rs - rn_id ` set (found @ fresh) \<subset> rn_id ` set rs - rn_id ` set found"
      using c by auto
    then show ?thesis by (simp add: psubset_card_mono)
  qed (use ne in simp)
qed simp

declare collect_lineage.simps [simp del]

definition get_run_lineage :: "uuid \<Rightarrow> db \<Rightarrow> (uuid list \<times> remediation_action list) option" where
  "get_run_lineage run_id s =
    (case table_get rn_id (runs s) run_id of
       None \<Rightarrow> Some ([], [])
     | Some r \<Rightarrow>
        map_option (\<lambda>root_run.
          let ids = map rn_id (age_order (collect_lineage (runs s) [root_run] [rn_id root_run]))
          in (ids, sort_key ra_created_at (filter (\<lambda>a. ra_run_id a \<in> set ids) (actions s))))
          (climb_to_root (runs s) r))"

section \<open>The lineage is the whole tree\<close>

lemma parents_known:
  "parents_ok seen rs \<Longrightarrow> r \<in> set rs \<Longrightarrow> rn_parent_run_id r = Some p \<Longrightarrow> p \<in> set seen \<union> rn_id ` set rs"
proof (induction rs arbitrary: seen)
  case (Cons a rs)
  show ?case
  proof (cases "r = a")
    case False
    then have "p \<in> set (seen @ [rn_id a]) \<union> rn_id ` set rs" using Cons.prems by (intro Cons.IH) auto
    then show ?thesis by auto
  qed (use Cons.prems in auto)
qed simp

lemma ancestors_step:
  assumes "parents_ok [] rs" and "r \<in> set rs"
  shows "ancestors (rev rs) (rn_id r) =
    rn_id r # (case rn_parent_run_id r of None \<Rightarrow> [] | Some p \<Rightarrow> ancestors (rev rs) p)"
  using assms
proof (induction rs rule: rev_induct)
  case (snoc q rs)
  have ok: "parents_ok [] rs" and q: "rn_id q \<notin> rn_id ` set rs" using snoc.prems(1) by (simp_all add: parents_ok_snoc)
  have par: "p \<in> rn_id ` set rs" if "rn_parent_run_id r = Some p" "r \<in> set rs" for p
    using parents_known [OF ok that(2,1)] by simp
  show ?case
  proof (cases "r = q")
    case True
    have "p \<noteq> rn_id q" if "rn_parent_run_id q = Some p" for p
    proof -
      have "p \<in> rn_id ` set rs" using snoc.prems(1) that by (simp add: parents_ok_snoc)
      then show ?thesis using q by blast
    qed
    then have "rn_parent_run_id q \<noteq> Some (rn_id q)" by blast
    then show ?thesis using True by (auto split: option.splits)
  next
    case False
    then have r: "r \<in> set rs" using snoc.prems(2) by simp
    then have "rn_id r \<noteq> rn_id q" using q by (metis imageI)
    moreover have "rn_parent_run_id r \<noteq> Some (rn_id q)" using par [OF _ r] q by blast
    ultimately show ?thesis using snoc.IH [OF ok r] by (auto split: option.splits)
  qed
qed simp


lemma ancestors_not_Nil [simp]: "ancestors rs k \<noteq> []"
  by (induction rs) auto

lemma climb_to_root_last:
  assumes ok: "parents_ok [] rs" and r: "r \<in> set rs"
  shows "\<exists>q\<in>set rs. climb_to_root rs r = Some q \<and> rn_id q = last (ancestors (rev rs) (rn_id r))"
  using r
proof (induction "length (ancestors (rev rs) (rn_id r))" arbitrary: r rule: less_induct)
  case less
  note st = ancestors_step [OF ok less.prems]
  show ?case
  proof (cases "rn_parent_run_id r")
    case None
    then show ?thesis using st less.prems by (simp add: climb_to_root.simps [of rs r])
  next
    case (Some p)
    then have "p \<in> rn_id ` set rs" using parents_known [OF ok less.prems] by simp
    then obtain q where q: "q \<in> set rs" "rn_id q = p" by blast
    then have g: "table_get rn_id rs p = Some q"
      using parents_ok_distinct [OF ok] table_get_unique [of rn_id rs q] by auto
    have "length (ancestors (rev rs) (rn_id q)) < length (ancestors (rev rs) (rn_id r))" using st Some q by simp
    from less.hyps [OF this q(1)] show ?thesis using st Some g q by (simp add: climb_to_root.simps [of rs r])
  qed
qed

text \<open>
  The search keeps: what it found descends from the root, and the children of everything found are found
  or about to be.
\<close>

definition explored :: "run_record list \<Rightarrow> uuid \<Rightarrow> run_record list \<Rightarrow> uuid list \<Rightarrow> bool" where
  "explored rs root_id found frontier \<longleftrightarrow>
     set found \<subseteq> {r \<in> set rs. root_id \<in> set (ancestors (rev rs) (rn_id r))} \<and> distinct (map rn_id found) \<and>
     set frontier \<subseteq> rn_id ` set found \<and> root_id \<in> rn_id ` set found \<and>
     (\<forall>r\<in>set rs. \<forall>p. rn_parent_run_id r = Some p \<longrightarrow> p \<in> rn_id ` set found \<longrightarrow> p \<notin> set frontier \<longrightarrow> rn_id r \<in> rn_id ` set found)"

lemma distinct_unseen: "distinct (map rn_id (unseen seen cs)) \<and> rn_id ` set (unseen seen cs) \<inter> seen = {}"
  by (induction seen cs rule: unseen.induct) (auto simp: set_unseen)

lemma explored_step:
  assumes ok: "parents_ok [] rs" and ex: "explored rs k found frontier"
  defines "fresh \<equiv> unseen (rn_id ` set found) (children_of rs frontier)"
  shows "explored rs k (found @ fresh) (map rn_id fresh)"
proof -
  have f: "set fresh \<subseteq> set (children_of rs frontier)" "rn_id ` set fresh = rn_id ` set (children_of rs frontier) - rn_id ` set found"
    unfolding fresh_def by (rule set_unseen)+
  have "k \<in> set (ancestors (rev rs) (rn_id r))" "r \<in> set rs" if new: "r \<in> set fresh" for r
  proof -
    obtain p where p: "r \<in> set rs" "p \<in> set frontier" "rn_parent_run_id r = Some p"
      using new f(1) unfolding set_children_of by blast
    then have "k \<in> set (ancestors (rev rs) p)" using ex by (force simp: explored_def)
    then show "k \<in> set (ancestors (rev rs) (rn_id r))" "r \<in> set rs" using p ancestors_step [OF ok p(1)] by simp_all
  qed
  moreover have "distinct (map rn_id (found @ fresh))"
    using ex distinct_unseen [of "rn_id ` set found" "children_of rs frontier"] by (auto simp: explored_def fresh_def)
  moreover have "rn_id r \<in> rn_id ` set (found @ fresh)"
    if "r \<in> set rs" "rn_parent_run_id r = Some p" "p \<in> rn_id ` set (found @ fresh)" "p \<notin> rn_id ` set fresh" for r p
  proof (cases "p \<in> set frontier")
    case True
    then have "r \<in> set (children_of rs frontier)" using that by (auto simp: set_children_of)
    then have "rn_id r \<in> rn_id ` set found \<union> rn_id ` set fresh" unfolding f(2) by blast
    then show ?thesis by auto
  next
    case False
    have "p \<in> rn_id ` set found" using that(3,4) by auto
    then have "rn_id r \<in> rn_id ` set found" using ex that(1,2) False unfolding explored_def by blast
    then show ?thesis by auto
  qed
  ultimately show ?thesis using ex by (auto simp: explored_def)
qed

lemma collect_lineage_explored:
  "parents_ok [] rs \<Longrightarrow> explored rs k found frontier \<Longrightarrow> explored rs k (collect_lineage rs found frontier) []"
proof (induction rs found frontier rule: collect_lineage.induct)
  case (1 rs found frontier)
  then show ?case
    by (cases "frontier = []")
      (simp_all add: collect_lineage.simps [of rs found "[]"] collect_lineage.simps [of rs found frontier] Let_def explored_step)
qed

lemma explored_complete:
  assumes ok: "parents_ok [] rs" and ex: "explored rs k found []" and r: "r \<in> set rs" "k \<in> set (ancestors (rev rs) (rn_id r))"
  shows "rn_id r \<in> rn_id ` set found"
  using r
proof (induction "length (ancestors (rev rs) (rn_id r))" arbitrary: r rule: less_induct)
  case less
  note st = ancestors_step [OF ok less.prems(1)]
  show ?case
  proof (cases "rn_id r = k")
    case True
    then show ?thesis using ex by (simp add: explored_def)
  next
    case False
    then obtain p where p: "rn_parent_run_id r = Some p" "k \<in> set (ancestors (rev rs) p)"
      using less.prems(2) st by (auto split: option.splits)
    then obtain q where q: "q \<in> set rs" "rn_id q = p" using parents_known [OF ok less.prems(1) p(1)] by auto
    have "length (ancestors (rev rs) (rn_id q)) < length (ancestors (rev rs) (rn_id r))" using st p q by simp
    from less.hyps [OF this q(1)] p q have "p \<in> rn_id ` set found" by simp
    then show ?thesis using ex less.prems(1) p(1) by (simp add: explored_def)
  qed
qed

text \<open>
  C38: The lineage view of a run always returns, and lists exactly the runs that descend from its oldest ancestor,
  each once: in particular every run whose remediation attempts count against it.
\<close>

theorem lineage_view_is_tree:
  assumes ok: "parents_ok [] (runs s)" and k: "k \<in> rn_id ` set (runs s)"
  shows "\<exists>ids acts. get_run_lineage k s = Some (ids, acts) \<and> distinct ids \<and>
    set ids = {i \<in> rn_id ` set (runs s). last (ancestors (rev (runs s)) k) \<in> set (ancestors (rev (runs s)) i)} \<and>
    set acts = {a \<in> set (actions s). ra_run_id a \<in> set ids}"
proof -
  obtain r where r: "r \<in> set (runs s)" "rn_id r = k" using k by blast
  obtain q where q: "q \<in> set (runs s)" "climb_to_root (runs s) r = Some q" "rn_id q = last (ancestors (rev (runs s)) k)"
    using climb_to_root_last [OF ok r(1)] r(2) by blast
  have g: "table_get rn_id (runs s) k = Some r"
    using parents_ok_distinct [OF ok] table_get_unique [of rn_id "runs s" r] r by auto
  let ?root = "rn_id q" and ?found = "collect_lineage (runs s) [q] [rn_id q]"
  have "?root \<in> set (ancestors (rev (runs s)) ?root)" using ancestors_step [OF ok q(1)] by simp
  then have "explored (runs s) ?root [q] [rn_id q]" using q(1) by (simp add: explored_def)
  note ex = collect_lineage_explored [OF ok this]
  have ids: "rn_id ` set ?found = {i \<in> rn_id ` set (runs s). ?root \<in> set (ancestors (rev (runs s)) i)}"
  proof
    show "rn_id ` set ?found \<subseteq> {i \<in> rn_id ` set (runs s). ?root \<in> set (ancestors (rev (runs s)) i)}"
      using ex by (auto simp: explored_def)
    show "{i \<in> rn_id ` set (runs s). ?root \<in> set (ancestors (rev (runs s)) i)} \<subseteq> rn_id ` set ?found"
      using explored_complete [OF ok ex] by blast
  qed
  have "distinct (map rn_id (age_order ?found))"
    using ex by (simp add: explored_def age_order_def distinct_map)
  then show ?thesis using ids q(3)
    by (simp add: get_run_lineage_def g q(2) Let_def age_order_def)
qed

definition demo_retried_world :: db where
  "demo_retried_world = empty_db\<lparr>runs := [demo_stuck_run, demo_stuck_run\<lparr>rn_id := 21, rn_parent_run_id := Some 20\<rparr>]\<rparr>"

theorem lineage_view_is_tree_witness:
  "\<exists>ids acts. get_run_lineage 21 demo_retried_world = Some (ids, acts) \<and> distinct ids \<and> set ids = {20, 21}"
proof -
  have id: "rn_id demo_stuck_run = 20" "rn_parent_run_id demo_stuck_run = None"
    by (simp_all add: demo_stuck_run_def demo_ready_run_def pending_run_def)
  have "parents_ok [] (runs demo_retried_world)" "21 \<in> rn_id ` set (runs demo_retried_world)"
    by (simp_all add: demo_retried_world_def id)
  from lineage_view_is_tree [OF this] obtain ids acts
    where "get_run_lineage 21 demo_retried_world = Some (ids, acts)" "distinct ids"
      "set ids = {i \<in> rn_id ` set (runs demo_retried_world).
         last (ancestors (rev (runs demo_retried_world)) 21) \<in> set (ancestors (rev (runs demo_retried_world)) i)}"
    by blast
  then show ?thesis by (auto simp: demo_retried_world_def id)
qed

end
