(* ===== verification/Streams.thy ===== *)
theory Streams
  imports Experiment_Service "HOL-Library.Sublist"
begin

text \<open>
  The two Server-Sent-Events generators: domain events (\<open>apps/api/routers/events.py\<close>) and run telemetry
  (\<open>apps/api/routers/experiment.py\<close>).  Both poll a table for rows whose identifier lies behind a cursor,
  at most 100 at a time, ordered by time.  The locale \<open>cursor_feed\<close> is that contract; it shows that the
  client gets every row once and in order as long as rows become visible in the order of their identifiers.
\<close>

section \<open>Feeds\<close>

definition behind :: "uuid option \<Rightarrow> uuid \<Rightarrow> bool" where
  "behind cursor k = (case cursor of None \<Rightarrow> True | Some u \<Rightarrow> k > u)"

definition next_cursor :: "('r \<Rightarrow> uuid) \<Rightarrow> uuid option \<Rightarrow> 'r list \<Rightarrow> uuid option" where
  "next_cursor key cursor rows = (if rows = [] then cursor else Some (key (last rows)))"

text \<open>What a client has received after the polls that found the given stores.\<close>

fun feed :: "('r \<Rightarrow> uuid) \<Rightarrow> ('s \<Rightarrow> uuid option \<Rightarrow> 'r list) \<Rightarrow> uuid option \<Rightarrow> 's list \<Rightarrow> 'r list" where
  "feed key fetch cursor [] = []"
| "feed key fetch cursor (s # polls) =
    fetch s cursor @ feed key fetch (next_cursor key cursor (fetch s cursor)) polls"

definition in_order :: "('r \<Rightarrow> uuid) \<Rightarrow> ('r \<Rightarrow> time) \<Rightarrow> 'r list \<Rightarrow> bool" where
  "in_order key stamp = sorted_wrt (\<lambda>a b. key a < key b \<and> stamp a \<le> stamp b)"

definition cursor_at :: "('r \<Rightarrow> uuid) \<Rightarrow> 'r list \<Rightarrow> nat \<Rightarrow> uuid option" where
  "cursor_at key rows n = (if n = 0 then None else Some (key (rows ! (n - 1))))"

lemma filter_behind:
  assumes "in_order key stamp rows" and "n \<le> length rows"
  shows "filter (\<lambda>r. behind (cursor_at key rows n) (key r)) rows = drop n rows"
proof (cases n)
  case (Suc m)
  have srt: "sorted_wrt (\<lambda>a b. key a < key b) rows"
    using assms(1) by (auto simp: in_order_def elim: sorted_wrt_mono_rel [rotated])
  have le: "key (rows ! i) \<le> key (rows ! m)" if "i \<le> m" for i
    using sorted_wrt_nth_less [OF srt, of i m] that assms(2) Suc by (cases "i = m") auto
  have gt: "key (rows ! m) < key (rows ! i)" if "m < i" "i < length rows" for i
    using sorted_wrt_nth_less [OF srt that] .
  have "\<forall>t\<in>set (take n rows). \<not> key t > key (rows ! m)"
  proof
    fix t assume "t \<in> set (take n rows)"
    then obtain i where "i < n" "t = rows ! i" by (auto simp: in_set_conv_nth)
    then show "\<not> key t > key (rows ! m)" using le [of i] Suc by simp
  qed
  moreover have "\<forall>t\<in>set (drop n rows). key t > key (rows ! m)"
  proof
    fix t assume "t \<in> set (drop n rows)"
    then obtain i where "i < length rows - n" "t = rows ! (n + i)" by (auto simp: in_set_conv_nth)
    then show "key t > key (rows ! m)" using gt [of "n + i"] Suc by simp
  qed
  ultimately have "filter (\<lambda>t. key t > key (rows ! m)) (take n rows @ drop n rows) = drop n rows"
    unfolding filter_append by (simp add: filter_empty_conv)
  then show ?thesis using Suc by (simp add: cursor_at_def behind_def)
qed (simp add: cursor_at_def behind_def)

text \<open>Cursors stay the same when rows are appended.\<close>

lemma next_cursor_at:
  assumes "n \<le> length rows"
  shows "next_cursor key (cursor_at key rows n) (take l (drop n rows)) =
    cursor_at key (rows @ more_rows) (n + length (take l (drop n rows)))"
proof (cases "take l (drop n rows) = []")
  case True
  then show ?thesis using assms by (auto simp: next_cursor_def cursor_at_def nth_append)
next
  case False
  have "n + length (take l (drop n rows)) - 1 < length rows" using assms False by (auto simp: min_def)
  moreover have "last (take l (drop n rows)) = rows ! (n + length (take l (drop n rows)) - 1)"
    using False by (auto simp: last_conv_nth min_def not_le)
  moreover have "0 < length (take l (drop n rows))" using False by simp
  ultimately show ?thesis using False by (simp add: next_cursor_def cursor_at_def nth_append)
qed

lemma take_more:
  assumes "n \<le> length rows"
  shows "take l (drop n rows) = take (length (take l (drop n rows))) (drop n (rows @ more_rows))"
  using assms by (simp only: drop_append) (simp add: min_def)

locale cursor_feed =
  fixes key :: "'r \<Rightarrow> uuid" and stamp :: "'r \<Rightarrow> time"
    and fetch :: "'s \<Rightarrow> uuid option \<Rightarrow> 'r list" and rows :: "'s \<Rightarrow> 'r list"
  assumes fetches: "fetch s cursor = take 100 (sort_key stamp (filter (\<lambda>r. behind cursor (key r)) (rows s)))"
begin

lemma fetch_at:
  assumes "in_order key stamp (rows s)" and "n \<le> length (rows s)"
  shows "fetch s (cursor_at key (rows s) n) = take 100 (drop n (rows s))"
proof -
  have "sorted_wrt (\<lambda>a b. stamp a \<le> stamp b) (rows s)"
    using assms(1) by (auto simp: in_order_def elim: sorted_wrt_mono_rel [rotated])
  then have "sorted (map stamp (drop n (rows s)))" by (simp add: sorted_wrt_map sorted_wrt_drop)
  then show ?thesis by (simp add: fetches filter_behind [OF assms] sort_key_id_if_sorted)
qed

lemma feed_from:
  assumes "sorted_wrt (\<lambda>s s'. prefix (rows s) (rows s')) (s # polls)"
    and "in_order key stamp (rows (last (s # polls)))" and "n \<le> length (rows s)"
  shows "\<exists>m. feed key fetch (cursor_at key (rows s) n) (s # polls) = take m (drop n (rows (last (s # polls))))"
  using assms
proof (induction polls arbitrary: s n)
  case Nil
  then show ?case using fetch_at [of s n] by (intro exI [of _ 100]) simp
next
  case (Cons s1 polls)
  let ?L = "rows (last (s1 # polls))" and ?got = "take 100 (drop n (rows s))"
  let ?n = "n + length ?got"
  have "prefix (rows s) ?L" using Cons.prems(1) by (cases polls rule: rev_cases) auto
  then obtain z where z: "?L = rows s @ z" by (auto elim: prefixE)
  have ord: "in_order key stamp (rows s)" using Cons.prems(2) z by (simp add: in_order_def sorted_wrt_append)
  note got = fetch_at [OF ord Cons.prems(3)]
  have "prefix (rows s) (rows s1)" using Cons.prems(1) by simp
  then obtain y where y: "rows s1 = rows s @ y" by (auto elim: prefixE)
  have step: "feed key fetch (cursor_at key (rows s) n) (s # s1 # polls) =
      ?got @ feed key fetch (cursor_at key (rows s1) ?n) (s1 # polls)"
    unfolding feed.simps(2) [of _ _ _ s] got next_cursor_at [OF Cons.prems(3), of _ _ y] y ..
  have prem: "sorted_wrt (\<lambda>s s'. prefix (rows s) (rows s')) (s1 # polls)"
    "in_order key stamp (rows (last (s1 # polls)))" "?n \<le> length (rows s1)"
    using Cons.prems y by simp_all
  from Cons.IH [OF prem] obtain m
    where m: "feed key fetch (cursor_at key (rows s1) ?n) (s1 # polls) = take m (drop ?n ?L)" by blast
  have "feed key fetch (cursor_at key (rows s) n) (s # s1 # polls) =
      take (length ?got) (drop n ?L) @ take m (drop (length ?got) (drop n ?L))"
    unfolding step m using take_more [OF Cons.prems(3), of 100 z] z by (simp only: drop_drop add.commute)
  also have "\<dots> = take (length ?got + m) (drop n ?L)" by (simp only: take_add)
  finally show ?case by (intro exI [of _ "length ?got + m"]) simp
qed

text \<open>From the start of the table: a gapless prefix, and everything once nothing is added for enough polls.\<close>

lemma feed_gapless:
  assumes "sorted_wrt (\<lambda>s s'. prefix (rows s) (rows s')) polls" and "polls \<noteq> []"
    and "in_order key stamp (rows (last polls))"
  shows "prefix (feed key fetch None polls) (rows (last polls))"
proof -
  obtain s ps where "polls = s # ps" using assms(2) by (cases polls) auto
  with feed_from [of s ps 0] assms show ?thesis by (auto simp: cursor_at_def take_is_prefix)
qed

lemma feed_drains:
  assumes "in_order key stamp (rows s)" and "n \<le> length (rows s)"
  shows "feed key fetch (cursor_at key (rows s) n) (replicate k s) = take (100 * k) (drop n (rows s))"
  using assms(2)
proof (induction k arbitrary: n)
  case (Suc k)
  let ?got = "take 100 (drop n (rows s))"
  have cur: "next_cursor key (cursor_at key (rows s) n) ?got = cursor_at key (rows s) (n + length ?got)"
    using next_cursor_at [OF Suc.prems, of key 100 "[]"] by simp
  have "feed key fetch (cursor_at key (rows s) n) (replicate (Suc k) s) =
      ?got @ take (100 * k) (drop (n + length ?got) (rows s))"
    using Suc.IH [of "n + length ?got"] Suc.prems by (simp only: replicate_Suc feed.simps fetch_at [OF assms(1) Suc.prems] cur) simp
  also have "drop (n + length ?got) (rows s) = drop 100 (drop n (rows s))" by (simp add: min_def add.commute)
  finally show ?case by (simp only: take_add [symmetric] mult_Suc_right)
qed simp

end

section \<open>Domain events\<close>

definition visible_events :: "uuid option \<Rightarrow> uuid option \<Rightarrow> db \<Rightarrow> domain_event list" where
  "visible_events charter_id cycle_id s =
     filter (\<lambda>v. opt_match (map_option Some charter_id) (ev_charter_id v) \<and>
       opt_match (map_option Some cycle_id) (ev_cycle_id v)) (events s)"

definition event_batch :: "uuid option \<Rightarrow> uuid option \<Rightarrow> db \<Rightarrow> uuid option \<Rightarrow> domain_event list" where
  "event_batch charter_id cycle_id s cursor =
     take 100 (sort_key ev_created_at
       (filter (\<lambda>v. behind cursor (ev_id v)) (visible_events charter_id cycle_id s)))"

text \<open>The generator never ends; the list holds the store as each poll finds it.\<close>

definition event_stream :: "uuid option \<Rightarrow> uuid option \<Rightarrow> uuid option \<Rightarrow> db list \<Rightarrow> domain_event list" where
  "event_stream charter_id cycle_id last_event_id polls = feed ev_id (event_batch charter_id cycle_id) last_event_id polls"

interpretation event_feed: cursor_feed ev_id ev_created_at "event_batch charter_id cycle_id" "visible_events charter_id cycle_id"
  for charter_id cycle_id
  by unfold_locales (simp add: event_batch_def)

section \<open>Run telemetry\<close>

definition run_rows :: "uuid \<Rightarrow> db \<Rightarrow> run_telemetry list" where
  "run_rows run_id s = filter (\<lambda>t. rt_run_id t = run_id) (telemetry s)"

interpretation telemetry_feed: cursor_feed rt_id rt_timestamp "\<lambda>s c. telemetry_after s run_id c 100" "run_rows run_id"
  for run_id
  by unfold_locales (auto simp: telemetry_after_def run_rows_def behind_def conj_commute intro: arg_cong)

text \<open>The telemetry stream is the feed of the polls made before it ends.\<close>

lemma telemetry_stream_feed:
  "\<exists>n. fst (telemetry_stream k c l polls) = feed rt_id (\<lambda>s c. telemetry_after s k c 100) c (take n polls)"
proof (induction polls arbitrary: c l)
  case (Cons s polls)
  let ?c = "next_cursor rt_id c (telemetry_after s k c 100)" and ?l = "session_get l s k"
  obtain n where n: "fst (telemetry_stream k ?c ?l polls) = feed rt_id (\<lambda>s c. telemetry_after s k c 100) ?c (take n polls)"
    using Cons.IH by blast
  have step: "fst (telemetry_stream k c l (s # polls)) =
      (if (case ?l of None \<Rightarrow> False | Some r \<Rightarrow> rn_status r \<in> set TERMINAL_STATUSES) then telemetry_after s k c 100
       else telemetry_after s k c 100 @ fst (telemetry_stream k ?c ?l polls))"
    by (simp add: Let_def next_cursor_def case_prod_beta)
  show ?case
  proof (cases "case ?l of None \<Rightarrow> False | Some r \<Rightarrow> rn_status r \<in> set TERMINAL_STATUSES")
    case True
    then show ?thesis unfolding step by (intro exI [of _ 1]) simp
  next
    case False
    then show ?thesis unfolding step n by (intro exI [of _ "Suc n"]) simp
  qed
qed simp

lemma loaded_never_closes:
  "rn_status r \<notin> set TERMINAL_STATUSES \<Longrightarrow> \<not> snd (telemetry_stream k c (Some r) polls)"
  by (induction polls arbitrary: c) (simp_all add: Let_def session_get_def case_prod_beta)

section \<open>Properties\<close>

text \<open>
  C36: A client of the event stream gets a prefix of the visible events, each once and in order, whatever the
  moments of the polls, and gets all of them in one poll per hundred; provided events become visible in the order
  of their identifiers and creation times.
\<close>

theorem event_stream_gapless:
  assumes "sorted_wrt (\<lambda>s s'. prefix (visible_events ch cy s) (visible_events ch cy s')) polls" and "polls \<noteq> []"
    and "in_order ev_id ev_created_at (visible_events ch cy (last polls))"
  shows "prefix (event_stream ch cy None polls) (visible_events ch cy (last polls)) \<and>
    (\<forall>n. length (visible_events ch cy (last polls)) \<le> 100 * n \<longrightarrow>
       event_stream ch cy None (replicate n (last polls)) = visible_events ch cy (last polls))"
proof
  show "prefix (event_stream ch cy None polls) (visible_events ch cy (last polls))"
    unfolding event_stream_def using assms by (rule event_feed.feed_gapless)
  show "\<forall>n. length (visible_events ch cy (last polls)) \<le> 100 * n \<longrightarrow>
      event_stream ch cy None (replicate n (last polls)) = visible_events ch cy (last polls)"
    using event_feed.feed_drains [OF assms(3), of 0] by (simp add: event_stream_def cursor_at_def)
qed

definition demo_poll :: "nat \<Rightarrow> db" where
  "demo_poll n = empty_db\<lparr>events := map (\<lambda>i. \<lparr>ev_id = i, ev_charter_id = None, ev_cycle_id = None, ev_type = ''tick'',
     ev_payload = None, ev_actor_type = Actor_system, ev_actor_id = None, ev_created_at = int i\<rparr>) [0..<n],
   runs := [demo_ready_run],
   telemetry := map (\<lambda>i. \<lparr>rt_id = i, rt_run_id = rn_id demo_ready_run, rt_timestamp = int i, rt_event_type = ''log'',
     rt_payload = JNull\<rparr>) [0..<n]\<rparr>"

theorem event_stream_gapless_witness:
  "prefix (event_stream None None None [demo_poll 1, demo_poll 2]) (visible_events None None (demo_poll 2)) \<and>
   length (visible_events None None (demo_poll 2)) = 2"
proof
  have "in_order ev_id ev_created_at (visible_events None None (last [demo_poll 1, demo_poll 2]))"
    by (simp add: demo_poll_def visible_events_def in_order_def upt_conv_Cons numeral_2_eq_2)
  moreover have "sorted_wrt (\<lambda>s s'. prefix (visible_events None None s) (visible_events None None s')) [demo_poll 1, demo_poll 2]"
    by (simp add: demo_poll_def visible_events_def upt_conv_Cons numeral_2_eq_2)
  ultimately show "prefix (event_stream None None None [demo_poll 1, demo_poll 2]) (visible_events None None (demo_poll 2))"
    using event_stream_gapless [of None None "[demo_poll 1, demo_poll 2]"] by simp
qed (simp add: demo_poll_def visible_events_def)

text \<open>
  Without that proviso events are lost: one whose transaction commits after a poll that already saw a later
  identifier is never sent.
\<close>

lemma late_commit_is_lost:
  fixes early late :: domain_event
  assumes "ev_id early < ev_id late" and "ev_charter_id early = None" "ev_charter_id late = None"
    and "events s = [late]" and "events s' = [early, late]"
  shows "event_stream None None None (s # replicate n s') = [late]"
proof -
  have rest: "feed ev_id (event_batch None None) (Some (ev_id late)) (replicate n s') = []"
    using assms by (induction n) (simp_all add: event_batch_def visible_events_def behind_def next_cursor_def)
  have "event_batch None None s None = [late]"
    using assms by (simp add: event_batch_def visible_events_def behind_def)
  then show ?thesis using rest by (simp add: event_stream_def next_cursor_def)
qed

text \<open>
  The telemetry stream of a run delivers a prefix of its telemetry, each row once and in order; but it ends
  only if the first poll that finds the run already finds it in a terminal status: a stream opened
  while the run is active never sends its end.
\<close>

theorem telemetry_stream_delivers:
  assumes "sorted_wrt (\<lambda>s s'. prefix (run_rows k s) (run_rows k s')) (s # polls)"
    and "in_order rt_id rt_timestamp (run_rows k (last (s # polls)))" and "table_get rn_id (runs s) k = Some r"
  shows "prefix (fst (telemetry_stream k None None (s # polls))) (run_rows k (last (s # polls))) \<and>
    (snd (telemetry_stream k None None (s # polls)) \<longleftrightarrow> rn_status r \<in> set TERMINAL_STATUSES)"
proof
  let ?f = "feed rt_id (\<lambda>s c. telemetry_after s k c 100) None" and ?last = "\<lambda>ps. run_rows k (last ps)"
  obtain n where n: "fst (telemetry_stream k None None (s # polls)) = ?f (take n (s # polls))"
    using telemetry_stream_feed by blast
  show "prefix (fst (telemetry_stream k None None (s # polls))) (?last (s # polls))"
  proof (cases "take n (s # polls) = []")
    case False
    have "prefix (?last (take n (s # polls))) (?last (s # polls))"
    proof (cases "drop n (s # polls) = []")
      case gap: False
      have app: "sorted_wrt (\<lambda>s s'. prefix (run_rows k s) (run_rows k s')) (take n (s # polls) @ drop n (s # polls))"
        using assms(1) by simp
      have "last (s # polls) = last (drop n (s # polls))"
        using gap by (metis append_take_drop_id last_appendR)
      then show ?thesis using app False gap unfolding sorted_wrt_append by (metis last_in_set)
    qed simp
    then obtain z where z: "?last (s # polls) = ?last (take n (s # polls)) @ z" by (auto elim: prefixE)
    have "in_order rt_id rt_timestamp (?last (take n (s # polls)))"
      using assms(2) unfolding z by (simp add: in_order_def sorted_wrt_append)
    from telemetry_feed.feed_gapless [OF sorted_wrt_take [OF assms(1)] False this]
    show ?thesis unfolding n z by (rule prefix_prefix)
  qed (use n in simp)
  show "snd (telemetry_stream k None None (s # polls)) \<longleftrightarrow> rn_status r \<in> set TERMINAL_STATUSES"
    using assms(3) loaded_never_closes [of r] by (simp add: Let_def session_get_def case_prod_beta)
qed

theorem telemetry_stream_delivers_witness:
  "\<not> snd (telemetry_stream (rn_id demo_ready_run) None None [demo_poll 1, demo_poll 2]) \<and>
   prefix (fst (telemetry_stream (rn_id demo_ready_run) None None [demo_poll 1, demo_poll 2]))
     (run_rows (rn_id demo_ready_run) (demo_poll 2))"
proof -
  have "in_order rt_id rt_timestamp (run_rows (rn_id demo_ready_run) (last [demo_poll 1, demo_poll 2]))"
    by (simp add: demo_poll_def run_rows_def in_order_def upt_conv_Cons numeral_2_eq_2)
  moreover have "sorted_wrt (\<lambda>s s'. prefix (run_rows (rn_id demo_ready_run) s) (run_rows (rn_id demo_ready_run) s'))
      [demo_poll 1, demo_poll 2]"
    by (simp add: demo_poll_def run_rows_def upt_conv_Cons numeral_2_eq_2)
  moreover have "table_get rn_id (runs (demo_poll 1)) (rn_id demo_ready_run) = Some demo_ready_run"
    by (simp add: demo_poll_def)
  moreover have "rn_status demo_ready_run \<notin> set TERMINAL_STATUSES"
    by (simp add: demo_ready_run_def TERMINAL_STATUSES_def pending_run_def)
  ultimately show ?thesis using telemetry_stream_delivers [of "rn_id demo_ready_run" "demo_poll 1" "[demo_poll 2]"] by simp
qed

end
