(* ===== verification/Spec2Isabelle.thy ===== *)
theory Spec2Isabelle
  imports Analysis_Service Autonomy_Service Ideation Pattern_Service Protocol_Compile Run_Views Streams Verification
begin

text \<open>
  A model of Synthetos, a laboratory that runs research cycles autonomously: it discovers papers, analyses them,
  forms hypotheses, compiles experiment specs, runs them in containers, verifies, remediates and decides how to go on.
  The system is a FastAPI service and a set of worker processes around one PostgreSQL database; they interact only
  through its rows.  The model follows that shape: one record \<open>db\<close> holds the tables, every service call and every
  operator is a function on it, and an interleaving is a sequence of such steps.

  Correspondence.  A row is a record with the columns the code reads or writes (theory \<open>Storage\<close>; texts meant only
  for human readers are left out), a table the list of its rows in insertion order.  JSON columns are the datatype
  \<open>json\<close> of \<open>Prelude\<close> with the Python operations on it (truth value, \<open>get\<close>, comparison, \<open>str\<close>).  Python ints are
  \<open>int\<close> or \<open>nat\<close>, floats are reals.  An exception is a value of \<open>exc\<close> on the left of a sum; an operator returns
  its result or exception and the store it had committed by then, so an uncommitted session is dropped.  \<open>env\<close> is
  the clock and the supply of identifiers of one call.

  Theories and the code they model (paths below \<open>src/\<close>):
  \<^item> \<open>Prelude\<close>, \<open>Storage\<close>: values, rows, store, events (\<open>libs/core/types.py\<close>, \<open>events.py\<close>, \<open>operators.py\<close>, migrations).
  \<^item> \<open>Cycle_Machine\<close>: state machine, cycle and charter services, research state (\<open>libs/core\<close>).
  \<^item> \<open>Job_Queue\<close>: the job table as a queue with leases, and the job endpoints (\<open>job_service.py\<close>, \<open>routers/jobs.py\<close>).
  \<^item> \<open>Autonomy_Core\<close>, \<open>Loop_Decide\<close>: policy, budget, gates, hypothesis lifecycle, repetition and the loop decision
    (\<open>libs/autonomy\<close>).
  \<^item> \<open>Patterns\<close>, \<open>Pattern_Service\<close>: canonical patterns, their operators, retrieval, injection, endpoints (\<open>libs/patterns\<close>).
  \<^item> \<open>Pipeline_Sessions\<close>, \<open>Worker\<close>, \<open>Loop_Worker\<close>: session helpers, the worker loop, and the loop operator run by it
    (\<open>apps/worker\<close>).
  \<^item> \<open>Skills\<close>: skill discovery, registry, trust enforcement, lineage rows (\<open>libs/skills\<close>).
  \<^item> \<open>Execution_Common\<close>, \<open>Execution\<close>, \<open>Verification\<close>, \<open>Signals\<close>, \<open>Remediation\<close>: the life of a run from set-up to
    recommendation (\<open>libs/execution\<close>, \<open>libs/verification\<close>, \<open>libs/remediation\<close>).
  \<^item> \<open>Protocol_Compile\<close>: from hypotheses to validated specs (\<open>libs/protocols\<close>).
  \<^item> \<open>Paging\<close>, \<open>Experiment_Service\<close>, \<open>Autonomy_Service\<close>, \<open>Run_Views\<close>, \<open>Streams\<close>: the HTTP side: listings, run
    control, policy and stop, lineage views and the two event streams (\<open>apps/api/routers\<close>, \<open>libs/core/services\<close>).
  \<^item> \<open>Discovery_Ranking\<close>: dedupe keys and merging, rank fusion, the two shortlist views, evaluation metrics
    (\<open>libs/discovery\<close>, \<open>libs/adapters/sources/dedupe.py\<close>).
  \<^item> \<open>Pipeline_Stages\<close>: what the operators of the three document pipelines share: working on one session and handing over
    to the next stage.
  \<^item> \<open>Discovery_Pipeline\<close>, \<open>Discovery_Service\<close>: the five discovery operators, and starting, reading, triaging and
    evaluating discovery sessions.
  \<^item> \<open>Analysis_Documents\<close>, \<open>Analysis_Graph\<close>, \<open>Analysis_Review\<close>, \<open>Analysis_Evidence\<close>, \<open>Analysis_Service\<close>: the six analysis
    operators from full text to evidence cards, and the endpoints with questions and locating (\<open>libs/analysis\<close>).
  \<^item> \<open>Ideation\<close>: generating, criticising and ranking hypotheses (\<open>libs/ideation\<close>).

  Interfaces are locales, each interpreted on the model: \<open>keyed_table\<close> (a table with a unique key),
  \<open>staged_machine\<close> (a transition table that only moves forward), \<open>claim_source\<close> (a queue that hands out by rank),
  \<open>failure_log\<close> (a session that records failures once), \<open>paged_query\<close> (a listing a client can read page by page),
  \<open>cursor_feed\<close> (a stream that resumes after the last row it sent),
  \<open>pipeline_stage\<close> (an operator that hands over one job exactly when it succeeds).

  What the lemmas show.  Each theory first has the definitions in the order of the code, then frame facts and the
  behaviour of each operation on its branches, then the properties, each with a witness at a concrete store.  The
  properties that span components are about the worker executing an operator: an outcome settles its job, moves the
  cycle only along the state machine or raises, and the theorems whose names speak of crashes state compositions in
  which it raises.

  Bounds and fuel.  Loops are structural or have a proved measure.  The container polling loop consumes a list of
  observations; \<open>container_run_returns\<close> shows that the timeout ends it when the observations reach the limit.  The
  streams poll for a given number of rounds.  No other fuel is used.

  Not modelled, because it is input and output or third-party behaviour: language models, embeddings, Docker, git, the
  file system, pydantic and YAML parsing are arguments of the definitions that use them; the command line, the adapters
  of \<open>libs/adapters\<close>, the pilot runner, authentication, logging and the texts of reports and prompts are left out.
  Transactions are taken as atomic at their commit; isolation anomalies inside one transaction are not modelled.
\<close>

end
